(* ===== verification/Prelude.thy ===== *)
theory Prelude
  imports Main "HOL-Library.Word" "HOL-Library.Monad_Syntax"
begin

unbundle bit_operations_syntax

text \<open>
  Shared vocabulary of the development: the machine types of the C code as words, the
  named collections the component proofs draw on, and generic facts on lists, options
  and words.

  Conventions. A C buffer is a list of bytes. A NUL-terminated C string is the list of its
  bytes without the terminator; reading at the end of such a list reads the terminator,
  which \<open>peek\<close> makes explicit. A function that fails returns \<open>None\<close> or the value of
  a sum type; where the C code has undefined behaviour the model has \<open>None\<close> too.
\<close>

section \<open>Machine types\<close>

type_synonym u8 = "8 word"
type_synonym u16 = "16 word"
type_synonym u32 = "32 word"
type_synonym u64 = "64 word"
type_synonym bytes = "u8 list"

section \<open>Collections\<close>

named_theorems word_norm "unat and bound facts used to move word goals to nat"
named_theorems len_simps "lengths of the buffers that operations return"
named_theorems inv_intros "introduction facts for the component invariants"

section \<open>C strings\<close>

text \<open>\<open>peek s\<close> is the byte a C string pointer points at: NUL at the end.\<close>

definition peek :: "bytes \<Rightarrow> u8" where
  "peek s = (case s of [] \<Rightarrow> 0 | c # _ \<Rightarrow> c)"

lemma peek_simps [simp]: "peek [] = 0" "peek (c # cs) = c"
  by (simp_all add: peek_def)

text \<open>A list that really is a C string holds no NUL.\<close>

definition cstr :: "bytes \<Rightarrow> bool" where
  "cstr s \<longleftrightarrow> (0 \<notin> set s)"

lemma cstr_simps [simp]:
  "cstr []" "cstr (c # s) \<longleftrightarrow> c \<noteq> 0 \<and> cstr s" "cstr (s @ t) \<longleftrightarrow> cstr s \<and> cstr t"
  by (auto simp: cstr_def)

section \<open>Lists\<close>

lemma length_less_drop: "0 < n \<Longrightarrow> n \<le> length xs \<Longrightarrow> length (drop n xs) < length xs"
  by simp

lemma list_eq_3: "length xs = 3 \<Longrightarrow> xs = [xs ! 0, xs ! 1, xs ! 2]"
  by (auto simp: numeral_3_eq_3 length_Suc_conv)

lemma foldl_invariant:
  "P s \<Longrightarrow> (\<And>s x. x \<in> set xs \<Longrightarrow> P s \<Longrightarrow> P (f s x)) \<Longrightarrow> P (foldl f s xs)"
  by (induction xs arbitrary: s) auto

text \<open>\<open>patch xs i ys\<close> overwrites \<open>xs\<close> from index \<open>i\<close> on, as \<^verbatim>\<open>memcpy\<close> does.\<close>

definition patch :: "'a list \<Rightarrow> nat \<Rightarrow> 'a list \<Rightarrow> 'a list" where
  "patch xs i ys = take i xs @ ys @ drop (i + length ys) xs"

lemma length_patch [simp, len_simps]: "i + length ys \<le> length xs \<Longrightarrow> length (patch xs i ys) = length xs"
  by (simp add: patch_def)

lemma take_patch [simp]: "i + length ys \<le> length xs \<Longrightarrow> take (i + length ys) (patch xs i ys) = take i xs @ ys"
  by (simp add: patch_def)

lemma take_patch_before [simp]: "j \<le> i \<Longrightarrow> i \<le> length xs \<Longrightarrow> take j (patch xs i ys) = take j xs"
  by (simp add: patch_def)

lemma take_patch_start: "length ys = n \<Longrightarrow> take n (patch xs 0 ys) = ys"
  by (simp add: patch_def)

lemma list_update_patch: "i < length xs \<Longrightarrow> xs[i := v] = patch xs i [v]"
  by (simp add: patch_def upd_conv_take_nth_drop)

lemma patch_patch: "i \<le> length xs \<Longrightarrow> patch (patch xs i ys) (i + length ys) zs = patch xs i (ys @ zs)"
  by (simp add: patch_def ac_simps)

lemma patch_end: "i + length ys = length xs \<Longrightarrow> patch xs i ys = take i xs @ ys"
  by (simp add: patch_def)

section \<open>Options\<close>

lemma bind_Some_eq: "(m \<bind> f = Some y) \<longleftrightarrow> (\<exists>x. m = Some x \<and> f x = Some y)"
  by (cases m) auto

section \<open>Words\<close>

lemma unat_u8_less [word_norm]: "unat (b :: u8) < 256"
proof -
  have "unat b < 2 ^ LENGTH(8)" by (rule unsigned_less)
  then show ?thesis by simp
qed

lemma unat_u32_less [word_norm]: "unat (b :: u32) < 4294967296"
proof -
  have "unat b < 2 ^ LENGTH(32)" by (rule unsigned_less)
  then show ?thesis by simp
qed

lemma low_byte_less [word_norm]: "unat (x AND 0xff :: u32) < 256"
  using and_mask_less' [of 8 x] by (simp add: word_less_nat_alt mask_eq_exp_minus_1)

lemma unat_drop_bit [word_norm]: "unat (drop_bit n x) = drop_bit n (unat (x :: 'a :: len word))"
  by (simp only: unsigned_drop_bit_eq take_bit_nat_eq_self [OF unsigned_less])

lemma xor_cancel [simp]: "(a XOR b) XOR b = a" "b XOR (b XOR a) = a" for a b :: "'a :: len word"
  by (simp_all add: xor.assoc)

text \<open>Byte-wise XOR of two buffers, as the loops over \<^verbatim>\<open>buf[i] ^= pad[i]\<close> compute it.\<close>

definition xor_bytes :: "bytes \<Rightarrow> bytes \<Rightarrow> bytes" where
  "xor_bytes xs ys = map2 (XOR) xs ys"

lemma length_xor_bytes [simp, len_simps]: "length (xor_bytes xs ys) = min (length xs) (length ys)"
  by (simp add: xor_bytes_def)

lemma xor_bytes_cancel [simp]:
  "length xs \<le> length ys \<Longrightarrow> xor_bytes (xor_bytes xs ys) ys = xs"
  "length xs \<le> length ys \<Longrightarrow> xor_bytes ys (xor_bytes ys xs) = xs"
proof -
  show "length xs \<le> length ys \<Longrightarrow> xor_bytes (xor_bytes xs ys) ys = xs"
    unfolding xor_bytes_def by (induction xs ys rule: list_induct2') auto
  show "length xs \<le> length ys \<Longrightarrow> xor_bytes ys (xor_bytes ys xs) = xs"
    unfolding xor_bytes_def by (induction xs ys rule: list_induct2') auto
qed

end
