(* ===== verification/TouchCal.thy ===== *)
theory TouchCal
  imports Prelude Complex_Main
begin

text \<open>
  Touch calibration: \<^verbatim>\<open>lv_touch_calibration/lv_tc.c\<close> (coefficients, point transform,
  calibrated input driver) and \<^verbatim>\<open>lv_touch_calibration/lv_tc_screen.c\<close> (the screen that
  collects three touches).

  The static variables of both files and the one calibration screen are fields of the
  record \<open>tc\<close>. LVGL is not part of the sources: the display (resolution, rotation, active
  screen) is the parameter record \<open>disp_env\<close>, timers are handles that are created and
  deleted, and layout calls, which no operation reads back, are left out.
  The type \<^verbatim>\<open>float\<close> is the rational numbers: products and sums are exact, a division by
  zero (inf or NaN in C) is \<open>None\<close>, and so is the undefined conversion of such a value or
  of one outside \<^verbatim>\<open>int32_t\<close> to a coordinate.
\<close>

section \<open>Data\<close>

record lv_point =
  pt_x :: int
  pt_y :: int

definition mk_point :: "int \<Rightarrow> int \<Rightarrow> lv_point" where
  "mk_point px py = \<lparr>pt_x = px, pt_y = py\<rparr>"

datatype lv_disp_rot = ROT_NONE | ROT_90 | ROT_180 | ROT_270

record disp_env =
  hor_res :: int
  ver_res :: int
  rotated :: lv_disp_rot
  scr_act :: nat

datatype indev_state = INDEV_RELEASED | INDEV_PRESSED

record indev_data =
  dpoint :: lv_point
  dstate :: indev_state

record lv_tc_coeff =
  isValid :: bool
  co_a :: "rat option"
  co_b :: "rat option"
  co_c :: "rat option"
  co_d :: "rat option"
  co_e :: "rat option"
  co_f :: "rat option"

datatype tc_msg = START_MSG | READY_MSG | NO_MSG
datatype tc_timer = StartDelayTimer | RecalibrateTimer

record lv_tc_screen =
  indicator_pos :: "int \<times> int"
  indicator_hidden :: bool
  msgLabel :: tc_msg
  recalibrate_hidden :: bool
  accept_hidden :: bool
  recalibrate_count :: int
  inputEnabled :: bool
  scrPoints :: "lv_point list"
  tchPoints :: "lv_point list"
  currentStep :: nat
  startDelayTimer :: bool
  recalibrateTimer :: bool

record tc =
  calibResult :: lv_tc_coeff
  registeredTCScreen :: "nat option"
  registeredInputCb :: bool
  registeredSaveCb :: bool
  last_pressed_point :: lv_point
  last_state :: indev_state
  screen :: lv_tc_screen
  timers :: "tc_timer list"
  saved :: "lv_tc_coeff list"
  ready_events :: nat

definition STEP_INIT :: nat where "STEP_INIT = 0"
definition STEP_FIRST :: nat where "STEP_FIRST = 1"
definition STEP_FINISH :: nat where "STEP_FINISH = 4"
definition INDICATOR_SIZE :: int where "INDICATOR_SIZE = 50"
definition LV_TC_RECALIB_TIMEOUT_S :: int where "LV_TC_RECALIB_TIMEOUT_S = 30"

lemmas step_consts = STEP_INIT_def STEP_FIRST_def STEP_FINISH_def

section \<open>lv\_tc.c: coefficients\<close>

definition lv_tc_save_coeff :: "tc \<Rightarrow> tc" where
  "lv_tc_save_coeff s = (if registeredSaveCb s then s\<lparr>saved := saved s @ [calibResult s]\<rparr> else s)"

definition lv_tc_set_coeff :: "lv_tc_coeff \<Rightarrow> bool \<Rightarrow> tc \<Rightarrow> tc" where
  "lv_tc_set_coeff coeff save s =
     (let s1 = s\<lparr>calibResult := coeff\<rparr> in if save then lv_tc_save_coeff s1 else s1)"

definition fdiv :: "rat \<Rightarrow> rat \<Rightarrow> rat option" where
  "fdiv n d = (if d = 0 then None else Some (n / d))"

definition tc_divisor :: "lv_point list \<Rightarrow> rat" where
  "tc_divisor tchP =
     (let tx = (\<lambda>i. of_int (pt_x (tchP ! i)) :: rat); ty = (\<lambda>i. of_int (pt_y (tchP ! i)) :: rat) in
      tx 0 * (ty 2 - ty 1) - tx 1 * ty 2 + ty 1 * tx 2 + ty 0 * (tx 1 - tx 2))"

definition tc_coeff_of :: "lv_point list \<Rightarrow> lv_point list \<Rightarrow> lv_tc_coeff" where
  "tc_coeff_of scrP tchP =
     (let tx = (\<lambda>i. of_int (pt_x (tchP ! i)) :: rat); ty = (\<lambda>i. of_int (pt_y (tchP ! i)) :: rat);
          sx = (\<lambda>i. of_int (pt_x (scrP ! i)) :: rat); sy = (\<lambda>i. of_int (pt_y (scrP ! i)) :: rat);
          divisor = tc_divisor tchP in
      \<lparr>isValid = True,
       co_a = fdiv (sx 0 * (ty 2 - ty 1) - sx 1 * ty 2 + sx 2 * ty 1 + (sx 1 - sx 2) * ty 0) divisor,
       co_b = fdiv (- (sx 0 * (tx 2 - tx 1) - sx 1 * tx 2 + sx 2 * tx 1 + (sx 1 - sx 2) * tx 0)) divisor,
       co_c = fdiv (sx 0 * (ty 1 * tx 2 - tx 1 * ty 2) + tx 0 * (sx 1 * ty 2 - sx 2 * ty 1)
                      + ty 0 * (sx 2 * tx 1 - sx 1 * tx 2)) divisor,
       co_d = fdiv (sy 0 * (ty 2 - ty 1) - sy 1 * ty 2 + sy 2 * ty 1 + (sy 1 - sy 2) * ty 0) divisor,
       co_e = fdiv (- (sy 0 * (tx 2 - tx 1) - sy 1 * tx 2 + sy 2 * tx 1 + (sy 1 - sy 2) * tx 0)) divisor,
       co_f = fdiv (sy 0 * (ty 1 * tx 2 - tx 1 * ty 2) + tx 0 * (sy 1 * ty 2 - sy 2 * ty 1)
                      + ty 0 * (sy 2 * tx 1 - sy 1 * tx 2)) divisor\<rparr>)"

definition lv_tc_compute_coeff :: "lv_point list \<Rightarrow> lv_point list \<Rightarrow> bool \<Rightarrow> tc \<Rightarrow> tc" where
  "lv_tc_compute_coeff scrP tchP save s = lv_tc_set_coeff (tc_coeff_of scrP tchP) save s"

section \<open>lv\_tc.c: point transform\<close>

definition roundf :: "rat \<Rightarrow> int" where
  "roundf r = (if 0 \<le> r then \<lfloor>r + 1 / 2\<rfloor> else - \<lfloor>1 / 2 - r\<rfloor>)"

definition to_coord :: "int \<Rightarrow> int option" where
  "to_coord i = (if - (2 ^ 31) \<le> i \<and> i < 2 ^ 31 then Some i else None)"

definition affine :: "int \<Rightarrow> int \<Rightarrow> rat option \<Rightarrow> rat option \<Rightarrow> rat option \<Rightarrow> int option" where
  "affine px py ka kb kc =
     do { a \<leftarrow> ka; b \<leftarrow> kb; c \<leftarrow> kc; to_coord (roundf (of_int px * a + of_int py * b + c)) }"

definition rotate_point :: "disp_env \<Rightarrow> int \<Rightarrow> int \<Rightarrow> lv_point option" where
  "rotate_point env px py =
     (case rotated env of
        ROT_NONE \<Rightarrow> Some (mk_point px py)
      | ROT_180 \<Rightarrow> do { qy \<leftarrow> to_coord (ver_res env - py); qx \<leftarrow> to_coord (hor_res env - px);
                        Some (mk_point qx qy) }
      | _ \<Rightarrow> do { qx \<leftarrow> to_coord (ver_res env - py - 1); Some (mk_point qx px) })"

definition lv_tc_transform_point :: "disp_env \<Rightarrow> lv_tc_coeff \<Rightarrow> lv_point \<Rightarrow> lv_point option" where
  "lv_tc_transform_point env co p =
     (if isValid co then
        do { px \<leftarrow> affine (pt_x p) (pt_y p) (co_a co) (co_b co) (co_c co);
             py \<leftarrow> affine (pt_x p) (pt_y p) (co_d co) (co_e co) (co_f co);
             rotate_point env px py }
      else Some p)"

definition lv_tc_transform_point_indev :: "disp_env \<Rightarrow> indev_data \<Rightarrow> tc \<Rightarrow> (lv_point \<times> tc) option" where
  "lv_tc_transform_point_indev env data s =
     (if dstate data = INDEV_PRESSED then
        (let s1 = s\<lparr>last_pressed_point := dpoint data, last_state := dstate data\<rparr>
         in do { p \<leftarrow> lv_tc_transform_point env (calibResult s1) (dpoint data); Some (p, s1) })
      else if dstate data = INDEV_RELEASED \<and> last_state s = INDEV_PRESSED then
        (let s1 = s\<lparr>last_state := dstate data\<rparr>
         in do { p \<leftarrow> lv_tc_transform_point env (calibResult s1) (last_pressed_point s1); Some (p, s1) })
      else Some (mk_point 0 0, s))"

section \<open>lv\_tc\_screen.c: the calibration screen\<close>

abbreviation upd_screen :: "(lv_tc_screen \<Rightarrow> lv_tc_screen) \<Rightarrow> tc \<Rightarrow> tc" where
  "upd_screen f s \<equiv> s\<lparr>screen := f (screen s)\<rparr>"


text \<open>\<^verbatim>\<open>lv_tc_screen_auto_set_points\<close>: the conversions to \<^verbatim>\<open>lv_coord_t\<close> truncate.\<close>

definition trunc_coord :: "rat \<Rightarrow> int" where
  "trunc_coord r = (if 0 \<le> r then \<lfloor>r\<rfloor> else \<lceil>r\<rceil>)"

definition auto_points :: "disp_env \<Rightarrow> lv_point list" where
  "auto_points env =
     (let marginH = trunc_coord (of_int (hor_res env) * (15 / 100));
          marginV = trunc_coord (of_int (ver_res env) * (15 / 100));
          margin = (if marginH < marginV then marginH else marginV)
      in [mk_point margin (trunc_coord (of_int (ver_res env) * (3 / 10))),
          mk_point (trunc_coord (of_int (hor_res env) * (4 / 10))) (ver_res env - margin),
          mk_point (hor_res env - margin) margin])"



definition lv_tc_screen_set_indicator_pos :: "lv_point \<Rightarrow> bool \<Rightarrow> tc \<Rightarrow> tc" where
  "lv_tc_screen_set_indicator_pos p visible =
     upd_screen (\<lambda>sc. sc\<lparr>indicator_pos := (pt_x p - INDICATOR_SIZE div 2, pt_y p - INDICATOR_SIZE div 2),
                         indicator_hidden := \<not> visible\<rparr>)"

definition lv_tc_screen_finish :: "tc \<Rightarrow> tc" where
  "lv_tc_screen_finish s =
     (upd_screen (\<lambda>sc. sc\<lparr>msgLabel := READY_MSG, recalibrate_hidden := False, accept_hidden := False,
                          recalibrate_count := LV_TC_RECALIB_TIMEOUT_S, recalibrateTimer := True\<rparr>) s)
       \<lparr>timers := timers s @ [RecalibrateTimer]\<rparr>"

text \<open>
  \<^verbatim>\<open>lv_tc_screen_step\<close>. With \<open>step = STEP_INIT\<close> the code reads \<^verbatim>\<open>scrPoints[step - 1]\<close>,
  one element before the array: \<open>stale\<close> stands for what that memory holds. A step beyond
  \<open>STEP_FINISH\<close> would write outside \<^verbatim>\<open>tchPoints\<close>, which is \<open>None\<close>.
\<close>

definition lv_tc_screen_step :: "lv_point \<Rightarrow> nat \<Rightarrow> lv_point \<Rightarrow> tc \<Rightarrow> tc option" where
  "lv_tc_screen_step stale step tchPoint s =
     (if STEP_FINISH < step then None
      else
        let s1 = upd_screen (currentStep_update (\<lambda>_. step)) s;
            s2 = (if STEP_FIRST < step
                  then upd_screen (tchPoints_update (\<lambda>ts. ts[step - 2 := tchPoint])) s1 else s1)
        in if step = STEP_FINISH
           then Some (lv_tc_screen_finish
                  (lv_tc_compute_coeff (scrPoints (screen s2)) (tchPoints (screen s2)) False s2))
           else Some (lv_tc_screen_set_indicator_pos
                  (if step = STEP_INIT then stale else scrPoints (screen s2) ! (step - 1))
                  (STEP_INIT < step) s2))"

definition lv_tc_screen_process_input :: "disp_env \<Rightarrow> lv_point \<Rightarrow> lv_point \<Rightarrow> tc \<Rightarrow> tc option" where
  "lv_tc_screen_process_input env stale tchPoint s =
     (if STEP_INIT < currentStep (screen s) then
        if currentStep (screen s) < STEP_FINISH then
          lv_tc_screen_step stale (currentStep (screen s) + 1) tchPoint
            (upd_screen (inputEnabled_update (\<lambda>_. False)) s)
        else
          do { p \<leftarrow> lv_tc_transform_point env (calibResult s) tchPoint;
               Some (lv_tc_screen_set_indicator_pos p True s) }
      else Some s)"

definition lv_tc_screen_input_cb :: "disp_env \<Rightarrow> lv_point \<Rightarrow> indev_data \<Rightarrow> tc \<Rightarrow> (bool \<times> tc) option" where
  "lv_tc_screen_input_cb env stale data s =
     do { s1 \<leftarrow> (if inputEnabled (screen s) \<and> dstate data = INDEV_PRESSED
                 then lv_tc_screen_process_input env stale (dpoint data) s else Some s);
          let s2 = (if dstate data = INDEV_RELEASED
                    then upd_screen (inputEnabled_update (\<lambda>_. True)) s1 else s1);
          Some (STEP_FINISH \<le> currentStep (screen s2), s2) }"


definition lv_tc_register_coeff_save_cb :: "tc \<Rightarrow> tc" where
  "lv_tc_register_coeff_save_cb s = s\<lparr>registeredSaveCb := True\<rparr>"






text \<open>
  \<^verbatim>\<open>lv_tc_indev_drv_read_cb\<close> after the wrapped driver has filled in \<open>data\<close>: the result is
  the point and state LVGL sees.
\<close>

definition lv_tc_indev_drv_read_cb :: "disp_env \<Rightarrow> lv_point \<Rightarrow> indev_data \<Rightarrow> tc \<Rightarrow> (indev_data \<times> tc) option" where
  "lv_tc_indev_drv_read_cb env stale data s =
     (let tail = (\<lambda>s1. do { (p, s2) \<leftarrow> lv_tc_transform_point_indev env data s1; Some (data\<lparr>dpoint := p\<rparr>, s2) })
      in if registeredInputCb s \<and> registeredTCScreen s = Some (scr_act env) then
           do { (pass, s1) \<leftarrow> lv_tc_screen_input_cb env stale data s;
                if \<not> pass then Some (\<lparr>dpoint = mk_point 0 0, dstate = INDEV_RELEASED\<rparr>, s1)
                else tail s1 }
         else tail s)"

lemmas tc_step_defs = lv_tc_screen_step_def lv_tc_screen_set_indicator_pos_def
  lv_tc_screen_finish_def lv_tc_compute_coeff_def lv_tc_set_coeff_def step_consts


section \<open>Exactness of the computed coefficients\<close>


lemma roundf_of_int [simp]: "roundf (of_int i) = i"
proof -
  have "\<lfloor>(of_int i :: rat) + 1 / 2\<rfloor> = i" by (simp add: floor_eq_iff)
  moreover have "\<lfloor>1 / 2 - (of_int i :: rat)\<rfloor> = - i" by (simp add: floor_eq_iff)
  ultimately show ?thesis by (simp add: roundf_def)
qed

lemma mk_point_collapse [simp]: "mk_point (pt_x p) (pt_y p) = p"
  by (simp add: mk_point_def)





section \<open>The calibration session as a state machine\<close>





lemma length_auto_points [simp, len_simps]: "length (auto_points env) = 3"
  by (simp add: auto_points_def Let_def)
















section \<open>Single touches and whole sessions\<close>

abbreviation pressed_at :: "lv_point \<Rightarrow> indev_data" where
  "pressed_at p \<equiv> \<lparr>dpoint = p, dstate = INDEV_PRESSED\<rparr>"

abbreviation released_at :: "lv_point \<Rightarrow> indev_data" where
  "released_at p \<equiv> \<lparr>dpoint = p, dstate = INDEV_RELEASED\<rparr>"

text \<open>Successive calls of the read callback, with the data LVGL is given each time.\<close>

fun read_all :: "disp_env \<Rightarrow> lv_point \<Rightarrow> indev_data list \<Rightarrow> tc \<Rightarrow> (indev_data list \<times> tc) option" where
  "read_all env stale [] s = Some ([], s)"
| "read_all env stale (d # ds) s =
     do { (d', s1) \<leftarrow> lv_tc_indev_drv_read_cb env stale d s;
          (ds', s2) \<leftarrow> read_all env stale ds s1;
          Some (d' # ds', s2) }"

definition capturing :: "disp_env \<Rightarrow> tc \<Rightarrow> bool" where
  "capturing env s \<longleftrightarrow> registeredInputCb s \<and> registeredTCScreen s = Some (scr_act env)"

lemma press_collects:
  assumes "capturing env s" "inputEnabled (screen s)"
    "0 < currentStep (screen s)" "currentStep (screen s) < 3"
  shows "\<exists>t. lv_tc_indev_drv_read_cb env stale (pressed_at p) s = Some (released_at (mk_point 0 0), t) \<and>
    capturing env t \<and> \<not> inputEnabled (screen t) \<and>
    currentStep (screen t) = currentStep (screen s) + 1 \<and>
    tchPoints (screen t) = (tchPoints (screen s))[currentStep (screen s) - 1 := p] \<and>
    scrPoints (screen t) = scrPoints (screen s)"
  using assms
  by (auto simp: lv_tc_indev_drv_read_cb_def lv_tc_screen_input_cb_def lv_tc_screen_process_input_def
      capturing_def tc_step_defs Let_def)



lemma held_press_keeps_screen:
  assumes "capturing env s" "\<not> inputEnabled (screen s)"
    "lv_tc_indev_drv_read_cb env stale (pressed_at p) s = Some (d, t)"
  shows "screen t = screen s \<and> capturing env t"
  using assms
  by (auto simp: lv_tc_indev_drv_read_cb_def lv_tc_screen_input_cb_def lv_tc_transform_point_indev_def
      capturing_def bind_Some_eq Let_def split: if_splits)

lemma held_presses_keep_screen:
  assumes "capturing env s" "\<not> inputEnabled (screen s)"
    "read_all env stale (map pressed_at ps) s = Some (ds, t)"
  shows "screen t = screen s"
  using assms
proof (induction ps arbitrary: s ds)
  case Nil
  then show ?case by simp
next
  case (Cons p ps)
  then obtain d s1 ds1 where a: "lv_tc_indev_drv_read_cb env stale (pressed_at p) s = Some (d, s1)"
    and b: "read_all env stale (map pressed_at ps) s1 = Some (ds1, t)"
    by (auto simp: bind_Some_eq split: prod.splits)
  from held_press_keeps_screen [OF Cons.prems(1,2) a] Cons.IH [OF _ _ b] Cons.prems(2)
  show ?case by simp
qed

section \<open>Properties\<close>


definition demo_env :: disp_env where
  "demo_env = \<lparr>hor_res = 480, ver_res = 272, rotated = ROT_NONE, scr_act = 7\<rparr>"

definition demo_touch :: "lv_point list" where
  "demo_touch = [mk_point 300 900, mk_point 1700 3300, mk_point 3600 500]"

definition demo_coeff :: lv_tc_coeff where
  "demo_coeff = \<lparr>isValid = False, co_a = None, co_b = None, co_c = None, co_d = None, co_e = None, co_f = None\<rparr>"

definition demo_screen :: lv_tc_screen where
  "demo_screen = \<lparr>indicator_pos = (0, 0), indicator_hidden = False, msgLabel = START_MSG,
     recalibrate_hidden = True, accept_hidden = True, recalibrate_count = 0, inputEnabled = True,
     scrPoints = auto_points demo_env, tchPoints = replicate 3 (mk_point 0 0), currentStep = 1,
     startDelayTimer = True, recalibrateTimer = False\<rparr>"

definition demo_tc :: tc where
  "demo_tc = \<lparr>calibResult = demo_coeff, registeredTCScreen = Some 7, registeredInputCb = True,
     registeredSaveCb = True, last_pressed_point = mk_point 0 0, last_state = INDEV_RELEASED,
     screen = demo_screen, timers = [], saved = [], ready_events = 0\<rparr>"

lemmas demo_defs = demo_env_def demo_touch_def demo_coeff_def demo_screen_def demo_tc_def mk_point_def






text \<open>
  Debouncing. While the finger stays down, no number of further press reports advances the
  calibration or changes anything on the screen: one touch is one step.
\<close>
theorem calibration_one_step_per_touch:
  assumes "capturing env s" "inputEnabled (screen s)"
    and "0 < currentStep (screen s)" "currentStep (screen s) < STEP_FINISH - 1"
    and "read_all env stale (map pressed_at (p # ps)) s = Some (ds, t)"
  shows "currentStep (screen t) = currentStep (screen s) + 1 \<and>
    tchPoints (screen t) = (tchPoints (screen s))[currentStep (screen s) - 1 := p]"
proof -
  have lt: "currentStep (screen s) < 3" using assms(4) by (simp add: step_consts)
  obtain s1 where s1: "lv_tc_indev_drv_read_cb env stale (pressed_at p) s = Some (released_at (mk_point 0 0), s1)"
    "capturing env s1" "\<not> inputEnabled (screen s1)" "currentStep (screen s1) = currentStep (screen s) + 1"
    "tchPoints (screen s1) = (tchPoints (screen s))[currentStep (screen s) - 1 := p]"
    using press_collects [OF assms(1,2,3) lt, of stale p] by blast
  then obtain ds1 where "read_all env stale (map pressed_at ps) s1 = Some (ds1, t)"
    using assms(5) by (auto simp: bind_Some_eq split: prod.splits)
  from held_presses_keep_screen [OF s1(2,3) this] s1 show ?thesis by simp
qed

theorem calibration_one_step_per_touch_witness:
  "\<exists>ds t. read_all demo_env (mk_point 0 0) (map pressed_at [mk_point 5 6, mk_point 7 8]) demo_tc = Some (ds, t) \<and>
     currentStep (screen t) = 2 \<and> tchPoints (screen t) = [mk_point 5 6, mk_point 0 0, mk_point 0 0]"
proof -
  have h: "capturing demo_env demo_tc" "inputEnabled (screen demo_tc)" "0 < currentStep (screen demo_tc)"
    "currentStep (screen demo_tc) < STEP_FINISH - 1"
    by (simp_all add: capturing_def demo_defs step_consts)
  obtain ds t where run: "read_all demo_env (mk_point 0 0) (map pressed_at [mk_point 5 6, mk_point 7 8]) demo_tc = Some (ds, t)"
    by (simp add: lv_tc_indev_drv_read_cb_def lv_tc_screen_input_cb_def lv_tc_screen_process_input_def
        tc_step_defs demo_defs Let_def)
  from calibration_one_step_per_touch [OF h run] run show ?thesis
    by (auto simp: demo_tc_def demo_screen_def numeral_3_eq_3)
qed



text \<open>
  Rotated displays. A point inside the panel stays inside it under the 90 and 270 degree
  branch. The 180 degree branch lacks the \<open>- 1\<close> of the other one: it lands in
  1..hor\_res by 1..ver\_res instead, and the first column and row go one past the last.
\<close>
theorem rotation_bounds:
  assumes "0 \<le> px" "px < hor_res env" "0 \<le> py" "py < ver_res env"
    and "hor_res env < 2 ^ 31" "ver_res env < 2 ^ 31" "rotate_point env px py = Some q"
  shows "(rotated env = ROT_90 \<or> rotated env = ROT_270 \<longrightarrow>
            0 \<le> pt_x q \<and> pt_x q < ver_res env \<and> 0 \<le> pt_y q \<and> pt_y q < hor_res env) \<and>
         (rotated env = ROT_180 \<longrightarrow> 1 \<le> pt_x q \<and> pt_x q \<le> hor_res env \<and> 1 \<le> pt_y q \<and> pt_y q \<le> ver_res env \<and>
            (px = 0 \<longrightarrow> pt_x q = hor_res env) \<and> (py = 0 \<longrightarrow> pt_y q = ver_res env))"
  using assms
  by (auto simp: rotate_point_def to_coord_def mk_point_def bind_Some_eq split: lv_disp_rot.splits if_splits)

theorem rotation_bounds_witness:
  "\<exists>q. rotate_point (demo_env\<lparr>rotated := ROT_180\<rparr>) 0 100 = Some q \<and> pt_x q = 480"
proof -
  let ?env = "demo_env\<lparr>rotated := ROT_180\<rparr>"
  have r: "rotate_point ?env 0 100 = Some (mk_point 480 172)"
    by (simp add: rotate_point_def to_coord_def demo_env_def)
  have "pt_x (mk_point 480 172) = hor_res ?env"
    using rotation_bounds [of 0 ?env 100, OF _ _ _ _ _ _ r] by (simp add: demo_env_def)
  with r show ?thesis by (simp add: demo_env_def)
qed

end
