(* ===== verification/HexText.thy ===== *)
theory HexText
  imports Prelude
begin

text \<open>
  Hexadecimal text and MAC addresses: the first half of
  \<^verbatim>\<open>wpa_supplicant/src/utils/common.c\<close>. Strings are byte lists (see \<open>Prelude\<close>); the
  C result \<open>-1\<close> is \<open>None\<close> and the bytes a function stores through its output pointer
  are its result. Character constants are written with their ASCII codes.
\<close>

section \<open>Operations\<close>

definition hex2num :: "u8 \<Rightarrow> u8 option" where
  "hex2num c =
     (if 0x30 \<le> c \<and> c \<le> 0x39 then Some (c - 0x30)
      else if 0x61 \<le> c \<and> c \<le> 0x66 then Some (c - 0x61 + 10)
      else if 0x41 \<le> c \<and> c \<le> 0x46 then Some (c - 0x41 + 10)
      else None)"

definition hex2byte :: "bytes \<Rightarrow> u8 option" where
  "hex2byte hex =
     do { a \<leftarrow> hex2num (peek hex); b \<leftarrow> hex2num (peek (drop 1 hex)); Some (push_bit 4 a OR b) }"

text \<open>\<open>hwaddr_parse n txt\<close> runs the last \<open>n\<close> rounds of the loop over the six octets.\<close>

fun hwaddr_parse_loop :: "nat \<Rightarrow> bytes \<Rightarrow> (bytes \<times> bytes) option" where
  "hwaddr_parse_loop 0 txt = Some ([], txt)"
| "hwaddr_parse_loop (Suc n) txt =
     do { a \<leftarrow> hex2byte txt;
          let txt1 = drop 2 txt;
          if 0 < n then
            (if peek txt1 \<noteq> 0x3a then None
             else do { (addr, r) \<leftarrow> hwaddr_parse_loop n (drop 1 txt1); Some (a # addr, r) })
          else Some ([a], txt1) }"

definition hwaddr_parse :: "bytes \<Rightarrow> (bytes \<times> bytes) option" where
  "hwaddr_parse txt = hwaddr_parse_loop 6 txt"

definition hwaddr_aton :: "bytes \<Rightarrow> bytes option" where
  "hwaddr_aton txt = map_option fst (hwaddr_parse txt)"

definition isspace :: "u8 \<Rightarrow> bool" where
  "isspace c \<longleftrightarrow> c = 0x20 \<or> (0x09 \<le> c \<and> c \<le> 0x0d)"

definition hwaddr_masked_aton :: "bytes \<Rightarrow> bool \<Rightarrow> (bytes \<times> bytes) option" where
  "hwaddr_masked_aton txt maskable =
     do { (addr, r) \<leftarrow> hwaddr_parse txt;
          if peek r = 0 \<or> isspace (peek r) then Some (addr, replicate 6 0xff)
          else if maskable \<and> peek r = 0x2f then
            do { (mask, _) \<leftarrow> hwaddr_parse (drop 1 r); Some (addr, mask) }
          else None }"

fun hwaddr_compact_loop :: "nat \<Rightarrow> bytes \<Rightarrow> bytes option" where
  "hwaddr_compact_loop 0 txt = Some []"
| "hwaddr_compact_loop (Suc n) txt =
     do { a \<leftarrow> hex2num (peek txt); b \<leftarrow> hex2num (peek (drop 1 txt));
          addr \<leftarrow> hwaddr_compact_loop n (drop 2 txt); Some ((push_bit 4 a OR b) # addr) }"

definition hwaddr_compact_aton :: "bytes \<Rightarrow> bytes option" where
  "hwaddr_compact_aton txt = hwaddr_compact_loop 6 txt"

text \<open>\<^verbatim>\<open>hwaddr_aton2\<close> skips any separators before each octet and reports how many characters it used.\<close>

definition mac_sep :: "u8 \<Rightarrow> bool" where
  "mac_sep c \<longleftrightarrow> c = 0x3a \<or> c = 0x2e \<or> c = 0x2d"

fun hwaddr_aton2_loop :: "nat \<Rightarrow> bytes \<Rightarrow> (bytes \<times> bytes) option" where
  "hwaddr_aton2_loop 0 pos = Some ([], pos)"
| "hwaddr_aton2_loop (Suc n) pos =
     do { let p = dropWhile mac_sep pos;
          a \<leftarrow> hex2num (peek p); b \<leftarrow> hex2num (peek (drop 1 p));
          (addr, r) \<leftarrow> hwaddr_aton2_loop n (drop 2 p);
          Some ((push_bit 4 a OR b) # addr, r) }"

definition hwaddr_aton2 :: "bytes \<Rightarrow> (bytes \<times> nat) option" where
  "hwaddr_aton2 txt =
     do { (addr, r) \<leftarrow> hwaddr_aton2_loop 6 txt; Some (addr, length txt - length r) }"

fun hexstr2bin :: "bytes \<Rightarrow> nat \<Rightarrow> bytes option" where
  "hexstr2bin hex 0 = Some []"
| "hexstr2bin hex (Suc len) =
     do { a \<leftarrow> hex2byte hex; buf \<leftarrow> hexstr2bin (drop 2 hex) len; Some (a # buf) }"

text \<open>\<^verbatim>\<open>%02x\<close> and \<^verbatim>\<open>%02X\<close> of one byte, and \<^verbatim>\<open>MACSTR\<close> of six.\<close>

definition hex_digit :: "bool \<Rightarrow> u8 \<Rightarrow> u8" where
  "hex_digit uppercase n = (if n < 10 then 0x30 + n else if uppercase then 0x41 + (n - 10) else 0x61 + (n - 10))"

definition fmt_02x :: "bool \<Rightarrow> u8 \<Rightarrow> bytes" where
  "fmt_02x uppercase b = [hex_digit uppercase (drop_bit 4 b), hex_digit uppercase (b AND 15)]"

fun macstr :: "bytes \<Rightarrow> bytes" where
  "macstr [] = []"
| "macstr [b] = fmt_02x False b"
| "macstr (b # bs) = fmt_02x False b @ [0x3a] @ macstr bs"

text \<open>
  \<^verbatim>\<open>os_snprintf\<close> into \<open>room\<close> bytes fails (by \<^verbatim>\<open>os_snprintf_error\<close>) when the text and
  its terminator do not fit.
\<close>

definition snprintf_ok :: "nat \<Rightarrow> bytes \<Rightarrow> bytes option" where
  "snprintf_ok room text = (if length text < room then Some text else None)"

definition hwaddr_mask_txt :: "nat \<Rightarrow> bytes \<Rightarrow> bytes \<Rightarrow> bytes option" where
  "hwaddr_mask_txt len addr amask =
     (let print_mask = list_ex (\<lambda>m. m \<noteq> 0xff) (take 6 amask) in
      if print_mask then snprintf_ok len (macstr addr @ [0x2f] @ macstr amask)
      else snprintf_ok len (macstr addr))"

text \<open>
  The hex printers return the count they report and the C string left in the buffer. When the
  next byte does not fit, the buffer keeps what \<^verbatim>\<open>snprintf\<close> wrote of it before the forced
  terminator.
\<close>

fun snprintf_hex_loop :: "bool \<Rightarrow> nat \<Rightarrow> bytes \<Rightarrow> nat \<times> bytes" where
  "snprintf_hex_loop uppercase room [] = (0, [])"
| "snprintf_hex_loop uppercase room (b # data) =
     (if room \<le> 2 then (0, take (room - 1) (fmt_02x uppercase b))
      else (let (n, txt) = snprintf_hex_loop uppercase (room - 2) data in (n + 2, fmt_02x uppercase b @ txt)))"

definition wpa_snprintf_hex_gen :: "nat \<Rightarrow> bytes \<Rightarrow> bool \<Rightarrow> nat \<times> bytes" where
  "wpa_snprintf_hex_gen buf_size data uppercase =
     (if buf_size = 0 then (0, []) else snprintf_hex_loop uppercase buf_size data)"

definition wpa_snprintf_hex :: "nat \<Rightarrow> bytes \<Rightarrow> nat \<times> bytes" where
  "wpa_snprintf_hex buf_size data = wpa_snprintf_hex_gen buf_size data False"

definition wpa_snprintf_hex_uppercase :: "nat \<Rightarrow> bytes \<Rightarrow> nat \<times> bytes" where
  "wpa_snprintf_hex_uppercase buf_size data = wpa_snprintf_hex_gen buf_size data True"

text \<open>
  \<^verbatim>\<open>wpa_snprintf_hex_sep\<close>. After the loop the code stores a terminator at \<^verbatim>\<open>pos[-1]\<close>, which
  for empty data is the byte before the buffer: \<open>None\<close>.
\<close>

fun snprintf_hex_sep_loop :: "u8 \<Rightarrow> nat \<Rightarrow> bytes \<Rightarrow> bool \<times> nat \<times> bytes" where
  "snprintf_hex_sep_loop sep room [] = (True, 0, [])"
| "snprintf_hex_sep_loop sep room (b # data) =
     (if room \<le> 3 then (False, 0, take (room - 1) (fmt_02x False b @ [sep]))
      else (let (done, n, txt) = snprintf_hex_sep_loop sep (room - 3) data
            in (done, n + 3, fmt_02x False b @ [sep] @ txt)))"

definition wpa_snprintf_hex_sep :: "nat \<Rightarrow> bytes \<Rightarrow> u8 \<Rightarrow> (nat \<times> bytes) option" where
  "wpa_snprintf_hex_sep buf_size data sep =
     (if buf_size = 0 then Some (0, [])
      else let (done, n, txt) = snprintf_hex_sep_loop sep buf_size data
           in if \<not> done then Some (n, txt)
              else if n = 0 then None
              else Some (n, butlast txt))"

section \<open>Digits\<close>

lemma nibble_cases:
  assumes "(n :: u8) < 16"
  shows "n \<in> {0, 1, 2, 3, 4, 5, 6, 7, 8, 9, 10, 11, 12, 13, 14, 15}"
proof -
  have "unat n < 16" using assms by (simp add: word_less_nat_alt)
  then have "unat n \<in> set [0..<16]" by simp
  moreover have "n = of_nat (unat n)" by simp
  ultimately have "n \<in> of_nat ` set [0..<16]" by blast
  then show ?thesis by (simp add: upt_rec)
qed

lemma nibble_induct:
  assumes "(n :: u8) < 16"
    and "P 0" "P 1" "P 2" "P 3" "P 4" "P 5" "P 6" "P 7"
    and "P 8" "P 9" "P 10" "P 11" "P 12" "P 13" "P 14" "P 15"
  shows "P n"
  using nibble_cases [OF assms(1)] assms(2-) by blast

lemma hex2num_digit: "n < 16 \<Longrightarrow> hex2num (hex_digit u n) = Some n"
  by (erule nibble_induct; simp add: hex2num_def hex_digit_def)

lemma hex_digit_printable: "n < 16 \<Longrightarrow> 0x30 \<le> hex_digit u n \<and> hex_digit u n \<le> 0x66"
  by (erule nibble_induct; simp add: hex_digit_def)

lemma high_nibble: "drop_bit 4 (b :: u8) < 16"
proof -
  have "unat (drop_bit 4 b) < 16"
    using unat_u8_less [of b] by (simp add: drop_bit_eq_div unat_div)
  then show ?thesis by (simp add: word_less_nat_alt)
qed

lemma low_nibble: "(b :: u8) AND 15 < 16"
proof -
  have "b AND 15 \<le> 15" by (rule word_and_le1)
  then show ?thesis by (simp add: word_le_nat_alt word_less_nat_alt)
qed

lemma nibbles_join: "push_bit 4 (drop_bit 4 (b :: u8)) OR (b AND 15) = b"
proof (rule bit_word_eqI)
  fix n assume n: "n < LENGTH(8)"
  then have "bit (15 :: u8) n \<longleftrightarrow> n < 4" by (auto simp: less_Suc_eq numeral_eq_Suc)
  with n show "bit (push_bit 4 (drop_bit 4 b) OR (b AND 15)) n = bit b n"
    by (auto simp: bit_simps)
qed

section \<open>Reading back what was printed\<close>

lemma length_fmt_02x [simp, len_simps]: "length (fmt_02x u b) = 2"
  by (simp add: fmt_02x_def)

lemma fmt_02x_cons: "fmt_02x u b = [hex_digit u (drop_bit 4 b), hex_digit u (b AND 15)]"
  by (simp add: fmt_02x_def)

lemma hex2byte_fmt [simp]: "hex2byte (fmt_02x u b @ s) = Some b"
  by (simp add: hex2byte_def fmt_02x_def hex2num_digit high_nibble low_nibble nibbles_join)

lemma drop_fmt [simp]: "drop 2 (fmt_02x u b @ s) = s"
  by (simp add: fmt_02x_def)

lemma hexstr2bin_print: "hexstr2bin (concat (map (fmt_02x u) data) @ s) (length data) = Some data"
  by (induction data) simp_all

lemma snprintf_hex_loop_fits:
  "2 * length data < room \<Longrightarrow>
     snprintf_hex_loop u room data = (2 * length data, concat (map (fmt_02x u) data))"
  by (induction u room data rule: snprintf_hex_loop.induct) auto

lemma snprintf_hex_loop_bound:
  "0 < room \<Longrightarrow> snprintf_hex_loop u room data = (n, out) \<Longrightarrow> length out < room \<and> n \<le> length out"
proof (induction u room data arbitrary: n out rule: snprintf_hex_loop.induct)
  case (1 u room)
  then show ?case by simp
next
  case (2 u room b data)
  show ?case
  proof (cases "room \<le> 2")
    case True
    with "2.prems" show ?thesis by auto
  next
    case False
    obtain m t where mt: "snprintf_hex_loop u (room - 2) data = (m, t)" by fastforce
    from "2.IH" [OF False _ mt] False have "length t < room - 2 \<and> m \<le> length t" by simp
    with "2.prems" False mt show ?thesis by auto
  qed
qed

lemma hwaddr_parse_loop_print:
  "addr \<noteq> [] \<Longrightarrow> hwaddr_parse_loop (length addr) (macstr addr @ r) = Some (addr, r)"
proof (induction addr rule: macstr.induct)
  case (3 b c cs)
  then show ?case by simp
qed simp_all

lemma hex_digit_no_sep: "n < 16 \<Longrightarrow> \<not> mac_sep (hex_digit u n)"
  by (erule nibble_induct; simp add: hex_digit_def mac_sep_def)

lemma hwaddr_aton2_loop_octet:
  "hwaddr_aton2_loop (Suc n) (fmt_02x u b @ s) =
     do { (addr, r) \<leftarrow> hwaddr_aton2_loop n s; Some (b # addr, r) }"
  by (simp add: fmt_02x_cons hex_digit_no_sep hex2num_digit high_nibble low_nibble nibbles_join Let_def)

lemma hwaddr_aton2_loop_sep: "hwaddr_aton2_loop (Suc n) (0x3a # s) = hwaddr_aton2_loop (Suc n) s"
  by (simp add: mac_sep_def)

lemma hwaddr_aton2_loop_print:
  "hwaddr_aton2_loop (length addr) (macstr addr @ r) = Some (addr, r)"
proof (induction addr rule: macstr.induct)
  case 1
  then show ?case by simp
next
  case (2 b)
  then show ?case by (simp add: hwaddr_aton2_loop_octet del: hwaddr_aton2_loop.simps(2))
next
  case (3 b c cs)
  then show ?case
    by (simp add: hwaddr_aton2_loop_octet hwaddr_aton2_loop_sep del: hwaddr_aton2_loop.simps(2))
qed

lemma hwaddr_compact_loop_print:
  "hwaddr_compact_loop (length addr) (concat (map (fmt_02x u) addr) @ r) = Some addr"
  by (induction addr) (simp_all add: fmt_02x_cons hex2num_digit high_nibble low_nibble nibbles_join)

lemma macstr_nonsep: "length addr = 6 \<Longrightarrow> hwaddr_parse (macstr addr @ r) = Some (addr, r)"
  using hwaddr_parse_loop_print [of addr r] by (cases addr) (simp_all add: hwaddr_parse_def)

section \<open>Properties\<close>

text \<open>
  Hex dumps read back. A buffer of more than twice the data length receives the full dump
  (upper or lower case), its reported length is exact, and \<^verbatim>\<open>hexstr2bin\<close> recovers the data; in a
  smaller buffer the string still fits with its terminator.
\<close>
theorem hex_dump_roundtrip:
  assumes "0 < buf_size"
  shows "length (snd (wpa_snprintf_hex_gen buf_size data u)) < buf_size \<and>
    (2 * length data < buf_size \<longrightarrow>
       fst (wpa_snprintf_hex_gen buf_size data u) = length (snd (wpa_snprintf_hex_gen buf_size data u)) \<and>
       hexstr2bin (snd (wpa_snprintf_hex_gen buf_size data u)) (length data) = Some data)"
proof -
  obtain n t where nt: "snprintf_hex_loop u buf_size data = (n, t)" by fastforce
  have "hexstr2bin (concat (map (fmt_02x u) data)) (length data) = Some data"
    using hexstr2bin_print [of u data "[]"] by simp
  moreover have "length (concat (map (fmt_02x u) data)) = 2 * length data"
    by (induction data) simp_all
  ultimately show ?thesis
    using assms snprintf_hex_loop_bound [OF assms nt] snprintf_hex_loop_fits [of data buf_size u] nt
    by (auto simp: wpa_snprintf_hex_gen_def)
qed

theorem hex_dump_roundtrip_witness:
  "snd (wpa_snprintf_hex_gen 5 [0xab, 0x07] True) = [0x41, 0x42, 0x30, 0x37] \<and>
   hexstr2bin (snd (wpa_snprintf_hex_gen 5 [0xab, 0x07] True)) (Suc (Suc 0)) = Some [0xab, 0x07]"
  using hex_dump_roundtrip [of 5 "[0xab, 0x07]" True]
  by (simp add: wpa_snprintf_hex_gen_def fmt_02x_def hex_digit_def)

text \<open>
  MAC addresses read back in every notation the parsers accept: colon text by
  \<^verbatim>\<open>hwaddr_aton\<close> and by \<^verbatim>\<open>hwaddr_aton2\<close> (which reports the 17 characters used), plain hex
  by \<^verbatim>\<open>hwaddr_compact_aton\<close>.
\<close>
theorem hwaddr_roundtrip:
  assumes "length addr = 6"
  shows "hwaddr_aton (macstr addr @ r) = Some addr \<and> hwaddr_aton2 (macstr addr @ r) = Some (addr, 17) \<and>
    hwaddr_compact_aton (concat (map (fmt_02x u) addr) @ r) = Some addr"
proof -
  from assms obtain a b c d e f where addr: "addr = [a, b, c, d, e, f]"
    by (auto simp: numeral_eq_Suc length_Suc_conv)
  then have len: "length (macstr addr) = 17" by simp
  show ?thesis
    using macstr_nonsep [OF assms] hwaddr_aton2_loop_print [of addr r]
      hwaddr_compact_loop_print [of addr u r] assms len
    by (simp add: hwaddr_aton_def hwaddr_aton2_def hwaddr_compact_aton_def)
qed

theorem hwaddr_roundtrip_witness:
  "hwaddr_aton2 (macstr [0, 0x11, 0x22, 0xaa, 0xbb, 0xcc] @ [0x20]) = Some ([0, 0x11, 0x22, 0xaa, 0xbb, 0xcc], 17)"
  using hwaddr_roundtrip [of "[0, 0x11, 0x22, 0xaa, 0xbb, 0xcc]" "[0x20]"] by simp

text \<open>
  An address with a mask, printed by \<^verbatim>\<open>hwaddr_mask_txt\<close>, is parsed back to the same
  address and mask by \<^verbatim>\<open>hwaddr_masked_aton\<close>, whether or not the mask was printed (the all-ones
  mask is left out and is the parser's default).
\<close>
theorem hwaddr_mask_roundtrip:
  assumes "length addr = 6" "length msk = 6" "hwaddr_mask_txt len addr msk = Some t"
  shows "hwaddr_masked_aton t True = Some (addr, msk)"
proof (cases "list_ex (\<lambda>m. m \<noteq> 0xff) msk")
  case True
  then have "t = macstr addr @ [0x2f] @ macstr msk"
    using assms by (auto simp: hwaddr_mask_txt_def snprintf_ok_def split: if_splits)
  then show ?thesis
    using macstr_nonsep [OF assms(1), of "[0x2f] @ macstr msk"] macstr_nonsep [OF assms(2), of "[]"]
    by (simp add: hwaddr_masked_aton_def isspace_def)
next
  case False
  then have "t = macstr addr @ []"
    using assms by (auto simp: hwaddr_mask_txt_def snprintf_ok_def split: if_splits)
  moreover have "msk = replicate 6 0xff"
    using False assms(2) by (intro replicate_eqI) (auto simp: list_ex_iff)
  ultimately show ?thesis
    using macstr_nonsep [OF assms(1), of "[]"] by (simp add: hwaddr_masked_aton_def)
qed

theorem hwaddr_mask_roundtrip_witness:
  "\<exists>t. hwaddr_mask_txt 40 [2, 0, 0, 0, 0, 1] [0xff, 0xff, 0xff, 0, 0, 0] = Some t \<and>
     hwaddr_masked_aton t True = Some ([2, 0, 0, 0, 0, 1], [0xff, 0xff, 0xff, 0, 0, 0])"
proof -
  obtain t where t: "hwaddr_mask_txt 40 [2, 0, 0, 0, 0, 1] [0xff, 0xff, 0xff, 0, 0, 0] = Some t"
    by (simp add: hwaddr_mask_txt_def snprintf_ok_def)
  show ?thesis using hwaddr_mask_roundtrip [OF _ _ t] t by simp
qed

end
