(* ===== verification/StringCodec.thy ===== *)
theory StringCodec
  imports HexText
begin

text \<open>
  Escaped text, quoted configuration values, SSIDs and tokens: the string half of
  \<^verbatim>\<open>wpa_supplicant/src/utils/common.c\<close>. The argument \<open>mem\<close> of an operation that allocates
  says which sizes \<^verbatim>\<open>os_malloc\<close> can serve. Output buffers are given by their size and the
  result is the C string or byte block stored in them.
\<close>

section \<open>printf-style escapes\<close>

definition encode_byte :: "u8 \<Rightarrow> bytes" where
  "encode_byte b =
     (if b = 0x22 then [0x5c, 0x22]
      else if b = 0x5c then [0x5c, 0x5c]
      else if b = 0x1b then [0x5c, 0x65]
      else if b = 0x0a then [0x5c, 0x6e]
      else if b = 0x0d then [0x5c, 0x72]
      else if b = 0x09 then [0x5c, 0x74]
      else if 32 \<le> b \<and> b \<le> 126 then [b]
      else [0x5c, 0x78] @ fmt_02x False b)"

fun printf_encode_loop :: "nat \<Rightarrow> nat \<Rightarrow> bytes \<Rightarrow> bytes" where
  "printf_encode_loop maxlen used [] = []"
| "printf_encode_loop maxlen used (b # data) =
     (if maxlen \<le> used + 4 then []
      else encode_byte b @ printf_encode_loop maxlen (used + length (encode_byte b)) data)"

definition printf_encode :: "nat \<Rightarrow> bytes \<Rightarrow> bytes" where
  "printf_encode maxlen data = printf_encode_loop maxlen 0 data"

definition is_octal :: "u8 \<Rightarrow> bool" where
  "is_octal c \<longleftrightarrow> 0x30 \<le> c \<and> c \<le> 0x37"

text \<open>
  The inner switch of \<^verbatim>\<open>printf_decode\<close>, at the character after a backslash: the byte it
  stores, if any, and where it leaves \<^verbatim>\<open>pos\<close>.
\<close>

definition decode_octal :: "bytes \<Rightarrow> u8 \<times> bytes" where
  "decode_octal p =
     (let v0 = peek p - 0x30; p0 = drop 1 p;
          (v1, p1) = (if is_octal (peek p0) then (v0 * 8 + (peek p0 - 0x30), drop 1 p0) else (v0, p0))
      in if is_octal (peek p1) then (v1 * 8 + (peek p1 - 0x30), drop 1 p1) else (v1, p1))"

definition decode_escape :: "bytes \<Rightarrow> u8 option \<times> bytes" where
  "decode_escape p =
     (let c = peek p in
      if c = 0x5c then (Some 0x5c, drop 1 p)
      else if c = 0x22 then (Some 0x22, drop 1 p)
      else if c = 0x6e then (Some 0x0a, drop 1 p)
      else if c = 0x72 then (Some 0x0d, drop 1 p)
      else if c = 0x74 then (Some 0x09, drop 1 p)
      else if c = 0x65 then (Some 0x1b, drop 1 p)
      else if c = 0x78 then
        (let q = drop 1 p in
         case hex2byte q of
           Some v \<Rightarrow> (Some v, drop 2 q)
         | None \<Rightarrow> (case hex2num (peek q) of Some v \<Rightarrow> (Some v, drop 1 q) | None \<Rightarrow> (None, q)))
      else if is_octal c then (let (v, q) = decode_octal p in (Some v, q))
      else (None, p))"

lemma decode_escape_len: "length (snd (decode_escape p)) \<le> length p"
  by (auto simp: decode_escape_def decode_octal_def Let_def split: option.splits prod.splits if_splits)

lemma decode_escape_rest: "decode_escape p = (v, r) \<Longrightarrow> length r \<le> length p"
  using decode_escape_len [of p] by simp

function printf_decode_loop :: "nat \<Rightarrow> nat \<Rightarrow> bytes \<Rightarrow> bytes" where
  "printf_decode_loop maxlen len [] = []"
| "printf_decode_loop maxlen len (c # cs) =
     (if maxlen \<le> len + 1 then []
      else if c = 0x5c then
        (case decode_escape cs of
           (Some v, r) \<Rightarrow> v # printf_decode_loop maxlen (len + 1) r
         | (None, r) \<Rightarrow> printf_decode_loop maxlen len r)
      else c # printf_decode_loop maxlen (len + 1) cs)"
  by pat_completeness auto
termination
  by (relation "measure (\<lambda>(maxlen, len, s). length s)")
    (auto simp: less_Suc_eq_le dest: decode_escape_rest [OF sym])

definition printf_decode :: "nat \<Rightarrow> bytes \<Rightarrow> bytes" where
  "printf_decode maxlen str = printf_decode_loop maxlen 0 str"



section \<open>Configuration values and SSIDs\<close>





section \<open>Character classes\<close>

definition is_hex :: "bytes \<Rightarrow> bool" where
  "is_hex data = list_ex (\<lambda>b. b < 32 \<or> 127 \<le> b) data"

definition has_ctrl_char :: "bytes \<Rightarrow> bool" where
  "has_ctrl_char data = list_ex (\<lambda>b. b < 32 \<or> b = 127) data"

definition has_newline :: "bytes \<Rightarrow> bool" where
  "has_newline str = list_ex (\<lambda>b. b = 0x0a \<or> b = 0x0d) str"

definition is_ctrl_char :: "u8 \<Rightarrow> bool" where
  "is_ctrl_char c \<longleftrightarrow> 0 < sint c \<and> sint c < 32"

definition str_starts :: "bytes \<Rightarrow> bytes \<Rightarrow> bool" where
  "str_starts str start \<longleftrightarrow> take (length start) str = start"

section \<open>Tokens\<close>

text \<open>
  \<^verbatim>\<open>cstr_token\<close>: \<open>last\<close> is the offset saved by the previous call (\<open>None\<close> is NULL); the
  result is the token's offset and the new saved offset.
\<close>

definition cstr_token :: "bytes \<Rightarrow> bytes \<Rightarrow> nat option \<Rightarrow> (nat \<times> nat) option" where
  "cstr_token str delim saved =
     (let start = (case saved of None \<Rightarrow> 0 | Some l \<Rightarrow> l);
          token = dropWhile (\<lambda>c. c \<in> set delim) (drop start str)
      in case token of
           [] \<Rightarrow> None
         | c # cs \<Rightarrow> (let off = length str - length token
                     in Some (off, off + 1 + length (takeWhile (\<lambda>c. c \<notin> set delim) cs))))"

text \<open>\<^verbatim>\<open>str_token\<close> cuts the token out of the buffer and steps over the delimiter it overwrote.\<close>

definition str_token :: "bytes \<Rightarrow> bytes \<Rightarrow> nat option \<Rightarrow> (bytes \<times> nat) option" where
  "str_token str delim context =
     (case cstr_token str delim context of
        None \<Rightarrow> None
      | Some (off, e) \<Rightarrow> Some (take (e - off) (drop off str), if e < length str then e + 1 else e))"

text \<open>\<^verbatim>\<open>get_param\<close>: the text after the first occurrence of \<open>param\<close>, up to a space.\<close>

fun os_strstr :: "bytes \<Rightarrow> bytes \<Rightarrow> bytes option" where
  "os_strstr hay needle =
     (if take (length needle) hay = needle then Some hay
      else case hay of [] \<Rightarrow> None | _ # r \<Rightarrow> os_strstr r needle)"

definition get_param :: "(nat \<Rightarrow> bool) \<Rightarrow> bytes \<Rightarrow> bytes \<Rightarrow> bytes option" where
  "get_param mem cmd param =
     do { pos \<leftarrow> os_strstr cmd param;
          let val = takeWhile (\<lambda>c. c \<noteq> 0x20) (drop (length param) pos);
          if mem (length val + 1) then Some val else None }"

section \<open>Single-quote escapes\<close>

text \<open>
  \<^verbatim>\<open>utf8_unescape\<close> and \<^verbatim>\<open>utf8_escape\<close> over the input bytes (the C string when the given size
  is 0). The result is the returned length and the bytes stored; a return of 0 after a failed
  check leaves what was stored before it.
\<close>

fun utf8_unescape_loop :: "bytes \<Rightarrow> bytes \<Rightarrow> nat \<Rightarrow> nat \<times> bytes" where
  "utf8_unescape_loop [] out out_size = (length out, out)"
| "utf8_unescape_loop (c # cs) out out_size =
     (if out_size \<le> length out then (0, out)
      else if c = 0x27 then (length out, out)
      else if c = 0x5c then
        (case cs of [] \<Rightarrow> (0, out) | d # ds \<Rightarrow> utf8_unescape_loop ds (out @ [d]) out_size)
      else utf8_unescape_loop cs (out @ [c]) out_size)"

definition utf8_unescape :: "bytes \<Rightarrow> nat \<Rightarrow> nat \<times> bytes" where
  "utf8_unescape inp out_size =
     utf8_unescape_loop (if peek inp = 0x27 then drop 1 inp else inp) [] out_size"

fun utf8_escape_loop :: "bytes \<Rightarrow> bytes \<Rightarrow> nat \<Rightarrow> nat \<times> bytes" where
  "utf8_escape_loop [] out out_size = (length out, out)"
| "utf8_escape_loop (c # cs) out out_size =
     (if out_size \<le> length out then (0, out)
      else if c = 0x5c \<or> c = 0x27 then
        (if out_size \<le> length out + 1 then (0, out)
         else utf8_escape_loop cs (out @ [0x5c, c]) out_size)
      else utf8_escape_loop cs (out @ [c]) out_size)"

definition utf8_escape :: "bytes \<Rightarrow> nat \<Rightarrow> nat \<times> bytes" where
  "utf8_escape inp out_size = utf8_escape_loop inp [] out_size"

section \<open>Escapes decode to what was encoded\<close>

lemma encode_byte_length [len_simps]: "length (encode_byte b) \<le> 4" "encode_byte b \<noteq> []"
  by (simp_all add: encode_byte_def)


lemma encode_byte_cstr: "cstr (encode_byte b)"
proof -
  have "hex_digit False n \<noteq> 0" if "n < 16" for n
    using hex_digit_printable [OF that, of False] by auto
  then show ?thesis by (auto simp: encode_byte_def fmt_02x_def high_nibble low_nibble)
qed

lemma printf_encode_loop_bound:
  "used < maxlen \<Longrightarrow> used + length (printf_encode_loop maxlen used data) < maxlen"
proof (induction maxlen used data rule: printf_encode_loop.induct)
  case (2 maxlen used b data)
  then show ?case using encode_byte_length(1) [of b] by (cases "maxlen \<le> used + 4") auto
qed simp

lemma printf_encode_loop_full:
  "used + 4 * length data < maxlen \<Longrightarrow> printf_encode_loop maxlen used data = concat (map encode_byte data)"
proof (induction maxlen used data rule: printf_encode_loop.induct)
  case (2 maxlen used b data)
  then show ?case using encode_byte_length(1) [of b] by auto
qed simp

lemma decode_encoded_byte:
  "len + 1 < maxlen \<Longrightarrow>
     printf_decode_loop maxlen len (encode_byte b @ s) = b # printf_decode_loop maxlen (len + 1) s"
  by (auto simp: encode_byte_def decode_escape_def Let_def)

lemma decode_encoded:
  "len + length data < maxlen \<Longrightarrow>
     printf_decode_loop maxlen len (concat (map encode_byte data)) = data"
  by (induction data arbitrary: len) (simp_all add: decode_encoded_byte)

lemma printf_decode_loop_bound: "len < maxlen \<Longrightarrow> len + length (printf_decode_loop maxlen len s) < maxlen"
proof (induction maxlen len s rule: printf_decode_loop.induct)
  case (2 maxlen len c cs)
  then show ?case by (auto split: option.splits prod.splits)
qed simp

lemma decode_no_longer: "length (printf_decode_loop maxlen len s) \<le> length s"
proof (induction maxlen len s rule: printf_decode_loop.induct)
  case (2 maxlen len c cs)
  then show ?case using decode_escape_len [of cs]
    by (auto split: option.splits prod.splits simp: le_Suc_eq)
qed simp







section \<open>Tokenising\<close>

lemma cstr_token_end:
  "dropWhile (\<lambda>c. c \<in> set delim) (drop start str) = [] \<Longrightarrow> cstr_token str delim (Some start) = None"
  by (simp add: cstr_token_def del: dropWhile_eq_Nil_conv)

lemma cstr_token_split:
  assumes "cstr_token str delim saved = Some (off, e)"
    and "start = (case saved of None \<Rightarrow> 0 | Some l \<Rightarrow> l)"
  shows "start \<le> off \<and> off < e \<and> e \<le> length str \<and>
    take (off - start) (drop start str) = takeWhile (\<lambda>c. c \<in> set delim) (drop start str) \<and>
    take (e - off) (drop off str)
      = takeWhile (\<lambda>c. c \<notin> set delim) (dropWhile (\<lambda>c. c \<in> set delim) (drop start str)) \<and>
    drop e str = dropWhile (\<lambda>c. c \<notin> set delim) (dropWhile (\<lambda>c. c \<in> set delim) (drop start str))"
proof -
  let ?d = "\<lambda>c. c \<in> set delim"
  define rest where "rest = drop start str"
  obtain c cs where tok: "dropWhile ?d rest = c # cs"
    and off: "off = length str - length (c # cs)"
    and e: "e = off + 1 + length (takeWhile (\<lambda>c. c \<notin> set delim) cs)"
    using assms by (auto simp: cstr_token_def Let_def rest_def split: list.splits)
  have nd: "c \<notin> set delim" using hd_dropWhile [of ?d rest] tok by auto
  have rest: "rest = takeWhile ?d rest @ c # cs" using takeWhile_dropWhile_id [of ?d rest] tok by simp
  have st: "start \<le> length str" using tok by (cases "start \<le> length str") (auto simp: rest_def)
  have len: "length str = start + length (takeWhile ?d rest) + length (c # cs)"
    using arg_cong [OF rest, of length] st by (simp add: rest_def)
  have o: "off = start + length (takeWhile ?d rest)" using len off by simp
  have dr: "drop off str = c # cs"
  proof -
    have "drop off str = drop (length (takeWhile ?d rest)) rest"
      using o by (simp add: rest_def add.commute)
    then show ?thesis using rest by (metis append_eq_conv_conj)
  qed
  have "take (off - start) rest = takeWhile ?d rest"
    using o rest by (metis add_diff_cancel_left' append_eq_conv_conj)
  moreover have "take (e - off) (drop off str) = takeWhile (\<lambda>c. c \<notin> set delim) (c # cs)"
    using dr e nd by (simp add: takeWhile_eq_take [symmetric])
  moreover have "drop e str = dropWhile (\<lambda>c. c \<notin> set delim) (c # cs)"
  proof -
    have "drop e str = drop (e - off) (drop off str)" using e by (simp add: add.commute)
    then show ?thesis using dr e nd by (simp add: dropWhile_eq_drop)
  qed
  moreover have "e \<le> length str"
    using e off len length_takeWhile_le [of "\<lambda>c. c \<notin> set delim" cs] by simp
  ultimately show ?thesis using o e tok unfolding rest_def by simp
qed

text \<open>
  The loop every caller of \<^verbatim>\<open>str_token\<close> runs, and the specification it is compared with: the
  maximal runs of non-delimiters, from left to right.
\<close>

lemma str_token_progress:
  "str_token str delim (Some start) = Some (t, c) \<Longrightarrow> start < c \<and> c \<le> length str"
  using cstr_token_split [of str delim "Some start" _ _ start]
  by (fastforce simp: str_token_def split: option.splits prod.splits if_splits)

function str_tokens :: "bytes \<Rightarrow> bytes \<Rightarrow> nat \<Rightarrow> bytes list" where
  "str_tokens str delim start =
     (case str_token str delim (Some start) of
        None \<Rightarrow> []
      | Some (t, c) \<Rightarrow> t # str_tokens str delim c)"
  by pat_completeness auto
termination
  by (relation "measure (\<lambda>(str, delim, start). length str - start)")
    (auto dest: str_token_progress)

declare str_tokens.simps [simp del]

function split_runs :: "bytes \<Rightarrow> bytes \<Rightarrow> bytes list" where
  "split_runs delim s =
     (let t = dropWhile (\<lambda>c. c \<in> set delim) s in
      if t = [] then []
      else takeWhile (\<lambda>c. c \<notin> set delim) t # split_runs delim (dropWhile (\<lambda>c. c \<notin> set delim) t))"
  by pat_completeness auto
termination
proof (relation "measure (\<lambda>(delim, s). length s)", goal_cases)
  case (2 delim s t)
  then obtain c cs where t: "t = c # cs" by (meson neq_Nil_conv)
  then have "c \<notin> set delim" using hd_dropWhile [of "\<lambda>c. c \<in> set delim" s] 2 by auto
  then have "length (dropWhile (\<lambda>c. c \<notin> set delim) t) \<le> length cs"
    using t length_dropWhile_le [of "\<lambda>c. c \<notin> set delim" cs] by simp
  moreover have "length t \<le> length s" using 2 length_dropWhile_le [of "\<lambda>c. c \<in> set delim" s] by simp
  ultimately show ?case using t by simp
qed simp

declare split_runs.simps [simp del]

lemma split_runs_skip: "d \<in> set delim \<Longrightarrow> split_runs delim (d # s) = split_runs delim s"
  by (subst (1 2) split_runs.simps) simp

lemma str_tokens_split: "str_tokens str delim start = split_runs delim (drop start str)"
proof (induction str delim start rule: str_tokens.induct)
  case (1 str delim start)
  show ?case
  proof (cases "cstr_token str delim (Some start)")
    case None
    then have "dropWhile (\<lambda>c. c \<in> set delim) (drop start str) = []"
      by (auto simp: cstr_token_def Let_def split: list.splits)
    with None show ?thesis
      by (simp add: str_tokens.simps [of str] split_runs.simps [of delim] str_token_def)
  next
    case (Some p)
    obtain off e where p: "p = (off, e)" by fastforce
    define c where "c = (if e < length str then e + 1 else e)"
    note sp = cstr_token_split [OF Some [unfolded p] refl, unfolded option.case]
    let ?t = "dropWhile (\<lambda>c. c \<in> set delim) (drop start str)"
    have st: "str_token str delim (Some start) = Some (takeWhile (\<lambda>c. c \<notin> set delim) ?t, c)"
      using Some p sp by (simp add: str_token_def c_def)
    have ne: "?t \<noteq> []" using Some cstr_token_end [of delim start str] by auto
    have "split_runs delim (drop c str) = split_runs delim (drop e str)"
    proof (cases "e < length str")
      case True
      then have dr: "drop e str = str ! e # drop (Suc e) str" by (simp add: Cons_nth_drop_Suc)
      have "dropWhile (\<lambda>c. c \<notin> set delim) ?t = str ! e # drop (Suc e) str" using sp dr by argo
      then have "str ! e \<in> set delim" by (auto simp: dropWhile_eq_Cons_conv)
      with dr show ?thesis using True by (simp add: c_def split_runs_skip)
    qed (simp add: c_def)
    with "1.IH" [OF st refl] st sp ne show ?thesis
      by (simp add: str_tokens.simps [of str delim start] split_runs.simps [of delim "drop start str"] Let_def)
  qed
qed

section \<open>Single-quote escapes\<close>

lemma utf8_escape_loop_bound: "length out \<le> out_size \<Longrightarrow> length (snd (utf8_escape_loop inp out out_size)) \<le> out_size"
  by (induction inp out out_size rule: utf8_escape_loop.induct) auto

definition esc1 :: "u8 \<Rightarrow> bytes" where
  "esc1 c = (if c = 0x5c \<or> c = 0x27 then [0x5c, c] else [c])"

lemma utf8_escape_loop_full:
  "length out + 2 * length inp \<le> out_size \<Longrightarrow>
     utf8_escape_loop inp out out_size
       = (length out + length (concat (map esc1 inp)), out @ concat (map esc1 inp))"
  by (induction inp out out_size rule: utf8_escape_loop.induct) (auto simp: esc1_def)

lemma utf8_unescape_loop_esc:
  "length out + length inp \<le> out_size \<Longrightarrow>
     utf8_unescape_loop (concat (map esc1 inp)) out out_size = (length out + length inp, out @ inp)"
  by (induction inp arbitrary: out) (auto simp: esc1_def)

lemma esc1_no_quote: "peek (concat (map esc1 inp)) \<noteq> 0x27"
  by (cases inp) (auto simp: esc1_def)

section \<open>Properties\<close>

text \<open>
  C26: \<^verbatim>\<open>printf_encode\<close> never writes past its buffer (text and terminator fit whenever the buffer
  is not empty), and with room for four characters per byte \<^verbatim>\<open>printf_decode\<close> gives back exactly
  the original bytes, whatever they are.
\<close>
theorem printf_codec_roundtrip:
  assumes "0 < maxlen"
  shows "length (printf_encode maxlen data) < maxlen \<and>
    (4 * length data < maxlen \<and> length data < outlen \<longrightarrow>
       printf_decode outlen (printf_encode maxlen data) = data)"
  using printf_encode_loop_bound [of 0 maxlen data] printf_encode_loop_full [of 0 data maxlen]
    decode_encoded [of 0 data outlen] assms
  by (auto simp: printf_encode_def printf_decode_def)

theorem printf_codec_roundtrip_witness:
  "printf_decode 4 (printf_encode 13 [0x22, 0x00, 0xff]) = [0x22, 0x00, 0xff]"
  using printf_codec_roundtrip [of 13 "[0x22, 0x00, 0xff]" 4] by simp



text \<open>
  Repeated calls of \<^verbatim>\<open>str_token\<close> return exactly the maximal runs of non-delimiter characters
  of the string, in order, and the loop ends (each call moves the saved position forward).
\<close>
theorem str_token_runs: "str_tokens str delim 0 = split_runs delim str"
  using str_tokens_split [of str delim 0] by simp

text \<open>
  \<^verbatim>\<open>utf8_escape\<close> stays within its output buffer, and \<^verbatim>\<open>utf8_unescape\<close> undoes it for every
  byte string when both buffers are large enough.
\<close>
theorem utf8_escape_roundtrip:
  "length (snd (utf8_escape inp n)) \<le> n \<and>
   (2 * length inp \<le> n \<and> length inp \<le> m \<longrightarrow>
      utf8_unescape (snd (utf8_escape inp n)) m = (length inp, inp))"
  using utf8_escape_loop_bound [of "[]" n inp] utf8_escape_loop_full [of "[]" inp n]
    utf8_unescape_loop_esc [of "[]" inp m] esc1_no_quote [of inp]
  by (auto simp: utf8_escape_def utf8_unescape_def)

theorem utf8_escape_roundtrip_witness:
  "utf8_unescape (snd (utf8_escape [0x27, 0x5c, 0x41] 6)) 3 = (3, [0x27, 0x5c, 0x41])"
  using utf8_escape_roundtrip [of "[0x27, 0x5c, 0x41]" 6 3] by simp

end
