(* ===== verification/Wpabuf.thy ===== *)
theory Wpabuf
  imports HexText
begin

text \<open>
  Growable buffers: \<^verbatim>\<open>wpa_supplicant/src/utils/wpabuf.c\<close> and the inline operations of
  \<^verbatim>\<open>wpabuf.h\<close> (built without \<^verbatim>\<open>WPA_TRACE\<close>). The allocated storage is the list \<open>buf\<close>, of
  length \<open>bsize\<close>; \<^verbatim>\<open>wpabuf_overflow\<close> aborts the process, which is \<open>None\<close>. The argument
  \<open>mem\<close> says for which payload sizes an allocation succeeds. The locale \<open>append_buffer\<close> is the
  interface the message builders rely on.
\<close>

section \<open>The interface\<close>

locale append_buffer =
  fixes inv :: "'b \<Rightarrow> bool"
    and content :: "'b \<Rightarrow> bytes"
    and room :: "'b \<Rightarrow> nat"
    and put :: "'b \<Rightarrow> bytes \<Rightarrow> 'b option"
  assumes put_fits: "inv b \<Longrightarrow> length d \<le> room b \<Longrightarrow>
      \<exists>b'. put b d = Some b' \<and> inv b' \<and> content b' = content b @ d \<and> room b' = room b - length d"
    and put_overflow: "inv b \<Longrightarrow> room b < length d \<Longrightarrow> put b d = None"
begin

text \<open>A message is built by a sequence of puts; it succeeds exactly when the whole fits.\<close>

fun put_all :: "'b \<Rightarrow> bytes list \<Rightarrow> 'b option" where
  "put_all b [] = Some b"
| "put_all b (d # ds) = do { b' \<leftarrow> put b d; put_all b' ds }"

lemma put_all_fits:
  "inv b \<Longrightarrow> length (concat ds) \<le> room b \<Longrightarrow>
     \<exists>b'. put_all b ds = Some b' \<and> inv b' \<and> content b' = content b @ concat ds \<and>
          room b' = room b - length (concat ds)"
proof (induction ds arbitrary: b)
  case Nil
  then show ?case by simp
next
  case (Cons d ds)
  from put_fits [of b d] Cons.prems obtain b1 where b1: "put b d = Some b1" "inv b1"
    "content b1 = content b @ d" "room b1 = room b - length d" by auto
  have "length (concat ds) \<le> room b1" using Cons.prems b1 by simp
  from Cons.IH [OF b1(2) this] b1 show ?case by auto
qed

lemma put_all_overflow: "inv b \<Longrightarrow> room b < length (concat ds) \<Longrightarrow> put_all b ds = None"
proof (induction ds arbitrary: b)
  case Nil
  then show ?case by simp
next
  case (Cons d ds)
  show ?case
  proof (cases "length d \<le> room b")
    case True
    from put_fits [OF Cons.prems(1) True] obtain b1 where b1: "put b d = Some b1" "inv b1"
      "room b1 = room b - length d" by auto
    have "room b1 < length (concat ds)" using Cons.prems b1 True by simp
    from Cons.IH [OF b1(2) this] b1 show ?thesis by simp
  next
    case False
    then have "put b d = None" using put_overflow [OF Cons.prems(1)] by simp
    then show ?thesis by simp
  qed
qed

end

section \<open>The buffer\<close>

record wpabuf =
  bsize :: nat
  used :: nat
  buf :: bytes
  ext_data :: bool

definition wpabuf_len :: "wpabuf \<Rightarrow> nat" where "wpabuf_len b = used b"
definition wpabuf_tailroom :: "wpabuf \<Rightarrow> nat" where "wpabuf_tailroom b = bsize b - used b"

text \<open>What \<^verbatim>\<open>wpabuf_head\<close> and \<^verbatim>\<open>wpabuf_len\<close> delimit.\<close>

definition wpabuf_data :: "wpabuf \<Rightarrow> bytes" where "wpabuf_data b = take (used b) (buf b)"

definition wpabuf_inv :: "wpabuf \<Rightarrow> bool" where
  "wpabuf_inv b \<longleftrightarrow> length (buf b) = bsize b \<and> used b \<le> bsize b"

definition wpabuf_alloc :: "(nat \<Rightarrow> bool) \<Rightarrow> nat \<Rightarrow> wpabuf option" where
  "wpabuf_alloc mem len =
     (if mem len then Some \<lparr>bsize = len, used = 0, buf = replicate len 0, ext_data = False\<rparr> else None)"

definition wpabuf_alloc_ext_data :: "(nat \<Rightarrow> bool) \<Rightarrow> bytes \<Rightarrow> wpabuf option" where
  "wpabuf_alloc_ext_data mem data =
     (if mem 0 then Some \<lparr>bsize = length data, used = length data, buf = data, ext_data = True\<rparr> else None)"

definition wpabuf_resize :: "(nat \<Rightarrow> bool) \<Rightarrow> wpabuf option \<Rightarrow> nat \<Rightarrow> bool \<times> wpabuf option" where
  "wpabuf_resize mem ob add_len =
     (case ob of
        None \<Rightarrow> (let nb = wpabuf_alloc mem add_len in (nb \<noteq> None, nb))
      | Some b \<Rightarrow>
          if bsize b < used b + add_len then
            (if mem (used b + add_len)
             then (True, Some (b\<lparr>buf := take (used b) (buf b) @ replicate add_len 0, bsize := used b + add_len\<rparr>))
             else (False, Some b))
          else (True, Some b))"

text \<open>\<^verbatim>\<open>wpabuf_put\<close> reserves \<open>len\<close> bytes and returns their offset.\<close>

definition wpabuf_put :: "wpabuf \<Rightarrow> nat \<Rightarrow> (nat \<times> wpabuf) option" where
  "wpabuf_put b len =
     (let b1 = b\<lparr>used := used b + len\<rparr> in
      if bsize b1 < used b1 then None else Some (used b, b1))"

definition wpabuf_put_data :: "wpabuf \<Rightarrow> bytes \<Rightarrow> wpabuf option" where
  "wpabuf_put_data b data =
     do { (off, b1) \<leftarrow> wpabuf_put b (length data); Some (b1\<lparr>buf := patch (buf b1) off data\<rparr>) }"

definition wpabuf_put_u8 :: "wpabuf \<Rightarrow> u8 \<Rightarrow> wpabuf option" where
  "wpabuf_put_u8 b data = do { (off, b1) \<leftarrow> wpabuf_put b 1; Some (b1\<lparr>buf := patch (buf b1) off [data]\<rparr>) }"

definition wpabuf_put_be16 :: "wpabuf \<Rightarrow> u16 \<Rightarrow> wpabuf option" where
  "wpabuf_put_be16 b data =
     do { (off, b1) \<leftarrow> wpabuf_put b 2;
          Some (b1\<lparr>buf := patch (buf b1) off [ucast (drop_bit 8 data), ucast data]\<rparr>) }"

definition wpabuf_put_be32 :: "wpabuf \<Rightarrow> u32 \<Rightarrow> wpabuf option" where
  "wpabuf_put_be32 b data =
     do { (off, b1) \<leftarrow> wpabuf_put b 4;
          Some (b1\<lparr>buf := patch (buf b1) off
            [ucast (drop_bit 24 data), ucast (drop_bit 16 data), ucast (drop_bit 8 data), ucast data]\<rparr>) }"

definition wpabuf_put_buf :: "wpabuf \<Rightarrow> wpabuf \<Rightarrow> wpabuf option" where
  "wpabuf_put_buf dst src = wpabuf_put_data dst (wpabuf_data src)"

text \<open>
  The results of the allocating operations: \<open>Inl ()\<close> is an abort, \<open>Inr None\<close> a NULL.
\<close>

definition lift_put :: "wpabuf option \<Rightarrow> unit + wpabuf option" where
  "lift_put r = (case r of None \<Rightarrow> Inl () | Some b \<Rightarrow> Inr (Some b))"

definition wpabuf_alloc_copy :: "(nat \<Rightarrow> bool) \<Rightarrow> bytes \<Rightarrow> unit + wpabuf option" where
  "wpabuf_alloc_copy mem data =
     (case wpabuf_alloc mem (length data) of
        None \<Rightarrow> Inr None
      | Some b \<Rightarrow> lift_put (wpabuf_put_data b data))"

definition wpabuf_dup :: "(nat \<Rightarrow> bool) \<Rightarrow> wpabuf \<Rightarrow> unit + wpabuf option" where
  "wpabuf_dup mem src =
     (case wpabuf_alloc mem (wpabuf_len src) of
        None \<Rightarrow> Inr None
      | Some b \<Rightarrow> lift_put (wpabuf_put_data b (wpabuf_data src)))"

text \<open>\<^verbatim>\<open>wpabuf_clear_free\<close>: the storage as it is handed to \<^verbatim>\<open>wpabuf_free\<close>.\<close>

definition wpabuf_clear :: "wpabuf \<Rightarrow> wpabuf" where
  "wpabuf_clear b = b\<lparr>buf := patch (buf b) 0 (replicate (wpabuf_len b) 0)\<rparr>"

definition wpabuf_concat :: "(nat \<Rightarrow> bool) \<Rightarrow> wpabuf option \<Rightarrow> wpabuf option \<Rightarrow> unit + wpabuf option" where
  "wpabuf_concat mem oa ob =
     (case ob of
        None \<Rightarrow> Inr oa
      | Some b \<Rightarrow>
          (let len = (case oa of None \<Rightarrow> 0 | Some a \<Rightarrow> wpabuf_len a) + wpabuf_len b in
           case wpabuf_alloc mem len of
             None \<Rightarrow> Inr None
           | Some n \<Rightarrow>
               lift_put (do { n1 \<leftarrow> (case oa of None \<Rightarrow> Some n | Some a \<Rightarrow> wpabuf_put_buf n a);
                              wpabuf_put_buf n1 b })))"

definition wpabuf_zeropad :: "(nat \<Rightarrow> bool) \<Rightarrow> wpabuf option \<Rightarrow> nat \<Rightarrow> unit + wpabuf option" where
  "wpabuf_zeropad mem ob len =
     (case ob of
        None \<Rightarrow> Inr None
      | Some b \<Rightarrow>
          (let blen = wpabuf_len b in
           if len \<le> blen then Inr (Some b)
           else case wpabuf_alloc mem len of
             None \<Rightarrow> Inr None
           | Some r \<Rightarrow>
               lift_put (do { (off, r1) \<leftarrow> wpabuf_put r (len - blen);
                              let r2 = r1\<lparr>buf := patch (buf r1) off (replicate (len - blen) 0)\<rparr>;
                              wpabuf_put_buf r2 b })))"

text \<open>
  \<^verbatim>\<open>wpabuf_printf\<close>, given the text the format produces: text and terminator must fit, the
  terminator is stored but not counted.
\<close>

definition wpabuf_printf :: "wpabuf \<Rightarrow> bytes \<Rightarrow> wpabuf option" where
  "wpabuf_printf b text =
     (if bsize b - used b \<le> length text then None
      else Some (b\<lparr>buf := patch (buf b) (used b) (text @ [0]), used := used b + length text\<rparr>))"

definition wpabuf_parse_bin :: "(nat \<Rightarrow> bool) \<Rightarrow> bytes \<Rightarrow> unit + wpabuf option" where
  "wpabuf_parse_bin mem txt =
     (if odd (length txt) then Inr None
      else (let len = length txt div 2 in
            case wpabuf_alloc mem len of
              None \<Rightarrow> Inr None
            | Some r \<Rightarrow>
                (case wpabuf_put r len of
                   None \<Rightarrow> Inl ()
                 | Some (off, r1) \<Rightarrow>
                     (case hexstr2bin txt len of
                        None \<Rightarrow> Inr None
                      | Some d \<Rightarrow> Inr (Some (r1\<lparr>buf := patch (buf r1) off d\<rparr>))))))"

section \<open>The buffer implements the interface\<close>

lemma alloc_facts [inv_intros]:
  "wpabuf_alloc mem len = Some b \<Longrightarrow> wpabuf_inv b \<and> wpabuf_data b = [] \<and> wpabuf_tailroom b = len \<and> bsize b = len"
  by (auto simp: wpabuf_alloc_def wpabuf_inv_def wpabuf_data_def wpabuf_tailroom_def split: if_splits)

lemma length_wpabuf_data [len_simps]: "wpabuf_inv b \<Longrightarrow> length (wpabuf_data b) = wpabuf_len b"
  by (simp add: wpabuf_inv_def wpabuf_data_def wpabuf_len_def)

lemma put_data_fits:
  assumes "wpabuf_inv b" "length d \<le> wpabuf_tailroom b"
  shows "\<exists>b'. wpabuf_put_data b d = Some b' \<and> wpabuf_inv b' \<and> wpabuf_data b' = wpabuf_data b @ d \<and>
    wpabuf_tailroom b' = wpabuf_tailroom b - length d"
  using assms
  by (auto simp: wpabuf_put_data_def wpabuf_put_def wpabuf_inv_def wpabuf_data_def wpabuf_tailroom_def Let_def)

lemma put_data_overflow: "wpabuf_inv b \<Longrightarrow> wpabuf_tailroom b < length d \<Longrightarrow> wpabuf_put_data b d = None"
  by (auto simp: wpabuf_put_data_def wpabuf_put_def wpabuf_inv_def wpabuf_tailroom_def Let_def)

interpretation wb: append_buffer wpabuf_inv wpabuf_data wpabuf_tailroom wpabuf_put_data
  by unfold_locales (blast intro: put_data_fits put_data_overflow)+

text \<open>The typed puts are puts of the bytes they store.\<close>

lemma put_u8_data: "wpabuf_put_u8 b x = wpabuf_put_data b [x]"
  by (simp add: wpabuf_put_u8_def wpabuf_put_data_def)

lemma put_be16_data: "wpabuf_put_be16 b x = wpabuf_put_data b [ucast (drop_bit 8 x), ucast x]"
  by (simp add: wpabuf_put_be16_def wpabuf_put_data_def numeral_2_eq_2)

lemma put_be32_data:
  "wpabuf_put_be32 b x = wpabuf_put_data b
     [ucast (drop_bit 24 x), ucast (drop_bit 16 x), ucast (drop_bit 8 x), ucast x]"
  by (simp add: wpabuf_put_be32_def wpabuf_put_data_def numeral_eq_Suc)

section \<open>Whole messages\<close>

fun wpabuf_put_all :: "wpabuf \<Rightarrow> bytes list \<Rightarrow> wpabuf option" where
  "wpabuf_put_all b [] = Some b"
| "wpabuf_put_all b (d # ds) = do { b' \<leftarrow> wpabuf_put_data b d; wpabuf_put_all b' ds }"

lemma put_all_eq: "wpabuf_put_all b ds = wb.put_all b ds"
  by (induction ds arbitrary: b) simp_all

lemma resize_keeps:
  assumes "wpabuf_inv b" "wpabuf_resize mem (Some b) n = (ok, Some b')"
  shows "wpabuf_inv b' \<and> wpabuf_data b' = wpabuf_data b \<and> (ok \<longrightarrow> n \<le> wpabuf_tailroom b') \<and> (\<not> ok \<longrightarrow> b' = b)"
  using assms
  by (auto simp: wpabuf_resize_def wpabuf_inv_def wpabuf_data_def wpabuf_tailroom_def split: if_splits)

lemma put_fresh:
  assumes "wpabuf_alloc mem (length d) = Some b"
  shows "\<exists>b'. wpabuf_put_data b d = Some b' \<and> wpabuf_inv b' \<and> wpabuf_data b' = d"
  using wb.put_fits [of b d] alloc_facts [OF assms] by auto

lemma put_two_fresh:
  assumes "wpabuf_alloc mem (length d + length e) = Some b"
  shows "\<exists>b1 b2. wpabuf_put_data b d = Some b1 \<and> wpabuf_put_data b1 e = Some b2 \<and>
    wpabuf_inv b2 \<and> wpabuf_data b2 = d @ e"
  using wb.put_all_fits [of b "[d, e]"] alloc_facts [OF assms] by (auto simp: bind_Some_eq)

section \<open>Properties\<close>

text \<open>
  C29: Building a message: a sequence of puts into an allocated buffer aborts exactly when the
  pieces together exceed its size, and otherwise leaves exactly their concatenation, in order.
\<close>
theorem wpabuf_build_exact:
  assumes "wpabuf_alloc mem n = Some b"
  shows "(wpabuf_put_all b ds = None \<longleftrightarrow> n < length (concat ds)) \<and>
    (\<forall>b'. wpabuf_put_all b ds = Some b' \<longrightarrow>
       wpabuf_inv b' \<and> wpabuf_data b' = concat ds \<and> wpabuf_tailroom b' = n - length (concat ds))"
proof (cases "n < length (concat ds)")
  case True
  then show ?thesis
    using wb.put_all_overflow [of b ds] alloc_facts [OF assms] by (simp add: put_all_eq)
next
  case False
  then show ?thesis
    using wb.put_all_fits [of b ds] alloc_facts [OF assms] by (auto simp: put_all_eq)
qed

theorem wpabuf_build_exact_witness:
  "\<exists>b. wpabuf_alloc (\<lambda>_. True) 4 = Some b \<and> wpabuf_put_all b [[1, 2], [3], [4, 5]] = None \<and>
     wpabuf_put_all b [[1, 2], [3]] \<noteq> None"
proof -
  obtain b where b: "wpabuf_alloc (\<lambda>_. True) 4 = Some b" by (simp add: wpabuf_alloc_def)
  show ?thesis
    using wpabuf_build_exact [OF b, of "[[1, 2], [3], [4, 5]]"] wpabuf_build_exact [OF b, of "[[1, 2], [3]]"] b
    by simp
qed

text \<open>
  \<^verbatim>\<open>wpabuf_resize\<close> makes room without losing data: after it reports success, a put of up to the
  requested length cannot abort and appends to the old contents; after a failed allocation the
  buffer is unchanged.
\<close>
theorem wpabuf_resize_then_put:
  assumes "wpabuf_inv b" "wpabuf_resize mem (Some b) n = (ok, Some b')" "length d \<le> n"
  shows "(ok \<longrightarrow> (\<exists>b''. wpabuf_put_data b' d = Some b'' \<and> wpabuf_inv b'' \<and>
                   wpabuf_data b'' = wpabuf_data b @ d)) \<and> (\<not> ok \<longrightarrow> b' = b)"
  using resize_keeps [OF assms(1,2)] wb.put_fits [of b' d] assms(3) by auto

theorem wpabuf_resize_then_put_witness:
  "\<exists>b' b''. wpabuf_resize (\<lambda>_. True) (Some \<lparr>bsize = 2, used = 2, buf = [7, 8], ext_data = False\<rparr>) 3 = (True, Some b') \<and>
     wpabuf_put_data b' [9] = Some b'' \<and> wpabuf_data b'' = [7, 8, 9]"
proof -
  let ?b = "\<lparr>bsize = 2, used = 2, buf = [7, 8], ext_data = False\<rparr>"
  obtain b' where r: "wpabuf_resize (\<lambda>_. True) (Some ?b) 3 = (True, Some b')" by (simp add: wpabuf_resize_def)
  have "wpabuf_inv ?b" by (simp add: wpabuf_inv_def)
  from wpabuf_resize_then_put [OF this r, of "[9]"] r show ?thesis
    by (auto simp: wpabuf_data_def [of ?b])
qed

text \<open>
  The copying operations never abort: for well-formed inputs \<^verbatim>\<open>wpabuf_dup\<close>,
  \<^verbatim>\<open>wpabuf_concat\<close> and \<^verbatim>\<open>wpabuf_zeropad\<close> return NULL only when the allocation fails, and
  otherwise a well-formed buffer with the same data, the concatenation, or the data prefixed by
  zeros to the wanted length.
\<close>
theorem wpabuf_copy_ops:
  assumes "wpabuf_inv a" "wpabuf_inv b" "\<And>n. mem n"
  shows "(\<exists>r. wpabuf_dup mem a = Inr (Some r) \<and> wpabuf_inv r \<and> wpabuf_data r = wpabuf_data a) \<and>
    (\<exists>r. wpabuf_concat mem (Some a) (Some b) = Inr (Some r) \<and> wpabuf_inv r \<and>
         wpabuf_data r = wpabuf_data a @ wpabuf_data b) \<and>
    (\<exists>r. wpabuf_zeropad mem (Some a) n = Inr (Some r) \<and> wpabuf_inv r \<and>
         wpabuf_data r = replicate (n - wpabuf_len a) 0 @ wpabuf_data a)"
proof (intro conjI)
  obtain f where f: "wpabuf_alloc mem (length (wpabuf_data a)) = Some f"
    using assms(3) by (simp add: wpabuf_alloc_def)
  from put_fresh [OF f] f show "\<exists>r. wpabuf_dup mem a = Inr (Some r) \<and> wpabuf_inv r \<and> wpabuf_data r = wpabuf_data a"
    using assms by (auto simp: wpabuf_dup_def lift_put_def length_wpabuf_data)
  obtain g where g: "wpabuf_alloc mem (length (wpabuf_data a) + length (wpabuf_data b)) = Some g"
    using assms(3) by (simp add: wpabuf_alloc_def)
  from put_two_fresh [OF g] g
  show "\<exists>r. wpabuf_concat mem (Some a) (Some b) = Inr (Some r) \<and> wpabuf_inv r \<and>
         wpabuf_data r = wpabuf_data a @ wpabuf_data b"
    using assms by (auto simp: wpabuf_concat_def lift_put_def wpabuf_put_buf_def length_wpabuf_data Let_def)
  show "\<exists>r. wpabuf_zeropad mem (Some a) n = Inr (Some r) \<and> wpabuf_inv r \<and>
         wpabuf_data r = replicate (n - wpabuf_len a) 0 @ wpabuf_data a"
  proof (cases "n \<le> wpabuf_len a")
    case True
    then show ?thesis using assms by (simp add: wpabuf_zeropad_def)
  next
    case False
    let ?z = "replicate (n - wpabuf_len a) (0 :: u8)"
    obtain h where h: "wpabuf_alloc mem (length ?z + length (wpabuf_data a)) = Some h"
      using assms(3) by (simp add: wpabuf_alloc_def)
    obtain h1 h2 where "wpabuf_put_data h ?z = Some h1" "wpabuf_put_data h1 (wpabuf_data a) = Some h2"
      "wpabuf_inv h2" "wpabuf_data h2 = ?z @ wpabuf_data a"
      using put_two_fresh [OF h] by blast
    with False h show ?thesis
      using assms(1)
      by (auto simp: wpabuf_zeropad_def lift_put_def wpabuf_put_buf_def length_wpabuf_data Let_def
          wpabuf_put_data_def [of h] bind_Some_eq split: option.splits)
  qed
qed

theorem wpabuf_copy_ops_witness:
  "\<exists>r. wpabuf_zeropad (\<lambda>_. True) (Some \<lparr>bsize = 2, used = 1, buf = [7, 8], ext_data = False\<rparr>) 3 = Inr (Some r) \<and>
     wpabuf_data r = replicate 2 0 @ [7]"
proof -
  let ?b = "\<lparr>bsize = 2, used = 1, buf = [7, 8], ext_data = False\<rparr>"
  have i: "wpabuf_inv ?b" and d: "wpabuf_data ?b = [7]" "wpabuf_len ?b = 1"
    by (simp_all add: wpabuf_inv_def wpabuf_data_def wpabuf_len_def)
  from wpabuf_copy_ops [OF i i, of "\<lambda>_. True" 3, unfolded d] show ?thesis by auto
qed

end
