(* ===== verification/ByteOps.thy ===== *)
theory ByteOps
  imports Prelude
begin

text \<open>
  Byte-array counters and shifts, merged byte arrays, frequency ranges and zero-terminated integer
  arrays: the remaining helpers of \<^verbatim>\<open>wpa_supplicant/src/utils/common.c\<close>.
\<close>

section \<open>Counters and shifts\<close>

text \<open>The loop of \<^verbatim>\<open>inc_byte_array\<close> runs from the last byte: on the reversed list from the first.\<close>

fun inc_bytes_from_end :: "bytes \<Rightarrow> bytes" where
  "inc_bytes_from_end [] = []"
| "inc_bytes_from_end (b # bs) = (if b + 1 \<noteq> 0 then (b + 1) # bs else (b + 1) # inc_bytes_from_end bs)"

definition inc_byte_array :: "bytes \<Rightarrow> bytes" where
  "inc_byte_array counter = rev (inc_bytes_from_end (rev counter))"

text \<open>
  \<^verbatim>\<open>buf_shift_right\<close>: every byte takes the low bits of its old left neighbour. The C loop needs
  a non-empty buffer.
\<close>

fun shift_right_from :: "u8 \<Rightarrow> nat \<Rightarrow> bytes \<Rightarrow> bytes" where
  "shift_right_from p bits [] = []"
| "shift_right_from p bits (c # cs) = (push_bit (8 - bits) p OR drop_bit bits c) # shift_right_from c bits cs"

definition buf_shift_right :: "bytes \<Rightarrow> nat \<Rightarrow> bytes option" where
  "buf_shift_right buf bits =
     (case buf of [] \<Rightarrow> None | c # cs \<Rightarrow> Some (drop_bit bits c # shift_right_from c bits cs))"

text \<open>The value of a byte string, most significant byte first.\<close>

fun be_val :: "bytes \<Rightarrow> nat" where
  "be_val [] = 0"
| "be_val (b # bs) = unat b * 256 ^ length bs + be_val bs"

section \<open>Merging\<close>

text \<open>\<^verbatim>\<open>merge_byte_arrays\<close>: the returned length and the whole result buffer; a NULL source is \<open>None\<close>.\<close>

definition merge_byte_arrays :: "nat \<Rightarrow> bytes option \<Rightarrow> bytes option \<Rightarrow> nat \<times> bytes" where
  "merge_byte_arrays res_len src1 src2 =
     (let res = replicate res_len 0;
          second = (\<lambda>len res. case src2 of
              None \<Rightarrow> (len, res)
            | Some s \<Rightarrow>
                if res_len \<le> len + length s then (res_len, patch res len (take (res_len - len) s))
                else (len + length s, patch res len s))
      in case src1 of
           None \<Rightarrow> second 0 res
         | Some s \<Rightarrow>
             if res_len \<le> length s then (res_len, patch res 0 (take res_len s))
             else second (length s) (patch res 0 s))"

section \<open>Frequency ranges\<close>

record freq_range =
  fr_min :: u32
  fr_max :: u32

text \<open>\<^verbatim>\<open>atoi\<close>: white space, a sign, digits; a value outside \<^verbatim>\<open>int\<close> is undefined.\<close>

definition is_digit :: "u8 \<Rightarrow> bool" where "is_digit c \<longleftrightarrow> 0x30 \<le> c \<and> c \<le> 0x39"

definition digits_val :: "bytes \<Rightarrow> int" where
  "digits_val ds = foldl (\<lambda>v c. v * 10 + (uint c - 48)) 0 ds"

definition is_white :: "u8 \<Rightarrow> bool" where "is_white c \<longleftrightarrow> c = 0x20 \<or> (0x09 \<le> c \<and> c \<le> 0x0d)"

definition atoi :: "bytes \<Rightarrow> int option" where
  "atoi s =
     (let t = dropWhile is_white s;
          neg = (peek t = 0x2d);
          u = (if neg \<or> peek t = 0x2b then drop 1 t else t);
          v = digits_val (takeWhile is_digit u);
          r = (if neg then - v else v)
      in if - (2 ^ 31) \<le> r \<and> r < 2 ^ 31 then Some r else None)"

fun index_of :: "u8 \<Rightarrow> bytes \<Rightarrow> nat option" where
  "index_of c [] = None"
| "index_of c (x # xs) = (if x = c then Some 0 else map_option Suc (index_of c xs))"

text \<open>
  \<^verbatim>\<open>freq_range_list_parse\<close>; \<open>mem\<close> says whether the array for that many ranges can be
  allocated. \<open>None\<close> is a failed allocation or an undefined \<^verbatim>\<open>atoi\<close>.
\<close>

function freq_range_list_parse :: "(nat \<Rightarrow> bool) \<Rightarrow> nat \<Rightarrow> bytes \<Rightarrow> freq_range list option" where
  "freq_range_list_parse mem count pos =
     (if pos = [] then Some []
      else if \<not> mem (count + 1) then None
      else do {
        mn \<leftarrow> atoi pos;
        let pos2 = index_of 0x2d pos;
        let pos3 = index_of 0x2c pos;
        mx \<leftarrow> (case pos2 of
                 None \<Rightarrow> Some mn
               | Some i \<Rightarrow> if pos3 = None \<or> i < the pos3 then atoi (drop (i + 1) pos) else Some mn);
        rest \<leftarrow> (case pos3 of
                   None \<Rightarrow> Some []
                 | Some j \<Rightarrow> freq_range_list_parse mem (count + 1) (drop (j + 1) pos));
        Some (\<lparr>fr_min = word_of_int mn, fr_max = word_of_int mx\<rparr> # rest) })"
  by pat_completeness auto
termination
  by (relation "measure (\<lambda>(mem, count, pos). length pos)") auto

declare freq_range_list_parse.simps [simp del]

definition freq_range_list_includes :: "freq_range list option \<Rightarrow> u32 \<Rightarrow> bool" where
  "freq_range_list_includes ol freq =
     (case ol of None \<Rightarrow> False | Some l \<Rightarrow> list_ex (\<lambda>r. fr_min r \<le> freq \<and> freq \<le> fr_max r) l)"

fun decimal :: "nat \<Rightarrow> bytes" where
  "decimal n = (if n < 10 then [0x30 + of_nat n] else decimal (n div 10) @ [0x30 + of_nat (n mod 10)])"

declare decimal.simps [simp del]

definition range_text :: "freq_range \<Rightarrow> bytes" where
  "range_text r =
     (if fr_min r = fr_max r then decimal (unat (fr_min r))
      else decimal (unat (fr_min r)) @ [0x2d] @ decimal (unat (fr_max r)))"

fun freq_range_str_loop :: "nat \<Rightarrow> bool \<Rightarrow> freq_range list \<Rightarrow> bytes option" where
  "freq_range_str_loop room first [] = Some []"
| "freq_range_str_loop room first (r # rs) =
     (let t = (if first then [] else [0x2c]) @ range_text r in
      if room \<le> length t then None
      else do { u \<leftarrow> freq_range_str_loop (room - length t) False rs; Some (t @ u) })"

definition freq_range_list_str :: "(nat \<Rightarrow> bool) \<Rightarrow> freq_range list \<Rightarrow> bytes option" where
  "freq_range_list_str mem l =
     (if l = [] then None
      else if \<not> mem (length l * 30) then None
      else freq_range_str_loop (length l * 30) True l)"

section \<open>Zero-terminated integer arrays\<close>

text \<open>An array is the list of its cells, terminator included; NULL is \<open>None\<close>.\<close>

definition int_array_len :: "int list option \<Rightarrow> nat" where
  "int_array_len oa = (case oa of None \<Rightarrow> 0 | Some a \<Rightarrow> length (takeWhile (\<lambda>x. x \<noteq> 0) a))"

text \<open>\<^verbatim>\<open>int_array_concat\<close> reads \<open>a[0]\<close> even when \<open>a\<close> is NULL: \<open>Inl\<close> is that fault.\<close>

definition int_array_concat :: "(nat \<Rightarrow> bool) \<Rightarrow> int list option \<Rightarrow> int list option \<Rightarrow> unit + int list option" where
  "int_array_concat mem res oa =
     (let reslen = int_array_len res; alen = int_array_len oa in
      if \<not> mem (reslen + alen + 1) then Inr None
      else case oa of
        None \<Rightarrow> Inl ()
      | Some a \<Rightarrow> Inr (Some ((case res of None \<Rightarrow> [] | Some r \<Rightarrow> take reslen r) @ take (alen + 1) a)))"

text \<open>
  The compaction loop of \<^verbatim>\<open>int_array_sort_unique\<close>: \<open>cur\<close> is \<open>a[i]\<close>, the list what
  \<open>j\<close> has yet to visit. \<^verbatim>\<open>qsort\<close> with \<^verbatim>\<open>freq_cmp\<close> orders the non-zero cells ascending.
\<close>

fun unique_loop :: "int \<Rightarrow> int list \<Rightarrow> int list" where
  "unique_loop cur [] = [cur]"
| "unique_loop cur (x # xs) =
     (if x = 0 then [cur] else if cur = x then unique_loop cur xs else cur # unique_loop x xs)"

definition int_array_sort_unique :: "int list option \<Rightarrow> int list option" where
  "int_array_sort_unique oa =
     (case oa of
        None \<Rightarrow> None
      | Some a \<Rightarrow>
          (let alen = int_array_len oa; s = sort (take alen a) in
           Some ((case s of [] \<Rightarrow> [] | x # xs \<Rightarrow> unique_loop x xs) @ [0])))"

definition int_array_add_unique :: "(nat \<Rightarrow> bool) \<Rightarrow> int list option \<Rightarrow> int \<Rightarrow> int list option" where
  "int_array_add_unique mem res a =
     (let reslen = int_array_len res; vals = (case res of None \<Rightarrow> [] | Some r \<Rightarrow> take reslen r) in
      if a \<in> set vals then res
      else if mem (reslen + 2) then Some (vals @ [a, 0]) else None)"

section \<open>Random addresses and signal strength\<close>

text \<open>\<open>rnd\<close> is what \<^verbatim>\<open>os_get_random\<close> delivers, \<open>None\<close> its failure.\<close>

definition random_mac_addr :: "bytes option \<Rightarrow> bytes option" where
  "random_mac_addr rnd = map_option (\<lambda>r. case r of [] \<Rightarrow> [] | b # bs \<Rightarrow> ((b AND 0xfe) OR 0x02) # bs) rnd"

definition random_mac_addr_keep_oui :: "bytes option \<Rightarrow> bytes \<Rightarrow> bytes option" where
  "random_mac_addr_keep_oui rnd addr =
     map_option (\<lambda>r. case take 3 addr @ r of [] \<Rightarrow> [] | b # bs \<Rightarrow> ((b AND 0xfe) OR 0x02) # bs) rnd"

definition rssi_to_rcpi :: "int \<Rightarrow> u8" where
  "rssi_to_rcpi rssi =
     (if rssi = 0 then 255
      else if rssi < -110 then 0
      else if rssi > 0 then 220
      else word_of_int ((rssi + 110) * 2))"

section \<open>Counter and shift arithmetic\<close>

lemma be_val_append: "be_val (xs @ ys) = be_val xs * 256 ^ length ys + be_val ys"
  by (induction xs) (simp_all add: algebra_simps power_add)

lemma be_val_bound: "be_val bs < 256 ^ length bs"
proof (induction bs)
  case (Cons b bs)
  have "unat b * 256 ^ length bs + be_val bs < unat b * 256 ^ length bs + 256 ^ length bs"
    using Cons by simp
  also have "\<dots> = Suc (unat b) * 256 ^ length bs" by simp
  also have "\<dots> \<le> 256 * 256 ^ length bs"
    using unat_u8_less [of b] by (intro mult_right_mono) simp_all
  finally show ?case by simp
qed simp

lemma unat_inc: "b + 1 \<noteq> 0 \<Longrightarrow> unat (b + 1 :: u8) = unat b + 1" "b + 1 = 0 \<Longrightarrow> unat (b :: u8) = 255"
proof -
  show "unat (b + 1) = unat b + 1" if "b + 1 \<noteq> 0"
    using that by (metis add.commute unatSuc Suc_eq_plus1)
  show "unat b = 255" if "b + 1 = 0"
  proof -
    from that have "b = - 1" by (simp add: eq_neg_iff_add_eq_0)
    then have "b = 255" by simp
    then show ?thesis by (simp only: unat_numeral) simp
  qed
qed

lemma length_inc_from_end [simp, len_simps]: "length (inc_bytes_from_end bs) = length bs"
  by (induction bs) simp_all

lemma be_val_inc: "be_val (rev (inc_bytes_from_end bs)) = (be_val (rev bs) + 1) mod 256 ^ length bs"
proof (induction bs)
  case (Cons b bs)
  let ?V = "be_val (rev bs)" and ?N = "256 ^ length bs :: nat"
  have V: "?V < ?N" using be_val_bound [of "rev bs"] by simp
  show ?case
  proof (cases "b + 1 = 0")
    case False
    then have "?V * 256 + unat b + 1 = be_val (rev bs @ [b + 1])"
      by (simp add: be_val_append unat_inc)
    also have "\<dots> < 256 * ?N" using be_val_bound [of "rev bs @ [b + 1]"] by simp
    finally show ?thesis using False by (simp add: be_val_append unat_inc)
  next
    case True
    have "?V * 256 + 256 = 256 * (?V + 1)" by simp
    then have "(?V * 256 + 256) mod (256 * ?N) = 256 * ((?V + 1) mod ?N)"
      by (metis mult_mod_right)
    then show ?thesis using True Cons by (simp add: be_val_append unat_inc add.commute mult.commute)
  qed
qed simp

lemma bit_u8D: "bit (c :: u8) n \<Longrightarrow> n < 8"
  using bit_imp_le_length [of c n] by simp

lemma shift_byte:
  assumes "bits \<le> 8"
  shows "unat (push_bit (8 - bits) p OR drop_bit bits c :: u8) = ((unat p * 256 + unat c) div 2 ^ bits) mod 256"
proof -
  have "unat p * 256 + unat c = push_bit 8 (unat p) + unat c" by (simp add: push_bit_eq_mult)
  also have "\<dots> = push_bit 8 (unat p) OR unat c"
    by (rule disjunctive_add) (auto simp: bit_simps dest: bit_u8D)
  finally have "((unat p * 256 + unat c) div 2 ^ bits) mod 256
      = take_bit 8 (drop_bit bits (push_bit 8 (unat p) OR unat c))"
    by (simp add: take_bit_eq_mod drop_bit_eq_div)
  also have "\<dots> = unat (push_bit (8 - bits) p OR drop_bit bits c :: u8)"
    by (rule bit_eqI) (use assms in \<open>auto simp: bit_simps add.commute dest: bit_u8D\<close>)
  finally show ?thesis by simp
qed

lemma div_swap: "(a :: nat) div b div c = a div c div b"
  by (simp add: mult.commute flip: div_mult2_eq)

lemma div_mod_digit:
  fixes a :: nat
  shows "a mod (n * m) = (a div n mod m) * n + a mod n"
  by (metis add.commute mod_mult2_eq mult.commute)

lemma be_val_shift_from:
  assumes "bits \<le> 8"
  shows "be_val (shift_right_from p bits cs)
     = ((unat p * 256 ^ length cs + be_val cs) div 2 ^ bits) mod 256 ^ length cs"
proof (induction cs arbitrary: p)
  case (Cons c cs)
  let ?N = "256 ^ length cs :: nat" and ?V = "be_val cs" and ?B = "2 ^ bits :: nat"
  let ?X = "(unat p * 256 + unat c) * ?N + ?V"
  have V: "?V < ?N" by (rule be_val_bound)
  have len: "length (shift_right_from q bits cs) = length cs" for q
    by (induction cs arbitrary: q) simp_all
  have B: "256 = ?B * 2 ^ (8 - bits)" using assms by (simp flip: power_add)
  have hi: "?X div ?B div ?N = (unat p * 256 + unat c) div ?B"
  proof -
    have "?X div ?B div ?N = ?X div ?N div ?B" by (rule div_swap)
    also have "?X div ?N = unat p * 256 + unat c" using V by simp
    finally show ?thesis .
  qed
  have lo: "?X div ?B mod ?N = (unat c * ?N + ?V) div ?B mod ?N"
  proof -
    have "?X = unat p * 2 ^ (8 - bits) * ?N * ?B + (unat c * ?N + ?V)"
      by (subst B) (simp add: algebra_simps)
    then have "?X div ?B = (unat p * 2 ^ (8 - bits) * ?N * ?B + (unat c * ?N + ?V)) div ?B" by (rule arg_cong)
    also have "\<dots> = unat p * 2 ^ (8 - bits) * ?N + (unat c * ?N + ?V) div ?B"
      by (rule div_mult_self3) simp
    finally have "?X div ?B = unat p * 2 ^ (8 - bits) * ?N + (unat c * ?N + ?V) div ?B" .
    then show ?thesis by simp
  qed
  have "?X div ?B mod (?N * 256) = (?X div ?B div ?N mod 256) * ?N + ?X div ?B mod ?N"
    by (rule div_mod_digit)
  then show ?case
    using hi lo Cons.IH [of c] len shift_byte [OF assms, of p c]
    by (simp add: algebra_simps)
qed simp

section \<open>Decimal text\<close>

lemma digit_unat: "n < 10 \<Longrightarrow> uint (0x30 + of_nat n :: u8) = 48 + int n"
proof -
  assume "n < 10"
  then have "n \<in> {0, 1, 2, 3, 4, 5, 6, 7, 8, 9}" by auto
  then show ?thesis by (elim insertE emptyE) simp_all
qed

lemma digit_is_digit: "n < 10 \<Longrightarrow> is_digit (0x30 + of_nat n)"
proof -
  assume "n < 10"
  then have "n \<in> {0, 1, 2, 3, 4, 5, 6, 7, 8, 9}" by auto
  then show ?thesis by (elim insertE emptyE) (simp_all add: is_digit_def)
qed

lemma decimal_digits: "\<forall>c \<in> set (decimal n). is_digit c"
proof (induction n rule: decimal.induct)
  case (1 n)
  then show ?case by (subst decimal.simps) (auto simp: digit_is_digit)
qed

lemma decimal_not_empty: "decimal n \<noteq> []"
  by (subst decimal.simps) simp

lemma digits_val_decimal: "digits_val (decimal n) = int n"
proof (induction n rule: decimal.induct)
  case (1 n)
  show ?case
  proof (cases "n < 10")
    case True
    then show ?thesis by (simp add: decimal.simps [of n] digits_val_def digit_unat)
  next
    case False
    with 1 have IH: "foldl (\<lambda>v c. v * 10 + (uint c - 48)) 0 (decimal (n div 10)) = int (n div 10)"
      by (simp add: digits_val_def)
    have "int (n div 10) * 10 + int (n mod 10) = int n"
      by (metis div_mult_mod_eq of_nat_add of_nat_mult of_nat_numeral)
    with False IH show ?thesis
      by (simp add: decimal.simps [of n] digits_val_def digit_unat)
  qed
qed

lemma is_digit_facts: "is_digit c \<Longrightarrow> \<not> is_white c \<and> c \<noteq> 0x2d \<and> c \<noteq> 0x2b \<and> c \<noteq> 0x2c"
  by (auto simp: is_digit_def is_white_def word_le_nat_alt)

lemma atoi_decimal:
  assumes "n < 2 ^ 31" "rest = [] \<or> \<not> is_digit (hd rest)"
  shows "atoi (decimal n @ rest) = Some (int n)"
proof -
  obtain d ds where d: "decimal n = d # ds" "is_digit d"
    using decimal_not_empty [of n] decimal_digits [of n] by (cases "decimal n") auto
  have "takeWhile is_digit (decimal n @ rest) = decimal n"
    using decimal_digits [of n] assms(2) by (cases rest) (auto simp: takeWhile_append)
  then show ?thesis using d is_digit_facts [OF d(2)] assms(1) digits_val_decimal [of n]
    by (simp add: atoi_def Let_def)
qed

lemma index_of_append: "c \<notin> set xs \<Longrightarrow> index_of c (xs @ ys) = map_option ((+) (length xs)) (index_of c ys)"
  by (induction xs) (auto simp: option.map_comp o_def fun_eq_iff cong: option.map_cong split: option.splits
      intro: option.map_ident [symmetric])

lemma index_of_none: "c \<notin> set xs \<Longrightarrow> index_of c xs = None"
  by (induction xs) auto

lemma decimal_no_sep: "0x2d \<notin> set (decimal n)" "0x2c \<notin> set (decimal n)"
  using decimal_digits [of n] by (auto simp: is_digit_def)

section \<open>Frequency ranges read back\<close>

definition small_range :: "freq_range \<Rightarrow> bool" where
  "small_range r \<longleftrightarrow> unat (fr_min r) < 2 ^ 31 \<and> unat (fr_max r) < 2 ^ 31"

lemma range_text_no_comma: "0x2c \<notin> set (range_text r)"
  using decimal_no_sep by (auto simp: range_text_def)

lemma range_text_not_empty [simp]: "range_text r \<noteq> []"
  using decimal_not_empty by (auto simp: range_text_def)

text \<open>The text after a range is empty or starts with the comma before the next one.\<close>

definition range_tail :: "bytes \<Rightarrow> bool" where
  "range_tail t \<longleftrightarrow> t = [] \<or> hd t = 0x2c"

lemma range_tail_no_digit: "range_tail t \<Longrightarrow> t = [] \<or> \<not> is_digit (hd t)"
  by (auto simp: range_tail_def is_digit_def)

lemma index_comma:
  assumes "range_tail t"
  shows "index_of 0x2c (range_text r @ t) = (if t = [] then None else Some (length (range_text r)))"
proof (cases t)
  case Nil
  then show ?thesis using range_text_no_comma [of r] by (simp add: index_of_none)
next
  case (Cons c cs)
  then show ?thesis using assms range_text_no_comma [of r] by (simp add: index_of_append range_tail_def)
qed

lemma dash_in_range:
  assumes "fr_min r \<noteq> fr_max r"
  shows "index_of 0x2d (range_text r @ t) = Some (length (decimal (unat (fr_min r))))"
    and "length (decimal (unat (fr_min r))) < length (range_text r)"
    and "drop (Suc (length (decimal (unat (fr_min r))))) (range_text r @ t) = decimal (unat (fr_max r)) @ t"
  using assms decimal_no_sep(1) [of "unat (fr_min r)"] by (simp_all add: range_text_def index_of_append)

lemma dash_after_range:
  assumes "fr_min r = fr_max r" "range_tail t" "index_of 0x2d (range_text r @ t) = Some i"
  shows "t \<noteq> [] \<and> length (range_text r) < i"
  using assms decimal_no_sep(1) [of "unat (fr_max r)"]
  by (cases t) (auto simp: range_text_def index_of_append index_of_none range_tail_def)

lemma parse_one_range:
  assumes "small_range r" "range_tail t"
  shows "freq_range_list_parse (\<lambda>_. True) count (range_text r @ t) =
    map_option ((#) r) (if t = [] then Some [] else freq_range_list_parse (\<lambda>_. True) (count + 1) (drop 1 t))"
proof -
  let ?s = "range_text r @ t"
  have a: "atoi ?s = Some (int (unat (fr_min r)))"
    using assms(1) atoi_decimal [OF _ range_tail_no_digit [OF assms(2)], of "unat (fr_min r)"]
      atoi_decimal [of "unat (fr_min r)" "0x2d # decimal (unat (fr_max r)) @ t"]
    by (cases "fr_min r = fr_max r") (simp_all add: range_text_def small_range_def is_digit_def)
  have mx: "(case index_of 0x2d ?s of None \<Rightarrow> Some (int (unat (fr_min r)))
      | Some i \<Rightarrow> if index_of 0x2c ?s = None \<or> i < the (index_of 0x2c ?s) then atoi (drop (i + 1) ?s)
                  else Some (int (unat (fr_min r)))) = Some (int (unat (fr_max r)))"
  proof (cases "fr_min r = fr_max r")
    case True
    then show ?thesis using dash_after_range [OF True assms(2)] index_comma [OF assms(2), of r]
      by (fastforce split: option.splits)
  next
    case False
    then show ?thesis
      using dash_in_range(1) [OF False, of t] dash_in_range(2) [OF False] dash_in_range(3) [OF False, of t] index_comma [OF assms(2), of r] assms(1)
        atoi_decimal [OF _ range_tail_no_digit [OF assms(2)], of "unat (fr_max r)"]
      by (simp add: small_range_def)
  qed
  have r: "\<lparr>fr_min = word_of_int (int (unat (fr_min r))), fr_max = word_of_int (int (unat (fr_max r)))\<rparr> = r"
    by (simp add: uint_nat [symmetric])
  have m: "map_option ((#) r) o' = do { rest \<leftarrow> o'; Some (r # rest) }" for o'
    by (cases o') simp_all
  show ?thesis
    unfolding freq_range_list_parse.simps [of _ count] Let_def a Option.bind.simps mx r m
    using index_comma [OF assms(2), of r] by simp
qed

fun ranges_text :: "freq_range list \<Rightarrow> bytes" where
  "ranges_text [] = []"
| "ranges_text [r] = range_text r"
| "ranges_text (r # rs) = range_text r @ 0x2c # ranges_text rs"

lemma parse_ranges_text:
  "list_all small_range l \<Longrightarrow> freq_range_list_parse (\<lambda>_. True) count (ranges_text l) = Some l"
proof (induction l arbitrary: count rule: ranges_text.induct)
  case 1
  then show ?case by (simp add: freq_range_list_parse.simps)
next
  case (2 r)
  then show ?case using parse_one_range [of r "[]" count] by (simp add: range_tail_def)
next
  case (3 r q rs)
  then show ?case
    using parse_one_range [of r "0x2c # ranges_text (q # rs)" count] by (simp add: range_tail_def)
qed

lemma length_decimal: "n < 10 ^ k \<Longrightarrow> 0 < k \<Longrightarrow> length (decimal n) \<le> k"
proof (induction n arbitrary: k rule: decimal.induct)
  case (1 n)
  show ?case
  proof (cases "n < 10")
    case True
    with 1 show ?thesis by (simp add: decimal.simps [of n])
  next
    case False
    have "k \<noteq> 1" using False "1.prems" by auto
    with "1.prems" obtain j where k: "k = Suc j" "0 < j" by (cases k) auto
    with "1.prems" have "n div 10 < 10 ^ j" by (simp add: less_mult_imp_div_less mult.commute)
    from "1.IH" [OF False this k(2)] False k show ?thesis by (simp add: decimal.simps [of n])
  qed
qed

lemma length_range_text: "length (range_text r) \<le> 21"
proof -
  have "length (decimal (unat (w :: u32))) \<le> 10" for w
    using unat_u32_less [of w] by (intro length_decimal) simp_all
  from this [of "fr_min r"] this [of "fr_max r"] show ?thesis by (auto simp: range_text_def)
qed

lemma str_loop_fits:
  "30 * length l < room + 8 \<Longrightarrow> freq_range_str_loop room first l
     = Some ((if first \<or> l = [] then [] else [0x2c]) @ ranges_text l)"
proof (induction room first l rule: freq_range_str_loop.induct)
  case (2 room first r rs)
  have "length ((if first then [] else [0x2c]) @ range_text r) \<le> 22" using length_range_text [of r] by simp
  with 2 show ?case by (cases rs) (auto simp: Let_def)
qed simp

section \<open>Sorted unique arrays\<close>

lemma unique_loop_spec:
  assumes "0 \<notin> set (x # xs)" "sorted (x # xs)"
  shows "sorted (unique_loop x xs) \<and> distinct (unique_loop x xs) \<and> set (unique_loop x xs) = set (x # xs)"
  using assms
proof (induction x xs rule: unique_loop.induct)
  case (1 cur)
  then show ?case by simp
next
  case (2 cur x xs)
  then show ?case by (cases "cur = x") auto
qed

definition int_array_vals :: "int list option \<Rightarrow> int list" where
  "int_array_vals oa = (case oa of None \<Rightarrow> [] | Some a \<Rightarrow> takeWhile (\<lambda>x. x \<noteq> 0) a)"

lemma vals_take: "take (int_array_len (Some a)) a = int_array_vals (Some a)"
  by (simp add: int_array_len_def int_array_vals_def takeWhile_eq_take [symmetric])

lemma vals_nonzero: "0 \<notin> set (int_array_vals oa)"
  by (auto simp: int_array_vals_def dest: set_takeWhileD split: option.splits)

lemma vals_terminated: "0 \<notin> set xs \<Longrightarrow> int_array_vals (Some (xs @ [0])) = xs"
  by (auto simp: int_array_vals_def takeWhile_append)

lemma sort_unique_vals:
  "\<exists>u. int_array_sort_unique (Some a) = Some (u @ [0]) \<and> sorted u \<and> distinct u \<and>
     set u = set (int_array_vals (Some a))"
proof (cases "sort (int_array_vals (Some a))")
  case Nil
  moreover from Nil have "set (int_array_vals (Some a)) = {}" by (metis set_sort set_empty)
  ultimately show ?thesis by (simp add: int_array_sort_unique_def vals_take)
next
  case (Cons x xs)
  have s: "set (x # xs) = set (int_array_vals (Some a))" by (metis Cons set_sort)
  have "sorted (x # xs)" by (metis Cons sorted_sort)
  with unique_loop_spec [of x xs] s vals_nonzero [of "Some a"] show ?thesis
    by (auto simp: int_array_sort_unique_def vals_take Cons)
qed

section \<open>Properties\<close>

text \<open>
  \<^verbatim>\<open>inc_byte_array\<close> adds one to the buffer read as a big-endian number, modulo 256 to its
  length, so the all-ones counter wraps to zero; the length is kept.
\<close>
theorem inc_byte_array_value:
  "be_val (inc_byte_array c) = (be_val c + 1) mod 256 ^ length c \<and> length (inc_byte_array c) = length c"
  using be_val_inc [of "rev c"] by (simp add: inc_byte_array_def)

text \<open>
  \<^verbatim>\<open>buf_shift_right\<close> by at most eight bits divides the big-endian number by that power of two.
\<close>
theorem buf_shift_right_value:
  assumes "buf \<noteq> []" "bits \<le> 8"
  shows "\<exists>r. buf_shift_right buf bits = Some r \<and> length r = length buf \<and> be_val r = be_val buf div 2 ^ bits"
proof -
  have z: "drop_bit bits c # shift_right_from c bits cs = shift_right_from 0 bits (c # cs)" for c cs
    by simp
  have len: "length (shift_right_from p bits cs) = length cs" for p cs
    by (induction cs arbitrary: p) simp_all
  have "be_val buf div 2 ^ bits < 256 ^ length buf"
    using be_val_bound [of buf] by (meson div_le_dividend order_le_less_trans)
  then have "be_val (shift_right_from 0 bits buf) = be_val buf div 2 ^ bits"
    using be_val_shift_from [OF assms(2), of 0 buf] by simp
  with assms(1) show ?thesis
    by (cases buf) (simp_all add: buf_shift_right_def z len del: shift_right_from.simps)
qed

theorem buf_shift_right_value_witness:
  "\<exists>r. buf_shift_right [0x12, 0x34] 4 = Some r \<and> be_val r = 0x123"
  using buf_shift_right_value [of "[0x12, 0x34]" 4] by auto

text \<open>
  A frequency list survives its text form: \<^verbatim>\<open>freq_range_list_str\<close> always fits the buffer it
  allocates, and \<^verbatim>\<open>freq_range_list_parse\<close> of its text is the same list of ranges.
\<close>
theorem freq_range_roundtrip:
  assumes "l \<noteq> []" "list_all small_range l" "\<And>n. mem n"
  shows "\<exists>t. freq_range_list_str mem l = Some t \<and> freq_range_list_parse mem 0 t = Some l"
proof -
  have mem: "mem = (\<lambda>_. True)" using assms(3) by auto
  have "freq_range_str_loop (length l * 30) True l = Some (ranges_text l)"
    using str_loop_fits [of l "length l * 30" True] by simp
  with assms(1,2) show ?thesis by (simp add: mem freq_range_list_str_def parse_ranges_text)
qed

theorem freq_range_roundtrip_witness:
  "\<exists>t. freq_range_list_str (\<lambda>_. True) [\<lparr>fr_min = 2412, fr_max = 2432\<rparr>, \<lparr>fr_min = 2462, fr_max = 2462\<rparr>] = Some t \<and>
     freq_range_list_parse (\<lambda>_. True) 0 t = Some [\<lparr>fr_min = 2412, fr_max = 2432\<rparr>, \<lparr>fr_min = 2462, fr_max = 2462\<rparr>]"
  by (rule freq_range_roundtrip) (simp_all add: small_range_def)

text \<open>
  \<^verbatim>\<open>int_array_sort_unique\<close> turns a zero-terminated array into the strictly ascending
  zero-terminated array of the same values, and \<^verbatim>\<open>int_array_add_unique\<close> of a non-zero value to a
  duplicate-free array keeps it duplicate-free and adds exactly that value.
\<close>
theorem int_array_unique:
  assumes "0 \<in> set a"
  shows "(\<exists>u. int_array_sort_unique (Some a) = Some u \<and> sorted (int_array_vals (Some u)) \<and>
            distinct (int_array_vals (Some u)) \<and> set (int_array_vals (Some u)) = set (int_array_vals (Some a))) \<and>
    (x \<noteq> 0 \<and> mem (int_array_len (Some a) + 2) \<and> distinct (int_array_vals (Some a)) \<longrightarrow>
       distinct (int_array_vals (int_array_add_unique mem (Some a) x)) \<and>
       set (int_array_vals (int_array_add_unique mem (Some a) x)) = insert x (set (int_array_vals (Some a))))"
proof (intro conjI impI)
  obtain u where u: "int_array_sort_unique (Some a) = Some (u @ [0])" "sorted u" "distinct u"
    "set u = set (int_array_vals (Some a))" using sort_unique_vals by blast
  then have "int_array_vals (Some (u @ [0])) = u" using vals_nonzero [of "Some a"] by (simp add: vals_terminated)
  with u show "\<exists>u. int_array_sort_unique (Some a) = Some u \<and> sorted (int_array_vals (Some u)) \<and>
            distinct (int_array_vals (Some u)) \<and> set (int_array_vals (Some u)) = set (int_array_vals (Some a))"
    by auto
next
  assume x: "x \<noteq> 0 \<and> mem (int_array_len (Some a) + 2) \<and> distinct (int_array_vals (Some a))"
  let ?v = "int_array_vals (Some a)"
  have t: "int_array_vals (Some (?v @ [x, 0])) = ?v @ [x]"
    using vals_terminated [of "?v @ [x]"] vals_nonzero [of "Some a"] x by simp
  have r: "int_array_add_unique mem (Some a) x = (if x \<in> set ?v then Some a else Some (?v @ [x, 0]))"
    using x by (simp add: int_array_add_unique_def vals_take Let_def)
  show "distinct (int_array_vals (int_array_add_unique mem (Some a) x))" using x r t by simp
  show "set (int_array_vals (int_array_add_unique mem (Some a) x)) = insert x (set ?v)" using r t by auto
qed

theorem int_array_unique_witness:
  "\<exists>u. int_array_sort_unique (Some [5180, 2412, 5180, 0, 9]) = Some u \<and> sorted (int_array_vals (Some u)) \<and>
     set (int_array_vals (Some u)) = {2412, 5180}"
  using int_array_unique [of "[5180, 2412, 5180, 0, 9]"] by (auto simp: int_array_vals_def)

text \<open>
  \<^verbatim>\<open>merge_byte_arrays\<close> fills the result buffer with both sources one after the other, cut at
  the buffer's end and zero-filled after them, and returns how many source bytes it holds.
\<close>
theorem merge_byte_arrays_spec:
  "merge_byte_arrays n (Some s1) (Some s2)
     = (min n (length s1 + length s2), take n (s1 @ s2 @ replicate n 0))"
  by (auto simp: merge_byte_arrays_def Let_def patch_def min_def)

end
