(* ===== verification/Bitfield.thy ===== *)
theory Bitfield
  imports Prelude
begin

text \<open>
  Bit sets (\<^verbatim>\<open>wpa_supplicant/src/utils/bitfield.c\<close>) and the frame checksum
  (\<^verbatim>\<open>wpa_supplicant/src/utils/crc32.c\<close>).
\<close>

section \<open>Bit sets\<close>

record bitfield =
  bits :: bytes
  max_bits :: nat

definition bitfield_alloc :: "bool \<Rightarrow> nat \<Rightarrow> bitfield option" where
  "bitfield_alloc mem n =
     (if mem then Some \<lparr>bits = replicate ((n + 7) div 8) 0, max_bits = n\<rparr> else None)"

definition bitfield_set :: "bitfield \<Rightarrow> nat \<Rightarrow> bitfield" where
  "bitfield_set bf i =
     (if max_bits bf \<le> i then bf
      else bf\<lparr>bits := (bits bf)[i div 8 := bits bf ! (i div 8) OR push_bit (i mod 8) 1]\<rparr>)"

definition bitfield_clear :: "bitfield \<Rightarrow> nat \<Rightarrow> bitfield" where
  "bitfield_clear bf i =
     (if max_bits bf \<le> i then bf
      else bf\<lparr>bits := (bits bf)[i div 8 := bits bf ! (i div 8) AND NOT (push_bit (i mod 8) 1)]\<rparr>)"

definition bitfield_is_set :: "bitfield \<Rightarrow> nat \<Rightarrow> bool" where
  "bitfield_is_set bf i =
     (if max_bits bf \<le> i then False else (bits bf ! (i div 8)) AND push_bit (i mod 8) 1 \<noteq> 0)"

text \<open>\<open>first_zero_loop n i val\<close>: the last \<open>n\<close> rounds, from index \<open>i\<close>.\<close>

fun first_zero_loop :: "nat \<Rightarrow> nat \<Rightarrow> u8 \<Rightarrow> int" where
  "first_zero_loop 0 i val = -1"
| "first_zero_loop (Suc n) i val =
     (if val AND 1 = 0 then int i else first_zero_loop n (Suc i) (drop_bit 1 val))"

definition first_zero :: "u8 \<Rightarrow> int" where
  "first_zero val = first_zero_loop 8 0 val"

fun skip_full :: "bytes \<Rightarrow> nat" where
  "skip_full [] = 0"
| "skip_full (b # bs) = (if b \<noteq> 0xff then 0 else Suc (skip_full bs))"

definition bitfield_get_first_zero :: "bitfield \<Rightarrow> int" where
  "bitfield_get_first_zero bf =
     (let n = (max_bits bf + 7) div 8; i = skip_full (take n (bits bf)) in
      if i = n then -1
      else (let j = int (i * 8) + first_zero (bits bf ! i)
            in if int (max_bits bf) \<le> j then -1 else j))"

definition bitfield_inv :: "bitfield \<Rightarrow> bool" where
  "bitfield_inv bf \<longleftrightarrow> length (bits bf) = (max_bits bf + 7) div 8"

lemma byte_index: "i < n \<Longrightarrow> i div 8 < (n + 7) div (8 :: nat)"
  by (simp add: div_less_iff_less_mult)

lemma and_one_bit: "(b :: u8) AND push_bit k 1 \<noteq> 0 \<longleftrightarrow> bit b k"
proof -
  have "b AND push_bit k 1 = (if bit b k then push_bit k 1 else 0)"
    by (rule bit_word_eqI) (auto simp: bit_simps)
  moreover have "bit b k \<Longrightarrow> push_bit k (1 :: u8) \<noteq> 0"
    using bit_imp_le_length [of b k] by (metis bit_0_eq bit_1_iff bit_push_bit_iff bot_apply bot_bool_def
        diff_self_eq_0 dual_order.refl possible_bit_word)
  ultimately show ?thesis by auto
qed

lemma is_set_bit: "bitfield_is_set bf i \<longleftrightarrow> i < max_bits bf \<and> bit (bits bf ! (i div 8)) (i mod 8)"
  unfolding bitfield_is_set_def and_one_bit by auto

lemma bitfield_ops_inv [inv_intros]:
  "bitfield_inv bf \<Longrightarrow> bitfield_inv (bitfield_set bf i)"
  "bitfield_inv bf \<Longrightarrow> bitfield_inv (bitfield_clear bf i)"
  "bitfield_alloc mem n = Some bf \<Longrightarrow> bitfield_inv bf"
  by (auto simp: bitfield_inv_def bitfield_set_def bitfield_clear_def bitfield_alloc_def split: if_splits)

lemma bit_index_eq: "i div 8 = j div (8 :: nat) \<and> i mod 8 = j mod 8 \<longleftrightarrow> i = j"
  by (metis div_mult_mod_eq)

lemma is_set_after_set:
  assumes "bitfield_inv bf"
  shows "bitfield_is_set (bitfield_set bf i) j \<longleftrightarrow> (i = j \<and> i < max_bits bf) \<or> bitfield_is_set bf j"
  using assms byte_index [of i "max_bits bf"] byte_index [of j "max_bits bf"] bit_index_eq [of i j]
  by (auto simp: is_set_bit bitfield_set_def bitfield_inv_def nth_list_update bit_simps)

lemma is_set_after_clear:
  assumes "bitfield_inv bf"
  shows "bitfield_is_set (bitfield_clear bf i) j \<longleftrightarrow> i \<noteq> j \<and> bitfield_is_set bf j"
  using assms byte_index [of i "max_bits bf"] byte_index [of j "max_bits bf"] bit_index_eq [of i j]
  by (auto simp: is_set_bit bitfield_clear_def bitfield_inv_def nth_list_update bit_simps)

text \<open>The search for the first free bit.\<close>

lemma first_zero_loop_full: "(\<forall>k<n. bit val k) \<Longrightarrow> first_zero_loop n i val = -1"
  by (induction n arbitrary: i val) (auto simp: and_one_eq odd_iff_mod_2_eq_one [symmetric] bit_0 [symmetric] bit_drop_bit_eq)

lemma first_zero_loop_least:
  "k < n \<Longrightarrow> \<not> bit val k \<Longrightarrow> (\<forall>l<k. bit val l) \<Longrightarrow> first_zero_loop n i val = int (i + k)"
proof (induction n arbitrary: i k val)
  case (Suc n)
  show ?case
  proof (cases k)
    case 0
    then show ?thesis using Suc.prems by (simp add: and_one_eq bit_0 even_iff_mod_2_eq_zero)
  next
    case (Suc l)
    then have "val AND 1 \<noteq> 0" "\<not> bit (drop_bit 1 val) l" "\<forall>m<l. bit (drop_bit 1 val) m"
      using Suc.prems by (auto simp: and_one_eq bit_0 odd_iff_mod_2_eq_one bit_drop_bit_eq)
    then show ?thesis using Suc.IH [of l "drop_bit 1 val" "Suc i"] Suc.prems \<open>k = Suc l\<close> by simp
  qed
qed simp

lemma byte_full_bits: "(b :: u8) = 0xff \<longleftrightarrow> (\<forall>k<8. bit b k)"
proof -
  have ff: "0xff = (mask 8 :: u8)" by (simp add: mask_eq_exp_minus_1)
  show ?thesis unfolding ff by (auto simp: bit_simps intro!: bit_word_eqI)
qed

lemma skip_full_spec:
  "(\<forall>i < skip_full bs. bs ! i = 0xff) \<and> skip_full bs \<le> length bs \<and>
   (skip_full bs < length bs \<longrightarrow> bs ! skip_full bs \<noteq> 0xff)"
proof (induction bs)
  case (Cons b bs)
  then show ?case by (auto simp: nth_Cons split: nat.split)
qed simp

lemma first_zero_least:
  assumes "b \<noteq> 0xff"
  obtains k where "k < 8" "\<not> bit b k" "\<forall>l<k. bit b l" "first_zero b = int k"
proof -
  define k where "k = (LEAST k. k < 8 \<and> \<not> bit b k)"
  obtain k' where "k' < 8 \<and> \<not> bit b k'" using assms byte_full_bits by blast
  then have k: "k < 8 \<and> \<not> bit b k" unfolding k_def by (rule LeastI)
  have "\<forall>l<k. bit b l"
    using not_less_Least [of _ "\<lambda>k. k < 8 \<and> \<not> bit b k"] k unfolding k_def [symmetric]
    by (meson dual_order.strict_trans)
  then show thesis using that [of k] k first_zero_loop_least [of k 8 b 0] by (simp add: first_zero_def)
qed

section \<open>The checksum\<close>

definition crc32_table :: "u32 list" where
  "crc32_table =
    [0x00000000, 0x77073096, 0xee0e612c, 0x990951ba, 0x076dc419, 0x706af48f, 0xe963a535, 0x9e6495a3,
     0x0edb8832, 0x79dcb8a4, 0xe0d5e91e, 0x97d2d988, 0x09b64c2b, 0x7eb17cbd, 0xe7b82d07, 0x90bf1d91,
     0x1db71064, 0x6ab020f2, 0xf3b97148, 0x84be41de, 0x1adad47d, 0x6ddde4eb, 0xf4d4b551, 0x83d385c7,
     0x136c9856, 0x646ba8c0, 0xfd62f97a, 0x8a65c9ec, 0x14015c4f, 0x63066cd9, 0xfa0f3d63, 0x8d080df5,
     0x3b6e20c8, 0x4c69105e, 0xd56041e4, 0xa2677172, 0x3c03e4d1, 0x4b04d447, 0xd20d85fd, 0xa50ab56b,
     0x35b5a8fa, 0x42b2986c, 0xdbbbc9d6, 0xacbcf940, 0x32d86ce3, 0x45df5c75, 0xdcd60dcf, 0xabd13d59,
     0x26d930ac, 0x51de003a, 0xc8d75180, 0xbfd06116, 0x21b4f4b5, 0x56b3c423, 0xcfba9599, 0xb8bda50f,
     0x2802b89e, 0x5f058808, 0xc60cd9b2, 0xb10be924, 0x2f6f7c87, 0x58684c11, 0xc1611dab, 0xb6662d3d,
     0x76dc4190, 0x01db7106, 0x98d220bc, 0xefd5102a, 0x71b18589, 0x06b6b51f, 0x9fbfe4a5, 0xe8b8d433,
     0x7807c9a2, 0x0f00f934, 0x9609a88e, 0xe10e9818, 0x7f6a0dbb, 0x086d3d2d, 0x91646c97, 0xe6635c01,
     0x6b6b51f4, 0x1c6c6162, 0x856530d8, 0xf262004e, 0x6c0695ed, 0x1b01a57b, 0x8208f4c1, 0xf50fc457,
     0x65b0d9c6, 0x12b7e950, 0x8bbeb8ea, 0xfcb9887c, 0x62dd1ddf, 0x15da2d49, 0x8cd37cf3, 0xfbd44c65,
     0x4db26158, 0x3ab551ce, 0xa3bc0074, 0xd4bb30e2, 0x4adfa541, 0x3dd895d7, 0xa4d1c46d, 0xd3d6f4fb,
     0x4369e96a, 0x346ed9fc, 0xad678846, 0xda60b8d0, 0x44042d73, 0x33031de5, 0xaa0a4c5f, 0xdd0d7cc9,
     0x5005713c, 0x270241aa, 0xbe0b1010, 0xc90c2086, 0x5768b525, 0x206f85b3, 0xb966d409, 0xce61e49f,
     0x5edef90e, 0x29d9c998, 0xb0d09822, 0xc7d7a8b4, 0x59b33d17, 0x2eb40d81, 0xb7bd5c3b, 0xc0ba6cad,
     0xedb88320, 0x9abfb3b6, 0x03b6e20c, 0x74b1d29a, 0xead54739, 0x9dd277af, 0x04db2615, 0x73dc1683,
     0xe3630b12, 0x94643b84, 0x0d6d6a3e, 0x7a6a5aa8, 0xe40ecf0b, 0x9309ff9d, 0x0a00ae27, 0x7d079eb1,
     0xf00f9344, 0x8708a3d2, 0x1e01f268, 0x6906c2fe, 0xf762575d, 0x806567cb, 0x196c3671, 0x6e6b06e7,
     0xfed41b76, 0x89d32be0, 0x10da7a5a, 0x67dd4acc, 0xf9b9df6f, 0x8ebeeff9, 0x17b7be43, 0x60b08ed5,
     0xd6d6a3e8, 0xa1d1937e, 0x38d8c2c4, 0x4fdff252, 0xd1bb67f1, 0xa6bc5767, 0x3fb506dd, 0x48b2364b,
     0xd80d2bda, 0xaf0a1b4c, 0x36034af6, 0x41047a60, 0xdf60efc3, 0xa867df55, 0x316e8eef, 0x4669be79,
     0xcb61b38c, 0xbc66831a, 0x256fd2a0, 0x5268e236, 0xcc0c7795, 0xbb0b4703, 0x220216b9, 0x5505262f,
     0xc5ba3bbe, 0xb2bd0b28, 0x2bb45a92, 0x5cb36a04, 0xc2d7ffa7, 0xb5d0cf31, 0x2cd99e8b, 0x5bdeae1d,
     0x9b64c2b0, 0xec63f226, 0x756aa39c, 0x026d930a, 0x9c0906a9, 0xeb0e363f, 0x72076785, 0x05005713,
     0x95bf4a82, 0xe2b87a14, 0x7bb12bae, 0x0cb61b38, 0x92d28e9b, 0xe5d5be0d, 0x7cdcefb7, 0x0bdbdf21,
     0x86d3d2d4, 0xf1d4e242, 0x68ddb3f8, 0x1fda836e, 0x81be16cd, 0xf6b9265b, 0x6fb077e1, 0x18b74777,
     0x88085ae6, 0xff0f6a70, 0x66063bca, 0x11010b5c, 0x8f659eff, 0xf862ae69, 0x616bffd3, 0x166ccf45,
     0xa00ae278, 0xd70dd2ee, 0x4e048354, 0x3903b3c2, 0xa7672661, 0xd06016f7, 0x4969474d, 0x3e6e77db,
     0xaed16a4a, 0xd9d65adc, 0x40df0b66, 0x37d83bf0, 0xa9bcae53, 0xdebb9ec5, 0x47b2cf7f, 0x30b5ffe9,
     0xbdbdf21c, 0xcabac28a, 0x53b39330, 0x24b4a3a6, 0xbad03605, 0xcdd70693, 0x54de5729, 0x23d967bf,
     0xb3667a2e, 0xc4614ab8, 0x5d681b02, 0x2a6f2b94, 0xb40bbe37, 0xc30c8ea1, 0x5a05df1b, 0x2d02ef8d]"

definition crc32_update :: "u32 \<Rightarrow> u8 \<Rightarrow> u32" where
  "crc32_update crc b = crc32_table ! unat ((crc XOR ucast b) AND 0xff) XOR drop_bit 8 crc"

definition crc32 :: "bytes \<Rightarrow> u32" where
  "crc32 frame = NOT (foldl crc32_update 0xFFFFFFFF frame)"

text \<open>
  Reference: polynomial division one bit at a time, with the generator named in the source
  (its reflected form is 0xedb88320).
\<close>

definition crc_bit :: "u32 \<Rightarrow> u32" where
  "crc_bit x = drop_bit 1 x XOR (if bit x 0 then 0xedb88320 else 0)"

definition crc_byte_ref :: "u32 \<Rightarrow> u8 \<Rightarrow> u32" where
  "crc_byte_ref crc b = (crc_bit ^^ 8) (crc XOR ucast b)"

subsection \<open>The bitwise step is linear\<close>

abbreviation crc8 :: "u32 \<Rightarrow> u32" where "crc8 \<equiv> crc_bit ^^ 8"

lemma crc_bit_xor: "crc_bit (x XOR y) = crc_bit x XOR crc_bit y"
  by (simp add: crc_bit_def bit_xor_iff drop_bit_xor xor.assoc xor.left_commute)

lemma crc_pow_xor: "(crc_bit ^^ n) (x XOR y) = (crc_bit ^^ n) x XOR (crc_bit ^^ n) y"
  by (induction n) (simp_all add: crc_bit_xor)

lemma crc_pow_shift: "(\<And>k. k < n \<Longrightarrow> \<not> bit x k) \<Longrightarrow> (crc_bit ^^ n) x = drop_bit n x"
proof (induction n)
  case (Suc n)
  then have "(crc_bit ^^ n) x = drop_bit n x" by simp
  moreover have "\<not> bit (drop_bit n x) 0" using Suc.prems [of n] by (simp add: bit_drop_bit_eq)
  ultimately show ?case by (simp add: crc_bit_def [of "drop_bit n x"] drop_bit_drop_bit)
qed simp

subsection \<open>The table\<close>

text \<open>The table doubles: entry \<open>2\<^sup>k + j\<close> is entry \<open>2\<^sup>k\<close> XOR entry \<open>j\<close>.\<close>

definition doubled :: "u32 list \<Rightarrow> u32 list" where
  "doubled ts = foldl (\<lambda>l t. l @ map ((XOR) t) l) [0] ts"

lemma table_doubled: "crc32_table = doubled (map (\<lambda>k. crc32_table ! (2 ^ k)) [0..<8])"
  by (simp add: doubled_def crc32_table_def upt_rec)

lemma crc8_unfold:
  "crc8 x = crc_bit (crc_bit (crc_bit (crc_bit (crc_bit (crc_bit (crc_bit (crc_bit x)))))))"
  by (simp add: numeral_eq_Suc)

lemma table_powers: "map (\<lambda>k. crc32_table ! (2 ^ k)) [0..<8] = map (\<lambda>k. crc8 (2 ^ k)) [0..<8]"
  by (simp add: crc32_table_def upt_rec crc8_unfold) (simp add: crc_bit_def)

lemma doubled_snoc: "doubled (ts @ [t]) = doubled ts @ map ((XOR) t) (doubled ts)"
  by (simp add: doubled_def)

lemma length_doubled [simp, len_simps]: "length (doubled ts) = 2 ^ length ts"
  by (induction ts rule: rev_induct) (simp_all add: doubled_snoc, simp add: doubled_def)

lemma top_bit_xor:
  assumes "j < 2 ^ n"
  shows "2 ^ n XOR of_nat j = (of_nat (2 ^ n + j) :: u32)"
proof -
  have "2 ^ n AND j = (0 :: nat)"
    using assms by (intro bit_eqI) (auto simp: bit_simps less_mask_eq dest: bit_nat_def [THEN iffD1])
  then have "2 ^ n + j = 2 ^ n XOR j" by (simp add: disjunctive_add_eq_xor)
  then show ?thesis by (simp add: of_nat_xor_eq)
qed

lemma doubled_linear:
  "i < 2 ^ n \<Longrightarrow> doubled (map (\<lambda>k. crc8 (2 ^ k)) [0..<n]) ! i = crc8 (of_nat i)"
proof (induction n arbitrary: i)
  case 0
  have "crc_bit 0 = 0" by (simp add: crc_bit_def)
  then have "crc8 0 = 0" by (simp only: crc8_unfold)
  with 0 show ?case by (simp add: doubled_def)
next
  case (Suc n)
  show ?case
  proof (cases "i < 2 ^ n")
    case True
    then show ?thesis by (simp add: doubled_snoc nth_append Suc.IH)
  next
    case False
    define j where "j = i - 2 ^ n"
    have j: "j < 2 ^ n" "i = 2 ^ n + j" using False Suc.prems by (auto simp: j_def)
    have "crc8 (of_nat i) = crc8 (2 ^ n) XOR crc8 (of_nat j)"
      unfolding j(2) top_bit_xor [OF j(1), symmetric] crc_pow_xor ..
    then show ?thesis using j Suc.IH [of j] by (simp add: doubled_snoc nth_append)
  qed
qed

lemma crc32_table_entry: "i < 256 \<Longrightarrow> crc32_table ! i = crc8 (of_nat i)"
  using doubled_linear [of i 8] unfolding table_powers [symmetric] table_doubled [symmetric] by simp

lemma low_byte_mask: "0xff = (mask 8 :: u32)"
  by (simp add: mask_eq_exp_minus_1)

lemma crc32_update_ref: "crc32_update crc b = crc_byte_ref crc b"
proof -
  define x where "x = crc XOR ucast b"
  have "unat (x AND 0xff) < 256"
    using and_mask_less' [of 8 x] by (simp add: word_less_nat_alt mask_eq_exp_minus_1)
  then have low: "crc32_table ! unat (x AND 0xff) = crc8 (x AND 0xff)"
    by (simp add: crc32_table_entry)
  have "crc8 (x AND NOT 0xff) = drop_bit 8 (x AND NOT 0xff)"
    by (rule crc_pow_shift) (unfold low_byte_mask, auto simp: bit_simps)
  also have "\<dots> = drop_bit 8 crc"
    unfolding low_byte_mask x_def by (rule bit_word_eqI) (auto simp: bit_simps dest: bit_imp_le_length)
  finally have "crc32_update crc b = crc8 ((x AND 0xff) XOR (x AND NOT 0xff))"
    unfolding crc_pow_xor by (simp add: crc32_update_def low x_def [symmetric])
  moreover have "(x AND 0xff) XOR (x AND NOT 0xff) = x"
    by (rule bit_word_eqI) (auto simp: bit_simps)
  ultimately show ?thesis by (simp add: crc_byte_ref_def x_def)
qed

section \<open>Properties\<close>

text \<open>
  the search for a free bit returns the least index that is not set, and -1 exactly when
  every index is set.
\<close>

theorem bitfield_first_zero_least:
  assumes "bitfield_inv bf"
  shows "case_option (bitfield_get_first_zero bf = -1) (\<lambda>j. bitfield_get_first_zero bf = int j)
           (find (\<lambda>j. \<not> bitfield_is_set bf j) [0..<max_bits bf])"
proof -
  define n where "n = (max_bits bf + 7) div 8"
  define i where "i = skip_full (bits bf)"
  have len: "length (bits bf) = n" using assms by (simp add: bitfield_inv_def n_def)
  have full: "bits bf ! l = 0xff" if "l < i" for l using skip_full_spec that by (simp add: i_def)
  have below: "bitfield_is_set bf j" if "j < 8 * i" "j < max_bits bf" for j
    using full [of "j div 8"] that by (auto simp: is_set_bit byte_full_bits)
  show ?thesis
  proof (cases "i = n")
    case True
    have "find (\<lambda>j. \<not> bitfield_is_set bf j) [0..<max_bits bf] = None"
      using below True by (auto simp: find_None_iff n_def)
    then show ?thesis using True len by (simp add: bitfield_get_first_zero_def n_def i_def)
  next
    case False
    then have i: "i < n" "bits bf ! i \<noteq> 0xff" using skip_full_spec [of "bits bf"] len by (auto simp: i_def)
    obtain k where k: "k < 8" "\<not> bit (bits bf ! i) k" "\<forall>l<k. bit (bits bf ! i) l"
      "first_zero (bits bf ! i) = int k"
      using first_zero_least [OF i(2)] by blast
    have before: "bitfield_is_set bf j" if "j < i * 8 + k" "j < max_bits bf" for j
    proof (cases "j < 8 * i")
      case False
      then obtain l where "j = 8 * i + l" by (metis le_Suc_ex not_less)
      then show ?thesis using that k by (simp add: is_set_bit)
    qed (use below that in auto)
    have val: "bitfield_get_first_zero bf = (if max_bits bf \<le> i * 8 + k then -1 else int (i * 8 + k))"
      using i len k(4) by (simp add: bitfield_get_first_zero_def n_def i_def)
    show ?thesis
    proof (cases "max_bits bf \<le> i * 8 + k")
      case True
      then have "find (\<lambda>j. \<not> bitfield_is_set bf j) [0..<max_bits bf] = None"
        using before by (auto simp: find_None_iff)
      then show ?thesis using val True by simp
    next
      case False
      then have "find (\<lambda>j. \<not> bitfield_is_set bf j) [0..<max_bits bf] = Some (i * 8 + k)"
        using before k by (auto simp: find_Some_iff is_set_bit intro!: exI [of _ "i * 8 + k"])
      then show ?thesis using val False by simp
    qed
  qed
qed

theorem bitfield_first_zero_least_witness:
  "bitfield_inv \<lparr>bits = [0xff, 0x05], max_bits = 12\<rparr> \<and>
   bitfield_get_first_zero \<lparr>bits = [0xff, 0x05], max_bits = 12\<rparr> = 9"
  using bitfield_first_zero_least [of "\<lparr>bits = [0xff, 0x05], max_bits = 12\<rparr>"]
  by (simp add: bitfield_inv_def upt_rec bitfield_is_set_def)

text \<open>
  The table-driven checksum of a frame is the bit-at-a-time division by the generator
  polynomial, for every frame.
\<close>

theorem crc32_bitwise: "crc32 frame = NOT (foldl crc_byte_ref 0xFFFFFFFF frame)"
proof -
  have "crc32_update = crc_byte_ref" by (intro ext) (rule crc32_update_ref)
  then show ?thesis by (simp add: crc32_def)
qed

end
