(* ===== verification/Base64.thy ===== *)
theory Base64
  imports Prelude
begin

text \<open>
  Base64 (\<^verbatim>\<open>wpa_supplicant/src/utils/base64.c\<close>): the two alphabets, the encoder with its line
  feeds and padding, and the decoder that skips what is not in the alphabet.

  The output buffer is the list of the bytes written; that the encoder stays inside the
  buffer it allocates is a theorem. \<open>size_max\<close> is \<^verbatim>\<open>SIZE_MAX\<close> of the platform.
\<close>

definition ascii :: "string \<Rightarrow> bytes" where
  "ascii s = map (\<lambda>c. of_nat (of_char c)) s"

definition base64_table :: bytes where
  "base64_table = ascii ''ABCDEFGHIJKLMNOPQRSTUVWXYZabcdefghijklmnopqrstuvwxyz0123456789+/''"

definition base64_url_table :: bytes where
  "base64_url_table = ascii ''ABCDEFGHIJKLMNOPQRSTUVWXYZabcdefghijklmnopqrstuvwxyz0123456789-_''"

section \<open>Encoder\<close>

text \<open>The four table indices of a block, and the last one of a partial block.\<close>

definition sextet1 :: "u8 \<Rightarrow> u8" where "sextet1 a = drop_bit 2 a AND 0x3f"

definition sextet2 :: "u8 \<Rightarrow> u8 \<Rightarrow> u8" where "sextet2 a b = (push_bit 4 (a AND 0x03) OR drop_bit 4 b) AND 0x3f"

definition sextet3 :: "u8 \<Rightarrow> u8 \<Rightarrow> u8" where "sextet3 b c = (push_bit 2 (b AND 0x0f) OR drop_bit 6 c) AND 0x3f"

definition sextet4 :: "u8 \<Rightarrow> u8" where "sextet4 c = c AND 0x3f"

definition sextet2_end :: "u8 \<Rightarrow> u8" where "sextet2_end a = push_bit 4 (a AND 0x03) AND 0x3f"

definition sextet3_end :: "u8 \<Rightarrow> u8" where "sextet3_end b = push_bit 2 (b AND 0x0f) AND 0x3f"

text \<open>The last, partial block and the closing line feed.\<close>

definition encode_tail :: "bytes \<Rightarrow> bool \<Rightarrow> nat \<Rightarrow> bytes \<Rightarrow> bytes" where
  "encode_tail table add_pad line_len src =
     (case src of
        [] \<Rightarrow> (if add_pad \<and> line_len \<noteq> 0 then [10] else [])
      | a # rest \<Rightarrow>
          table ! unat (sextet1 a) #
          (case rest of
             [] \<Rightarrow> table ! unat (sextet2_end a) # (if add_pad then [61] else [])
           | b # _ \<Rightarrow> [table ! unat (sextet2 a b),
                       table ! unat (sextet3_end b)]) @
          (if add_pad then [61] else []) @
          (if add_pad \<and> line_len + 4 \<noteq> 0 then [10] else []))"

fun encode_loop :: "bytes \<Rightarrow> bool \<Rightarrow> nat \<Rightarrow> bytes \<Rightarrow> bytes" where
  "encode_loop table add_pad line_len (a # b # c # rest) =
     [table ! unat (sextet1 a),
      table ! unat (sextet2 a b),
      table ! unat (sextet3 b c),
      table ! unat (sextet4 c)] @
     (if add_pad \<and> 72 \<le> line_len + 4 then 10 # encode_loop table add_pad 0 rest
      else encode_loop table add_pad (line_len + 4) rest)"
| "encode_loop table add_pad line_len src = encode_tail table add_pad line_len src"

definition encode_olen :: "nat \<Rightarrow> nat \<Rightarrow> bool \<Rightarrow> nat" where
  "encode_olen size_max len add_pad =
     (let wrap = (\<lambda>n. n mod Suc size_max);
          olen = wrap (wrap (len * 4) div 3 + 4);
          olen = (if add_pad then wrap (olen + olen div 72) else olen)
      in wrap (olen + 1))"

definition base64_gen_encode :: "nat \<Rightarrow> (nat \<Rightarrow> bool) \<Rightarrow> bytes \<Rightarrow> bytes \<Rightarrow> bool \<Rightarrow> bytes option" where
  "base64_gen_encode size_max mem src table add_pad =
     (if size_max div 4 \<le> length src then None
      else if encode_olen size_max (length src) add_pad < length src then None
      else if \<not> mem (encode_olen size_max (length src) add_pad) then None
      else Some (encode_loop table add_pad 0 src))"

definition base64_encode :: "nat \<Rightarrow> (nat \<Rightarrow> bool) \<Rightarrow> bytes \<Rightarrow> bytes option" where
  "base64_encode size_max mem src = base64_gen_encode size_max mem src base64_table True"

definition base64_url_encode :: "nat \<Rightarrow> (nat \<Rightarrow> bool) \<Rightarrow> bytes \<Rightarrow> bool \<Rightarrow> bytes option" where
  "base64_url_encode size_max mem src add_pad = base64_gen_encode size_max mem src base64_url_table add_pad"

section \<open>Decoder\<close>

definition decode_table :: "bytes \<Rightarrow> bytes" where
  "decode_table table =
     (foldl (\<lambda>d i. d[unat (table ! i) := of_nat i]) (replicate 256 0x80) [0..<64])[61 := 0]"

text \<open>
  The decoding loop over the input followed by the implied padding: \<open>blk\<close> holds the first
  \<^verbatim>\<open>count\<close> cells of \<^verbatim>\<open>block\<close>, \<open>acc\<close> what was written so far.
\<close>

fun decode_loop :: "bytes \<Rightarrow> bytes \<Rightarrow> bytes \<Rightarrow> nat \<Rightarrow> bytes \<Rightarrow> bytes option" where
  "decode_loop dtable [] blk pad acc = Some acc"
| "decode_loop dtable (v # vs) blk pad acc =
     (let tmp = dtable ! unat v in
      if tmp = 0x80 then decode_loop dtable vs blk pad acc
      else
        let pad = (if v = 61 then Suc pad else pad);
            blk = blk @ [tmp]
        in if length blk = 4 then
             let acc = acc @ [push_bit 2 (blk ! 0) OR drop_bit 4 (blk ! 1),
                              push_bit 4 (blk ! 1) OR drop_bit 2 (blk ! 2),
                              push_bit 6 (blk ! 2) OR blk ! 3]
             in if pad \<noteq> 0 then
                  if pad = 1 then Some (take (length acc - 1) acc)
                  else if pad = 2 then Some (take (length acc - 2) acc)
                  else None
                else decode_loop dtable vs [] pad acc
           else decode_loop dtable vs blk pad acc)"

definition decode_count :: "bytes \<Rightarrow> bytes \<Rightarrow> nat" where
  "decode_count dtable src = length (filter (\<lambda>v. dtable ! unat v \<noteq> 0x80) src)"

definition decode_extra_pad :: "nat \<Rightarrow> nat" where
  "decode_extra_pad count = (4 - count mod 4) mod 4"

definition base64_gen_decode :: "(nat \<Rightarrow> bool) \<Rightarrow> bytes \<Rightarrow> bytes \<Rightarrow> bytes option" where
  "base64_gen_decode mem src table =
     (let dtable = decode_table table;
          count = decode_count dtable src;
          extra_pad = decode_extra_pad count;
          olen = (count + extra_pad) div 4 * 3
      in if count = 0 then None
         else if \<not> mem olen then None
         else decode_loop dtable (src @ replicate extra_pad 61) [] 0 [])"

definition base64_decode :: "(nat \<Rightarrow> bool) \<Rightarrow> bytes \<Rightarrow> bytes option" where
  "base64_decode mem src = base64_gen_decode mem src base64_table"

definition base64_url_decode :: "(nat \<Rightarrow> bool) \<Rightarrow> bytes \<Rightarrow> bytes option" where
  "base64_url_decode mem src = base64_gen_decode mem src base64_url_table"

section \<open>The alphabets\<close>

text \<open>What the codec needs of an alphabet.\<close>

definition alphabet :: "bytes \<Rightarrow> bool" where
  "alphabet t \<longleftrightarrow> length t = 64 \<and> distinct t \<and> 61 \<notin> set t \<and> 10 \<notin> set t"

lemma alphabets: "alphabet base64_table" "alphabet base64_url_table"
  by (simp_all add: alphabet_def base64_table_def base64_url_table_def ascii_def)

lemma decode_fill:
  assumes "alphabet t" "n \<le> 64"
  defines "d \<equiv> foldl (\<lambda>d i. d[unat (t ! i) := of_nat i]) (replicate 256 (0x80 :: u8)) [0..<n]"
  shows "length d = 256" and "i < n \<Longrightarrow> d ! unat (t ! i) = of_nat i"
    and "c \<notin> set t \<Longrightarrow> d ! unat c = 0x80"
  using assms(2) unfolding d_def
proof (induction n arbitrary: i)
  case (Suc n)
  {
    case 1
    then show ?case using Suc.IH(1) by simp
  next
    case 2
    have "unat (t ! n) = unat (t ! i) \<longleftrightarrow> i = n"
      using 2 assms(1) by (auto simp: alphabet_def nth_eq_iff_index_eq word_unat_eq_iff [symmetric])
    then show ?case using Suc.IH(1,2) 2 unat_u8_less [of "t ! n"]
      by (auto simp: nth_list_update less_Suc_eq)
  next
    case 3
    have "c \<noteq> t ! n" using 3 assms(1) by (auto simp: alphabet_def)
    then have "unat (t ! n) \<noteq> unat c" by (simp add: word_unat_eq_iff)
    then show ?case using Suc.IH(1,3) 3 by (simp add: nth_list_update)
  }
qed (use unat_u8_less in auto)

lemma alphabet_pad: "alphabet t \<Longrightarrow> i < 64 \<Longrightarrow> t ! i \<noteq> 61"
  by (metis alphabet_def nth_mem)

lemma decode_table_char:
  assumes "alphabet t" "i < 64"
  shows "decode_table t ! unat (t ! i) = of_nat i"
proof -
  have "unat (t ! i) \<noteq> 61"
    using alphabet_pad [OF assms] word_unat_eq_iff [of "t ! i" 61] by simp
  then show ?thesis using decode_fill(2) [of t 64 i] assms by (simp add: decode_table_def)
qed

lemma decode_table_newline: "alphabet t \<Longrightarrow> decode_table t ! 10 = 0x80"
  using decode_fill(3) [of t 64 10] by (simp add: decode_table_def alphabet_def)

lemma decode_table_pad: "alphabet t \<Longrightarrow> decode_table t ! 61 = 0"
  using decode_fill(1) [of t 64] by (simp add: decode_table_def)

section \<open>Blocks\<close>

lemma six_bits: "unat (x AND 0x3f :: u8) < 64"
  using and_mask_less' [of 6 x] by (simp add: word_less_nat_alt mask_eq_exp_minus_1)

lemma sextet_less [simp]:
  "unat (sextet1 a) < 64" "unat (sextet2 a b) < 64" "unat (sextet3 b c) < 64" "unat (sextet4 c) < 64"
  "unat (sextet2_end a) < 64" "unat (sextet3_end b) < 64"
  unfolding sextet1_def sextet2_def sextet3_def sextet4_def sextet2_end_def sextet3_end_def
  by (rule six_bits)+

text \<open>One character of the alphabet, read by the decoder.\<close>

lemma decode_step:
  assumes "alphabet t" "unat x < 64"
  shows "decode_table t ! unat (t ! unat x) = x" "x \<noteq> 0x80" "t ! unat x \<noteq> 61"
proof -
  show "decode_table t ! unat (t ! unat x) = x" using decode_table_char [OF assms] by simp
  show "t ! unat x \<noteq> 61" using alphabet_pad [OF assms] .
qed (use assms in auto)

lemma decode_loop_char:
  assumes "alphabet t" "length blk < 3" "unat x < 64"
  shows "decode_loop (decode_table t) (t ! unat x # vs) blk pad acc =
         decode_loop (decode_table t) vs (blk @ [x]) pad acc"
  using assms decode_step [OF assms(1,3)] by (simp add: Let_def)

lemma decode_loop_block:
  assumes "alphabet t" "unat x < 64"
  shows "decode_loop (decode_table t) (t ! unat x # vs) [u, v, w] 0 acc =
         decode_loop (decode_table t) vs [] 0
           (acc @ [push_bit 2 u OR drop_bit 4 v, push_bit 4 v OR drop_bit 2 w, push_bit 6 w OR x])"
  using assms decode_step [OF assms] by (simp add: Let_def)

lemma decode_loop_newline:
  "alphabet t \<Longrightarrow> decode_loop (decode_table t) (10 # vs) blk pad acc = decode_loop (decode_table t) vs blk pad acc"
  by (simp add: decode_table_newline)

lemma decode_loop_pad:
  assumes "alphabet t"
  shows "decode_loop (decode_table t) (61 # vs) [u, v, w] 0 acc =
           Some (acc @ [push_bit 2 u OR drop_bit 4 v, push_bit 4 v OR drop_bit 2 w])"
    and "decode_loop (decode_table t) (61 # 61 # vs) [u, v] 0 acc = Some (acc @ [push_bit 2 u OR drop_bit 4 v])"
  using assms by (simp_all add: decode_table_pad Let_def)

lemma u8_cases: "k < 8 \<longleftrightarrow> k = 0 \<or> k = 1 \<or> k = 2 \<or> k = 3 \<or> k = 4 \<or> k = 5 \<or> k = 6 \<or> k = (7 :: nat)"
  by auto

lemma join_sextets:
  "push_bit 2 (sextet1 a) OR drop_bit 4 (sextet2 a b) = a"
  "push_bit 4 (sextet2 a b) OR drop_bit 2 (sextet3 b c) = b"
  "push_bit 6 (sextet3 b c) OR sextet4 c = c"
  unfolding sextet1_def sextet2_def sextet3_def sextet4_def
  by (rule bit_word_eqI, auto simp: u8_cases bit_simps numeral_2_eq_2 [symmetric])+

lemma join_sextets_end:
  "push_bit 2 (sextet1 a) OR drop_bit 4 (sextet2_end a) = a"
  "push_bit 4 (sextet2 a b) OR drop_bit 2 (sextet3_end b) = b"
  unfolding sextet1_def sextet2_def sextet2_end_def sextet3_end_def
  by (rule bit_word_eqI, auto simp: u8_cases bit_simps numeral_2_eq_2 [symmetric])+

section \<open>Round trip\<close>

lemma char_counts: "alphabet t \<Longrightarrow> unat (x :: u8) < 64 \<Longrightarrow> decode_table t ! unat (t ! unat x) \<noteq> 0x80"
  using decode_step(1,2) [of t x] by simp

lemma decode_extra_pad_block [simp]:
  "decode_extra_pad (Suc (Suc (Suc (Suc n)))) = decode_extra_pad n"
proof -
  have "Suc (Suc (Suc (Suc n))) mod 4 = n mod 4"
    by presburger
  then show ?thesis by (simp add: decode_extra_pad_def)
qed

lemma decode_tail:
  assumes "alphabet t" "length src < 3"
  shows "decode_loop (decode_table t) (encode_tail t p ll src @
           replicate (decode_extra_pad (decode_count (decode_table t) (encode_tail t p ll src))) 61) [] 0 acc =
         Some (acc @ src)"
proof -
  note facts = decode_loop_char decode_loop_pad decode_table_pad decode_table_newline char_counts
    join_sextets_end join_sextets decode_extra_pad_def decode_count_def encode_tail_def assms(1)
  have two: "replicate 2 (61 :: u8) = [61, 61]" by (simp add: numeral_2_eq_2)
  consider "src = []" | a where "src = [a]" | a b where "src = [a, b]"
    using assms(2) by (metis (no_types) length_0_conv length_Suc_conv less_Suc_eq numeral_3_eq_3 not_less0)
  then show ?thesis
  proof cases
    case 1
    then show ?thesis by (simp add: facts)
  next
    case 2
    then show ?thesis by (cases p) (simp_all add: facts two del: decode_loop.simps)
  next
    case 3
    then show ?thesis by (cases p) (simp_all add: facts two del: decode_loop.simps)
  qed
qed

lemma decode_encode_loop:
  assumes "alphabet t"
  shows "decode_loop (decode_table t) (encode_loop t p ll src @
           replicate (decode_extra_pad (decode_count (decode_table t) (encode_loop t p ll src))) 61) [] 0 acc =
         Some (acc @ src)"
  using assms
proof (induction t p ll src arbitrary: acc rule: encode_loop.induct)
  case (1 t p ll a b c rest)
  then show ?case
    by (cases "p \<and> 72 \<le> ll + 4")
      (simp_all add: decode_loop_char decode_loop_block decode_loop_newline join_sextets decode_count_def
        char_counts decode_table_newline del: decode_loop.simps)
qed (simp_all add: decode_tail del: decode_loop.simps)

section \<open>Sizes\<close>

lemma length_encode_tail:
  "length src < 3 \<Longrightarrow>
   length (encode_tail t p ll src) \<le> (if src = [] then 0 else 4) + (if p then 1 else 0)"
  by (auto simp: encode_tail_def split: list.splits)

lemma div3_step: "(5 + n) div 3 = Suc (Suc (Suc n) div 3)" "(3 + n) div 3 = Suc (n div 3)" for n :: nat
  by presburger+

lemma length_encode_loop_pad:
  "p \<Longrightarrow> ll = 4 * k \<Longrightarrow> k < 18 \<Longrightarrow>
   length (encode_loop t p ll src) \<le> 4 * ((length src + 2) div 3) + (k + length src div 3) div 18 + 1"
proof (induction t p ll src arbitrary: k rule: encode_loop.induct)
  case (1 t p ll a b c rest)
  show ?case
  proof (cases "72 \<le> ll + 4")
    case True
    then have "k = 17" using 1 by simp
    have "(18 + length rest div 3) div 18 = Suc (length rest div 3 div 18)" by simp
    then show ?thesis using 1(1) [of 0] 1(3-5) True \<open>k = 17\<close> by (simp add: div3_step)
  next
    case False
    then show ?thesis using 1(2) [of "Suc k"] 1(3-5) by (simp add: div3_step)
  qed
qed (simp_all add: encode_tail_def)

lemma length_encode_loop_nopad:
  "\<not> p \<Longrightarrow> length (encode_loop t p ll src) \<le> 4 * ((length src + 2) div 3)"
  by (induction t p ll src rule: encode_loop.induct) (auto simp: encode_tail_def div3_step)

lemma encode_olen_value:
  assumes "len < size_max div 4" "255 \<le> size_max"
  shows "encode_olen size_max len p =
    (let n = len * 4 div 3 + 4 in (if p then n + n div 72 else n) + 1)"
proof -
  define n where "n = len * 4 div 3 + 4"
  have "len * 4 \<le> size_max" "3 * n \<le> size_max + 12" using assms by (auto simp: n_def)
  moreover from this have "n + n div 72 + 1 \<le> size_max" using assms(2) by linarith
  ultimately show ?thesis by (simp add: encode_olen_def Let_def n_def [symmetric])
qed

lemma encode_fits:
  assumes "length src < size_max div 4" "255 \<le> size_max"
  shows "length (encode_loop t p 0 src) < encode_olen size_max (length src) p"
proof (cases p)
  case True
  have "4 * ((length src + 2) div 3) + 1 < length src * 4 div 3 + 5" by presburger
  moreover have "4 * (length src div 3) div 72 \<le> (length src * 4 div 3 + 4) div 72"
    by (rule div_le_mono) presburger
  ultimately show ?thesis
    using length_encode_loop_pad [of p 0 0 t src] True by (simp add: encode_olen_value [OF assms] Let_def)
next
  case False
  have "4 * ((length src + 2) div 3) < length src * 4 div 3 + 5" by presburger
  then show ?thesis
    using length_encode_loop_nopad [of p t 0 src] False by (simp add: encode_olen_value [OF assms] Let_def)
qed

lemma decode_encode:
  assumes "alphabet t" "src \<noteq> []" "base64_gen_encode size_max mem src t p = Some enc" "\<And>n. mem n"
  shows "base64_gen_decode mem enc t = Some src"
proof -
  have enc: "enc = encode_loop t p 0 src" using assms(3) by (simp add: base64_gen_encode_def split: if_splits)
  have "0 < decode_count (decode_table t) enc"
    using assms(1,2) unfolding enc
    by (induction t p "0 :: nat" src rule: encode_loop.induct) 
      (auto simp: decode_count_def char_counts encode_tail_def)
  then show ?thesis
    using decode_encode_loop [of t p 0 src "[]"] assms(1,4) unfolding base64_gen_decode_def Let_def enc by simp
qed

section \<open>Properties\<close>

text \<open>
  Decoding an encoded text gives the encoded bytes back, for the standard alphabet with
  its padding and line feeds and for the URL alphabet with and without padding; the encoder
  succeeds on every input up to its size limit and writes, terminator included, at most as
  many bytes as it allocated.
\<close>

theorem base64_roundtrip:
  assumes "src \<noteq> []" "length src < size_max div 4" "255 \<le> size_max" "\<And>n. mem n"
  shows "(\<exists>enc. base64_encode size_max mem src = Some enc \<and> base64_decode mem enc = Some src \<and>
            length enc + 1 \<le> encode_olen size_max (length src) True) \<and>
         (\<exists>enc. base64_url_encode size_max mem src p = Some enc \<and> base64_url_decode mem enc = Some src \<and>
            length enc + 1 \<le> encode_olen size_max (length src) p)"
proof -
  have "\<not> encode_olen size_max (length src) q < length src" for q
  proof -
    have "length src \<le> length src * 4 div 3" by presburger
    then show ?thesis unfolding encode_olen_value [OF assms(2,3)] Let_def by simp
  qed
  then have ok: "base64_gen_encode size_max mem src t q = Some (encode_loop t q 0 src)" for t q
    using assms by (simp add: base64_gen_encode_def)
  note decode_encode [OF _ assms(1) ok assms(4), simp] encode_fits [OF assms(2,3), THEN Suc_leI, simp]
  show ?thesis
    by (simp add: base64_encode_def base64_decode_def base64_url_encode_def base64_url_decode_def ok alphabets)
qed

theorem base64_roundtrip_witness:
  "\<exists>enc. base64_encode 4294967295 (\<lambda>_. True) [72, 105, 33, 0] = Some enc \<and>
         base64_decode (\<lambda>_. True) enc = Some [72, 105, 33, 0]"
  using base64_roundtrip [of "[72, 105, 33, 0]" 4294967295 "\<lambda>_. True"] by auto

end
