(* ===== verification/HashStream.thy ===== *)
theory HashStream
  imports Prelude
begin

text \<open>
  What the three hash implementations share: cutting a message into 64-byte blocks, the
  32-bit halves of a bit counter, the byte order conversions, and the interface of a
  streaming hash as a locale. A provider shows what its context represents after
  \<^verbatim>\<open>init\<close>, \<^verbatim>\<open>update\<close> and \<^verbatim>\<open>final\<close>; the locale gives that a message may be fed in any
  pieces.
\<close>

section \<open>Byte order\<close>

definition get_be32 :: "bytes \<Rightarrow> u32" where
  "get_be32 p = push_bit 24 (ucast (p ! 0)) OR push_bit 16 (ucast (p ! 1)) OR
                push_bit 8 (ucast (p ! 2)) OR ucast (p ! 3)"

definition get_le32 :: "bytes \<Rightarrow> u32" where
  "get_le32 p = push_bit 24 (ucast (p ! 3)) OR push_bit 16 (ucast (p ! 2)) OR
                push_bit 8 (ucast (p ! 1)) OR ucast (p ! 0)"

definition put_be32 :: "u32 \<Rightarrow> bytes" where
  "put_be32 v = [ucast (drop_bit 24 v), ucast (drop_bit 16 v), ucast (drop_bit 8 v), ucast v]"

definition put_le32 :: "u32 \<Rightarrow> bytes" where
  "put_le32 v = [ucast v, ucast (drop_bit 8 v), ucast (drop_bit 16 v), ucast (drop_bit 24 v)]"

lemma length_put32 [simp, len_simps]: "length (put_be32 v) = 4" "length (put_le32 v) = 4"
  by (simp_all add: put_be32_def put_le32_def)

definition rol :: "u32 \<Rightarrow> nat \<Rightarrow> u32" where
  "rol v n = push_bit n v OR drop_bit (32 - n) v"

lemma and_255_ucast: "(ucast (x AND 255) :: u8) = ucast (x :: u32)"
proof -
  have m: "255 = (mask 8 :: u32)" by (simp add: mask_eq_exp_minus_1)
  show ?thesis unfolding m by (rule bit_word_eqI) (auto simp: bit_simps)
qed

text \<open>A word as its four bytes, most significant first.\<close>

definition word4 :: "u8 \<Rightarrow> u8 \<Rightarrow> u8 \<Rightarrow> u8 \<Rightarrow> u32" where
  "word4 a b c d = push_bit 24 (ucast a) OR push_bit 16 (ucast b) OR push_bit 8 (ucast c) OR ucast d"

lemma bit_word4:
  "bit (word4 a b c d) k \<longleftrightarrow>
     (if k < 8 then bit d k else if k < 16 then bit c (k - 8) else if k < 24 then bit b (k - 16)
      else bit a (k - 24))"
  by (auto simp: word4_def bit_simps dest: bit_imp_le_length)

lemma get_word4: "get_be32 p = word4 (p ! 0) (p ! 1) (p ! 2) (p ! 3)" "get_le32 p = word4 (p ! 3) (p ! 2) (p ! 1) (p ! 0)"
  by (simp_all add: get_be32_def get_le32_def word4_def)

lemma rol_word4: "rol (word4 a b c d) 8 = word4 b c d a" "rol (word4 a b c d) 24 = word4 d a b c"
  by (rule bit_word_eqI, auto simp: rol_def bit_word4 bit_simps dest: bit_imp_le_length)+

lemma word4_or: "word4 a b c d OR word4 a' b' c' d' = word4 (a OR a') (b OR b') (c OR c') (d OR d')"
  by (rule bit_word_eqI) (auto simp: bit_word4 bit_simps)

lemma word4_and: "word4 a b c d AND word4 a' b' c' d' = word4 (a AND a') (b AND b') (c AND c') (d AND d')"
  by (rule bit_word_eqI) (auto simp: bit_word4 bit_simps)

text \<open>The round functions the sources shorten.\<close>

lemma choose_eq: "(w AND (x XOR y)) XOR y = (w AND x) OR (NOT w AND y)" for w x y :: u32
  by (rule bit_word_eqI) (auto simp: bit_simps)

lemma major_eq: "((w OR x) AND y) OR (w AND x) = (w AND x) OR (w AND y) OR (x AND y)" for w x y :: u32
  by (rule bit_word_eqI) (auto simp: bit_simps)

section \<open>Blocks\<close>

text \<open>
  \<open>eat f h m\<close> runs the compression function over the whole 64-byte blocks of \<open>m\<close> and
  returns the rest.
\<close>

fun eat :: "('h \<Rightarrow> bytes \<Rightarrow> 'h) \<Rightarrow> 'h \<Rightarrow> bytes \<Rightarrow> 'h \<times> bytes" where
  "eat f h m = (if length m < 64 then (h, m) else eat f (f h (take 64 m)) (drop 64 m))"

declare eat.simps [simp del]

lemma eat_short [simp]: "length m < 64 \<Longrightarrow> eat f h m = (h, m)"
  by (simp add: eat.simps)

lemma eat_block: "64 \<le> length m \<Longrightarrow> eat f h m = eat f (f h (take 64 m)) (drop 64 m)"
  by (simp add: eat.simps)

lemma eat_append: "eat f h (m @ d) = (case eat f h m of (h, r) \<Rightarrow> eat f h (r @ d))"
proof (induction f h m rule: eat.induct)
  case (1 f h m)
  show ?case
  proof (cases "length m < 64")
    case False
    then have "eat f h (m @ d) = eat f (f h (take 64 m)) (drop 64 m @ d)" by (simp add: eat_block)
    then show ?thesis using 1 False by (simp add: eat_block)
  qed simp
qed

lemma eat_rest: "length (snd (eat f h m)) = length m mod 64"
proof (induction f h m rule: eat.induct)
  case (1 f h m)
  show ?case
  proof (cases "length m < 64")
    case False
    then show ?thesis using 1 by (simp add: eat_block le_mod_geq)
  qed simp
qed

lemma eat_rest_suffix: "snd (eat f h m) = drop (length m - length m mod 64) m"
proof (induction f h m rule: eat.induct)
  case (1 f h m)
  show ?case
  proof (cases "length m < 64")
    case False
    moreover have "64 + (length m - 64 - (length m - 64) mod 64) = length m - length m mod 64"
      using False by (simp add: le_mod_geq)
    ultimately show ?thesis using 1 by (simp add: eat_block)
  qed simp
qed

text \<open>
  Adding a piece to a context whose buffer holds the rest of the message: either the piece
  fits, or it completes the block and the remaining data is eaten.
\<close>

lemma eat_add_short:
  assumes "eat f h m = (st, take (length m mod 64) buf)" "length m mod 64 + length d < 64" "length buf = 64"
  shows "eat f h (m @ d) = (st, take (length (m @ d) mod 64) (patch buf (length m mod 64) d))"
proof -
  have "(length m + length d) mod 64 = length m mod 64 + length d"
    using assms(2) by (metis mod_add_left_eq mod_less)
  then show ?thesis unfolding eat_append [of f h m d] using assms by simp
qed

lemma eat_add_full:
  assumes "eat f h m = (st, take j buf)" "j = length m mod 64" "64 \<le> j + length d" "length buf = 64"
  shows "eat f h (m @ d) = eat f (f st (patch buf j (take (64 - j) d))) (drop (64 - j) d)"
proof -
  have "j < 64" using assms(2) by simp
  then have "patch buf j (take (64 - j) d) = take j buf @ take (64 - j) d"
    using assms(3,4) by (simp add: patch_def)
  then show ?thesis unfolding eat_append [of f h m d] using assms(1,3,4) \<open>j < 64\<close> by (simp add: eat_block)
qed

text \<open>The padding of all three hashes: a one bit, zeros up to 56 modulo 64, the bit count.\<close>

definition pad_zeros :: "nat \<Rightarrow> nat" where
  "pad_zeros n = (119 - n mod 64) mod 64"

lemma pad_zeros_total: "(n + 1 + pad_zeros n) mod 64 = 56"
proof -
  have "n mod 64 < 64" by simp
  then have "(n mod 64 + 1 + (119 - n mod 64)) mod 64 = 56" by simp
  then show ?thesis unfolding pad_zeros_def by (metis mod_add_left_eq mod_add_right_eq)
qed

lemma pad_zeros_cases:
  "pad_zeros n = (if n mod 64 < 56 then 55 - n mod 64 else 119 - n mod 64)"
proof -
  have "(119 - n mod 64) mod 64 = 119 - n mod 64 - 64" if "n mod 64 < 56"
    using that by (subst le_mod_geq) auto
  moreover have "119 - n mod 64 < 64" if "\<not> n mod 64 < 56" using that by simp
  ultimately show ?thesis unfolding pad_zeros_def by auto
qed

section \<open>Bit counters\<close>

lemma count_low: "(of_nat (8 * n) :: u32) + push_bit 3 (of_nat l) = of_nat (8 * (n + l))"
  by (simp add: push_bit_eq_mult algebra_simps)

lemma shift3_value: "push_bit 3 (of_nat l :: u32) = of_nat (8 * l)"
  by (simp add: push_bit_eq_mult)

lemma unat_count: "unat (of_nat (8 * n) :: u32) = 8 * (n mod 2 ^ 29)"
proof -
  have "unat (of_nat (8 * n) :: u32) = 8 * n mod (8 * 2 ^ 29)" by (subst unat_of_nat) simp
  then show ?thesis by (simp only: mod_mult_mult1)
qed

lemma count_index: "unat (drop_bit 3 (of_nat (8 * n) :: u32) AND 63) = n mod 64"
proof -
  have mask: "63 = (mask 6 :: u32)" by (simp add: mask_eq_exp_minus_1)
  have "unat (drop_bit 3 (of_nat (8 * n) :: u32) AND 63) = take_bit 6 (drop_bit 3 (unat (of_nat (8 * n) :: u32)))"
    unfolding mask take_bit_eq_mask [symmetric] unsigned_take_bit_eq unat_drop_bit ..
  also have "\<dots> = n mod 2 ^ 29 mod 2 ^ 6"
    unfolding unat_count by (simp add: take_bit_eq_mod drop_bit_eq_div)
  finally show ?thesis by (simp add: mod_mod_cancel)
qed

text \<open>The carry into the high half, in the two ways the sources test for it.\<close>

lemma count_carry:
  fixes n l :: nat
  assumes "l < 2 ^ 32"
  defines "lo \<equiv> of_nat (8 * n) :: u32" and "inc \<equiv> push_bit 3 (of_nat l) :: u32"
  shows "of_nat (8 * (n + l) div 2 ^ 32) =
           (of_nat (8 * n div 2 ^ 32) + (if lo + inc < inc then 1 else 0) + drop_bit 29 (of_nat l) :: u32)"
    and "lo + inc < inc \<longleftrightarrow> lo + inc < lo"
proof -
  define A B where "A = n mod 2 ^ 29" and "B = l mod 2 ^ 29"
  have AB: "A < 2 ^ 29" "B < 2 ^ 29" by (simp_all add: A_def B_def)
  have u: "unat lo = 8 * A" "unat inc = 8 * B" "unat (lo + inc) = 8 * ((A + B) mod 2 ^ 29)"
    unfolding lo_def inc_def count_low unfolding shift3_value unat_count by (simp_all add: A_def B_def mod_add_eq)
  have sum: "(A + B) mod 2 ^ 29 = (if A + B < 2 ^ 29 then A + B else A + B - 2 ^ 29)"
    using AB by (simp add: mod_if)
  have carry: "lo + inc < inc \<longleftrightarrow> 2 ^ 29 \<le> A + B" "lo + inc < lo \<longleftrightarrow> 2 ^ 29 \<le> A + B"
    unfolding word_less_nat_alt u sum using AB by auto
  have "(n + l) div 2 ^ 29 = n div 2 ^ 29 + l div 2 ^ 29 + (A + B) div 2 ^ 29"
    by (simp add: A_def B_def div_add1_eq [of n l])
  moreover have "(A + B) div 2 ^ 29 = (if 2 ^ 29 \<le> A + B then 1 else 0)"
    using AB by (simp add: div_if) linarith
  moreover have "8 * k div 2 ^ 32 = k div 2 ^ 29" for k :: nat
  proof -
    have "8 * k div 2 ^ 32 = (8 * k) div (8 * 2 ^ 29)" by simp
    then show ?thesis by (simp only: div_mult_mult1)
  qed
  moreover have "drop_bit 29 (of_nat l :: u32) = of_nat (l div 2 ^ 29)"
    unfolding word_unat_eq_iff unat_drop_bit unat_of_nat using assms(1) by (simp add: drop_bit_eq_div)
  ultimately show "of_nat (8 * (n + l) div 2 ^ 32) =
           (of_nat (8 * n div 2 ^ 32) + (if lo + inc < inc then 1 else 0) + drop_bit 29 (of_nat l) :: u32)"
    by (simp add: carry del: distrib_left_numeral)
  show "lo + inc < inc \<longleftrightarrow> lo + inc < lo" by (simp add: carry)
qed

section \<open>The interface of a streaming hash\<close>

definition feed :: "('c \<Rightarrow> bytes \<Rightarrow> 'c option) \<Rightarrow> 'c \<Rightarrow> bytes list \<Rightarrow> 'c option" where
  "feed update c elems = foldl (\<lambda>r d. r \<bind> (\<lambda>c. update c d)) (Some c) elems"

lemma feed_simps [simp]:
  "feed update c [] = Some c"
  "feed update c (d # ds) = update c d \<bind> (\<lambda>c. feed update c ds)"
proof -
  have "foldl (\<lambda>r d. r \<bind> (\<lambda>c. update c d)) None ds = None" by (induction ds) simp_all
  then show "feed update c (d # ds) = update c d \<bind> (\<lambda>c. feed update c ds)"
    by (cases "update c d") (simp_all add: feed_def)
qed (simp add: feed_def)

locale stream_hash =
  fixes repr :: "bytes \<Rightarrow> 'c \<Rightarrow> bool"
    and init :: 'c
    and update :: "'c \<Rightarrow> bytes \<Rightarrow> 'c option"
    and final :: "'c \<Rightarrow> bytes option"
    and digest :: "bytes \<Rightarrow> bytes"
    and fits :: "bytes \<Rightarrow> bool"
  assumes repr_init: "repr [] init"
    and repr_update: "repr m c \<Longrightarrow> fits d \<Longrightarrow> \<exists>c'. update c d = Some c' \<and> repr (m @ d) c'"
    and repr_final: "repr m c \<Longrightarrow> final c = Some (digest m)"
begin

lemma repr_feed:
  "repr m c \<Longrightarrow> list_all fits ds \<Longrightarrow> \<exists>c'. feed update c ds = Some c' \<and> repr (m @ concat ds) c'"
proof (induction ds arbitrary: m c)
  case (Cons d ds)
  obtain c' where "update c d = Some c'" "repr (m @ d) c'"
    using repr_update [of m c d] Cons.prems by auto
  then show ?case using Cons.IH [of "m @ d" c'] Cons.prems by simp
qed simp

lemma vector_digest:
  "list_all fits ds \<Longrightarrow> feed update init ds \<bind> final = Some (digest (concat ds))"
  using repr_feed [OF repr_init] repr_final by fastforce

end

text \<open>A hash whose values, and a padded key, can be fed to it again.\<close>

locale keyed_hash = stream_hash +
  assumes fits_block: "length d \<le> 64 \<Longrightarrow> fits d"
    and digest_short: "length (digest m) \<le> 64"
begin

text \<open>
  The two passes of a keyed hash over a prepared key: whatever pieces the text comes in, the
  result is the nested hash of RFC 2104.
\<close>

lemma two_passes:
  assumes "length ipad = 64" "length opad = 64" "list_all fits ds"
  shows "(feed update init (ipad # ds) \<bind> final) \<bind> (\<lambda>mac. feed update init [opad, mac] \<bind> final) =
         Some (digest (opad @ digest (ipad @ concat ds)))"
proof -
  have "list_all fits (ipad # ds)" "list_all fits [opad, digest (ipad @ concat ds)]"
    using assms fits_block digest_short by simp_all
  then have "feed update init (ipad # ds) \<bind> final = Some (digest (ipad @ concat ds))"
    "feed update init [opad, digest (ipad @ concat ds)] \<bind> final = Some (digest (opad @ digest (ipad @ concat ds)))"
    using vector_digest [of "ipad # ds"] vector_digest [of "[opad, digest (ipad @ concat ds)]"]
    by (simp_all del: feed_simps)
  then show ?thesis by (simp del: feed_simps)
qed

end

end
