(* ===== verification/Sha1.thy ===== *)
theory Sha1
  imports HashStream
begin

text \<open>
  SHA-1 (\<^verbatim>\<open>wpa_supplicant/src/crypto/sha1-internal.c\<close>): the transform with its circular
  16-word schedule, the streaming context, and \<open>sha1_vector\<close>.

  The registers are renamed from one \<^verbatim>\<open>R\<close> macro call to the next; the model keeps them in
  the order of the macro's parameters \<^verbatim>\<open>v w x y z\<close> and rotates the tuple instead. The block
  is loaded in the little-endian order of the host. \<^verbatim>\<open>SHA1Update\<close> takes a \<^verbatim>\<open>u32\<close> length; from
  \<open>2\<^sup>3\<^sup>2 - 64\<close> on its index arithmetic wraps and leaves the buffers, where the model is
  \<open>None\<close>.
\<close>

section \<open>Transform\<close>

type_synonym sha1_regs = "u32 \<times> u32 \<times> u32 \<times> u32 \<times> u32"

definition blk0 :: "u32 list \<Rightarrow> nat \<Rightarrow> u32" where
  "blk0 l i = (rol (l ! i) 24 AND 0xFF00FF00) OR (rol (l ! i) 8 AND 0x00FF00FF)"

definition blk :: "u32 list \<Rightarrow> nat \<Rightarrow> u32" where
  "blk l i = rol (l ! ((i + 13) mod 16) XOR l ! ((i + 8) mod 16) XOR l ! ((i + 2) mod 16) XOR l ! (i mod 16)) 1"

definition sha1_round :: "(u32 \<Rightarrow> u32 \<Rightarrow> u32 \<Rightarrow> u32) \<Rightarrow> u32 \<Rightarrow> u32 \<Rightarrow> sha1_regs \<Rightarrow> sha1_regs" where
  "sha1_round f k b regs =
     (case regs of (v, w, x, y, z) \<Rightarrow> (z + (f w x y + b + k + rol v 5), v, rol w 30, x, y))"

definition R0 :: "sha1_regs \<times> u32 list \<Rightarrow> nat \<Rightarrow> sha1_regs \<times> u32 list" where
  "R0 s i = (sha1_round (\<lambda>w x y. (w AND (x XOR y)) XOR y) 0x5A827999 (blk0 (snd s) i) (fst s),
             (snd s)[i := blk0 (snd s) i])"

definition R1 :: "sha1_regs \<times> u32 list \<Rightarrow> nat \<Rightarrow> sha1_regs \<times> u32 list" where
  "R1 s i = (sha1_round (\<lambda>w x y. (w AND (x XOR y)) XOR y) 0x5A827999 (blk (snd s) i) (fst s),
             (snd s)[i mod 16 := blk (snd s) i])"

definition R2 :: "sha1_regs \<times> u32 list \<Rightarrow> nat \<Rightarrow> sha1_regs \<times> u32 list" where
  "R2 s i = (sha1_round (\<lambda>w x y. w XOR x XOR y) 0x6ED9EBA1 (blk (snd s) i) (fst s),
             (snd s)[i mod 16 := blk (snd s) i])"

definition R3 :: "sha1_regs \<times> u32 list \<Rightarrow> nat \<Rightarrow> sha1_regs \<times> u32 list" where
  "R3 s i = (sha1_round (\<lambda>w x y. ((w OR x) AND y) OR (w AND x)) 0x8F1BBCDC (blk (snd s) i) (fst s),
             (snd s)[i mod 16 := blk (snd s) i])"

definition R4 :: "sha1_regs \<times> u32 list \<Rightarrow> nat \<Rightarrow> sha1_regs \<times> u32 list" where
  "R4 s i = (sha1_round (\<lambda>w x y. w XOR x XOR y) 0xCA62C1D6 (blk (snd s) i) (fst s),
             (snd s)[i mod 16 := blk (snd s) i])"

definition sha1_add :: "sha1_regs \<Rightarrow> sha1_regs \<Rightarrow> sha1_regs" where
  "sha1_add s r = (case s of (a, b, c, d, e) \<Rightarrow> case r of (a', b', c', d', e') \<Rightarrow>
     (a + a', b + b', c + c', d + d', e + e'))"

definition SHA1Transform :: "sha1_regs \<Rightarrow> bytes \<Rightarrow> sha1_regs" where
  "SHA1Transform state buffer =
     (let s = (state, map (\<lambda>i. get_le32 (drop (4 * i) buffer)) [0..<16]);
          s = foldl R0 s [0..<16];
          s = foldl R1 s [16..<20];
          s = foldl R2 s [20..<40];
          s = foldl R3 s [40..<60];
          s = foldl R4 s [60..<80]
      in sha1_add state (fst s))"

section \<open>Context\<close>

record SHA1_CTX =
  sha1_state :: sha1_regs
  count_lo :: u32
  count_hi :: u32
  sha1_buffer :: bytes

definition SHA1_IV :: sha1_regs where
  "SHA1_IV = (0x67452301, 0xEFCDAB89, 0x98BADCFE, 0x10325476, 0xC3D2E1F0)"

definition SHA1Init :: "bytes \<Rightarrow> SHA1_CTX" where
  "SHA1Init garbage = \<lparr>sha1_state = SHA1_IV, count_lo = 0, count_hi = 0, sha1_buffer = garbage\<rparr>"

text \<open>The loop over the whole blocks of the data from index \<open>i\<close> on.\<close>

function sha1_loop :: "sha1_regs \<Rightarrow> bytes \<Rightarrow> nat \<Rightarrow> sha1_regs \<times> nat" where
  "sha1_loop st data i =
     (if i + 63 < length data then sha1_loop (SHA1Transform st (take 64 (drop i data))) data (i + 64)
      else (st, i))"
  by pat_completeness auto
termination by (relation "measure (\<lambda>(st, data, i). length data - i)") auto

declare sha1_loop.simps [simp del]

definition SHA1Update :: "SHA1_CTX \<Rightarrow> bytes \<Rightarrow> SHA1_CTX option" where
  "SHA1Update ctx data =
     (if 2 ^ 32 - 64 \<le> length data then None
      else
        let len = of_nat (length data) :: u32;
            j = unat (drop_bit 3 (count_lo ctx) AND 63);
            lo = count_lo ctx + push_bit 3 len;
            hi = (if lo < push_bit 3 len then count_hi ctx + 1 else count_hi ctx) + drop_bit 29 len;
            ctx = ctx\<lparr>count_lo := lo, count_hi := hi\<rparr>
        in if 63 < j + length data then
             let buf = patch (sha1_buffer ctx) j (take (64 - j) data);
                 st = SHA1Transform (sha1_state ctx) buf;
                 (st, i) = sha1_loop st data (64 - j)
             in Some (ctx\<lparr>sha1_state := st, sha1_buffer := patch buf 0 (drop i data)\<rparr>)
           else Some (ctx\<lparr>sha1_buffer := patch (sha1_buffer ctx) j data\<rparr>))"

text \<open>The padding loop, with the number of rounds it may take as fuel.\<close>

fun sha1_pad_loop :: "nat \<Rightarrow> SHA1_CTX \<Rightarrow> SHA1_CTX option" where
  "sha1_pad_loop fuel ctx =
     (if count_lo ctx AND 504 \<noteq> 448 then
        (case fuel of 0 \<Rightarrow> None | Suc fuel \<Rightarrow> SHA1Update ctx [0] \<bind> sha1_pad_loop fuel)
      else Some ctx)"

declare sha1_pad_loop.simps [simp del]

definition sha1_reg :: "sha1_regs \<Rightarrow> nat \<Rightarrow> u32" where
  "sha1_reg s i = (case s of (a, b, c, d, e) \<Rightarrow> [a, b, c, d, e] ! i)"

definition sha1_digest_bytes :: "sha1_regs \<Rightarrow> bytes" where
  "sha1_digest_bytes st = map (\<lambda>i. ucast (drop_bit ((3 - i mod 4) * 8) (sha1_reg st (i div 4)) AND 255)) [0..<20]"

definition sha1_finalcount :: "SHA1_CTX \<Rightarrow> bytes" where
  "sha1_finalcount ctx =
     map (\<lambda>i. ucast (drop_bit ((3 - i mod 4) * 8) (if 4 \<le> i then count_lo ctx else count_hi ctx) AND 255)) [0..<8]"

definition SHA1Final :: "SHA1_CTX \<Rightarrow> (bytes \<times> SHA1_CTX) option" where
  "SHA1Final ctx =
     do {
       let finalcount = sha1_finalcount ctx;
       ctx \<leftarrow> SHA1Update ctx [0x80];
       ctx \<leftarrow> sha1_pad_loop 64 ctx;
       ctx \<leftarrow> SHA1Update ctx finalcount;
       Some (sha1_digest_bytes (sha1_state ctx),
             \<lparr>sha1_state = (0, 0, 0, 0, 0), count_lo = 0, count_hi = 0, sha1_buffer = replicate 64 0\<rparr>)
     }"

definition sha1_vector :: "bytes list \<Rightarrow> bytes option" where
  "sha1_vector elems =
     feed SHA1Update (SHA1Init (replicate 64 0)) elems \<bind> (\<lambda>ctx. map_option fst (SHA1Final ctx))"

section \<open>What a context represents\<close>

text \<open>
  The context after the bytes \<open>m\<close>: the bit count in its two halves, the chaining value
  after the whole blocks of \<open>m\<close>, and the rest of \<open>m\<close> at the start of the buffer.
\<close>

definition sha1_repr :: "bytes \<Rightarrow> SHA1_CTX \<Rightarrow> bool" where
  "sha1_repr m ctx \<longleftrightarrow>
     count_lo ctx = of_nat (8 * length m) \<and> count_hi ctx = of_nat (8 * length m div 2 ^ 32) \<and>
     length (sha1_buffer ctx) = 64 \<and>
     eat SHA1Transform SHA1_IV m = (sha1_state ctx, take (length m mod 64) (sha1_buffer ctx))"

definition sha1_pad :: "bytes \<Rightarrow> bytes" where
  "sha1_pad m = m @ [0x80] @ replicate (pad_zeros (length m)) 0 @
     put_be32 (of_nat (8 * length m div 2 ^ 32)) @ put_be32 (of_nat (8 * length m))"

text \<open>The standard's definition: the chaining value after all blocks of the padded message.\<close>

definition sha1_digest :: "bytes \<Rightarrow> bytes" where
  "sha1_digest m = sha1_digest_bytes (fst (eat SHA1Transform SHA1_IV (sha1_pad m)))"

lemma sha1_repr_init: "length g = 64 \<Longrightarrow> sha1_repr [] (SHA1Init g)"
  by (simp add: sha1_repr_def SHA1Init_def)

lemma sha1_loop_eat:
  "i \<le> length data \<Longrightarrow>
   sha1_loop st data i = (fst (eat SHA1Transform st (drop i data)),
                          length data - length (snd (eat SHA1Transform st (drop i data))))"
proof (induction st data i rule: sha1_loop.induct)
  case (1 st data i)
  show ?case
  proof (cases "i + 63 < length data")
    case True
    then have "sha1_loop st data i = sha1_loop (SHA1Transform st (take 64 (drop i data))) data (i + 64)"
      by (simp add: sha1_loop.simps [of st data i])
    moreover have "eat SHA1Transform st (drop i data) =
        eat SHA1Transform (SHA1Transform st (take 64 (drop i data))) (drop (i + 64) data)"
      using True by (subst eat_block) (simp_all add: add.commute)
    ultimately show ?thesis using 1 True by simp
  next
    case False
    then show ?thesis using 1 by (simp add: sha1_loop.simps [of st data i])
  qed
qed

lemma sha1_loop_rest:
  assumes "i \<le> length data" "sha1_loop st data i = (st', k)"
  shows "eat SHA1Transform st (drop i data) = (st', drop k data)"
proof -
  let ?e = "eat SHA1Transform st (drop i data)"
  have "snd ?e = drop (length (drop i data) - length (snd ?e)) (drop i data)"
    by (subst eat_rest_suffix) (simp add: eat_rest)
  moreover have "length (snd ?e) \<le> length data - i" using eat_rest [of _ st "drop i data"] by simp
  ultimately have "snd ?e = drop (length data - length (snd ?e)) data" using assms(1) by simp
  then show ?thesis using assms sha1_loop_eat [OF assms(1), of st] by (metis prod.collapse prod.inject)
qed

lemma sha1_repr_count:
  assumes "sha1_repr m ctx" "length d < 2 ^ 32"
  defines "len \<equiv> of_nat (length d) :: u32"
  defines "lo \<equiv> count_lo ctx + push_bit 3 len"
  shows "unat (drop_bit 3 (count_lo ctx) AND 63) = length m mod 64"
    and "lo = of_nat (8 * length (m @ d))"
    and "(if lo < push_bit 3 len then count_hi ctx + 1 else count_hi ctx) + drop_bit 29 len =
           of_nat (8 * length (m @ d) div 2 ^ 32)"
proof -
  have c: "count_lo ctx = of_nat (8 * length m)" "count_hi ctx = of_nat (8 * length m div 2 ^ 32)"
    using assms(1) by (simp_all add: sha1_repr_def)
  show "unat (drop_bit 3 (count_lo ctx) AND 63) = length m mod 64" unfolding c by (rule count_index)
  show "lo = of_nat (8 * length (m @ d))" unfolding lo_def len_def c count_low by simp
  show "(if lo < push_bit 3 len then count_hi ctx + 1 else count_hi ctx) + drop_bit 29 len =
          of_nat (8 * length (m @ d) div 2 ^ 32)"
    using count_carry(1) [OF assms(2), of "length m"] unfolding lo_def len_def c by simp
qed

lemma sha1_repr_update:
  assumes "sha1_repr m ctx" "length d < 2 ^ 32 - 64"
  shows "\<exists>ctx'. SHA1Update ctx d = Some ctx' \<and> sha1_repr (m @ d) ctx'"
proof -
  define j where "j = length m mod 64"
  have j: "j < 64" by (simp add: j_def)
  have r: "eat SHA1Transform SHA1_IV m = (sha1_state ctx, take j (sha1_buffer ctx))" "length (sha1_buffer ctx) = 64"
    using assms(1) by (simp_all add: sha1_repr_def j_def)
  have "length d < 2 ^ 32" using assms(2) by simp
  note cnt = sha1_repr_count [OF assms(1) this, folded j_def]
  show ?thesis
  proof (cases "63 < j + length d")
    case True
    define b where "b = patch (sha1_buffer ctx) j (take (64 - j) d)"
    obtain st i where loop: "sha1_loop (SHA1Transform (sha1_state ctx) b) d (64 - j) = (st, i)"
      by (meson surj_pair)
    have e: "eat SHA1Transform SHA1_IV (m @ d) = (st, drop i d)"
      unfolding eat_add_full [OF r(1) j_def _ r(2), of d, simplified, OF True [THEN Suc_leI, simplified]]
        b_def [symmetric]
      by (rule sha1_loop_rest [OF _ loop]) (use True in simp)
    have l: "length (drop i d) = length (m @ d) mod 64" "length b = 64"
      using eat_rest [of SHA1Transform SHA1_IV "m @ d"] e r(2) True j by (simp_all add: b_def)
    have "length (drop i d) < 64" unfolding l by simp
    then have "length (patch b 0 (drop i d)) = 64" "take (length (m @ d) mod 64) (patch b 0 (drop i d)) = drop i d"
      using l by (simp_all add: take_patch_start)
    then show ?thesis using assms(2) e cnt True
      by (simp add: SHA1Update_def Let_def b_def [symmetric] loop sha1_repr_def)
  next
    case False
    then show ?thesis
      using assms(2) cnt r(2) eat_add_short [OF r(1) [unfolded j_def] _ r(2), of d, folded j_def]
      by (simp add: SHA1Update_def Let_def sha1_repr_def)
  qed
qed

lemma count_at_56:
  "(of_nat (8 * n) :: u32) AND 504 = 448 \<longleftrightarrow> n mod 64 = 56"
proof -
  define y where "y = drop_bit 3 (of_nat (8 * n) :: u32) AND 63"
  have "(of_nat (8 * n) :: u32) AND 504 = push_bit 3 y"
  proof -
    have masks: "504 = push_bit 3 (mask 6 :: u32)" "63 = (mask 6 :: u32)" by (simp_all add: mask_eq_exp_minus_1)
    show ?thesis unfolding y_def masks by (rule bit_word_eqI) (auto simp: bit_simps)
  qed
  moreover have y: "unat y = n mod 64" unfolding y_def by (rule count_index)
  moreover have "unat (push_bit 3 y) = 8 * (n mod 64)"
  proof -
    have "8 * (n mod 64) < 8 * 64" by simp
    also have "\<dots> < (2 :: nat) ^ 32" by simp
    finally have "8 * (n mod 64) < 2 ^ 32" .
    then show ?thesis using y by (simp add: push_bit_eq_mult unat_word_ariths(2))
  qed
  ultimately show ?thesis unfolding word_unat_eq_iff by simp
qed

lemma sha1_pad_loop_runs:
  "sha1_repr m ctx \<Longrightarrow> (length m + k) mod 64 = 56 \<Longrightarrow> k < 64 \<Longrightarrow> k \<le> fuel \<Longrightarrow>
   \<exists>ctx'. sha1_pad_loop fuel ctx = Some ctx' \<and> sha1_repr (m @ replicate k 0) ctx'"
proof (induction k arbitrary: m ctx fuel)
  case 0
  then have "count_lo ctx AND 504 = 448" using count_at_56 [of "length m"] by (simp add: sha1_repr_def)
  then show ?case using 0 by (subst sha1_pad_loop.simps) simp
next
  case (Suc k)
  have "length m mod 64 \<noteq> 56"
  proof
    assume "length m mod 64 = 56"
    then have "(56 + Suc k) mod 64 = 56" using Suc.prems(2) by (metis mod_add_left_eq)
    then show False using Suc.prems(3) by (simp add: mod_if split: if_splits)
  qed
  then have go: "count_lo ctx AND 504 \<noteq> 448"
    using count_at_56 [of "length m"] Suc.prems(1) by (simp add: sha1_repr_def)
  obtain f where f: "fuel = Suc f" using Suc.prems(4) by (cases fuel) auto
  obtain c where c: "SHA1Update ctx [0] = Some c" "sha1_repr (m @ [0]) c"
    using sha1_repr_update [OF Suc.prems(1), of "[0]"] by auto
  have "\<exists>ctx'. sha1_pad_loop f c = Some ctx' \<and> sha1_repr ((m @ [0]) @ replicate k 0) ctx'"
    by (rule Suc.IH [OF c(2)]) (use Suc.prems f in simp_all)
  then show ?case using go c(1) f by (subst sha1_pad_loop.simps) (simp add: replicate_append_same)
qed

lemma sha1_finalcount_bytes: "sha1_finalcount ctx = put_be32 (count_hi ctx) @ put_be32 (count_lo ctx)"
  by (simp add: sha1_finalcount_def upt_rec put_be32_def and_255_ucast)

lemma sha1_repr_final:
  assumes "sha1_repr m ctx"
  shows "map_option fst (SHA1Final ctx) = Some (sha1_digest m)"
proof -
  obtain c1 where c1: "SHA1Update ctx [0x80] = Some c1" "sha1_repr (m @ [0x80]) c1"
    using sha1_repr_update [OF assms, of "[0x80]"] by auto
  obtain c2 where c2: "sha1_pad_loop 64 c1 = Some c2"
    "sha1_repr ((m @ [0x80]) @ replicate (pad_zeros (length m)) 0) c2"
    using sha1_pad_loop_runs [OF c1(2), of "pad_zeros (length m)" 64] pad_zeros_total [of "length m"]
    by (auto simp: pad_zeros_def)
  obtain c3 where c3: "SHA1Update c2 (sha1_finalcount ctx) = Some c3"
    "sha1_repr (((m @ [0x80]) @ replicate (pad_zeros (length m)) 0) @ sha1_finalcount ctx) c3"
    using sha1_repr_update [OF c2(2), of "sha1_finalcount ctx"] by (auto simp: sha1_finalcount_def)
  have "((m @ [0x80]) @ replicate (pad_zeros (length m)) 0) @ sha1_finalcount ctx = sha1_pad m"
    using assms by (simp add: sha1_pad_def sha1_finalcount_bytes sha1_repr_def)
  then have "fst (eat SHA1Transform SHA1_IV (sha1_pad m)) = sha1_state c3"
    using c3(2) by (simp add: sha1_repr_def)
  then show ?thesis by (simp add: SHA1Final_def c1(1) c2(1) c3(1) sha1_digest_def)
qed

lemma length_sha1_digest [simp, len_simps]: "length (sha1_digest m) = 20"
  by (simp add: sha1_digest_def sha1_digest_bytes_def)

interpretation sha1: keyed_hash sha1_repr "SHA1Init (replicate 64 0)" SHA1Update
  "\<lambda>ctx. map_option fst (SHA1Final ctx)" sha1_digest "\<lambda>d. length d < 2 ^ 32 - 64"
  by unfold_locales (use sha1_repr_init sha1_repr_update sha1_repr_final in auto)

lemma sha1_vector_digest:
  "list_all (\<lambda>d. length d < 2 ^ 32 - 64) elems \<Longrightarrow> sha1_vector elems = Some (sha1_digest (concat elems))"
  unfolding sha1_vector_def by (rule sha1.vector_digest)

section \<open>The transform against the standard\<close>

text \<open>
  FIPS 180-1: the 80-word message schedule, the round functions, the constants.
\<close>

fun sha1_W :: "bytes \<Rightarrow> nat \<Rightarrow> u32" where
  "sha1_W block t =
     (if t < 16 then get_be32 (drop (4 * t) block)
      else rol (sha1_W block (t - 3) XOR sha1_W block (t - 8) XOR sha1_W block (t - 14) XOR sha1_W block (t - 16)) 1)"

declare sha1_W.simps [simp del]

definition sha1_f :: "nat \<Rightarrow> u32 \<Rightarrow> u32 \<Rightarrow> u32 \<Rightarrow> u32" where
  "sha1_f t b c d =
     (if t < 20 then (b AND c) OR (NOT b AND d)
      else if t < 40 then b XOR c XOR d
      else if t < 60 then (b AND c) OR (b AND d) OR (c AND d)
      else b XOR c XOR d)"

definition sha1_K :: "nat \<Rightarrow> u32" where
  "sha1_K t = (if t < 20 then 0x5A827999 else if t < 40 then 0x6ED9EBA1
               else if t < 60 then 0x8F1BBCDC else 0xCA62C1D6)"

definition sha1_ref_round :: "bytes \<Rightarrow> sha1_regs \<Rightarrow> nat \<Rightarrow> sha1_regs" where
  "sha1_ref_round block r t =
     (case r of (a, b, c, d, e) \<Rightarrow> (rol a 5 + sha1_f t b c d + e + sha1_W block t + sha1_K t, a, rol b 30, c, d))"

definition sha1_ref_transform :: "sha1_regs \<Rightarrow> bytes \<Rightarrow> sha1_regs" where
  "sha1_ref_transform st block = sha1_add st (foldl (sha1_ref_round block) st [0..<80])"

definition sha1_step :: "sha1_regs \<times> u32 list \<Rightarrow> nat \<Rightarrow> sha1_regs \<times> u32 list" where
  "sha1_step s t = (if t < 16 then R0 s t else if t < 20 then R1 s t else if t < 40 then R2 s t
                    else if t < 60 then R3 s t else R4 s t)"

definition sha1_load :: "bytes \<Rightarrow> u32 list" where
  "sha1_load block = map (\<lambda>i. get_le32 (drop (4 * i) block)) [0..<16]"

lemma sha1_transform_step: "SHA1Transform st block = sha1_add st (fst (foldl sha1_step (st, sha1_load block) [0..<80]))"
proof -
  have split: "[0..<80] = [0..<16] @ [16..<20] @ [20..<40] @ [40..<60] @ [60..<80]"
    using upt_add_eq_append [of 0 16 4] upt_add_eq_append [of 0 20 20] upt_add_eq_append [of 0 40 20]
      upt_add_eq_append [of 0 60 20] by (simp)
  have folds: "foldl R0 s [0..<16] = foldl sha1_step s [0..<16]" "foldl R1 s [16..<20] = foldl sha1_step s [16..<20]"
    "foldl R2 s [20..<40] = foldl sha1_step s [20..<40]" "foldl R3 s [40..<60] = foldl sha1_step s [40..<60]"
    "foldl R4 s [60..<80] = foldl sha1_step s [60..<80]" for s
    by (rule foldl_cong; auto simp: sha1_step_def)+
  show ?thesis unfolding SHA1Transform_def Let_def sha1_load_def [symmetric] folds split foldl_append ..
qed

lemma swap_bytes:
  "(rol (get_le32 p) 24 AND 0xFF00FF00) OR (rol (get_le32 p) 8 AND 0x00FF00FF) = get_be32 p"
proof -
  have masks: "0xFF00FF00 = word4 0xFF 0 0xFF 0" "0x00FF00FF = word4 0 0xFF 0 0xFF" by (simp_all add: word4_def)
  have full: "b AND 0xFF = b" for b :: u8
  proof -
    have "0xFF = (-1 :: u8)" by simp
    then show ?thesis by (simp only: and.right_neutral)
  qed
  show ?thesis unfolding get_word4 rol_word4 masks word4_and word4_or full by simp
qed

lemma length_sha1_load [simp]: "length (sha1_load block) = 16"
  by (simp add: sha1_load_def)

text \<open>The circular buffer holds the last 16 words of the schedule.\<close>

definition sched_inv :: "bytes \<Rightarrow> nat \<Rightarrow> u32 list \<Rightarrow> bool" where
  "sched_inv block t l \<longleftrightarrow> length l = 16 \<and>
     (\<forall>i<t. t \<le> i + 16 \<longrightarrow> l ! (i mod 16) = sha1_W block i) \<and>
     (\<forall>i<16. t \<le> i \<longrightarrow> l ! i = sha1_load block ! i)"

lemma sched_blk0:
  assumes "sched_inv block t l" "t < 16"
  shows "blk0 l t = sha1_W block t" and "sched_inv block (Suc t) (l[t := blk0 l t])"
proof -
  have "l ! t = get_le32 (drop (4 * t) block)" using assms by (simp add: sched_inv_def sha1_load_def)
  then show w: "blk0 l t = sha1_W block t" using assms(2) by (simp add: blk0_def swap_bytes sha1_W.simps)
  show "sched_inv block (Suc t) (l[t := blk0 l t])"
    using assms unfolding w by (auto simp: sched_inv_def nth_list_update less_Suc_eq)
qed

lemma sched_blk:
  assumes "sched_inv block t l" "16 \<le> t"
  shows "blk l t = sha1_W block t" and "sched_inv block (Suc t) (l[t mod 16 := blk l t])"
proof -
  have at: "l ! ((t + k) mod 16) = sha1_W block (t + k - 16)" if "k < 16" for k
  proof -
    have "(t + k) mod 16 = (t + k - 16) mod 16" using assms(2) by (simp add: le_mod_geq)
    then show ?thesis using assms that by (simp add: sched_inv_def)
  qed
  have "blk l t = rol (sha1_W block (t + 13 - 16) XOR sha1_W block (t + 8 - 16) XOR
      sha1_W block (t + 2 - 16) XOR sha1_W block (t + 0 - 16)) 1"
    unfolding blk_def using at [of 13] at [of 8] at [of 2] at [of 0] by simp
  then show w: "blk l t = sha1_W block t" using assms(2) by (subst sha1_W.simps) simp
  have apart: "(t mod 16 = i mod 16) = False" if "i < t" "t \<le> 15 + i" for i
    using that mod_eq_dvd_iff_nat [of i t 16] by (auto dest: dvd_imp_le)
  show "sched_inv block (Suc t) (l[t mod 16 := blk l t])"
    using assms unfolding w by (auto simp: sched_inv_def nth_list_update less_Suc_eq apart)
qed

lemma sha1_step_ref:
  assumes "sched_inv block t (snd s)"
  shows "fst (sha1_step s t) = sha1_ref_round block (fst s) t \<and> sched_inv block (Suc t) (snd (sha1_step s t))"
proof (cases "t < 16")
  case True
  then show ?thesis using sched_blk0 [OF assms True]
    by (auto simp: sha1_step_def R0_def sha1_round_def sha1_ref_round_def sha1_f_def sha1_K_def choose_eq
        add.commute add.left_commute add.assoc split: prod.split)
next
  case False
  then have "16 \<le> t" by simp
  then show ?thesis using sched_blk [OF assms]
    by (auto simp: sha1_step_def R1_def R2_def R3_def R4_def sha1_round_def sha1_ref_round_def sha1_f_def
        sha1_K_def choose_eq major_eq add.commute add.left_commute add.assoc split: prod.split)
qed

lemma sha1_rounds_ref:
  "fst (foldl sha1_step (st, sha1_load block) [0..<t]) = foldl (sha1_ref_round block) st [0..<t] \<and>
   sched_inv block t (snd (foldl sha1_step (st, sha1_load block) [0..<t]))"
proof (induction t)
  case 0
  then show ?case by (simp add: sched_inv_def)
next
  case (Suc t)
  then show ?case using sha1_step_ref [of block t "foldl sha1_step (st, sha1_load block) [0..<t]"] by simp
qed

lemma SHA1Transform_ref: "SHA1Transform = sha1_ref_transform"
  by (intro ext) (simp add: sha1_transform_step sha1_ref_transform_def sha1_rounds_ref)

section \<open>Properties\<close>

text \<open>
  C30: \<open>sha1_vector\<close> computes the hash of FIPS 180-1 of the concatenation of its pieces, however
  the message is cut: the circular 16-word schedule and the register renaming of the
  transform equal the 80-word schedule of the standard, the streaming context cuts the
  message into its 64-byte blocks, and the padding loop of the final call ends.
\<close>

theorem sha1_vector_standard:
  assumes "list_all (\<lambda>d. length d < 2 ^ 32 - 64) elems"
  shows "sha1_vector elems =
     Some (sha1_digest_bytes (fst (eat sha1_ref_transform SHA1_IV (sha1_pad (concat elems)))))"
  unfolding sha1_vector_digest [OF assms] sha1_digest_def SHA1Transform_ref ..

theorem sha1_vector_standard_witness:
  "sha1_vector [[0x61], [0x62, 0x63]] =
     Some (sha1_digest_bytes (fst (eat sha1_ref_transform SHA1_IV (sha1_pad [0x61, 0x62, 0x63]))))"
  using sha1_vector_standard [of "[[0x61], [0x62, 0x63]]"] by simp

end
