(* ===== verification/Sha256.thy ===== *)
theory Sha256
  imports HashStream
begin

text \<open>
  SHA-256 (\<^verbatim>\<open>wpa_supplicant/src/crypto/sha256-internal.c\<close>): the compression function, the
  streaming state and \<open>sha256_vector\<close>.
\<close>

section \<open>Compression\<close>

text \<open>The array \<^verbatim>\<open>K\<close>, in decimal; \<open>sha256_K_cube_roots\<close> below checks every entry.\<close>

definition sha256_K :: "u32 list" where
  "sha256_K =
    [1116352408, 1899447441, 3049323471, 3921009573, 961987163, 1508970993, 2453635748, 2870763221,
     3624381080, 310598401, 607225278, 1426881987, 1925078388, 2162078206, 2614888103, 3248222580,
     3835390401, 4022224774, 264347078, 604807628, 770255983, 1249150122, 1555081692, 1996064986,
     2554220882, 2821834349, 2952996808, 3210313671, 3336571891, 3584528711, 113926993, 338241895,
     666307205, 773529912, 1294757372, 1396182291, 1695183700, 1986661051, 2177026350, 2456956037,
     2730485921, 2820302411, 3259730800, 3345764771, 3516065817, 3600352804, 4094571909, 275423344,
     430227734, 506948616, 659060556, 883997877, 958139571, 1322822218, 1537002063, 1747873779,
     1955562222, 2024104815, 2227730452, 2361852424, 2428436474, 2756734187, 3204031479, 3329325298]"

text \<open>
  The standard's meaning of the table: entry \<open>i\<close> holds the first 32 bits of the fractional part of
  the cube root of the \<open>i\<close>-th prime. \<open>small_cbrt\<close> is the integer part; the bounds fix the entry uniquely.
\<close>

definition first_primes :: "nat list" where
  "first_primes =
    [2, 3, 5, 7, 11, 13, 17, 19, 23, 29, 31, 37, 41, 43, 47, 53,
     59, 61, 67, 71, 73, 79, 83, 89, 97, 101, 103, 107, 109, 113, 127, 131,
     137, 139, 149, 151, 157, 163, 167, 173, 179, 181, 191, 193, 197, 199, 211, 223,
     227, 229, 233, 239, 241, 251, 257, 263, 269, 271, 277, 281, 283, 293, 307, 311]"

definition small_cbrt :: "nat \<Rightarrow> nat" where
  "small_cbrt p = (if p < 8 then 1 else if p < 27 then 2 else if p < 64 then 3 else if p < 125 then 4
                   else if p < 216 then 5 else 6)"

definition cube_root_frac :: "nat \<Rightarrow> nat \<Rightarrow> bool" where
  "cube_root_frac p k \<longleftrightarrow> k < 2 ^ 32 \<and>
     (small_cbrt p * 2 ^ 32 + k) ^ 3 \<le> p * 2 ^ 96 \<and> p * 2 ^ 96 < (small_cbrt p * 2 ^ 32 + k + 1) ^ 3"

lemma sha256_K_cube_roots: "list_all2 cube_root_frac first_primes (map unat sha256_K)"
  by (simp add: first_primes_def sha256_K_def cube_root_frac_def small_cbrt_def)

definition RORc :: "u32 \<Rightarrow> nat \<Rightarrow> u32" where
  "RORc x y = drop_bit y x OR push_bit (32 - y) x"

definition Ch :: "u32 \<Rightarrow> u32 \<Rightarrow> u32 \<Rightarrow> u32" where "Ch x y z = z XOR (x AND (y XOR z))"

definition Maj :: "u32 \<Rightarrow> u32 \<Rightarrow> u32 \<Rightarrow> u32" where "Maj x y z = ((x OR y) AND z) OR (x AND y)"

definition Sigma_big0 :: "u32 \<Rightarrow> u32" where "Sigma_big0 x = RORc x 2 XOR RORc x 13 XOR RORc x 22"

definition Sigma_big1 :: "u32 \<Rightarrow> u32" where "Sigma_big1 x = RORc x 6 XOR RORc x 11 XOR RORc x 25"

definition Gamma0 :: "u32 \<Rightarrow> u32" where "Gamma0 x = RORc x 7 XOR RORc x 18 XOR drop_bit 3 x"

definition Gamma1 :: "u32 \<Rightarrow> u32" where "Gamma1 x = RORc x 17 XOR RORc x 19 XOR drop_bit 10 x"

type_synonym sha256_regs = "u32 \<times> u32 \<times> u32 \<times> u32 \<times> u32 \<times> u32 \<times> u32 \<times> u32"

text \<open>The schedule array, filled in index order.\<close>

definition sha256_fill :: "bytes \<Rightarrow> u32 list" where
  "sha256_fill buf =
     foldl (\<lambda>W i. W @ [Gamma1 (W ! (i - 2)) + W ! (i - 7) + Gamma0 (W ! (i - 15)) + W ! (i - 16)])
       (map (\<lambda>i. get_be32 (drop (4 * i) buf)) [0..<16]) [16..<64]"

definition RND :: "u32 list \<Rightarrow> sha256_regs \<Rightarrow> nat \<Rightarrow> sha256_regs" where
  "RND W S i =
     (case S of (a, b, c, d, e, f, g, h) \<Rightarrow>
       let t0 = h + Sigma_big1 e + Ch e f g + sha256_K ! i + W ! i;
           t1 = Sigma_big0 a + Maj a b c
       in (t0 + t1, a, b, c, d + t0, e, f, g))"

definition sha256_add :: "sha256_regs \<Rightarrow> sha256_regs \<Rightarrow> sha256_regs" where
  "sha256_add s r = (case s of (a, b, c, d, e, f, g, h) \<Rightarrow> case r of (a', b', c', d', e', f', g', h') \<Rightarrow>
     (a + a', b + b', c + c', d + d', e + e', f + f', g + g', h + h'))"

definition sha256_compress :: "sha256_regs \<Rightarrow> bytes \<Rightarrow> sha256_regs" where
  "sha256_compress st buf = sha256_add st (foldl (RND (sha256_fill buf)) st [0..<64])"

section \<open>Streaming state\<close>

record sha256_state =
  md_length :: u64
  md_state :: sha256_regs
  curlen :: nat
  md_buf :: bytes

definition sha256_IV :: sha256_regs where
  "sha256_IV = (0x6A09E667, 0xBB67AE85, 0x3C6EF372, 0xA54FF53A, 0x510E527F, 0x9B05688C, 0x1F83D9AB, 0x5BE0CD19)"

definition sha256_init :: "bytes \<Rightarrow> sha256_state" where
  "sha256_init garbage = \<lparr>md_length = 0, md_state = sha256_IV, curlen = 0, md_buf = garbage\<rparr>"

text \<open>
  The loop of \<open>sha256_process\<close>. A full buffer in the loop would make no progress; the
  guard for it is only reached if the function is entered with one, which it refuses.
\<close>

function sha256_loop :: "sha256_state \<Rightarrow> bytes \<Rightarrow> sha256_state option" where
  "sha256_loop md inp =
     (if inp = [] then Some md
      else if 64 \<le> curlen md then None
      else if curlen md = 0 \<and> 64 \<le> length inp then
        sha256_loop (md\<lparr>md_state := sha256_compress (md_state md) (take 64 inp),
                        md_length := md_length md + 64 * 8\<rparr>) (drop 64 inp)
      else
        let n = min (length inp) (64 - curlen md);
            md = md\<lparr>md_buf := patch (md_buf md) (curlen md) (take n inp), curlen := curlen md + n\<rparr>
        in sha256_loop
             (if curlen md = 64 then
                md\<lparr>md_state := sha256_compress (md_state md) (md_buf md),
                   md_length := md_length md + 8 * 64, curlen := 0\<rparr>
              else md) (drop n inp))"
  by pat_completeness auto
termination by (relation "measure (\<lambda>(md, inp). length inp)") (auto simp: min_def)

declare sha256_loop.simps [simp del]

definition sha256_process :: "sha256_state \<Rightarrow> bytes \<Rightarrow> sha256_state option" where
  "sha256_process md inp = (if 64 \<le> curlen md then None else sha256_loop md inp)"

definition put_be64 :: "u64 \<Rightarrow> bytes" where
  "put_be64 v = map (\<lambda>i. ucast (drop_bit (56 - 8 * i) v)) [0..<8]"

definition sha256_out :: "sha256_regs \<Rightarrow> bytes" where
  "sha256_out s = (case s of (a, b, c, d, e, f, g, h) \<Rightarrow> concat (map put_be32 [a, b, c, d, e, f, g, h]))"

definition zero_fill :: "sha256_state \<Rightarrow> nat \<Rightarrow> sha256_state" where
  "zero_fill md n =
     md\<lparr>md_buf := patch (md_buf md) (curlen md) (replicate (n - curlen md) 0), curlen := max n (curlen md)\<rparr>"

definition sha256_done :: "sha256_state \<Rightarrow> bytes option" where
  "sha256_done md =
     (if 64 \<le> curlen md then None
      else
        let md = md\<lparr>md_length := md_length md + of_nat (curlen md * 8)\<rparr>;
            md = md\<lparr>md_buf := (md_buf md)[curlen md := 0x80], curlen := curlen md + 1\<rparr>;
            md = (if 56 < curlen md then
                    let md = zero_fill md 64
                    in md\<lparr>md_state := sha256_compress (md_state md) (md_buf md), curlen := 0\<rparr>
                  else md);
            md = zero_fill md 56;
            md = md\<lparr>md_buf := patch (md_buf md) 56 (put_be64 (md_length md))\<rparr>
        in Some (sha256_out (sha256_compress (md_state md) (md_buf md))))"

definition sha256_vector :: "bytes list \<Rightarrow> bytes option" where
  "sha256_vector elems = feed sha256_process (sha256_init (replicate 64 0)) elems \<bind> sha256_done"

section \<open>What a state represents\<close>

definition sha256_repr :: "bytes \<Rightarrow> sha256_state \<Rightarrow> bool" where
  "sha256_repr m md \<longleftrightarrow>
     md_length md = of_nat (8 * (length m - length m mod 64)) \<and> curlen md = length m mod 64 \<and>
     length (md_buf md) = 64 \<and>
     eat sha256_compress sha256_IV m = (md_state md, take (length m mod 64) (md_buf md))"

definition sha256_pad :: "bytes \<Rightarrow> bytes" where
  "sha256_pad m = m @ [0x80] @ replicate (pad_zeros (length m)) 0 @ put_be64 (of_nat (8 * length m))"

definition sha256_digest :: "bytes \<Rightarrow> bytes" where
  "sha256_digest m = sha256_out (fst (eat sha256_compress sha256_IV (sha256_pad m)))"

lemma sha256_repr_init: "length g = 64 \<Longrightarrow> sha256_repr [] (sha256_init g)"
  by (simp add: sha256_repr_def sha256_init_def)

lemma repr_whole_block:
  assumes "sha256_repr m md" "curlen md = 0" "64 \<le> length inp"
  shows "sha256_repr (m @ take 64 inp)
     (md\<lparr>md_state := sha256_compress (md_state md) (take 64 inp), md_length := md_length md + 64 * 8\<rparr>)"
proof -
  have z: "length m mod 64 = 0" "length (m @ take 64 inp) = length m + 64"
    using assms by (simp_all add: sha256_repr_def)
  have "eat sha256_compress sha256_IV (m @ take 64 inp) =
      (sha256_compress (md_state md) (take 64 inp), [])"
    unfolding eat_append [of _ _ m] using assms z by (simp add: sha256_repr_def eat_block)
  then show ?thesis using assms z unfolding sha256_repr_def by simp
qed

lemma repr_fill_buffer:
  assumes "sha256_repr m md" "n = min (length inp) (64 - curlen md)" "inp \<noteq> []"
    and "b = patch (md_buf md) (curlen md) (take n inp)"
  shows "sha256_repr (m @ take n inp)
    (if curlen md + n = 64 then
       md\<lparr>md_buf := b, md_state := sha256_compress (md_state md) b, md_length := md_length md + 8 * 64, curlen := 0\<rparr>
     else md\<lparr>md_buf := b, curlen := curlen md + n\<rparr>)"
proof -
  define j where "j = length m mod 64"
  have r: "eat sha256_compress sha256_IV m = (md_state md, take j (md_buf md))" "length (md_buf md) = 64"
    "curlen md = j" "md_length md = of_nat (8 * (length m - j))" "j < 64"
    using assms(1) by (simp_all add: sha256_repr_def j_def)
  have n: "n \<le> length inp" "j + n \<le> 64" using assms(2) r by auto
  show ?thesis
  proof (cases "j + n = 64")
    case True
    then have "64 - j = n" by simp
    then have "eat sha256_compress sha256_IV (m @ take n inp) = (sha256_compress (md_state md) b, [])"
      using eat_add_full [OF r(1) j_def _ r(2), of "take n inp"] True n r(3) assms(4) by simp
    moreover have m: "(length m + n) mod 64 = 0"
      using True mod_add_left_eq [of "length m" 64 n] by (simp add: j_def)
    moreover have "length m + n = (length m - j) + 64" using True by (simp add: j_def)
    ultimately show ?thesis using r True n assms(4) by (simp add: sha256_repr_def)
  next
    case False
    then have "j + n < 64" using n by simp
    then have m: "(length m + n) mod 64 = j + n" unfolding j_def by (metis mod_add_left_eq mod_less)
    have "length m + n - (j + n) = length m - j" by simp
    then show ?thesis
      using r False n assms(4) m \<open>j + n < 64\<close> eat_add_short [OF r(1) [unfolded j_def], of "take n inp", folded j_def]
      by (simp add: sha256_repr_def min_def)
  qed
qed

lemma sha256_repr_loop: "sha256_repr m md \<Longrightarrow> \<exists>md'. sha256_loop md inp = Some md' \<and> sha256_repr (m @ inp) md'"
proof (induction "length inp" arbitrary: m md inp rule: less_induct)
  case less
  have c: "curlen md < 64" using less.prems by (simp add: sha256_repr_def)
  consider "inp = []" | "inp \<noteq> []" "curlen md = 0" "64 \<le> length inp"
    | "inp \<noteq> []" "\<not> (curlen md = 0 \<and> 64 \<le> length inp)" by auto
  then show ?case
  proof cases
    case 1
    then show ?thesis using less.prems by (simp add: sha256_loop.simps)
  next
    case 2
    then show ?thesis
      using less.hyps [OF _ repr_whole_block [OF less.prems 2(2,3)], of "drop 64 inp"]
      by (subst sha256_loop.simps) simp
  next
    case 3
    define n where "n = min (length inp) (64 - curlen md)"
    define b where "b = patch (md_buf md) (curlen md) (take n inp)"
    have "length (drop n inp) < length inp" using 3 c by (simp add: n_def)
    note ih = less.hyps [OF this repr_fill_buffer [OF less.prems n_def 3(1) b_def]]
    have "\<not> (curlen md = 0 \<and> 64 \<le> length inp) = True" using 3 by simp
    with ih 3(1) c show ?thesis
      by (subst sha256_loop.simps) (simp only: Let_def n_def [symmetric] b_def [symmetric] if_False if_True
          not_le simp_thms append.assoc append_take_drop_id, simp cong: if_cong)
  qed
qed

lemma sha256_repr_process:
  "sha256_repr m md \<Longrightarrow> \<exists>md'. sha256_process md inp = Some md' \<and> sha256_repr (m @ inp) md'"
  using sha256_repr_loop [of m md inp] by (simp add: sha256_process_def sha256_repr_def)

lemma length_put_be64 [simp, len_simps]: "length (put_be64 v) = 8"
  by (simp add: put_be64_def)

lemma sha256_repr_final:
  assumes "sha256_repr m md"
  shows "sha256_done md = Some (sha256_digest m)"
proof -
  define j where "j = length m mod 64"
  define bits where "bits = put_be64 (of_nat (8 * length m))"
  define r where "r = take j (md_buf md) @ [0x80]"
  have md: "eat sha256_compress sha256_IV m = (md_state md, take j (md_buf md))" "length (md_buf md) = 64"
    "curlen md = j" "j < 64" and r: "length r = Suc j"
    using assms by (simp_all add: sha256_repr_def j_def r_def)
  have len: "md_length md + of_nat (j * 8) = of_nat (8 * length m)"
  proof -
    have "8 * (length m - j) + j * 8 = 8 * length m" by (simp add: j_def)
    then show ?thesis using assms unfolding sha256_repr_def j_def [symmetric] by (metis of_nat_add)
  qed
  have pad: "eat sha256_compress sha256_IV (sha256_pad m) =
      eat sha256_compress (md_state md) (r @ replicate (pad_zeros (length m)) 0 @ bits)"
    unfolding sha256_pad_def eat_append [of _ _ m] by (simp add: md r_def bits_def)
  note [simp] = Let_def zero_fill_def list_update_patch patch_patch patch_end
  show ?thesis
  proof (cases "j < 56")
    case True
    have z: "pad_zeros (length m) = 55 - j" using True by (simp add: pad_zeros_cases j_def)
    have "sha256_done md = Some (sha256_out (sha256_compress (md_state md) (r @ replicate (55 - j) 0 @ bits)))"
      using md True len patch_patch [of j "md_buf md" "[0x80]" "replicate (55 - j) 0"]
        patch_patch [of j "md_buf md" "[0x80] @ replicate (55 - j) 0" bits]
      by (simp add: sha256_done_def bits_def r_def)
    moreover have "eat sha256_compress (md_state md) (r @ replicate (55 - j) 0 @ bits) =
        (sha256_compress (md_state md) (r @ replicate (55 - j) 0 @ bits), [])"
      using True r by (simp add: eat_block bits_def)
    ultimately show ?thesis by (simp add: sha256_digest_def pad z)
  next
    case False
    then have z: "replicate (pad_zeros (length m)) 0 = replicate (63 - j) (0 :: u8) @ replicate 56 0"
      using md(4) by (simp add: pad_zeros_cases j_def replicate_add [symmetric])
    have "sha256_done md = Some (sha256_out (sha256_compress (sha256_compress (md_state md)
        (r @ replicate (63 - j) 0)) (replicate 56 0 @ bits)))"
      using md False len patch_patch [of j "md_buf md" "[0x80]" "replicate (63 - j) 0"]
        patch_patch [of 0 "patch (md_buf md) j ([0x80] @ replicate (63 - j) 0)" "replicate 56 0" bits]
      by (simp add: sha256_done_def bits_def r_def)
    moreover have "eat sha256_compress (md_state md) ((r @ replicate (63 - j) 0) @ replicate 56 0 @ bits) =
        (sha256_compress (sha256_compress (md_state md) (r @ replicate (63 - j) 0)) (replicate 56 0 @ bits), [])"
      using False r md(4) by (simp add: eat_block bits_def)
    ultimately show ?thesis by (simp add: sha256_digest_def pad z)
  qed
qed

lemma length_sha256_digest [simp, len_simps]: "length (sha256_digest m) = 32"
  by (simp add: sha256_digest_def sha256_out_def split: prod.split)

interpretation sha256: keyed_hash sha256_repr "sha256_init (replicate 64 0)" sha256_process
  sha256_done sha256_digest "\<lambda>_. True"
  by unfold_locales (use sha256_repr_init sha256_repr_process sha256_repr_final in auto)

lemma sha256_vector_digest: "sha256_vector elems = Some (sha256_digest (concat elems))"
  unfolding sha256_vector_def by (rule sha256.vector_digest) (simp add: list_all_def)

section \<open>The compression function against the standard\<close>

fun sha256_W :: "bytes \<Rightarrow> nat \<Rightarrow> u32" where
  "sha256_W block t =
     (if t < 16 then get_be32 (drop (4 * t) block)
      else Gamma1 (sha256_W block (t - 2)) + sha256_W block (t - 7) + Gamma0 (sha256_W block (t - 15)) +
           sha256_W block (t - 16))"

declare sha256_W.simps [simp del]

text \<open>FIPS 180-2, with the choice and majority functions as the standard writes them.\<close>

definition sha256_ref_round :: "bytes \<Rightarrow> sha256_regs \<Rightarrow> nat \<Rightarrow> sha256_regs" where
  "sha256_ref_round block r t =
     (case r of (a, b, c, d, e, f, g, h) \<Rightarrow>
       let t1 = h + Sigma_big1 e + ((e AND f) OR (NOT e AND g)) + sha256_K ! t + sha256_W block t;
           t2 = Sigma_big0 a + ((a AND b) OR (a AND c) OR (b AND c))
       in (t1 + t2, a, b, c, d + t1, e, f, g))"

definition sha256_ref_compress :: "sha256_regs \<Rightarrow> bytes \<Rightarrow> sha256_regs" where
  "sha256_ref_compress st block = sha256_add st (foldl (sha256_ref_round block) st [0..<64])"

lemma sha256_fill_upto:
  "16 \<le> n \<Longrightarrow>
   foldl (\<lambda>W i. W @ [Gamma1 (W ! (i - 2)) + W ! (i - 7) + Gamma0 (W ! (i - 15)) + W ! (i - 16)])
     (map (\<lambda>i. get_be32 (drop (4 * i) block)) [0..<16]) [16..<n] = map (sha256_W block) [0..<n]"
proof (induction n rule: dec_induct)
  case base
  show ?case by (simp add: sha256_W.simps)
next
  case (step n)
  have "sha256_W block n = Gamma1 (sha256_W block (n - 2)) + sha256_W block (n - 7) +
      Gamma0 (sha256_W block (n - 15)) + sha256_W block (n - 16)"
    using step.hyps by (subst sha256_W.simps) simp
  then show ?case using step by simp
qed

lemma sha256_fill_W: "sha256_fill block = map (sha256_W block) [0..<64]"
  unfolding sha256_fill_def by (rule sha256_fill_upto) simp

lemma fill_nth: "i < 64 \<Longrightarrow> sha256_fill block ! i = sha256_W block i"
  unfolding sha256_fill_W by (subst nth_map) (simp_all only: length_upt nth_upt, simp_all)

lemma RND_ref: "i < 64 \<Longrightarrow> RND (sha256_fill block) s i = sha256_ref_round block s i"
  by (cases s) (simp add: RND_def sha256_ref_round_def fill_nth Ch_def Maj_def major_eq
      choose_eq [symmetric] xor.commute Let_def)

lemma sha256_compress_ref: "sha256_compress = sha256_ref_compress"
proof (intro ext)
  fix st block
  have "foldl (RND (sha256_fill block)) st [0..<64] = foldl (sha256_ref_round block) st [0..<64]"
    by (rule foldl_cong) (auto simp: RND_ref)
  then show "sha256_compress st block = sha256_ref_compress st block"
    by (simp only: sha256_compress_def sha256_ref_compress_def)
qed

section \<open>Properties\<close>

text \<open>
  \<open>sha256_vector\<close> never fails and computes the hash of FIPS 180-2 of the concatenation of its
  pieces, however the message is cut: both branches of the processing loop, the one-block
  and the two-block padding, and the schedule array filled in place.
\<close>

theorem sha256_vector_standard:
  "sha256_vector elems =
     Some (sha256_out (fst (eat sha256_ref_compress sha256_IV (sha256_pad (concat elems)))))"
  unfolding sha256_vector_digest sha256_digest_def sha256_compress_ref ..

end
