(* ===== verification/Md5.thy ===== *)
theory Md5
  imports HashStream
begin

text \<open>
  MD5 (\<^verbatim>\<open>wpa_supplicant/src/crypto/md5-internal.c\<close>) on a little-endian host: the transform, the
  streaming context and \<open>md5_vector\<close>. The registers are renamed from one \<^verbatim>\<open>MD5STEP\<close> to the
  next; the model rotates the tuple of the macro's parameters \<^verbatim>\<open>w x y z\<close> instead. The length
  of \<^verbatim>\<open>MD5Update\<close> is a 32-bit number; a longer piece is \<open>None\<close>.
\<close>

section \<open>Transform\<close>

definition F1 :: "u32 \<Rightarrow> u32 \<Rightarrow> u32 \<Rightarrow> u32" where "F1 x y z = z XOR (x AND (y XOR z))"

definition F2 :: "u32 \<Rightarrow> u32 \<Rightarrow> u32 \<Rightarrow> u32" where "F2 x y z = F1 z x y"

definition F3 :: "u32 \<Rightarrow> u32 \<Rightarrow> u32 \<Rightarrow> u32" where "F3 x y z = x XOR y XOR z"

definition F4 :: "u32 \<Rightarrow> u32 \<Rightarrow> u32 \<Rightarrow> u32" where "F4 x y z = y XOR (x OR NOT z)"

type_synonym md5_regs = "u32 \<times> u32 \<times> u32 \<times> u32"

definition MD5STEP :: "(u32 \<Rightarrow> u32 \<Rightarrow> u32 \<Rightarrow> u32) \<Rightarrow> bytes \<Rightarrow> md5_regs \<Rightarrow> nat \<times> u32 \<times> nat \<Rightarrow> md5_regs" where
  "MD5STEP f inp regs step =
     (case regs of (w, x, y, z) \<Rightarrow> case step of (k, const, s) \<Rightarrow>
       let w = w + (f x y z + (get_le32 (drop (4 * k) inp) + const)) in (z, rol w s + x, x, y))"

text \<open>The steps of the four rounds: the input word, the constant and the rotation.\<close>

definition md5_stepsA :: "(nat \<times> u32 \<times> nat) list" where
  "md5_stepsA =
    [(0, 0xd76aa478, 7), (1, 0xe8c7b756, 12), (2, 0x242070db, 17), (3, 0xc1bdceee, 22),
     (4, 0xf57c0faf, 7), (5, 0x4787c62a, 12), (6, 0xa8304613, 17), (7, 0xfd469501, 22),
     (8, 0x698098d8, 7), (9, 0x8b44f7af, 12), (10, 0xffff5bb1, 17), (11, 0x895cd7be, 22),
     (12, 0x6b901122, 7), (13, 0xfd987193, 12), (14, 0xa679438e, 17), (15, 0x49b40821, 22)]"

definition md5_stepsB :: "(nat \<times> u32 \<times> nat) list" where
  "md5_stepsB =
    [(1, 0xf61e2562, 5), (6, 0xc040b340, 9), (11, 0x265e5a51, 14), (0, 0xe9b6c7aa, 20),
     (5, 0xd62f105d, 5), (10, 0x02441453, 9), (15, 0xd8a1e681, 14), (4, 0xe7d3fbc8, 20),
     (9, 0x21e1cde6, 5), (14, 0xc33707d6, 9), (3, 0xf4d50d87, 14), (8, 0x455a14ed, 20),
     (13, 0xa9e3e905, 5), (2, 0xfcefa3f8, 9), (7, 0x676f02d9, 14), (12, 0x8d2a4c8a, 20)]"

definition md5_stepsC :: "(nat \<times> u32 \<times> nat) list" where
  "md5_stepsC =
    [(5, 0xfffa3942, 4), (8, 0x8771f681, 11), (11, 0x6d9d6122, 16), (14, 0xfde5380c, 23),
     (1, 0xa4beea44, 4), (4, 0x4bdecfa9, 11), (7, 0xf6bb4b60, 16), (10, 0xbebfbc70, 23),
     (13, 0x289b7ec6, 4), (0, 0xeaa127fa, 11), (3, 0xd4ef3085, 16), (6, 0x04881d05, 23),
     (9, 0xd9d4d039, 4), (12, 0xe6db99e5, 11), (15, 0x1fa27cf8, 16), (2, 0xc4ac5665, 23)]"

definition md5_stepsD :: "(nat \<times> u32 \<times> nat) list" where
  "md5_stepsD =
    [(0, 0xf4292244, 6), (7, 0x432aff97, 10), (14, 0xab9423a7, 15), (5, 0xfc93a039, 21),
     (12, 0x655b59c3, 6), (3, 0x8f0ccc92, 10), (10, 0xffeff47d, 15), (1, 0x85845dd1, 21),
     (8, 0x6fa87e4f, 6), (15, 0xfe2ce6e0, 10), (6, 0xa3014314, 15), (13, 0x4e0811a1, 21),
     (4, 0xf7537e82, 6), (11, 0xbd3af235, 10), (2, 0x2ad7d2bb, 15), (9, 0xeb86d391, 21)]"

definition md5_add :: "md5_regs \<Rightarrow> md5_regs \<Rightarrow> md5_regs" where
  "md5_add s r = (case s of (a, b, c, d) \<Rightarrow> case r of (a', b', c', d') \<Rightarrow> (a + a', b + b', c + c', d + d'))"

definition MD5Transform :: "md5_regs \<Rightarrow> bytes \<Rightarrow> md5_regs" where
  "MD5Transform buf inp =
     (let r = foldl (MD5STEP F1 inp) buf md5_stepsA;
          r = foldl (MD5STEP F2 inp) r md5_stepsB;
          r = foldl (MD5STEP F3 inp) r md5_stepsC;
          r = foldl (MD5STEP F4 inp) r md5_stepsD
      in md5_add buf r)"

section \<open>Context\<close>

record MD5Context =
  md5_buf :: md5_regs
  bits_lo :: u32
  bits_hi :: u32
  md5_in :: bytes

definition MD5_IV :: md5_regs where
  "MD5_IV = (0x67452301, 0xefcdab89, 0x98badcfe, 0x10325476)"

definition MD5Init :: "bytes \<Rightarrow> MD5Context" where
  "MD5Init garbage = \<lparr>md5_buf = MD5_IV, bits_lo = 0, bits_hi = 0, md5_in = garbage\<rparr>"

text \<open>The loop over the 64-byte chunks; each is copied to the buffer first.\<close>

fun md5_loop :: "MD5Context \<Rightarrow> bytes \<Rightarrow> MD5Context \<times> bytes" where
  "md5_loop ctx data =
     (if 64 \<le> length data then
        md5_loop (ctx\<lparr>md5_in := patch (md5_in ctx) 0 (take 64 data),
                     md5_buf := MD5Transform (md5_buf ctx) (patch (md5_in ctx) 0 (take 64 data))\<rparr>) (drop 64 data)
      else (ctx, data))"

declare md5_loop.simps [simp del]

definition md5_chunks :: "MD5Context \<Rightarrow> bytes \<Rightarrow> MD5Context" where
  "md5_chunks ctx data = (case md5_loop ctx data of (ctx, rest) \<Rightarrow> ctx\<lparr>md5_in := patch (md5_in ctx) 0 rest\<rparr>)"

definition MD5Update :: "MD5Context \<Rightarrow> bytes \<Rightarrow> MD5Context option" where
  "MD5Update ctx data =
     (if 2 ^ 32 \<le> length data then None
      else
        let len = of_nat (length data) :: u32;
            t = bits_lo ctx;
            lo = t + push_bit 3 len;
            hi = (if lo < t then bits_hi ctx + 1 else bits_hi ctx) + drop_bit 29 len;
            ctx = ctx\<lparr>bits_lo := lo, bits_hi := hi\<rparr>;
            t = unat (drop_bit 3 t AND 0x3f)
        in if t \<noteq> 0 then
             if length data < 64 - t then Some (ctx\<lparr>md5_in := patch (md5_in ctx) t data\<rparr>)
             else
               let inp = patch (md5_in ctx) t (take (64 - t) data)
               in Some (md5_chunks (ctx\<lparr>md5_in := inp, md5_buf := MD5Transform (md5_buf ctx) inp\<rparr>)
                         (drop (64 - t) data))
           else Some (md5_chunks ctx data))"

definition md5_out :: "md5_regs \<Rightarrow> bytes" where
  "md5_out s = (case s of (a, b, c, d) \<Rightarrow> concat (map put_le32 [a, b, c, d]))"

definition MD5Final :: "MD5Context \<Rightarrow> bytes \<times> MD5Context" where
  "MD5Final ctx =
     (let count = unat (drop_bit 3 (bits_lo ctx) AND 0x3F);
          inp = (md5_in ctx)[count := 0x80];
          p = count + 1;
          count = 64 - 1 - count;
          (buf, inp) =
            (if count < 8 then
               let inp = patch inp p (replicate count 0)
               in (MD5Transform (md5_buf ctx) inp, patch inp 0 (replicate 56 0))
             else (md5_buf ctx, patch inp p (replicate (count - 8) 0)));
          inp = patch (patch inp 56 (put_le32 (bits_lo ctx))) 60 (put_le32 (bits_hi ctx))
      in (md5_out (MD5Transform buf inp),
          \<lparr>md5_buf = (0, 0, 0, 0), bits_lo = 0, bits_hi = 0, md5_in = replicate 64 0\<rparr>))"

definition md5_vector :: "bytes list \<Rightarrow> bytes option" where
  "md5_vector elems = feed MD5Update (MD5Init (replicate 64 0)) elems \<bind> (\<lambda>ctx. Some (fst (MD5Final ctx)))"

section \<open>What a context represents\<close>

definition md5_repr :: "bytes \<Rightarrow> MD5Context \<Rightarrow> bool" where
  "md5_repr m ctx \<longleftrightarrow>
     bits_lo ctx = of_nat (8 * length m) \<and> bits_hi ctx = of_nat (8 * length m div 2 ^ 32) \<and>
     length (md5_in ctx) = 64 \<and>
     eat MD5Transform MD5_IV m = (md5_buf ctx, take (length m mod 64) (md5_in ctx))"

definition md5_pad :: "bytes \<Rightarrow> bytes" where
  "md5_pad m = m @ [0x80] @ replicate (pad_zeros (length m)) 0 @
     put_le32 (of_nat (8 * length m)) @ put_le32 (of_nat (8 * length m div 2 ^ 32))"

definition md5_digest :: "bytes \<Rightarrow> bytes" where
  "md5_digest m = md5_out (fst (eat MD5Transform MD5_IV (md5_pad m)))"

lemma md5_repr_init: "length g = 64 \<Longrightarrow> md5_repr [] (MD5Init g)"
  by (simp add: md5_repr_def MD5Init_def)

lemma md5_loop_eat:
  "length (md5_in ctx) = 64 \<Longrightarrow> \<exists>ctx'. md5_loop ctx data = (ctx', snd (eat MD5Transform (md5_buf ctx) data)) \<and>
     md5_buf ctx' = fst (eat MD5Transform (md5_buf ctx) data) \<and> length (md5_in ctx') = 64 \<and>
     bits_lo ctx' = bits_lo ctx \<and> bits_hi ctx' = bits_hi ctx"
proof (induction ctx data rule: md5_loop.induct)
  case (1 ctx data)
  show ?case
  proof (cases "64 \<le> length data")
    case True
    then have "patch (md5_in ctx) 0 (take 64 data) = take 64 data" using "1.prems" by (simp add: patch_end)
    then show ?thesis using 1 True by (subst md5_loop.simps) (simp add: eat_block)
  next
    case False
    then show ?thesis using 1 by (simp add: md5_loop.simps [of ctx data])
  qed
qed

lemma md5_chunks_eat:
  assumes "length (md5_in ctx) = 64" "eat MD5Transform (md5_buf ctx) data = (st, rest)"
  shows "md5_buf (md5_chunks ctx data) = st \<and> length (md5_in (md5_chunks ctx data)) = 64 \<and>
     take (length rest) (md5_in (md5_chunks ctx data)) = rest \<and>
     bits_lo (md5_chunks ctx data) = bits_lo ctx \<and> bits_hi (md5_chunks ctx data) = bits_hi ctx"
proof -
  have "length rest < 64" using eat_rest [of MD5Transform "md5_buf ctx" data] assms(2) by simp
  moreover obtain ctx' where "md5_loop ctx data = (ctx', rest)" "md5_buf ctx' = st" "length (md5_in ctx') = 64"
    "bits_lo ctx' = bits_lo ctx" "bits_hi ctx' = bits_hi ctx"
    using md5_loop_eat [OF assms(1), of data] assms(2) by auto
  ultimately show ?thesis by (simp add: md5_chunks_def take_patch_start)
qed

lemma md5_repr_count:
  assumes "md5_repr m ctx" "length d < 2 ^ 32"
  defines "len \<equiv> of_nat (length d) :: u32"
  defines "lo \<equiv> bits_lo ctx + push_bit 3 len"
  shows "unat (drop_bit 3 (bits_lo ctx) AND 63) = length m mod 64"
    and "lo = of_nat (8 * length (m @ d))"
    and "(if lo < bits_lo ctx then bits_hi ctx + 1 else bits_hi ctx) + drop_bit 29 len =
           of_nat (8 * length (m @ d) div 2 ^ 32)"
proof -
  have c: "bits_lo ctx = of_nat (8 * length m)" "bits_hi ctx = of_nat (8 * length m div 2 ^ 32)"
    using assms(1) by (simp_all add: md5_repr_def)
  show "unat (drop_bit 3 (bits_lo ctx) AND 63) = length m mod 64" unfolding c by (rule count_index)
  show "lo = of_nat (8 * length (m @ d))" unfolding lo_def len_def c count_low by simp
  show "(if lo < bits_lo ctx then bits_hi ctx + 1 else bits_hi ctx) + drop_bit 29 len =
          of_nat (8 * length (m @ d) div 2 ^ 32)"
    using count_carry [OF assms(2), of "length m"] unfolding lo_def len_def c by simp
qed

lemma md5_repr_update:
  assumes "md5_repr m ctx" "length d < 2 ^ 32"
  shows "\<exists>ctx'. MD5Update ctx d = Some ctx' \<and> md5_repr (m @ d) ctx'"
proof -
  define j where "j = length m mod 64"
  have r: "eat MD5Transform MD5_IV m = (md5_buf ctx, take j (md5_in ctx))" "length (md5_in ctx) = 64" "j < 64"
    using assms(1) by (simp_all add: md5_repr_def j_def)
  note cnt = md5_repr_count [OF assms, folded j_def]
  have rest: "length (snd (eat MD5Transform MD5_IV (m @ d))) = length (m @ d) mod 64" by (rule eat_rest)
  obtain st q where e: "eat MD5Transform MD5_IV (m @ d) = (st, q)" by (meson surj_pair)
  consider "j = 0" | "j \<noteq> 0" "length d < 64 - j" | "j \<noteq> 0" "64 - j \<le> length d" by linarith
  then show ?thesis
  proof cases
    case 1
    have "eat MD5Transform (md5_buf ctx) d = (st, q)" using e unfolding eat_append [of _ _ m] by (simp add: r 1)
    then show ?thesis using assms(2) cnt 1 e rest r(2)
        md5_chunks_eat [of "ctx\<lparr>bits_lo := _, bits_hi := _\<rparr>" d st q]
      by (simp add: MD5Update_def Let_def md5_repr_def)
  next
    case 2
    then show ?thesis
      using assms(2) cnt r(2) eat_add_short [OF r(1) [unfolded j_def] _ r(2), of d, folded j_def]
      by (simp add: MD5Update_def Let_def md5_repr_def less_diff_conv add.commute)
  next
    case 3
    define b where "b = patch (md5_in ctx) j (take (64 - j) d)"
    have "length b = 64" using 3 r by (simp add: b_def)
    moreover have "eat MD5Transform (MD5Transform (md5_buf ctx) b) (drop (64 - j) d) = (st, q)"
      using eat_add_full [OF r(1) j_def _ r(2), of d] 3 e by (simp add: b_def)
    ultimately show ?thesis using assms(2) cnt 3 e rest
        md5_chunks_eat [of "ctx\<lparr>bits_lo := _, bits_hi := _, md5_in := b, md5_buf := MD5Transform (md5_buf ctx) b\<rparr>"
          "drop (64 - j) d" st q]
      by (simp add: MD5Update_def Let_def md5_repr_def b_def [symmetric])
  qed
qed

lemma md5_repr_final:
  assumes "md5_repr m ctx"
  shows "fst (MD5Final ctx) = md5_digest m"
proof -
  define j where "j = length m mod 64"
  define bits where "bits = put_le32 (bits_lo ctx) @ put_le32 (bits_hi ctx)"
  define r where "r = take j (md5_in ctx) @ [0x80]"
  have md: "eat MD5Transform MD5_IV m = (md5_buf ctx, take j (md5_in ctx))" "length (md5_in ctx) = 64"
    "unat (drop_bit 3 (bits_lo ctx) AND 0x3F) = j" "j < 64" and r: "length r = Suc j"
    using assms md5_repr_count(1) [OF assms, of "[]"] by (simp_all add: md5_repr_def j_def r_def)
  have pad: "eat MD5Transform MD5_IV (md5_pad m) =
      eat MD5Transform (md5_buf ctx) (r @ replicate (pad_zeros (length m)) 0 @ bits)"
    using assms unfolding md5_pad_def eat_append [of _ _ m] by (simp add: md r_def bits_def md5_repr_def)
  have bits: "patch (patch b 56 (put_le32 (bits_lo ctx))) 60 (put_le32 (bits_hi ctx)) = take 56 b @ bits"
    if "length b = 64" for b
    using that patch_patch [of 56 b "put_le32 (bits_lo ctx)" "put_le32 (bits_hi ctx)"]
    by (simp add: bits_def patch_end)
  note [simp] = Let_def list_update_patch
  show ?thesis
  proof (cases "j < 56")
    case True
    have z: "pad_zeros (length m) = 55 - j" using True by (simp add: pad_zeros_cases j_def)
    have "take 56 (patch (patch (md5_in ctx) j [0x80]) (Suc j) (replicate (55 - j) 0)) = r @ replicate (55 - j) 0"
      using patch_patch [of j "md5_in ctx" "[0x80]" "replicate (55 - j) 0"] md True
        take_patch [of j "[0x80] @ replicate (55 - j) 0" "md5_in ctx"] by (simp add: r_def)
    moreover have "\<not> 63 - j < 8" "63 - j - 8 = 55 - j" using True by auto
    ultimately have "fst (MD5Final ctx) = md5_out (MD5Transform (md5_buf ctx) (r @ replicate (55 - j) 0 @ bits))"
      using md True by (simp add: MD5Final_def bits)
    moreover have "eat MD5Transform (md5_buf ctx) (r @ replicate (55 - j) 0 @ bits) =
        (MD5Transform (md5_buf ctx) (r @ replicate (55 - j) 0 @ bits), [])"
      using True r by (simp add: eat_block bits_def)
    ultimately show ?thesis by (simp add: md5_digest_def pad z)
  next
    case False
    then have z: "replicate (pad_zeros (length m)) 0 = replicate (63 - j) (0 :: u8) @ replicate 56 0"
      using md(4) by (simp add: pad_zeros_cases j_def replicate_add [symmetric])
    have "patch (patch (md5_in ctx) j [0x80]) (Suc j) (replicate (63 - j) 0) = r @ replicate (63 - j) 0"
      using patch_patch [of j "md5_in ctx" "[0x80]" "replicate (63 - j) 0"] md False by (simp add: patch_def r_def)
    moreover have "63 - j < 8" using False by simp
    ultimately have "fst (MD5Final ctx) = md5_out (MD5Transform (MD5Transform (md5_buf ctx)
        (r @ replicate (63 - j) 0)) (replicate 56 0 @ bits))"
      using md False r by (simp add: MD5Final_def bits take_patch_start)
    moreover have "eat MD5Transform (md5_buf ctx) ((r @ replicate (63 - j) 0) @ replicate 56 0 @ bits) =
        (MD5Transform (MD5Transform (md5_buf ctx) (r @ replicate (63 - j) 0)) (replicate 56 0 @ bits), [])"
      using False r md(4) by (simp add: eat_block bits_def)
    ultimately show ?thesis by (simp add: md5_digest_def pad z)
  qed
qed

lemma length_md5_digest [simp, len_simps]: "length (md5_digest m) = 16"
  by (simp add: md5_digest_def md5_out_def split: prod.split)

interpretation md5: keyed_hash md5_repr "MD5Init (replicate 64 0)" MD5Update
  "\<lambda>ctx. Some (fst (MD5Final ctx))" md5_digest "\<lambda>d. length d < 2 ^ 32"
  by unfold_locales (use md5_repr_init md5_repr_update md5_repr_final in auto)

lemma md5_vector_digest:
  "list_all (\<lambda>d. length d < 2 ^ 32) elems \<Longrightarrow> md5_vector elems = Some (md5_digest (concat elems))"
  unfolding md5_vector_def by (rule md5.vector_digest)

section \<open>The transform against the standard\<close>

text \<open>
  RFC 1321: step \<open>i\<close> of 64, with its auxiliary function, message index and rotation given by
  formula; the additive constants are those of the source.
\<close>

definition md5_steps :: "(nat \<times> u32 \<times> nat) list" where
  "md5_steps = md5_stepsA @ md5_stepsB @ md5_stepsC @ md5_stepsD"

definition md5_f :: "nat \<Rightarrow> u32 \<Rightarrow> u32 \<Rightarrow> u32 \<Rightarrow> u32" where
  "md5_f i x y z =
     (if i < 16 then (x AND y) OR (NOT x AND z)
      else if i < 32 then (x AND z) OR (y AND NOT z)
      else if i < 48 then x XOR y XOR z
      else y XOR (x OR NOT z))"

definition md5_k :: "nat \<Rightarrow> nat" where
  "md5_k i = (if i < 16 then i else if i < 32 then (5 * i + 1) mod 16
              else if i < 48 then (3 * i + 5) mod 16 else 7 * i mod 16)"

definition md5_s :: "nat \<Rightarrow> nat" where
  "md5_s i = (if i < 16 then [7, 12, 17, 22] else if i < 32 then [5, 9, 14, 20]
              else if i < 48 then [4, 11, 16, 23] else [6, 10, 15, 21]) ! (i mod 4)"

definition md5_ref_step :: "bytes \<Rightarrow> md5_regs \<Rightarrow> nat \<Rightarrow> md5_regs" where
  "md5_ref_step block r i =
     (case r of (a, b, c, d) \<Rightarrow>
       (d, b + rol (a + md5_f i b c d + get_le32 (drop (4 * md5_k i) block) + fst (snd (md5_steps ! i))) (md5_s i), b, c))"

definition md5_ref_transform :: "md5_regs \<Rightarrow> bytes \<Rightarrow> md5_regs" where
  "md5_ref_transform st block = md5_add st (foldl (md5_ref_step block) st [0..<64])"

lemma md5_functions: "i < 16 \<Longrightarrow> md5_f i = F1" "16 \<le> i \<Longrightarrow> i < 32 \<Longrightarrow> md5_f i = F2"
  "32 \<le> i \<Longrightarrow> i < 48 \<Longrightarrow> md5_f i = F3" "48 \<le> i \<Longrightarrow> md5_f i = F4"
proof -
  have F1: "F1 x y z = (x AND y) OR (NOT x AND z)" for x y z
    using choose_eq [of x y z] by (simp add: F1_def xor.commute)
  show "i < 16 \<Longrightarrow> md5_f i = F1" by (intro ext) (simp add: md5_f_def F1)
  show "16 \<le> i \<Longrightarrow> i < 32 \<Longrightarrow> md5_f i = F2" by (intro ext) (simp add: md5_f_def F2_def F1 and.commute)
  show "32 \<le> i \<Longrightarrow> i < 48 \<Longrightarrow> md5_f i = F3" by (intro ext) (simp add: md5_f_def F3_def)
  show "48 \<le> i \<Longrightarrow> md5_f i = F4" by (intro ext) (simp add: md5_f_def F4_def)
qed

lemma md5_steps_indices:
  "map (\<lambda>i. (md5_k i, fst (snd (md5_steps ! i)), md5_s i)) [0..<16] = md5_stepsA"
  "map (\<lambda>i. (md5_k i, fst (snd (md5_steps ! i)), md5_s i)) [16..<32] = md5_stepsB"
  "map (\<lambda>i. (md5_k i, fst (snd (md5_steps ! i)), md5_s i)) [32..<48] = md5_stepsC"
  "map (\<lambda>i. (md5_k i, fst (snd (md5_steps ! i)), md5_s i)) [48..<64] = md5_stepsD"
  by (simp_all add: md5_steps_def md5_stepsA_def md5_stepsB_def md5_stepsC_def md5_stepsD_def upt_rec
      md5_k_def md5_s_def)

lemma MD5STEP_ref:
  "md5_f i = f \<Longrightarrow> MD5STEP f block r (md5_k i, fst (snd (md5_steps ! i)), md5_s i) = md5_ref_step block r i"
  by (cases r) (simp add: MD5STEP_def md5_ref_step_def Let_def add.assoc add.commute add.left_commute)

lemma MD5Transform_ref: "MD5Transform = md5_ref_transform"
proof (intro ext)
  fix st block
  have split: "[0..<64] = [0..<16] @ [16..<32] @ [32..<48] @ [48..<64]"
    using upt_add_eq_append [of 0 16 16] upt_add_eq_append [of 0 32 16] upt_add_eq_append [of 0 48 16] by simp
  have rounds: "foldl (MD5STEP F1 block) r md5_stepsA = foldl (md5_ref_step block) r [0..<16]"
    "foldl (MD5STEP F2 block) r md5_stepsB = foldl (md5_ref_step block) r [16..<32]"
    "foldl (MD5STEP F3 block) r md5_stepsC = foldl (md5_ref_step block) r [32..<48]"
    "foldl (MD5STEP F4 block) r md5_stepsD = foldl (md5_ref_step block) r [48..<64]" for r
    unfolding md5_steps_indices [symmetric] foldl_map
    by (rule foldl_cong [OF refl]; auto intro!: MD5STEP_ref md5_functions)+
  show "MD5Transform st block = md5_ref_transform st block"
    unfolding MD5Transform_def md5_ref_transform_def Let_def rounds split foldl_append ..
qed

section \<open>Properties\<close>

text \<open>
  \<open>md5_vector\<close> computes the hash of RFC 1321 of the concatenation of its pieces, however the
  message is cut, with the unrolled transform equal to the standard's step formula.
\<close>

theorem md5_vector_standard:
  assumes "list_all (\<lambda>d. length d < 2 ^ 32) elems"
  shows "md5_vector elems = Some (md5_out (fst (eat md5_ref_transform MD5_IV (md5_pad (concat elems)))))"
  unfolding md5_vector_digest [OF assms] md5_digest_def MD5Transform_ref ..

theorem md5_vector_standard_witness:
  "md5_vector [[0x61], [], [0x62, 0x63]] =
     Some (md5_out (fst (eat md5_ref_transform MD5_IV (md5_pad [0x61, 0x62, 0x63]))))"
  using md5_vector_standard [of "[[0x61], [], [0x62, 0x63]]"] by simp

end
