(* ===== verification/Hmac.thy ===== *)
theory Hmac
  imports Sha1 Sha256 Md5
begin

text \<open>
  Keyed hashes and key derivation: \<^verbatim>\<open>hmac_*_vector\<close> of \<^verbatim>\<open>sha1.c\<close>, \<^verbatim>\<open>sha256.c\<close> and
  \<^verbatim>\<open>md5.c\<close>, PBKDF2 (\<^verbatim>\<open>sha1-pbkdf2.c\<close>, the passphrase to PSK mapping) and the pseudo-random
  functions of \<^verbatim>\<open>sha1-prf.c\<close> and \<^verbatim>\<open>sha256-prf.c\<close>, all under
  \<^verbatim>\<open>wpa_supplicant/src/crypto/\<close>. The clients see the hashes through the \<open>keyed_hash\<close>
  interface only.
\<close>

section \<open>HMAC\<close>

text \<open>\<^verbatim>\<open>memset\<close>, \<^verbatim>\<open>memcpy\<close> and the XOR loop over the 64-byte \<^verbatim>\<open>k_pad\<close>.\<close>

definition k_pad :: "bytes \<Rightarrow> u8 \<Rightarrow> bytes" where
  "k_pad key v = map (\<lambda>b. b XOR v) (patch (replicate 64 0) 0 key)"

definition hmac_sha1_vector :: "bytes \<Rightarrow> bytes list \<Rightarrow> bytes option" where
  "hmac_sha1_vector key elems =
     (if 5 < length elems then None
      else do {
        key \<leftarrow> (if 64 < length key then sha1_vector [key] else Some key);
        mac \<leftarrow> sha1_vector (k_pad key 0x36 # elems);
        sha1_vector [k_pad key 0x5c, mac]
      })"

definition hmac_sha1 :: "bytes \<Rightarrow> bytes \<Rightarrow> bytes option" where
  "hmac_sha1 key data = hmac_sha1_vector key [data]"

definition hmac_sha256_vector :: "bytes \<Rightarrow> bytes list \<Rightarrow> bytes option" where
  "hmac_sha256_vector key elems =
     (if 5 < length elems then None
      else do {
        key \<leftarrow> (if 64 < length key then sha256_vector [key] else Some key);
        mac \<leftarrow> sha256_vector (k_pad key 0x36 # elems);
        sha256_vector [k_pad key 0x5c, mac]
      })"

definition hmac_sha256 :: "bytes \<Rightarrow> bytes \<Rightarrow> bytes option" where
  "hmac_sha256 key data = hmac_sha256_vector key [data]"

definition hmac_md5_vector :: "bytes \<Rightarrow> bytes list \<Rightarrow> bytes option" where
  "hmac_md5_vector key elems =
     (if 5 < length elems then None
      else do {
        key \<leftarrow> (if 64 < length key then md5_vector [key] else Some key);
        mac \<leftarrow> md5_vector (k_pad key 0x36 # elems);
        md5_vector [k_pad key 0x5c, mac]
      })"

definition hmac_md5 :: "bytes \<Rightarrow> bytes \<Rightarrow> bytes option" where
  "hmac_md5 key data = hmac_md5_vector key [data]"

text \<open>RFC 2104, for any hash with a 64-byte block.\<close>

definition hmac_ref :: "(bytes \<Rightarrow> bytes) \<Rightarrow> bytes \<Rightarrow> bytes \<Rightarrow> bytes" where
  "hmac_ref digest key m =
     (let key = (if 64 < length key then digest key else key);
          key = key @ replicate (64 - length key) 0
      in digest (map ((XOR) 0x5c) key @ digest (map ((XOR) 0x36) key @ m)))"

lemma k_pad_ref: "length key \<le> 64 \<Longrightarrow> k_pad key v = map ((XOR) v) (key @ replicate (64 - length key) 0)"
  by (simp add: k_pad_def patch_def xor.commute)

lemma length_k_pad [simp, len_simps]: "length key \<le> 64 \<Longrightarrow> length (k_pad key v) = 64"
  by (simp add: k_pad_def)

lemma hmac_sha1_ref:
  assumes "length elems \<le> 5" "list_all (\<lambda>d. length d < 2 ^ 32 - 64) elems" "length key < 2 ^ 32 - 64"
  shows "hmac_sha1_vector key elems = Some (hmac_ref sha1_digest key (concat elems))"
proof -
  define k where "k = (if 64 < length key then sha1_digest key else key)"
  have k: "length k \<le> 64" by (simp add: k_def)
  have "(if 64 < length key then sha1_vector [key] else Some key) = Some k"
    using sha1_vector_digest [of "[key]"] assms(3) by (simp add: k_def)
  then have "hmac_sha1_vector key elems =
      sha1_vector (k_pad k 0x36 # elems) \<bind> (\<lambda>mac. sha1_vector [k_pad k 0x5c, mac])"
    using assms(1) by (simp add: hmac_sha1_vector_def)
  also have "\<dots> = Some (sha1_digest (k_pad k 0x5c @ sha1_digest (k_pad k 0x36 @ concat elems)))"
    unfolding sha1_vector_def by (rule sha1.two_passes) (use k assms in \<open>simp_all add: list_all_def\<close>)
  also have "\<dots> = Some (hmac_ref sha1_digest key (concat elems))"
    by (simp add: hmac_ref_def Let_def k_def [symmetric] k_pad_ref [OF k])
  finally show ?thesis .
qed

lemma hmac_sha256_ref:
  assumes "length elems \<le> 5"
  shows "hmac_sha256_vector key elems = Some (hmac_ref sha256_digest key (concat elems))"
proof -
  define k where "k = (if 64 < length key then sha256_digest key else key)"
  have k: "length k \<le> 64" by (simp add: k_def)
  have "(if 64 < length key then sha256_vector [key] else Some key) = Some k"
    using sha256_vector_digest [of "[key]"] by (simp add: k_def)
  then have "hmac_sha256_vector key elems =
      sha256_vector (k_pad k 0x36 # elems) \<bind> (\<lambda>mac. sha256_vector [k_pad k 0x5c, mac])"
    using assms(1) by (simp add: hmac_sha256_vector_def)
  also have "\<dots> = Some (sha256_digest (k_pad k 0x5c @ sha256_digest (k_pad k 0x36 @ concat elems)))"
    unfolding sha256_vector_def by (rule sha256.two_passes) (use k assms in \<open>simp_all add: list_all_def\<close>)
  also have "\<dots> = Some (hmac_ref sha256_digest key (concat elems))"
    by (simp add: hmac_ref_def Let_def k_def [symmetric] k_pad_ref [OF k])
  finally show ?thesis .
qed

lemma hmac_md5_ref:
  assumes "length elems \<le> 5" "list_all (\<lambda>d. length d < 2 ^ 32) elems" "length key < 2 ^ 32"
  shows "hmac_md5_vector key elems = Some (hmac_ref md5_digest key (concat elems))"
proof -
  define k where "k = (if 64 < length key then md5_digest key else key)"
  have k: "length k \<le> 64" by (simp add: k_def)
  have "(if 64 < length key then md5_vector [key] else Some key) = Some k"
    using md5_vector_digest [of "[key]"] assms(3) by (simp add: k_def)
  then have "hmac_md5_vector key elems =
      md5_vector (k_pad k 0x36 # elems) \<bind> (\<lambda>mac. md5_vector [k_pad k 0x5c, mac])"
    using assms(1) by (simp add: hmac_md5_vector_def)
  also have "\<dots> = Some (md5_digest (k_pad k 0x5c @ md5_digest (k_pad k 0x36 @ concat elems)))"
    unfolding md5_vector_def by (rule md5.two_passes) (use k assms in \<open>simp_all add: list_all_def\<close>)
  also have "\<dots> = Some (hmac_ref md5_digest key (concat elems))"
    by (simp add: hmac_ref_def Let_def k_def [symmetric] k_pad_ref [OF k])
  finally show ?thesis .
qed

lemma length_hmac_ref [simp, len_simps]:
  "length (hmac_ref sha1_digest key m) = 20" "length (hmac_ref sha256_digest key m) = 32"
  by (simp_all add: hmac_ref_def Let_def)

section \<open>Blocks of key stream\<close>

text \<open>The first \<open>n\<close> bytes of the blocks \<open>f i, f (i + 1), \<dots>\<close>.\<close>

definition key_stream :: "(nat \<Rightarrow> bytes) \<Rightarrow> nat \<Rightarrow> nat \<Rightarrow> bytes" where
  "key_stream f i n = take n (concat (map f [i..<i + n]))"

lemma length_blocks_concat:
  "(\<And>i. length (f i) = L) \<Longrightarrow> length (concat (map f [i..<i + k])) = k * L"
  by (induction k) simp_all

lemma take_blocks:
  assumes "\<And>i. length (f i) = L" "n \<le> k * L" "k \<le> k'"
  shows "take n (concat (map f [i..<i + k'])) = take n (concat (map f [i..<i + k]))"
proof -
  have "[i..<i + k'] = [i..<i + k] @ [i + k..<i + k']" using assms(3) by (metis le_add1 le_iff_add upt_add_eq_append add.assoc)
  then show ?thesis using assms(1,2) length_blocks_concat [of f L i k] by simp
qed

lemma key_stream_step:
  assumes "\<And>i. length (f i) = L" "0 < n" "0 < L"
  shows "key_stream f i n = take n (f i) @ key_stream f (Suc i) (n - L)"
proof (cases "L \<le> n")
  case True
  have "n - L \<le> (n - L) * L" using assms(3) by (cases L) auto
  moreover have "[i..<i + n] = i # [Suc i..<Suc i + (n - 1)]" using assms(2) by (simp add: upt_conv_Cons)
  ultimately show ?thesis
    using assms(1) True take_blocks [of f L "n - L" "n - L" "n - 1" "Suc i"] assms(3)
    by (simp add: key_stream_def)
next
  case False
  have "[i..<i + n] = i # [Suc i..<i + n]" using assms(2) by (simp add: upt_conv_Cons)
  then show ?thesis using assms(1) [of i] False by (simp add: key_stream_def)
qed

lemma key_stream_zero [simp]: "key_stream f i 0 = []"
  by (simp add: key_stream_def)

lemma length_key_stream:
  assumes "\<And>i. length (f i) = L" "0 < L"
  shows "length (key_stream f i n) = n"
proof -
  have "n \<le> n * L" using assms(2) by (cases L) auto
  then show ?thesis using length_blocks_concat [of f L i n] assms(1) by (simp add: key_stream_def)
qed

section \<open>PBKDF2\<close>

fun pbkdf2_rounds :: "nat \<Rightarrow> bytes \<Rightarrow> bytes \<Rightarrow> bytes \<Rightarrow> bytes option" where
  "pbkdf2_rounds 0 pass tmp digest = Some digest"
| "pbkdf2_rounds (Suc n) pass tmp digest =
     do {
       tmp2 \<leftarrow> hmac_sha1 pass tmp;
       pbkdf2_rounds n pass tmp2 (xor_bytes digest tmp2)
     }"

definition count_buf :: "u32 \<Rightarrow> bytes" where
  "count_buf count =
     [ucast (drop_bit 24 count AND 0xff), ucast (drop_bit 16 count AND 0xff),
      ucast (drop_bit 8 count AND 0xff), ucast (count AND 0xff)]"

definition pbkdf2_sha1_f :: "bytes \<Rightarrow> bytes \<Rightarrow> int \<Rightarrow> u32 \<Rightarrow> bytes option" where
  "pbkdf2_sha1_f pass ssid iterations count =
     do {
       tmp \<leftarrow> hmac_sha1_vector pass [ssid, count_buf count];
       pbkdf2_rounds (nat (iterations - 1)) pass tmp tmp
     }"

function pbkdf2_loop :: "bytes \<Rightarrow> bytes \<Rightarrow> int \<Rightarrow> nat \<Rightarrow> u32 \<Rightarrow> bytes \<Rightarrow> bytes option" where
  "pbkdf2_loop pass ssid iterations left count buf =
     (if 0 < left then
        pbkdf2_sha1_f pass ssid iterations (count + 1) \<bind>
          (\<lambda>digest. let plen = (if 20 < left then 20 else left)
             in pbkdf2_loop pass ssid iterations (left - plen) (count + 1) (buf @ take plen digest))
      else Some buf)"
  by pat_completeness auto
termination
  by (relation "measure (\<lambda>(pass, ssid, iterations, left, count, buf). left)") auto

declare pbkdf2_loop.simps [simp del]

definition pbkdf2_sha1 :: "bytes \<Rightarrow> bytes \<Rightarrow> int \<Rightarrow> nat \<Rightarrow> bytes option" where
  "pbkdf2_sha1 pass ssid iterations buflen = pbkdf2_loop pass ssid iterations buflen 0 []"

text \<open>PKCS #5: the iterates of the PRF and their XOR.\<close>

fun pbkdf2_U :: "bytes \<Rightarrow> bytes \<Rightarrow> nat \<Rightarrow> nat \<Rightarrow> bytes" where
  "pbkdf2_U pass salt i 0 = hmac_ref sha1_digest pass (salt @ put_be32 (of_nat i))"
| "pbkdf2_U pass salt i (Suc c) = hmac_ref sha1_digest pass (pbkdf2_U pass salt i c)"

definition pbkdf2_T :: "bytes \<Rightarrow> bytes \<Rightarrow> nat \<Rightarrow> nat \<Rightarrow> bytes" where
  "pbkdf2_T pass salt c i =
     foldl xor_bytes (pbkdf2_U pass salt i 0) (map (pbkdf2_U pass salt i) [1..<c])"

lemma count_buf_be: "count_buf c = put_be32 c"
  by (simp add: count_buf_def put_be32_def and_255_ucast)

lemma length_pbkdf2_U [simp]: "length (pbkdf2_U pass salt i c) = 20"
  by (cases c) simp_all

lemma length_pbkdf2_T [simp]: "length (pbkdf2_T pass salt c i) = 20"
proof -
  have "\<forall>y\<in>set ys. length y = 20 \<Longrightarrow> length x = 20 \<Longrightarrow> length (foldl xor_bytes x ys) = 20" for x ys
    by (induction ys arbitrary: x) simp_all
  then show ?thesis by (simp add: pbkdf2_T_def)
qed

lemma pbkdf2_rounds_ref:
  assumes "length pass < 2 ^ 32 - 64"
  shows "pbkdf2_rounds n pass (pbkdf2_U pass salt i c) d =
     Some (foldl xor_bytes d (map (pbkdf2_U pass salt i) [Suc c..<Suc c + n]))"
proof (induction n arbitrary: c d)
  case (Suc n)
  have "hmac_sha1 pass (pbkdf2_U pass salt i c) = Some (pbkdf2_U pass salt i (Suc c))"
    using hmac_sha1_ref [of "[pbkdf2_U pass salt i c]" pass] assms by (simp add: hmac_sha1_def)
  then show ?case using Suc.IH [of "Suc c"] by (simp add: upt_conv_Cons del: pbkdf2_U.simps upt_Suc)
qed simp

lemma pbkdf2_f_ref:
  assumes "length pass < 2 ^ 32 - 64" "length ssid < 2 ^ 32 - 64"
  shows "pbkdf2_sha1_f pass ssid c (of_nat i) = Some (pbkdf2_T pass ssid (nat c) i)"
proof -
  have "hmac_sha1_vector pass [ssid, count_buf (of_nat i)] = Some (pbkdf2_U pass ssid i 0)"
    using hmac_sha1_ref [of "[ssid, count_buf (of_nat i)]" pass] assms by (simp add: count_buf_be)
  moreover have "[Suc 0..<Suc 0 + nat (c - 1)] = [1..<nat c]" by (cases "1 \<le> c") (auto simp: nat_diff_distrib)
  ultimately show ?thesis
    using pbkdf2_rounds_ref [OF assms(1), of "nat (c - 1)" ssid i 0]
    by (simp add: pbkdf2_sha1_f_def pbkdf2_T_def del: pbkdf2_U.simps)
qed

lemma pbkdf2_loop_ref:
  assumes "length pass < 2 ^ 32 - 64" "length ssid < 2 ^ 32 - 64"
  shows "pbkdf2_loop pass ssid c left (of_nat i) buf =
     Some (buf @ key_stream (pbkdf2_T pass ssid (nat c)) (Suc i) left)"
proof (induction left arbitrary: i buf rule: less_induct)
  case (less left)
  show ?case
  proof (cases "left = 0")
    case False
    have f: "pbkdf2_sha1_f pass ssid c (1 + of_nat i) = Some (pbkdf2_T pass ssid (nat c) (Suc i))"
      using pbkdf2_f_ref [OF assms, of c "Suc i"] by simp
    define plen where "plen = (if 20 < left then 20 else left)"
    have "pbkdf2_loop pass ssid c (left - plen) (of_nat (Suc i)) (buf @ take plen (pbkdf2_T pass ssid (nat c) (Suc i))) =
        Some ((buf @ take plen (pbkdf2_T pass ssid (nat c) (Suc i))) @
              key_stream (pbkdf2_T pass ssid (nat c)) (Suc (Suc i)) (left - plen))"
      using False by (intro less.IH) (auto simp: plen_def)
    moreover have "left - plen = left - 20" "take plen (pbkdf2_T pass ssid (nat c) (Suc i)) =
        take left (pbkdf2_T pass ssid (nat c) (Suc i))" by (auto simp: plen_def)
    ultimately show ?thesis using False
        key_stream_step [of "pbkdf2_T pass ssid (nat c)" 20 left "Suc i"]
      by (subst pbkdf2_loop.simps) (simp add: f Let_def plen_def [symmetric] add.commute)
  qed (simp add: pbkdf2_loop.simps)
qed

section \<open>Pseudo-random functions\<close>

function sha1_prf_loop :: "bytes \<Rightarrow> bytes \<Rightarrow> bytes \<Rightarrow> nat \<Rightarrow> u8 \<Rightarrow> bytes \<Rightarrow> bytes option" where
  "sha1_prf_loop key label data plen counter buf =
     (if 0 < plen then
        hmac_sha1_vector key [label @ [0], data, [counter]] \<bind>
          (\<lambda>hash. if 20 \<le> plen then sha1_prf_loop key label data (plen - 20) (counter + 1) (buf @ hash)
                  else Some (buf @ take plen hash))
      else Some buf)"
  by pat_completeness auto
termination by (relation "measure (\<lambda>(key, label, data, plen, counter, buf). plen)") auto

declare sha1_prf_loop.simps [simp del]

definition sha1_prf :: "bytes \<Rightarrow> bytes \<Rightarrow> bytes \<Rightarrow> nat \<Rightarrow> bytes option" where
  "sha1_prf key label data buf_len = sha1_prf_loop key label data buf_len 0 []"

definition put_le16 :: "u16 \<Rightarrow> bytes" where
  "put_le16 v = [ucast v, ucast (drop_bit 8 v)]"

function sha256_prf_loop :: "bytes \<Rightarrow> bytes \<Rightarrow> bytes \<Rightarrow> bytes \<Rightarrow> nat \<Rightarrow> u16 \<Rightarrow> bytes \<Rightarrow> bytes option" where
  "sha256_prf_loop key label data length_le plen counter buf =
     (if 0 < plen then
        hmac_sha256_vector key [put_le16 counter, label, data, length_le] \<bind>
          (\<lambda>hash. if 32 \<le> plen then sha256_prf_loop key label data length_le (plen - 32) (counter + 1) (buf @ hash)
                  else Some (buf @ take plen hash))
      else Some buf)"
  by pat_completeness auto
termination by (relation "measure (\<lambda>(key, label, data, length_le, plen, counter, buf). plen)") auto

declare sha256_prf_loop.simps [simp del]

definition sha256_prf_bits :: "bytes \<Rightarrow> bytes \<Rightarrow> bytes \<Rightarrow> nat \<Rightarrow> bytes option" where
  "sha256_prf_bits key label data buf_len_bits =
     do {
       let buf_len = (buf_len_bits + 7) div 8;
       buf \<leftarrow> sha256_prf_loop key label data (put_le16 (of_nat buf_len_bits)) buf_len 1 [];
       Some (if buf_len_bits mod 8 \<noteq> 0 then
               buf[buf_len - 1 := buf ! (buf_len - 1) AND push_bit (8 - buf_len_bits mod 8) 0xff]
             else buf)
     }"

definition sha256_prf :: "bytes \<Rightarrow> bytes \<Rightarrow> bytes \<Rightarrow> nat \<Rightarrow> bytes option" where
  "sha256_prf key label data buf_len = sha256_prf_bits key label data (buf_len * 8)"

definition sha1_prf_block :: "bytes \<Rightarrow> bytes \<Rightarrow> bytes \<Rightarrow> nat \<Rightarrow> bytes" where
  "sha1_prf_block key label data i = hmac_ref sha1_digest key (label @ [0] @ data @ [of_nat i])"

definition sha256_prf_block :: "bytes \<Rightarrow> bytes \<Rightarrow> bytes \<Rightarrow> nat \<Rightarrow> nat \<Rightarrow> bytes" where
  "sha256_prf_block key label data bits i =
     hmac_ref sha256_digest key (put_le16 (of_nat i) @ label @ data @ put_le16 (of_nat bits))"

lemma length_prf_block [simp]:
  "length (sha1_prf_block key label data i) = 20" "length (sha256_prf_block key label data bits i) = 32"
  by (simp_all add: sha1_prf_block_def sha256_prf_block_def)

lemma sha1_prf_loop_ref:
  assumes "length key < 2 ^ 32 - 64" "length label + 1 < 2 ^ 32 - 64" "length data < 2 ^ 32 - 64"
  shows "sha1_prf_loop key label data n (of_nat i) buf = Some (buf @ key_stream (sha1_prf_block key label data) i n)"
proof (induction n arbitrary: i buf rule: less_induct)
  case (less n)
  have h: "hmac_sha1_vector key [label @ [0], data, [of_nat i]] = Some (sha1_prf_block key label data i)"
    using hmac_sha1_ref [of "[label @ [0], data, [of_nat i]]" key] assms by (simp add: sha1_prf_block_def)
  have "sha1_prf_loop key label data (n - 20) (1 + of_nat i) (buf @ sha1_prf_block key label data i) =
      Some ((buf @ sha1_prf_block key label data i) @ key_stream (sha1_prf_block key label data) (Suc i) (n - 20))"
    if "20 \<le> n" using less.IH [of "n - 20" "Suc i"] that by simp
  then show ?case using key_stream_step [of "sha1_prf_block key label data" 20 n i]
    by (subst sha1_prf_loop.simps) (simp add: h add.commute)
qed

lemma sha256_prf_loop_ref:
  "sha256_prf_loop key label data (put_le16 (of_nat bits)) n (of_nat i) buf =
     Some (buf @ key_stream (sha256_prf_block key label data bits) i n)"
proof (induction n arbitrary: i buf rule: less_induct)
  case (less n)
  have h: "hmac_sha256_vector key [put_le16 (of_nat i), label, data, put_le16 (of_nat bits)] =
      Some (sha256_prf_block key label data bits i)"
    using hmac_sha256_ref [of "[put_le16 (of_nat i), label, data, put_le16 (of_nat bits)]" key]
    by (simp add: sha256_prf_block_def)
  have "sha256_prf_loop key label data (put_le16 (of_nat bits)) (n - 32) (1 + of_nat i) (buf @ sha256_prf_block key label data bits i) =
      Some ((buf @ sha256_prf_block key label data bits i) @ key_stream (sha256_prf_block key label data bits) (Suc i) (n - 32))"
    if "32 \<le> n" using less.IH [of "n - 32" "Suc i"] that by simp
  then show ?case using key_stream_step [of "sha256_prf_block key label data bits" 32 n i]
    by (subst sha256_prf_loop.simps) (simp add: h add.commute)
qed

section \<open>Properties\<close>

text \<open>
  C31: the three HMAC functions compute RFC 2104 over the concatenation of up to five pieces,
  keys longer than a block being hashed first, and refuse more than five pieces.
\<close>

theorem hmac_rfc2104:
  assumes "list_all (\<lambda>d. length d < 2 ^ 32 - 64) (key # elems)"
  shows "hmac_sha1_vector key elems =
           (if length elems \<le> 5 then Some (hmac_ref sha1_digest key (concat elems)) else None) \<and>
         hmac_sha256_vector key elems =
           (if length elems \<le> 5 then Some (hmac_ref sha256_digest key (concat elems)) else None) \<and>
         hmac_md5_vector key elems =
           (if length elems \<le> 5 then Some (hmac_ref md5_digest key (concat elems)) else None)"
proof -
  have "list_all (\<lambda>d. length d < 2 ^ 32) elems" using assms by (auto simp: list_all_iff)
  then show ?thesis using assms hmac_sha1_ref [of elems key] hmac_sha256_ref [of elems key] hmac_md5_ref [of elems key]
    by (simp add: hmac_sha1_vector_def hmac_sha256_vector_def hmac_md5_vector_def)
qed

theorem hmac_rfc2104_witness:
  "hmac_sha1_vector (replicate 80 0xaa) [[1], [2]] = Some (hmac_ref sha1_digest (replicate 80 0xaa) [1, 2])"
  using hmac_rfc2104 [of "replicate 80 0xaa" "[[1], [2]]"] by simp

text \<open>
  C32: the passphrase mapping is PBKDF2 of PKCS #5: for every passphrase, SSID, iteration count
  and output length it succeeds and returns exactly that many bytes of the concatenated
  blocks, each the XOR of its HMAC iterates.
\<close>

theorem pbkdf2_sha1_pkcs5:
  assumes "length pass < 2 ^ 32 - 64" "length ssid < 2 ^ 32 - 64"
  shows "pbkdf2_sha1 pass ssid iterations buflen =
           Some (key_stream (pbkdf2_T pass ssid (nat iterations)) 1 buflen) \<and>
         length (key_stream (pbkdf2_T pass ssid (nat iterations)) 1 buflen) = buflen"
  using pbkdf2_loop_ref [OF assms, of iterations buflen 0 "[]"]
    length_key_stream [of "pbkdf2_T pass ssid (nat iterations)" 20 1 buflen]
  by (simp add: pbkdf2_sha1_def)

theorem pbkdf2_sha1_pkcs5_witness:
  "\<exists>psk. pbkdf2_sha1 [0x70, 0x77] [0x61, 0x70] 4096 32 = Some psk \<and> length psk = 32"
  using pbkdf2_sha1_pkcs5 [of "[0x70, 0x77]" "[0x61, 0x70]" 4096 32] by auto

text \<open>
  \<open>sha1_prf\<close> returns the first bytes of the counter-mode HMAC stream of IEEE 802.11i, so a
  shorter request is a prefix of a longer one.
\<close>

theorem sha1_prf_stream:
  assumes "length key < 2 ^ 32 - 64" "length label + 1 < 2 ^ 32 - 64" "length data < 2 ^ 32 - 64"
  shows "sha1_prf key label data n = Some (key_stream (sha1_prf_block key label data) 0 n) \<and>
         (m \<le> n \<longrightarrow> sha1_prf key label data m = map_option (take m) (sha1_prf key label data n))"
proof -
  have eq: "sha1_prf key label data k = Some (key_stream (sha1_prf_block key label data) 0 k)" for k
    using sha1_prf_loop_ref [OF assms, of k 0 "[]"] by (simp add: sha1_prf_def)
  have "take m (key_stream (sha1_prf_block key label data) 0 n) = key_stream (sha1_prf_block key label data) 0 m"
    if "m \<le> n"
    using that take_blocks [of "sha1_prf_block key label data" 20 m m n 0] by (simp add: key_stream_def min_def)
  then show ?thesis by (simp add: eq)
qed

theorem sha1_prf_stream_witness:
  "sha1_prf [1] [2] [3] 16 = map_option (take 16) (sha1_prf [1] [2] [3] 48)"
  using sha1_prf_stream [of "[1]" "[2]" "[3]" 48 16] by simp

text \<open>
  the key derivation of IEEE 802.11r returns \<open>(bits + 7) div 8\<close> bytes of its stream, with the
  unused low bits of the last byte cleared.
\<close>

theorem sha256_prf_bits_stream:
  "\<exists>buf. sha256_prf_bits key label data bits = Some buf \<and> length buf = (bits + 7) div 8 \<and>
     (\<forall>i < length buf. buf ! i =
        (if bits mod 8 \<noteq> 0 \<and> i = length buf - 1
         then key_stream (sha256_prf_block key label data bits) 1 (length buf) ! i AND push_bit (8 - bits mod 8) 0xff
         else key_stream (sha256_prf_block key label data bits) 1 (length buf) ! i))"
proof -
  define n where "n = (bits + 7) div 8"
  define ks where "ks = key_stream (sha256_prf_block key label data bits) 1 n"
  have "length ks = n" using length_key_stream [of "sha256_prf_block key label data bits" 32 1 n] by (simp add: ks_def)
  moreover have "sha256_prf_loop key label data (put_le16 (of_nat bits)) n 1 [] = Some ks"
    using sha256_prf_loop_ref [of key label data bits n 1 "[]"] by (simp add: ks_def)
  ultimately show ?thesis
    by (simp add: sha256_prf_bits_def Let_def n_def [symmetric] ks_def [unfolded One_nat_def, symmetric] nth_list_update)
qed

theorem sha256_prf_bits_stream_witness:
  "\<exists>buf. sha256_prf_bits [1] [2] [3] 12 = Some buf \<and> length buf = 2 \<and>
     buf ! 1 = key_stream (sha256_prf_block [1] [2] [3] 12) 1 2 ! 1 AND push_bit 4 0xff"
  using sha256_prf_bits_stream [of "[1]" "[2]" "[3]" 12] by auto

end
