(* ===== verification/Rc4.thy ===== *)
theory Rc4
  imports Prelude "HOL-Library.Multiset"
begin

text \<open>
  The RC4 stream cipher (\<^verbatim>\<open>wpa_supplicant/src/crypto/rc4.c\<close>). The three loops of
  \<open>rc4_skip\<close> are folds over their counters; the permutation array and the indices
  \<^verbatim>\<open>i\<close>, \<^verbatim>\<open>j\<close> are the state. The counter \<^verbatim>\<open>k\<close> is a \<^verbatim>\<open>u32\<close> compared with a
  \<^verbatim>\<open>size_t\<close>: a bound of \<open>2\<^sup>3\<^sup>2\<close> or more is never reached, which the model gives as \<open>None\<close>;
  an empty key reads outside its buffer, \<open>None\<close> too.
\<close>

record rc4_state =
  S_box :: bytes
  idx_i :: u32
  idx_j :: u32

definition S_SWAP :: "bytes \<Rightarrow> u32 \<Rightarrow> u32 \<Rightarrow> bytes" where
  "S_SWAP S a b = S[unat a := S ! unat b, unat b := S ! unat a]"

text \<open>One round of the key setup: the array, \<^verbatim>\<open>j\<close> and \<^verbatim>\<open>kpos\<close>.\<close>

definition rc4_setup_step :: "bytes \<Rightarrow> bytes \<times> u32 \<times> nat \<Rightarrow> nat \<Rightarrow> bytes \<times> u32 \<times> nat" where
  "rc4_setup_step key s i =
     (case s of (S, j, kpos) \<Rightarrow>
       let j = (j + ucast (S ! i) + ucast (key ! kpos)) AND 0xff;
           kpos = kpos + 1;
           kpos = (if length key \<le> kpos then 0 else kpos)
       in (S_SWAP S (of_nat i) j, j, kpos))"

definition rc4_setup :: "bytes \<Rightarrow> bytes" where
  "rc4_setup key = fst (foldl (rc4_setup_step key) (map of_nat [0..<256], 0, 0) [0..<256])"

definition rc4_advance :: "rc4_state \<Rightarrow> rc4_state" where
  "rc4_advance s =
     (let i = (idx_i s + 1) AND 0xff;
          j = (idx_j s + ucast (S_box s ! unat i)) AND 0xff
      in \<lparr>S_box = S_SWAP (S_box s) i j, idx_i = i, idx_j = j\<rparr>)"

definition rc4_out :: "rc4_state \<Rightarrow> u8" where
  "rc4_out s =
     (let i = S_box s ! unat (idx_i s); j = S_box s ! unat (idx_j s)
      in S_box s ! unat ((ucast i + ucast j :: u32) AND 0xff))"

fun rc4_apply :: "rc4_state \<Rightarrow> bytes \<Rightarrow> bytes" where
  "rc4_apply s [] = []"
| "rc4_apply s (d # ds) = (let s = rc4_advance s in (d XOR rc4_out s) # rc4_apply s ds)"

definition rc4_start :: "bytes \<Rightarrow> nat \<Rightarrow> rc4_state" where
  "rc4_start key skip = (rc4_advance ^^ skip) \<lparr>S_box = rc4_setup key, idx_i = 0, idx_j = 0\<rparr>"

definition rc4_skip :: "bytes \<Rightarrow> nat \<Rightarrow> bytes \<Rightarrow> bytes option" where
  "rc4_skip key skip data =
     (if key = [] \<or> 2 ^ 32 \<le> skip \<or> 2 ^ 32 \<le> length data then None
      else Some (rc4_apply (rc4_start key skip) data))"

section \<open>The array stays a permutation\<close>

definition perm_inv :: "bytes \<Rightarrow> bool" where
  "perm_inv S \<longleftrightarrow> mset S = mset (map of_nat [0..<256])"

lemma perm_inv_length: "perm_inv S \<Longrightarrow> length S = 256"
  unfolding perm_inv_def by (drule arg_cong [where f = size]) simp

lemma S_SWAP_perm [inv_intros]:
  assumes "perm_inv S" "unat a < 256" "unat b < 256"
  shows "perm_inv (S_SWAP S a b)"
  using assms perm_inv_length [OF assms(1)] unfolding perm_inv_def S_SWAP_def
  by (subst mset_swap) simp_all

lemma rc4_setup_perm [inv_intros]: "perm_inv (rc4_setup key)"
proof -
  have "perm_inv (fst (rc4_setup_step key s i))" if "i < 256" "perm_inv (fst s)" for s i
    using that low_byte_less
    by (cases s) (auto simp: rc4_setup_step_def Let_def unat_of_nat intro!: S_SWAP_perm)
  then have "perm_inv (fst (foldl (rc4_setup_step key) (map of_nat [0..<256], 0, 0) [0..<256]))"
    by (intro foldl_invariant [where P = "\<lambda>s. perm_inv (fst s)"]) (auto simp: perm_inv_def)
  then show ?thesis by (simp add: rc4_setup_def)
qed

lemma rc4_advance_perm [inv_intros]: "perm_inv (S_box s) \<Longrightarrow> perm_inv (S_box (rc4_advance s))"
  by (simp add: rc4_advance_def Let_def S_SWAP_perm low_byte_less)

lemma rc4_start_perm: "perm_inv (S_box (rc4_start key n))"
  unfolding rc4_start_def by (induction n) (simp_all add: inv_intros)

section \<open>The key stream\<close>

definition rc4_stream :: "rc4_state \<Rightarrow> nat \<Rightarrow> bytes" where
  "rc4_stream s n = map (\<lambda>k. rc4_out ((rc4_advance ^^ Suc k) s)) [0..<n]"

lemma rc4_stream_Suc: "rc4_stream s (Suc n) = rc4_out (rc4_advance s) # rc4_stream (rc4_advance s) n"
  unfolding rc4_stream_def upt_conv_Cons [OF zero_less_Suc] map_Suc_upt [symmetric]
  by (simp add: funpow_swap1)

lemma rc4_apply_stream: "rc4_apply s data = map2 (XOR) data (rc4_stream s (length data))"
  by (induction data arbitrary: s) (simp_all add: rc4_stream_Suc Let_def)

lemma length_rc4_apply [simp, len_simps]: "length (rc4_apply s data) = length data"
  by (induction data arbitrary: s) (simp_all add: Let_def)

lemma rc4_apply_involution: "rc4_apply s (rc4_apply s data) = data"
  by (induction data arbitrary: s) (simp_all add: Let_def)

lemma rc4_apply_append: "rc4_apply s (xs @ ys) = rc4_apply s xs @ rc4_apply ((rc4_advance ^^ length xs) s) ys"
  by (induction xs arbitrary: s) (simp_all add: Let_def funpow_swap1)

section \<open>Properties\<close>

text \<open>
  For every key, RC4 applied twice with the same number of skipped bytes gives the data
  back, the data keeps its length, and the permutation array it reads from holds each byte
  value exactly once when the first data byte is processed.
\<close>

theorem rc4_roundtrip:
  assumes "key \<noteq> []" "skip < 2 ^ 32" "length data < 2 ^ 32"
  shows "\<exists>c. rc4_skip key skip data = Some c \<and> length c = length data \<and>
             rc4_skip key skip c = Some data \<and>
             mset (S_box (rc4_start key skip)) = mset (map of_nat [0..<256])"
  using assms rc4_start_perm [of key skip]
  by (simp add: rc4_skip_def rc4_apply_involution perm_inv_def)

theorem rc4_roundtrip_witness:
  "\<exists>c. rc4_skip [1, 2, 3] 4 [7, 8] = Some c \<and> rc4_skip [1, 2, 3] 4 c = Some [7, 8]"
  using rc4_roundtrip [of "[1, 2, 3]" 4 "[7, 8]"] by auto

text \<open>
  Skipping the first \<open>n\<close> bytes of the stream is the same as encrypting \<open>n\<close> bytes of
  padding and dropping them: a message cut in two can be processed in two calls.
\<close>

theorem rc4_skip_resume:
  assumes "key \<noteq> []" "skip + length xs < 2 ^ 32" "length xs + length ys < 2 ^ 32"
  shows "rc4_skip key skip (xs @ ys) =
         (case (rc4_skip key skip xs, rc4_skip key (skip + length xs) ys) of
            (Some c, Some d) \<Rightarrow> Some (c @ d) | _ \<Rightarrow> None)"
proof -
  have "rc4_start key (skip + length xs) = (rc4_advance ^^ length xs) (rc4_start key skip)"
    by (simp add: rc4_start_def add.commute [of skip] funpow_add)
  then show ?thesis using assms by (simp add: rc4_skip_def rc4_apply_append)
qed

theorem rc4_skip_resume_witness:
  "rc4_skip [9] 256 ([1] @ [2, 3]) =
     (case (rc4_skip [9] 256 [1], rc4_skip [9] (256 + length [1 :: u8]) [2, 3]) of
        (Some c, Some d) \<Rightarrow> Some (c @ d) | _ \<Rightarrow> None)"
  by (rule rc4_skip_resume) simp_all

end
