(* ===== verification/Eapol.thy ===== *)
theory Eapol
  imports Hmac Rc4
begin

text \<open>
  The EAPOL supplicant (\<^verbatim>\<open>wpa_supplicant/src/eapol_supp/eapol_supp_sm.c\<close>, with the state
  machine macros of \<^verbatim>\<open>utils/state_machine.h\<close> and the frame formats of
  \<^verbatim>\<open>common/eapol_common.h\<close>): the PAE, key-receive and backend machines of IEEE 802.1X, the
  EAPOL-Key processing, frame reception and every external notification. This theory holds
  the model; \<^verbatim>\<open>EapolProofs\<close> holds what is proved of it.

  The EAP peer is another component. It reaches back into this one only through the
  \<^verbatim>\<open>eapol_callbacks\<close> table, so a call into it is a function of the whole state that returns
  the peer's new internal state and the sequence of \<^verbatim>\<open>set_bool\<close>/\<^verbatim>\<open>set_int\<close> callbacks it
  made; nothing is assumed of it. The callbacks of \<^verbatim>\<open>struct eapol_ctx\<close> and the event loop are
  the outputs, recorded in order in \<open>outs\<close>. The build is the one of \<^verbatim>\<open>defconfig\<close>: WPS, no
  EAP proxy, no MACsec, no FIPS.
\<close>

section \<open>Data\<close>

datatype PortStatus = Unauthorized | Authorized

datatype PortControl = Auto | ForceUnauthorized | ForceAuthorized

datatype supp_pae = PAE_UNKNOWN | PAE_DISCONNECTED | PAE_LOGOFF | PAE_CONNECTING | PAE_AUTHENTICATING
  | PAE_AUTHENTICATED | PAE_HELD | PAE_RESTART | PAE_S_FORCE_AUTH | PAE_S_FORCE_UNAUTH

datatype key_rx = KEY_RX_UNKNOWN | KEY_RX_NO_KEY_RECEIVE | KEY_RX_KEY_RECEIVE

datatype supp_be = BE_UNKNOWN | BE_INITIALIZE | BE_IDLE | BE_REQUEST | BE_RECEIVE | BE_RESPONSE
  | BE_FAIL | BE_TIMEOUT | BE_SUCCESS

datatype cb_status = CB_IN_PROGRESS | CB_SUCCESS | CB_FAILURE

datatype eapol_supp_result = RESULT_FAILURE | RESULT_SUCCESS | RESULT_EXPECTED_FAILURE

text \<open>What leaves the component: frames, context callbacks, event loop registrations.\<close>

datatype eapol_out = SendEapPacket bytes | SendStart | SendLogoff | PortCb bool | DoneCb
  | SetWepKey bool nat bytes | AbortedCached | ResultCb eapol_supp_result
  | RegisterTick | CancelTick | RegisterStep | CancelStep

record eapol_config =
  accept_802_1x_keys :: bool
  required_keys :: u32
  fast_reauth :: bool
  workaround :: bool
  eap_disabled :: bool
  external_sim :: bool
  wps :: u32

record eapol_stats =
  FramesRx :: u32
  FramesTx :: u32
  StartFramesTx :: u32
  LogoffFramesTx :: u32
  RespFramesTx :: u32
  ReqIdFramesRx :: u32
  ReqFramesRx :: u32
  InvalidFramesRx :: u32
  LengthErrorFramesRx :: u32
  LastFrameVersion :: u32
  LastFrameSource :: bytes

record 'e eapol_sm =
  authWhile :: u32
  heldWhile :: u32
  startWhen :: u32
  idleWhile :: u32
  timer_tick_enabled :: bool
  eapFail :: bool
  eapolEap :: bool
  eapSuccess :: bool
  initialize :: bool
  keyDone :: bool
  keyRun :: bool
  portControl :: PortControl
  portEnabled :: bool
  suppPortStatus :: PortStatus
  portValid :: bool
  suppAbort :: bool
  suppFail :: bool
  suppStart :: bool
  suppSuccess :: bool
  suppTimeout :: bool
  SUPP_PAE_state :: supp_pae
  userLogoff :: bool
  logoffSent :: bool
  startCount :: u32
  eapRestart :: bool
  sPortMode :: PortControl
  heldPeriod :: u32
  startPeriod :: u32
  maxStart :: u32
  KEY_RX_state :: key_rx
  rxKey :: bool
  SUPP_BE_state :: supp_be
  eapNoResp :: bool
  eapReq :: bool
  eapResp :: bool
  authPeriod :: u32
  stats :: eapol_stats
  changed :: bool
  eap :: 'e
  initial_req :: bool
  last_rx_key :: "bytes option"
  eapReqData :: "bytes option"
  altAccept :: bool
  altReject :: bool
  eapTriggerStart :: bool
  replay_counter_valid :: bool
  last_replay_counter :: bytes
  conf :: eapol_config
  cb_status :: cb_status
  cached_pmk :: bool
  unicast_key_received :: bool
  broadcast_key_received :: bool
  force_authorized_update :: bool
  outs :: "eapol_out list"

text \<open>
  The context: which callbacks are set, the return values of \<^verbatim>\<open>set_wep_key\<close> and
  \<^verbatim>\<open>eloop_register_timeout\<close>, the outcome of an allocation, and the bytes the stack holds
  where the key buffer is placed.
\<close>

record eapol_ctx =
  preauth :: bool
  has_cb :: bool
  has_port_cb :: bool
  has_done_cb :: bool
  has_set_wep_key :: bool
  has_aborted_cached :: bool
  set_wep_key_ok :: "bool \<Rightarrow> nat \<Rightarrow> bytes \<Rightarrow> bool"
  eloop_ok :: bool
  alloc_ok :: bool
  stack_garbage :: bytes

datatype eapol_bool_var = V_eapSuccess | V_eapRestart | V_eapFail | V_eapResp | V_eapNoResp | V_eapReq
  | V_portEnabled | V_altAccept | V_altReject | V_eapTriggerStart

datatype eap_call = SetBool eapol_bool_var bool | SetIdleWhile u32

type_synonym 'e eap_op = "'e eapol_sm \<Rightarrow> 'e \<times> eap_call list"

text \<open>The entry points of the EAP peer that are called from here.\<close>

record 'e eap_ops =
  eap_peer_sm_step :: "'e eapol_sm \<Rightarrow> ('e \<times> eap_call list) \<times> bool"
  eap_sm_abort :: "'e eap_op"
  eap_notify_success :: "'e eap_op"
  eap_notify_lower_layer_success :: "'e eap_op"
  eap_key_available :: "'e \<Rightarrow> bool"
  eap_get_eapKeyData :: "'e \<Rightarrow> bytes option"
  eap_get_eapRespData :: "'e \<Rightarrow> 'e \<times> bytes option"
  eap_peer_was_failure_expected :: "'e \<Rightarrow> bool"
  eap_set_config :: "eapol_config \<Rightarrow> 'e \<Rightarrow> 'e"

section \<open>Timers and callbacks\<close>

definition emit :: "eapol_out \<Rightarrow> 'e eapol_sm \<Rightarrow> 'e eapol_sm" where
  "emit x sm = sm\<lparr>outs := outs sm @ [x]\<rparr>"

definition emit_if :: "bool \<Rightarrow> eapol_out \<Rightarrow> 'e eapol_sm \<Rightarrow> 'e eapol_sm" where
  "emit_if c x sm = (if c then emit x sm else sm)"

definition eapol_enable_timer_tick :: "eapol_ctx \<Rightarrow> 'e eapol_sm \<Rightarrow> 'e eapol_sm" where
  "eapol_enable_timer_tick ctx sm =
     (if timer_tick_enabled sm then sm
      else
        let sm = emit RegisterTick (emit CancelTick sm)
        in if eloop_ok ctx then sm\<lparr>timer_tick_enabled := True\<rparr> else sm)"

definition eapol_sm_set_bool :: "eapol_bool_var \<Rightarrow> bool \<Rightarrow> 'e eapol_sm \<Rightarrow> 'e eapol_sm" where
  "eapol_sm_set_bool v b sm =
     (case v of
        V_eapSuccess \<Rightarrow> sm\<lparr>eapSuccess := b\<rparr>
      | V_eapRestart \<Rightarrow> sm\<lparr>eapRestart := b\<rparr>
      | V_eapFail \<Rightarrow> sm\<lparr>eapFail := b\<rparr>
      | V_eapResp \<Rightarrow> sm\<lparr>eapResp := b\<rparr>
      | V_eapNoResp \<Rightarrow> sm\<lparr>eapNoResp := b\<rparr>
      | V_eapReq \<Rightarrow> sm\<lparr>eapReq := b\<rparr>
      | V_portEnabled \<Rightarrow> sm\<lparr>portEnabled := b\<rparr>
      | V_altAccept \<Rightarrow> sm\<lparr>altAccept := b\<rparr>
      | V_altReject \<Rightarrow> sm\<lparr>altReject := b\<rparr>
      | V_eapTriggerStart \<Rightarrow> sm\<lparr>eapTriggerStart := b\<rparr>)"

definition eapol_sm_get_bool :: "eapol_bool_var \<Rightarrow> 'e eapol_sm \<Rightarrow> bool" where
  "eapol_sm_get_bool v sm =
     (case v of
        V_eapSuccess \<Rightarrow> eapSuccess sm
      | V_eapRestart \<Rightarrow> eapRestart sm
      | V_eapFail \<Rightarrow> eapFail sm
      | V_eapResp \<Rightarrow> eapResp sm
      | V_eapNoResp \<Rightarrow> eapNoResp sm
      | V_eapReq \<Rightarrow> eapReq sm
      | V_portEnabled \<Rightarrow> portEnabled sm
      | V_altAccept \<Rightarrow> altAccept sm
      | V_altReject \<Rightarrow> altReject sm
      | V_eapTriggerStart \<Rightarrow> eapTriggerStart sm)"

definition eapol_sm_set_int :: "eapol_ctx \<Rightarrow> u32 \<Rightarrow> 'e eapol_sm \<Rightarrow> 'e eapol_sm" where
  "eapol_sm_set_int ctx v sm =
     (let sm = sm\<lparr>idleWhile := v\<rparr> in if 0 < v then eapol_enable_timer_tick ctx sm else sm)"

definition eap_callback :: "eapol_ctx \<Rightarrow> 'e eapol_sm \<Rightarrow> eap_call \<Rightarrow> 'e eapol_sm" where
  "eap_callback ctx sm call =
     (case call of SetBool v b \<Rightarrow> eapol_sm_set_bool v b sm | SetIdleWhile n \<Rightarrow> eapol_sm_set_int ctx n sm)"

text \<open>The effect of one call into the EAP peer.\<close>

definition after_eap :: "eapol_ctx \<Rightarrow> 'e \<times> eap_call list \<Rightarrow> 'e eapol_sm \<Rightarrow> 'e eapol_sm" where
  "after_eap ctx r sm = (case r of (e, calls) \<Rightarrow> foldl (eap_callback ctx) (sm\<lparr>eap := e\<rparr>) calls)"

definition eapol_sm_set_port_authorized :: "eapol_ctx \<Rightarrow> 'e eapol_sm \<Rightarrow> 'e eapol_sm" where
  "eapol_sm_set_port_authorized ctx sm =
     (let cb = (suppPortStatus sm \<noteq> Authorized \<or> force_authorized_update sm)
      in emit_if (cb \<and> has_port_cb ctx) (PortCb True)
           (sm\<lparr>force_authorized_update := False, suppPortStatus := Authorized\<rparr>))"

definition eapol_sm_set_port_unauthorized :: "eapol_ctx \<Rightarrow> 'e eapol_sm \<Rightarrow> 'e eapol_sm" where
  "eapol_sm_set_port_unauthorized ctx sm =
     (let cb = (suppPortStatus sm \<noteq> Unauthorized \<or> force_authorized_update sm)
      in emit_if (cb \<and> has_port_cb ctx) (PortCb False)
           (sm\<lparr>force_authorized_update := False, suppPortStatus := Unauthorized\<rparr>))"

definition eapol_sm_txLogoff :: "'e eapol_sm \<Rightarrow> 'e eapol_sm" where
  "eapol_sm_txLogoff sm =
     (emit SendLogoff sm)\<lparr>stats := (stats sm)\<lparr>LogoffFramesTx := LogoffFramesTx (stats sm) + 1,
        FramesTx := FramesTx (stats sm) + 1\<rparr>\<rparr>"

definition eapol_sm_txStart :: "'e eapol_sm \<Rightarrow> 'e eapol_sm" where
  "eapol_sm_txStart sm =
     (emit SendStart sm)\<lparr>stats := (stats sm)\<lparr>StartFramesTx := StartFramesTx (stats sm) + 1,
        FramesTx := FramesTx (stats sm) + 1\<rparr>\<rparr>"

section \<open>The supplicant PAE machine\<close>

definition pae_entry :: "bool \<Rightarrow> supp_pae \<Rightarrow> 'e eapol_sm \<Rightarrow> 'e eapol_sm" where
  "pae_entry global st sm =
     (if \<not> global \<or> SUPP_PAE_state sm \<noteq> st then sm\<lparr>changed := True\<rparr> else sm)\<lparr>SUPP_PAE_state := st\<rparr>"

definition pae_LOGOFF :: "eapol_ctx \<Rightarrow> bool \<Rightarrow> 'e eapol_sm \<Rightarrow> 'e eapol_sm" where
  "pae_LOGOFF ctx global sm =
     eapol_sm_set_port_unauthorized ctx ((eapol_sm_txLogoff (pae_entry global PAE_LOGOFF sm))\<lparr>logoffSent := True\<rparr>)"

definition pae_DISCONNECTED :: "eapol_ctx \<Rightarrow> bool \<Rightarrow> 'e eapol_sm \<Rightarrow> 'e eapol_sm" where
  "pae_DISCONNECTED ctx global sm =
     (let sm = pae_entry global PAE_DISCONNECTED sm;
          sm = sm\<lparr>sPortMode := Auto, startCount := 0, eapTriggerStart := False, logoffSent := False\<rparr>;
          sm = eapol_sm_set_port_unauthorized ctx sm
      in sm\<lparr>suppAbort := True, unicast_key_received := False, broadcast_key_received := False, heldWhile := 0\<rparr>)"

definition pae_CONNECTING :: "eapol_ctx \<Rightarrow> bool \<Rightarrow> 'e eapol_sm \<Rightarrow> 'e eapol_sm" where
  "pae_CONNECTING ctx global sm =
     (let send_start = (SUPP_PAE_state sm = PAE_CONNECTING \<or> SUPP_PAE_state sm = PAE_HELD);
          sm = pae_entry global PAE_CONNECTING sm;
          send_start = (send_start \<or> eapTriggerStart sm \<or> preauth ctx);
          sm = sm\<lparr>eapTriggerStart := False\<rparr>;
          sm = (if send_start then sm\<lparr>startWhen := startPeriod sm, startCount := startCount sm + 1\<rparr>
                else if wps (conf sm) \<noteq> 0 \<and> wps (conf sm) AND 2 = 0 then sm\<lparr>startWhen := 1\<rparr>
                else sm\<lparr>startWhen := 2\<rparr>);
          sm = (eapol_enable_timer_tick ctx sm)\<lparr>eapolEap := False\<rparr>
      in if send_start then eapol_sm_txStart sm else sm)"

definition pae_AUTHENTICATING :: "bool \<Rightarrow> 'e eapol_sm \<Rightarrow> 'e eapol_sm" where
  "pae_AUTHENTICATING global sm =
     (pae_entry global PAE_AUTHENTICATING sm)\<lparr>startCount := 0, suppSuccess := False, suppFail := False,
        suppTimeout := False, keyRun := False, keyDone := False, suppStart := True\<rparr>"

definition pae_HELD :: "eapol_ctx \<Rightarrow> bool \<Rightarrow> 'e eapol_sm \<Rightarrow> 'e eapol_sm" where
  "pae_HELD ctx global sm =
     (let sm = pae_entry global PAE_HELD sm;
          sm = eapol_enable_timer_tick ctx (sm\<lparr>heldWhile := heldPeriod sm\<rparr>)
      in (eapol_sm_set_port_unauthorized ctx sm)\<lparr>cb_status := CB_FAILURE\<rparr>)"

definition pae_AUTHENTICATED :: "eapol_ctx \<Rightarrow> bool \<Rightarrow> 'e eapol_sm \<Rightarrow> 'e eapol_sm" where
  "pae_AUTHENTICATED ctx global sm =
     (eapol_sm_set_port_authorized ctx (pae_entry global PAE_AUTHENTICATED sm))\<lparr>cb_status := CB_SUCCESS\<rparr>"

definition pae_RESTART :: "bool \<Rightarrow> 'e eapol_sm \<Rightarrow> 'e eapol_sm" where
  "pae_RESTART global sm =
     (let sm = (pae_entry global PAE_RESTART sm)\<lparr>eapRestart := True\<rparr>
      in if altAccept sm then sm\<lparr>eapSuccess := False, altAccept := False\<rparr> else sm)"

definition pae_S_FORCE_AUTH :: "eapol_ctx \<Rightarrow> bool \<Rightarrow> 'e eapol_sm \<Rightarrow> 'e eapol_sm" where
  "pae_S_FORCE_AUTH ctx global sm =
     (eapol_sm_set_port_authorized ctx (pae_entry global PAE_S_FORCE_AUTH sm))\<lparr>sPortMode := ForceAuthorized\<rparr>"

definition pae_S_FORCE_UNAUTH :: "eapol_ctx \<Rightarrow> bool \<Rightarrow> 'e eapol_sm \<Rightarrow> 'e eapol_sm" where
  "pae_S_FORCE_UNAUTH ctx global sm =
     eapol_sm_txLogoff ((eapol_sm_set_port_unauthorized ctx
       (pae_entry global PAE_S_FORCE_UNAUTH sm))\<lparr>sPortMode := ForceUnauthorized\<rparr>)"

definition pae_step_authenticating :: "eapol_ctx \<Rightarrow> 'e eapol_sm \<Rightarrow> 'e eapol_sm" where
  "pae_step_authenticating ctx sm =
     (let sm = (if eapSuccess sm \<and> \<not> portValid sm \<and> accept_802_1x_keys (conf sm) \<and> required_keys (conf sm) = 0
                then emit_if (has_done_cb ctx) DoneCb (sm\<lparr>portValid := True\<rparr>) else sm)
      in if eapSuccess sm \<and> portValid sm then pae_AUTHENTICATED ctx False sm
         else if eapFail sm \<or> (keyDone sm \<and> \<not> portValid sm) then pae_HELD ctx False sm
         else if suppTimeout sm then pae_CONNECTING ctx False sm
         else if eapTriggerStart sm then pae_CONNECTING ctx False sm
         else sm)"

definition SUPP_PAE_Step :: "eapol_ctx \<Rightarrow> 'e eapol_sm \<Rightarrow> 'e eapol_sm" where
  "SUPP_PAE_Step ctx sm =
     (if userLogoff sm \<and> \<not> logoffSent sm \<and> \<not> (initialize sm \<or> \<not> portEnabled sm) then pae_LOGOFF ctx True sm
      else if portControl sm = Auto \<and> sPortMode sm \<noteq> portControl sm \<or> initialize sm \<or> \<not> portEnabled sm
      then pae_DISCONNECTED ctx True sm
      else if portControl sm = ForceAuthorized \<and> sPortMode sm \<noteq> portControl sm \<and>
              \<not> (initialize sm \<or> \<not> portEnabled sm) then pae_S_FORCE_AUTH ctx True sm
      else if portControl sm = ForceUnauthorized \<and> sPortMode sm \<noteq> portControl sm \<and>
              \<not> (initialize sm \<or> \<not> portEnabled sm) then pae_S_FORCE_UNAUTH ctx True sm
      else case SUPP_PAE_state sm of
        PAE_UNKNOWN \<Rightarrow> sm
      | PAE_LOGOFF \<Rightarrow> if \<not> userLogoff sm then pae_DISCONNECTED ctx False sm else sm
      | PAE_DISCONNECTED \<Rightarrow> pae_CONNECTING ctx False sm
      | PAE_CONNECTING \<Rightarrow>
          if startWhen sm = 0 \<and> startCount sm < maxStart sm then pae_CONNECTING ctx False sm
          else if startWhen sm = 0 \<and> maxStart sm \<le> startCount sm \<and> portValid sm then pae_AUTHENTICATED ctx False sm
          else if eapSuccess sm \<or> eapFail sm then pae_AUTHENTICATING False sm
          else if eapolEap sm then pae_RESTART False sm
          else if startWhen sm = 0 \<and> maxStart sm \<le> startCount sm \<and> \<not> portValid sm then pae_HELD ctx False sm
          else sm
      | PAE_AUTHENTICATING \<Rightarrow> pae_step_authenticating ctx sm
      | PAE_HELD \<Rightarrow>
          if heldWhile sm = 0 then pae_CONNECTING ctx False sm
          else if eapolEap sm then pae_RESTART False sm else sm
      | PAE_AUTHENTICATED \<Rightarrow>
          if eapolEap sm \<and> portValid sm then pae_RESTART False sm
          else if \<not> portValid sm then pae_DISCONNECTED ctx False sm else sm
      | PAE_RESTART \<Rightarrow> if \<not> eapRestart sm then pae_AUTHENTICATING False sm else sm
      | PAE_S_FORCE_AUTH \<Rightarrow> sm
      | PAE_S_FORCE_UNAUTH \<Rightarrow> sm)"

section \<open>EAPOL-Key frames\<close>

text \<open>\<^verbatim>\<open>memcmp(a, b, n) >= 0\<close> on buffers of the same length.\<close>

fun memcmp_ge :: "bytes \<Rightarrow> bytes \<Rightarrow> bool" where
  "memcmp_ge (x # xs) (y # ys) = (if x = y then memcmp_ge xs ys else y < x)"
| "memcmp_ge _ _ = True"

definition get_be16 :: "bytes \<Rightarrow> nat \<Rightarrow> nat" where
  "get_be16 p i = unat (p ! i) * 256 + unat (p ! (i + 1))"

text \<open>
  The fields of \<^verbatim>\<open>struct ieee802_1x_hdr\<close> (4 bytes) and of \<^verbatim>\<open>struct ieee802_1x_eapol_key\<close> (44
  bytes) behind it.
\<close>

definition hdr_type :: "bytes \<Rightarrow> u8" where "hdr_type f = f ! 1"

definition hdr_length :: "bytes \<Rightarrow> nat" where "hdr_length f = get_be16 f 2"

definition key_type :: "bytes \<Rightarrow> u8" where "key_type f = f ! 4"

definition key_length :: "bytes \<Rightarrow> nat" where "key_length f = get_be16 f 5"

definition replay_counter :: "bytes \<Rightarrow> bytes" where "replay_counter f = take 8 (drop 7 f)"

definition key_iv :: "bytes \<Rightarrow> bytes" where "key_iv f = take 16 (drop 15 f)"

definition key_index :: "bytes \<Rightarrow> u8" where "key_index f = f ! 31"

definition key_signature :: "bytes \<Rightarrow> bytes" where "key_signature f = take 16 (drop 32 f)"

definition eapol_sm_get_key :: "'e eap_ops \<Rightarrow> 'e eapol_sm \<Rightarrow> nat \<Rightarrow> int \<times> bytes" where
  "eapol_sm_get_key ops sm len =
     (if \<not> eap_key_available ops (eap sm) then (-1, [])
      else case eap_get_eapKeyData ops (eap sm) of
        None \<Rightarrow> (-1, [])
      | Some k \<Rightarrow> if length k < len then (int (length k), []) else (0, take len k))"

text \<open>
  The keying material: the 64-byte buffer of encryption and signing key with their lengths.
  LEAP has 16 bytes only, used for both; the rest of the buffer is what the stack held.
\<close>

definition fetch_keydata :: "eapol_ctx \<Rightarrow> 'e eap_ops \<Rightarrow> 'e eapol_sm \<Rightarrow> (bytes \<times> nat \<times> nat) option" where
  "fetch_keydata ctx ops sm =
     (case eapol_sm_get_key ops sm 64 of (res, k) \<Rightarrow>
        if res < 0 then None
        else if res = 16 then
          (case eapol_sm_get_key ops sm 16 of (res, k) \<Rightarrow>
             if res \<noteq> 0 then None
             else Some (patch (patch (stack_garbage ctx) 0 k) 32 (take 16 (patch (stack_garbage ctx) 0 k)), 16, 16))
        else if res \<noteq> 0 then None
        else Some (k, 32, 32))"

text \<open>The HMAC-MD5 over the frame with its signature field cleared.\<close>

definition frame_mac :: "bytes \<Rightarrow> bytes \<Rightarrow> bytes" where
  "frame_mac sign_key f =
     (case hmac_md5 sign_key (take (4 + hdr_length f) (patch f 32 (replicate 16 0))) of
        Some mac \<Rightarrow> mac | None \<Rightarrow> replicate 16 0)"

definition frame_datakey :: "bytes \<Rightarrow> bytes \<Rightarrow> nat \<Rightarrow> bytes option" where
  "frame_datakey f encr_key encr_key_len =
     (let key_len = hdr_length f - 44; rx_key_length = key_length f in
      if 32 < key_len \<or> 32 < rx_key_length then None
      else if key_len = rx_key_length then
        let datakey = take key_len (drop 48 f)
        in Some (case rc4_skip (key_iv f @ take encr_key_len encr_key) 0 datakey of
                   Some d \<Rightarrow> d | None \<Rightarrow> datakey)
      else if key_len = 0 then Some (take rx_key_length encr_key)
      else None)"

definition install_key :: "eapol_ctx \<Rightarrow> bytes \<Rightarrow> bytes \<Rightarrow> 'e eapol_sm \<Rightarrow> 'e eapol_sm" where
  "install_key ctx f datakey sm =
     (let sm = sm\<lparr>replay_counter_valid := True, last_replay_counter := replay_counter f\<rparr>;
          unicast = (key_index f AND 0x80 \<noteq> 0);
          idx = unat (key_index f AND 0x03);
          sm = emit_if (has_set_wep_key ctx) (SetWepKey unicast idx datakey) sm
      in if has_set_wep_key ctx \<and> \<not> set_wep_key_ok ctx unicast idx datakey then sm
         else
           let sm = (if unicast then sm\<lparr>unicast_key_received := True\<rparr> else sm\<lparr>broadcast_key_received := True\<rparr>)
           in if (unicast_key_received sm \<or> required_keys (conf sm) AND 1 = 0) \<and>
                 (broadcast_key_received sm \<or> required_keys (conf sm) AND 2 = 0)
              then emit_if (has_done_cb ctx) DoneCb (sm\<lparr>portValid := True\<rparr>)
              else sm)"

definition eapol_sm_processKey :: "eapol_ctx \<Rightarrow> 'e eap_ops \<Rightarrow> 'e eapol_sm \<Rightarrow> 'e eapol_sm" where
  "eapol_sm_processKey ctx ops sm =
     (case last_rx_key sm of
        None \<Rightarrow> sm
      | Some f \<Rightarrow>
          if \<not> accept_802_1x_keys (conf sm) then sm
          else if length f < 4 + 44 then sm
          else if length f < 4 + hdr_length f \<or> hdr_length f < 44 then sm
          else
            let sm = after_eap ctx (eap_notify_lower_layer_success ops sm) sm in
            case fetch_keydata ctx ops sm of
              None \<Rightarrow> sm
            | Some (keydata, encr_key_len, sign_key_len) \<Rightarrow>
                if replay_counter_valid sm \<and> memcmp_ge (last_replay_counter sm) (replay_counter f) then sm
                else if frame_mac (take sign_key_len (drop 32 keydata)) f \<noteq> key_signature f then sm
                else case frame_datakey f (take 32 keydata) encr_key_len of
                  None \<Rightarrow> sm
                | Some datakey \<Rightarrow> install_key ctx f datakey sm)"

section \<open>The key receive machine\<close>

definition key_rx_entry :: "bool \<Rightarrow> key_rx \<Rightarrow> 'e eapol_sm \<Rightarrow> 'e eapol_sm" where
  "key_rx_entry global st sm =
     (if \<not> global \<or> KEY_RX_state sm \<noteq> st then sm\<lparr>changed := True\<rparr> else sm)\<lparr>KEY_RX_state := st\<rparr>"

definition key_rx_KEY_RECEIVE :: "eapol_ctx \<Rightarrow> 'e eap_ops \<Rightarrow> bool \<Rightarrow> 'e eapol_sm \<Rightarrow> 'e eapol_sm" where
  "key_rx_KEY_RECEIVE ctx ops global sm =
     (eapol_sm_processKey ctx ops (key_rx_entry global KEY_RX_KEY_RECEIVE sm))\<lparr>rxKey := False\<rparr>"

definition KEY_RX_Step :: "eapol_ctx \<Rightarrow> 'e eap_ops \<Rightarrow> 'e eapol_sm \<Rightarrow> 'e eapol_sm" where
  "KEY_RX_Step ctx ops sm =
     (let sm = (if initialize sm \<or> \<not> portEnabled sm then key_rx_entry True KEY_RX_NO_KEY_RECEIVE sm else sm) in
      case KEY_RX_state sm of
        KEY_RX_UNKNOWN \<Rightarrow> sm
      | KEY_RX_NO_KEY_RECEIVE \<Rightarrow> if rxKey sm then key_rx_KEY_RECEIVE ctx ops False sm else sm
      | KEY_RX_KEY_RECEIVE \<Rightarrow> if rxKey sm then key_rx_KEY_RECEIVE ctx ops False sm else sm)"

section \<open>The supplicant backend machine\<close>

definition be_entry :: "bool \<Rightarrow> supp_be \<Rightarrow> 'e eapol_sm \<Rightarrow> 'e eapol_sm" where
  "be_entry global st sm =
     (if \<not> global \<or> SUPP_BE_state sm \<noteq> st then sm\<lparr>changed := True\<rparr> else sm)\<lparr>SUPP_BE_state := st\<rparr>"

definition eapol_sm_txSuppRsp :: "'e eap_ops \<Rightarrow> 'e eapol_sm \<Rightarrow> 'e eapol_sm" where
  "eapol_sm_txSuppRsp ops sm =
     (case eap_get_eapRespData ops (eap sm) of
        (e, None) \<Rightarrow> sm\<lparr>eap := e\<rparr>
      | (e, Some resp) \<Rightarrow>
          let sm = emit (SendEapPacket resp) (sm\<lparr>eap := e\<rparr>);
              st = stats sm;
              st = (if initial_req sm then st\<lparr>ReqIdFramesRx := ReqIdFramesRx st + 1\<rparr>
                    else st\<lparr>ReqFramesRx := ReqFramesRx st + 1\<rparr>)
          in sm\<lparr>stats := st\<lparr>RespFramesTx := RespFramesTx st + 1, FramesTx := FramesTx st + 1\<rparr>\<rparr>)"

definition eapol_sm_abortSupp :: "eapol_ctx \<Rightarrow> 'e eap_ops \<Rightarrow> 'e eapol_sm \<Rightarrow> 'e eapol_sm" where
  "eapol_sm_abortSupp ctx ops sm =
     (let sm = sm\<lparr>last_rx_key := None, eapReqData := None\<rparr> in after_eap ctx (eap_sm_abort ops sm) sm)"

definition be_REQUEST :: "bool \<Rightarrow> 'e eapol_sm \<Rightarrow> 'e eapol_sm" where
  "be_REQUEST global sm = (be_entry global BE_REQUEST sm)\<lparr>authWhile := 0, eapReq := True\<rparr>"

definition be_RESPONSE :: "'e eap_ops \<Rightarrow> bool \<Rightarrow> 'e eapol_sm \<Rightarrow> 'e eapol_sm" where
  "be_RESPONSE ops global sm = (eapol_sm_txSuppRsp ops (be_entry global BE_RESPONSE sm))\<lparr>eapResp := False\<rparr>"

definition be_SUCCESS :: "'e eap_ops \<Rightarrow> bool \<Rightarrow> 'e eapol_sm \<Rightarrow> 'e eapol_sm" where
  "be_SUCCESS ops global sm =
     (let sm = (be_entry global BE_SUCCESS sm)\<lparr>keyRun := True, suppSuccess := True\<rparr>
      in if eap_key_available ops (eap sm) then sm\<lparr>replay_counter_valid := False\<rparr> else sm)"

definition be_FAIL :: "bool \<Rightarrow> 'e eapol_sm \<Rightarrow> 'e eapol_sm" where
  "be_FAIL global sm = (be_entry global BE_FAIL sm)\<lparr>suppFail := True\<rparr>"

definition be_TIMEOUT :: "bool \<Rightarrow> 'e eapol_sm \<Rightarrow> 'e eapol_sm" where
  "be_TIMEOUT global sm = (be_entry global BE_TIMEOUT sm)\<lparr>suppTimeout := True\<rparr>"

definition be_IDLE :: "bool \<Rightarrow> 'e eapol_sm \<Rightarrow> 'e eapol_sm" where
  "be_IDLE global sm = (be_entry global BE_IDLE sm)\<lparr>suppStart := False, initial_req := True\<rparr>"

definition be_INITIALIZE :: "eapol_ctx \<Rightarrow> 'e eap_ops \<Rightarrow> bool \<Rightarrow> 'e eapol_sm \<Rightarrow> 'e eapol_sm" where
  "be_INITIALIZE ctx ops global sm =
     (eapol_sm_abortSupp ctx ops (be_entry global BE_INITIALIZE sm))\<lparr>suppAbort := False, authWhile := 0\<rparr>"

definition be_RECEIVE :: "eapol_ctx \<Rightarrow> bool \<Rightarrow> 'e eapol_sm \<Rightarrow> 'e eapol_sm" where
  "be_RECEIVE ctx global sm =
     (let sm = be_entry global BE_RECEIVE sm;
          sm = eapol_enable_timer_tick ctx (sm\<lparr>authWhile := authPeriod sm\<rparr>)
      in sm\<lparr>eapolEap := False, eapNoResp := False, initial_req := False\<rparr>)"

definition SUPP_BE_Step :: "eapol_ctx \<Rightarrow> 'e eap_ops \<Rightarrow> 'e eapol_sm \<Rightarrow> 'e eapol_sm" where
  "SUPP_BE_Step ctx ops sm =
     (if initialize sm \<or> suppAbort sm then be_INITIALIZE ctx ops True sm
      else case SUPP_BE_state sm of
        BE_UNKNOWN \<Rightarrow> sm
      | BE_REQUEST \<Rightarrow>
          if eapResp sm then be_RESPONSE ops False sm
          else if eapNoResp sm then be_RECEIVE ctx False sm
          else if eapFail sm then be_FAIL False sm
          else if eapSuccess sm then be_SUCCESS ops False sm
          else sm
      | BE_RESPONSE \<Rightarrow> be_RECEIVE ctx False sm
      | BE_SUCCESS \<Rightarrow> be_IDLE False sm
      | BE_FAIL \<Rightarrow> be_IDLE False sm
      | BE_TIMEOUT \<Rightarrow> be_IDLE False sm
      | BE_IDLE \<Rightarrow>
          if eapFail sm \<and> suppStart sm then be_FAIL False sm
          else if eapolEap sm \<and> suppStart sm then be_REQUEST False sm
          else if eapSuccess sm \<and> suppStart sm then be_SUCCESS ops False sm
          else sm
      | BE_INITIALIZE \<Rightarrow> be_IDLE False sm
      | BE_RECEIVE \<Rightarrow>
          if eapolEap sm then be_REQUEST False sm
          else if eapFail sm then be_FAIL False sm
          else if authWhile sm = 0 then be_TIMEOUT False sm
          else if eapSuccess sm then be_SUCCESS ops False sm
          else sm)"

section \<open>One run of the machines\<close>

definition step_once :: "eapol_ctx \<Rightarrow> 'e eap_ops \<Rightarrow> 'e eapol_sm \<Rightarrow> 'e eapol_sm" where
  "step_once ctx ops sm =
     (let sm = sm\<lparr>changed := False\<rparr>;
          sm = SUPP_PAE_Step ctx sm;
          sm = KEY_RX_Step ctx ops sm;
          sm = SUPP_BE_Step ctx ops sm;
          (r, res) = eap_peer_sm_step ops sm;
          sm = after_eap ctx r sm
      in if res then sm\<lparr>changed := True\<rparr> else sm)"

fun step_loop :: "nat \<Rightarrow> eapol_ctx \<Rightarrow> 'e eap_ops \<Rightarrow> 'e eapol_sm \<Rightarrow> 'e eapol_sm" where
  "step_loop 0 ctx ops sm = sm"
| "step_loop (Suc n) ctx ops sm =
     (let sm = step_once ctx ops sm in if changed sm then step_loop n ctx ops sm else sm)"

definition report_result :: "eapol_ctx \<Rightarrow> 'e eap_ops \<Rightarrow> 'e eapol_sm \<Rightarrow> 'e eapol_sm" where
  "report_result ctx ops sm =
     (if has_cb ctx \<and> cb_status sm \<noteq> CB_IN_PROGRESS then
        let result = (if cb_status sm = CB_SUCCESS then RESULT_SUCCESS
                      else if eap_peer_was_failure_expected ops (eap sm) then RESULT_EXPECTED_FAILURE
                      else RESULT_FAILURE)
        in emit (ResultCb result) (sm\<lparr>cb_status := CB_IN_PROGRESS\<rparr>)
      else sm)"

definition eapol_sm_step :: "eapol_ctx \<Rightarrow> 'e eap_ops \<Rightarrow> 'e eapol_sm \<Rightarrow> 'e eapol_sm" where
  "eapol_sm_step ctx ops sm =
     (let sm = step_loop 100 ctx ops sm;
          sm = (if changed sm then emit RegisterStep (emit CancelStep sm) else sm)
      in report_result ctx ops sm)"

definition eapol_port_timers_tick :: "eapol_ctx \<Rightarrow> 'e eap_ops \<Rightarrow> 'e eapol_sm \<Rightarrow> 'e eapol_sm" where
  "eapol_port_timers_tick ctx ops sm =
     (let dec = (\<lambda>t :: u32. if 0 < t then t - 1 else t);
          sm = sm\<lparr>authWhile := dec (authWhile sm), heldWhile := dec (heldWhile sm),
                  startWhen := dec (startWhen sm), idleWhile := dec (idleWhile sm)\<rparr>;
          sm = (if (authWhile sm OR heldWhile sm OR startWhen sm OR idleWhile sm) \<noteq> 0 then
                  let sm = emit RegisterTick sm in if eloop_ok ctx then sm else sm\<lparr>timer_tick_enabled := False\<rparr>
                else sm\<lparr>timer_tick_enabled := False\<rparr>)
      in eapol_sm_step ctx ops sm)"

section \<open>Received frames\<close>

definition eapol_sm_abort_cached :: "eapol_ctx \<Rightarrow> 'e eapol_sm \<Rightarrow> 'e eapol_sm" where
  "eapol_sm_abort_cached ctx sm =
     (let sm = sm\<lparr>cached_pmk := False, SUPP_PAE_state := PAE_CONNECTING\<rparr>;
          sm = eapol_sm_set_port_unauthorized ctx sm;
          sm = eapol_enable_timer_tick ctx (sm\<lparr>startWhen := 3\<rparr>)
      in emit_if (has_aborted_cached ctx) AbortedCached sm)"

text \<open>The payload length after the workaround for access points that understate it.\<close>

definition fixed_plen :: "eapol_config \<Rightarrow> bytes \<Rightarrow> nat" where
  "fixed_plen c buf =
     (let plen = hdr_length buf; elen = get_be16 buf 6 in
      if wps c \<noteq> 0 \<and> workaround c \<and> plen < length buf - 4 \<and> hdr_type buf = 0 \<and> 4 < length buf - 4 \<and>
         plen < elen \<and> elen \<le> length buf - 4
      then elen else plen)"

definition rx_eap_packet :: "eapol_ctx \<Rightarrow> 'e eap_ops \<Rightarrow> bytes \<Rightarrow> nat \<Rightarrow> 'e eapol_sm \<Rightarrow> 'e eapol_sm" where
  "rx_eap_packet ctx ops buf plen sm =
     (if workaround (conf sm) \<and> 4 \<le> plen \<and> buf ! 4 = 10 then sm
      else
        let sm = (if cached_pmk sm then eapol_sm_abort_cached ctx sm else sm);
            sm = sm\<lparr>eapReqData := (if alloc_ok ctx then Some (take plen (drop 4 buf)) else None)\<rparr>
        in if alloc_ok ctx then eapol_sm_step ctx ops (sm\<lparr>eapolEap := True\<rparr>) else sm)"

definition rx_key_frame :: "eapol_ctx \<Rightarrow> 'e eap_ops \<Rightarrow> bytes \<Rightarrow> nat \<Rightarrow> 'e eapol_sm \<Rightarrow> int \<times> 'e eapol_sm" where
  "rx_key_frame ctx ops buf plen sm =
     (if plen < 44 then (1, sm)
      else if key_type buf = 254 \<or> key_type buf = 2 then (0, sm)
      else if key_type buf \<noteq> 1 then (1, sm)
      else if alloc_ok ctx then
        (1, eapol_sm_step ctx ops (sm\<lparr>last_rx_key := Some (take (plen + 4) buf), rxKey := True\<rparr>))
      else (1, sm\<lparr>last_rx_key := None\<rparr>))"

definition eapol_sm_rx_eapol ::
  "eapol_ctx \<Rightarrow> 'e eap_ops \<Rightarrow> bytes \<Rightarrow> bytes \<Rightarrow> 'e eapol_sm \<Rightarrow> int \<times> 'e eapol_sm" where
  "eapol_sm_rx_eapol ctx ops src buf sm =
     (let sm = sm\<lparr>stats := (stats sm)\<lparr>FramesRx := FramesRx (stats sm) + 1\<rparr>\<rparr> in
      if length buf < 4 then (0, sm\<lparr>stats := (stats sm)\<lparr>InvalidFramesRx := InvalidFramesRx (stats sm) + 1\<rparr>\<rparr>)
      else
        let sm = sm\<lparr>stats := (stats sm)\<lparr>LastFrameVersion := ucast (buf ! 0), LastFrameSource := take 6 src\<rparr>\<rparr> in
        if length buf - 4 < hdr_length buf
        then (0, sm\<lparr>stats := (stats sm)\<lparr>LengthErrorFramesRx := LengthErrorFramesRx (stats sm) + 1\<rparr>\<rparr>)
        else
          let plen = fixed_plen (conf sm) buf in
          if hdr_type buf = 0 then (1, rx_eap_packet ctx ops buf plen sm)
          else if hdr_type buf = 3 then rx_key_frame ctx ops buf plen sm
          else (1, sm\<lparr>stats := (stats sm)\<lparr>InvalidFramesRx := InvalidFramesRx (stats sm) + 1\<rparr>\<rparr>))"

section \<open>External notifications\<close>

definition eapol_sm_notify_tx_eapol_key :: "'e eapol_sm \<Rightarrow> 'e eapol_sm" where
  "eapol_sm_notify_tx_eapol_key sm = sm\<lparr>stats := (stats sm)\<lparr>FramesTx := FramesTx (stats sm) + 1\<rparr>\<rparr>"

definition eapol_sm_notify_portEnabled :: "eapol_ctx \<Rightarrow> 'e eap_ops \<Rightarrow> bool \<Rightarrow> 'e eapol_sm \<Rightarrow> 'e eapol_sm" where
  "eapol_sm_notify_portEnabled ctx ops enabled sm =
     (let sm = (if portEnabled sm \<noteq> enabled then sm\<lparr>force_authorized_update := True\<rparr> else sm)
      in eapol_sm_step ctx ops (sm\<lparr>portEnabled := enabled\<rparr>))"

definition eapol_sm_notify_portValid :: "eapol_ctx \<Rightarrow> 'e eap_ops \<Rightarrow> bool \<Rightarrow> 'e eapol_sm \<Rightarrow> 'e eapol_sm" where
  "eapol_sm_notify_portValid ctx ops valid sm = eapol_sm_step ctx ops (sm\<lparr>portValid := valid\<rparr>)"

definition eapol_sm_notify_eap_success :: "eapol_ctx \<Rightarrow> 'e eap_ops \<Rightarrow> bool \<Rightarrow> 'e eapol_sm \<Rightarrow> 'e eapol_sm" where
  "eapol_sm_notify_eap_success ctx ops success sm =
     (let sm = sm\<lparr>eapSuccess := success, altAccept := success\<rparr>;
          sm = (if success then after_eap ctx (eap_notify_success ops sm) sm else sm)
      in eapol_sm_step ctx ops sm)"

definition eapol_sm_notify_eap_fail :: "eapol_ctx \<Rightarrow> 'e eap_ops \<Rightarrow> bool \<Rightarrow> 'e eapol_sm \<Rightarrow> 'e eapol_sm" where
  "eapol_sm_notify_eap_fail ctx ops fail sm = eapol_sm_step ctx ops (sm\<lparr>eapFail := fail, altReject := fail\<rparr>)"

definition eapol_sm_notify_config :: "'e eap_ops \<Rightarrow> eapol_config option \<Rightarrow> 'e eapol_sm \<Rightarrow> 'e eapol_sm" where
  "eapol_sm_notify_config ops c sm =
     (case c of
        None \<Rightarrow> sm
      | Some c \<Rightarrow>
          sm\<lparr>conf := (conf sm)\<lparr>accept_802_1x_keys := accept_802_1x_keys c, required_keys := required_keys c,
                fast_reauth := fast_reauth c, workaround := workaround c, wps := wps c\<rparr>,
             eap := eap_set_config ops c (eap sm)\<rparr>)"

definition eapol_sm_notify_logoff :: "eapol_ctx \<Rightarrow> 'e eap_ops \<Rightarrow> bool \<Rightarrow> 'e eapol_sm \<Rightarrow> 'e eapol_sm" where
  "eapol_sm_notify_logoff ctx ops logoff sm =
     (let sm = sm\<lparr>userLogoff := logoff\<rparr>;
          sm = (if \<not> logoff then sm\<lparr>startWhen := 0\<rparr> else sm)
      in eapol_sm_step ctx ops sm)"

definition eapol_sm_notify_cached :: "eapol_ctx \<Rightarrow> 'e eap_ops \<Rightarrow> 'e eapol_sm \<Rightarrow> 'e eapol_sm" where
  "eapol_sm_notify_cached ctx ops sm =
     (let sm = sm\<lparr>eapSuccess := True\<rparr> in eapol_sm_step ctx ops (after_eap ctx (eap_notify_success ops sm) sm))"

definition eapol_sm_notify_pmkid_attempt :: "'e eapol_sm \<Rightarrow> 'e eapol_sm" where
  "eapol_sm_notify_pmkid_attempt sm = sm\<lparr>cached_pmk := True\<rparr>"

definition eapol_sm_notify_portControl :: "eapol_ctx \<Rightarrow> 'e eap_ops \<Rightarrow> PortControl \<Rightarrow> 'e eapol_sm \<Rightarrow> 'e eapol_sm" where
  "eapol_sm_notify_portControl ctx ops pc sm = eapol_sm_step ctx ops (sm\<lparr>portControl := pc\<rparr>)"

definition eapol_sm_notify_ctrl_response :: "eapol_ctx \<Rightarrow> 'e eap_ops \<Rightarrow> 'e eapol_sm \<Rightarrow> 'e eapol_sm" where
  "eapol_sm_notify_ctrl_response ctx ops sm =
     (if eapReqData sm \<noteq> None \<and> \<not> eapReq sm
      then eapol_sm_step ctx ops (sm\<lparr>eapolEap := True, eapReq := True\<rparr>) else sm)"

definition eapol_sm_notify_pending :: "eapol_ctx \<Rightarrow> 'e eap_ops \<Rightarrow> 'e eapol_sm \<Rightarrow> 'e eapol_sm" where
  "eapol_sm_notify_pending ctx ops sm =
     (if eapReqData sm \<noteq> None \<and> \<not> eapReq sm
      then eapol_sm_step ctx ops (sm\<lparr>eapolEap := True, eapReq := True\<rparr>) else sm)"

definition eapol_sm_request_reauth :: "'e eapol_sm \<Rightarrow> 'e eapol_sm" where
  "eapol_sm_request_reauth sm =
     (if SUPP_PAE_state sm \<noteq> PAE_AUTHENTICATED then sm else eapol_sm_txStart sm)"

definition eapol_sm_notify_lower_layer_success ::
  "eapol_ctx \<Rightarrow> 'e eap_ops \<Rightarrow> bool \<Rightarrow> 'e eapol_sm \<Rightarrow> 'e eapol_sm" where
  "eapol_sm_notify_lower_layer_success ctx ops in_eapol_sm sm =
     (let sm = after_eap ctx (eap_notify_lower_layer_success ops sm) sm
      in if \<not> in_eapol_sm then eapol_sm_step ctx ops sm else sm)"

definition eapol_sm_configure :: "int \<Rightarrow> int \<Rightarrow> int \<Rightarrow> int \<Rightarrow> 'e eapol_sm \<Rightarrow> 'e eapol_sm" where
  "eapol_sm_configure held auth start maxs sm =
     (let sm = (if 0 \<le> held then sm\<lparr>heldPeriod := of_int held\<rparr> else sm);
          sm = (if 0 \<le> auth then sm\<lparr>authPeriod := of_int auth\<rparr> else sm);
          sm = (if 0 \<le> start then sm\<lparr>startPeriod := of_int start\<rparr> else sm)
      in if 0 \<le> maxs then sm\<lparr>maxStart := of_int maxs\<rparr> else sm)"

definition eapol_sm_failed :: "'e eapol_sm \<Rightarrow> bool" where
  "eapol_sm_failed sm \<longleftrightarrow> \<not> eapSuccess sm \<and> eapFail sm"

section \<open>Initialisation\<close>

definition eapol_sm_zero :: "'e \<Rightarrow> 'e eapol_sm" where
  "eapol_sm_zero e =
     \<lparr>authWhile = 0, heldWhile = 0, startWhen = 0, idleWhile = 0, timer_tick_enabled = False,
      eapFail = False, eapolEap = False, eapSuccess = False, initialize = False, keyDone = False, keyRun = False,
      portControl = Auto, portEnabled = False, suppPortStatus = Unauthorized, portValid = False, suppAbort = False,
      suppFail = False, suppStart = False, suppSuccess = False, suppTimeout = False,
      SUPP_PAE_state = PAE_UNKNOWN, userLogoff = False, logoffSent = False, startCount = 0, eapRestart = False,
      sPortMode = Auto, heldPeriod = 0, startPeriod = 0, maxStart = 0, KEY_RX_state = KEY_RX_UNKNOWN, rxKey = False,
      SUPP_BE_state = BE_UNKNOWN, eapNoResp = False, eapReq = False, eapResp = False, authPeriod = 0,
      stats = \<lparr>FramesRx = 0, FramesTx = 0, StartFramesTx = 0, LogoffFramesTx = 0, RespFramesTx = 0,
        ReqIdFramesRx = 0, ReqFramesRx = 0, InvalidFramesRx = 0, LengthErrorFramesRx = 0,
        LastFrameVersion = 0, LastFrameSource = replicate 6 0\<rparr>,
      changed = False, eap = e, initial_req = False, last_rx_key = None, eapReqData = None, altAccept = False,
      altReject = False, eapTriggerStart = False, replay_counter_valid = False,
      last_replay_counter = replicate 8 0,
      conf = \<lparr>accept_802_1x_keys = False, required_keys = 0, fast_reauth = False, workaround = False,
        eap_disabled = False, external_sim = False, wps = 0\<rparr>,
      cb_status = CB_IN_PROGRESS, cached_pmk = False, unicast_key_received = False,
      broadcast_key_received = False, force_authorized_update = False, outs = []\<rparr>"

text \<open>\<open>e\<close> is the result of \<^verbatim>\<open>eap_peer_sm_init\<close>.\<close>

definition eapol_sm_init :: "eapol_ctx \<Rightarrow> 'e eap_ops \<Rightarrow> 'e option \<Rightarrow> 'e eapol_sm option" where
  "eapol_sm_init ctx ops e =
     (if \<not> alloc_ok ctx then None
      else case e of
        None \<Rightarrow> None
      | Some e \<Rightarrow>
          let sm = (eapol_sm_zero e)\<lparr>portControl := Auto, heldPeriod := 60, startPeriod := 30, maxStart := 3,
                      authPeriod := 30\<rparr>;
              sm = sm\<lparr>force_authorized_update := True, initialize := True\<rparr>;
              sm = eapol_sm_step ctx ops sm;
              sm = eapol_sm_step ctx ops (sm\<lparr>initialize := False\<rparr>);
              sm = emit RegisterTick sm
          in Some (if eloop_ok ctx then sm\<lparr>timer_tick_enabled := True\<rparr> else sm))"

section \<open>State names\<close>

definition eapol_supp_pae_state :: "supp_pae \<Rightarrow> string" where
  "eapol_supp_pae_state st =
     (case st of PAE_LOGOFF \<Rightarrow> ''LOGOFF'' | PAE_DISCONNECTED \<Rightarrow> ''DISCONNECTED'' | PAE_CONNECTING \<Rightarrow> ''CONNECTING''
      | PAE_AUTHENTICATING \<Rightarrow> ''AUTHENTICATING'' | PAE_HELD \<Rightarrow> ''HELD'' | PAE_AUTHENTICATED \<Rightarrow> ''AUTHENTICATED''
      | PAE_RESTART \<Rightarrow> ''RESTART'' | _ \<Rightarrow> ''UNKNOWN'')"

definition eapol_supp_be_state :: "supp_be \<Rightarrow> string" where
  "eapol_supp_be_state st =
     (case st of BE_REQUEST \<Rightarrow> ''REQUEST'' | BE_RESPONSE \<Rightarrow> ''RESPONSE'' | BE_SUCCESS \<Rightarrow> ''SUCCESS'' | BE_FAIL \<Rightarrow> ''FAIL''
      | BE_TIMEOUT \<Rightarrow> ''TIMEOUT'' | BE_IDLE \<Rightarrow> ''IDLE'' | BE_INITIALIZE \<Rightarrow> ''INITIALIZE'' | BE_RECEIVE \<Rightarrow> ''RECEIVE''
      | _ \<Rightarrow> ''UNKNOWN'')"

section \<open>Events and reachable states\<close>

text \<open>Everything the rest of the supplicant, the event loop and the network can do to it.\<close>

datatype eapol_event = RxEapol bytes bytes | Tick | StepTimeout | TxEapolKey | PortEnabled bool | PortValid bool
  | EapSuccess bool | EapFail bool | Config "eapol_config option" | Logoff bool | Cached | PmkidAttempt
  | PortControlSet PortControl | CtrlResponse | Pending | RequestReauth | LowerLayerSuccess
  | Configure int int int int

definition eapol_handle :: "eapol_ctx \<Rightarrow> 'e eap_ops \<Rightarrow> eapol_event \<Rightarrow> 'e eapol_sm \<Rightarrow> 'e eapol_sm" where
  "eapol_handle ctx ops ev sm =
     (case ev of
        RxEapol src buf \<Rightarrow> snd (eapol_sm_rx_eapol ctx ops src buf sm)
      | Tick \<Rightarrow> eapol_port_timers_tick ctx ops sm
      | StepTimeout \<Rightarrow> eapol_sm_step ctx ops sm
      | TxEapolKey \<Rightarrow> eapol_sm_notify_tx_eapol_key sm
      | PortEnabled b \<Rightarrow> eapol_sm_notify_portEnabled ctx ops b sm
      | PortValid b \<Rightarrow> eapol_sm_notify_portValid ctx ops b sm
      | EapSuccess b \<Rightarrow> eapol_sm_notify_eap_success ctx ops b sm
      | EapFail b \<Rightarrow> eapol_sm_notify_eap_fail ctx ops b sm
      | Config c \<Rightarrow> eapol_sm_notify_config ops c sm
      | Logoff b \<Rightarrow> eapol_sm_notify_logoff ctx ops b sm
      | Cached \<Rightarrow> eapol_sm_notify_cached ctx ops sm
      | PmkidAttempt \<Rightarrow> eapol_sm_notify_pmkid_attempt sm
      | PortControlSet pc \<Rightarrow> eapol_sm_notify_portControl ctx ops pc sm
      | CtrlResponse \<Rightarrow> eapol_sm_notify_ctrl_response ctx ops sm
      | Pending \<Rightarrow> eapol_sm_notify_pending ctx ops sm
      | RequestReauth \<Rightarrow> eapol_sm_request_reauth sm
      | LowerLayerSuccess \<Rightarrow> eapol_sm_notify_lower_layer_success ctx ops False sm
      | Configure held auth start maxs \<Rightarrow> eapol_sm_configure held auth start maxs sm)"

text \<open>
  The reachable states. The context may answer differently at each event (a registration may
  fail, memory may run out); \<open>P\<close> is what all contexts of a run have in common.
\<close>

inductive eapol_reach :: "'e eap_ops \<Rightarrow> (eapol_ctx \<Rightarrow> bool) \<Rightarrow> 'e eapol_sm \<Rightarrow> bool" for ops P where
  reach_init: "P ctx \<Longrightarrow> eapol_sm_init ctx ops e = Some sm \<Longrightarrow> eapol_reach ops P sm"
| reach_event: "eapol_reach ops P sm \<Longrightarrow> P ctx \<Longrightarrow> eapol_reach ops P (eapol_handle ctx ops ev sm)"

end
