(* ===== verification/EapolProofs.thy ===== *)
theory EapolProofs
  imports Eapol ByteOps
begin

text \<open>
  What is proved of the EAPOL supplicant: invariants of every state that any sequence of
  events can reach, whatever the EAP peer does through its callbacks; when the port opens;
  and the replay protection of EAPOL-Key frames.
\<close>

lemmas eapol_prims = emit_def emit_if_def eapol_enable_timer_tick_def eapol_sm_set_int_def
  eapol_sm_txLogoff_def eapol_sm_txStart_def eapol_sm_set_port_authorized_def
  eapol_sm_set_port_unauthorized_def

lemmas pae_states = pae_entry_def pae_LOGOFF_def pae_DISCONNECTED_def pae_CONNECTING_def pae_AUTHENTICATING_def
  pae_HELD_def pae_AUTHENTICATED_def pae_RESTART_def pae_S_FORCE_AUTH_def pae_S_FORCE_UNAUTH_def

lemmas be_states = be_entry_def be_REQUEST_def be_RESPONSE_def be_SUCCESS_def be_FAIL_def be_TIMEOUT_def
  be_IDLE_def be_INITIALIZE_def be_RECEIVE_def

text \<open>The notifications, each a few assignments and a run of the machines.\<close>

lemmas eapol_notify_defs = eapol_handle_def eapol_sm_notify_tx_eapol_key_def eapol_sm_notify_portValid_def
  eapol_sm_notify_eap_success_def eapol_sm_notify_eap_fail_def eapol_sm_notify_config_def
  eapol_sm_notify_logoff_def eapol_sm_notify_cached_def eapol_sm_notify_pmkid_attempt_def
  eapol_sm_notify_portControl_def eapol_sm_notify_ctrl_response_def eapol_sm_notify_pending_def
  eapol_sm_request_reauth_def eapol_sm_notify_lower_layer_success_def eapol_sm_configure_def Let_def

section \<open>Invariants that every part preserves\<close>

text \<open>
  An invariant of the whole component follows from what the three machines, the callbacks
  and the few direct assignments do; the interface collects those obligations.
\<close>

locale eapol_invariant =
  fixes I :: "'e eapol_sm \<Rightarrow> bool"
    and P :: "eapol_ctx \<Rightarrow> bool"
    and ops :: "'e eap_ops"
  assumes I_callback: "P ctx \<Longrightarrow> I sm \<Longrightarrow> I (eap_callback ctx sm c)"
    and I_eap: "I sm \<Longrightarrow> I (sm\<lparr>eap := e\<rparr>)"
    and I_pae: "P ctx \<Longrightarrow> I sm \<Longrightarrow> I (SUPP_PAE_Step ctx sm)"
    and I_key_rx: "P ctx \<Longrightarrow> I sm \<Longrightarrow> I (KEY_RX_Step ctx ops sm)"
    and I_be: "P ctx \<Longrightarrow> I sm \<Longrightarrow> I (SUPP_BE_Step ctx ops sm)"
    and I_changed: "I sm \<Longrightarrow> I (sm\<lparr>changed := b\<rparr>)"
    and I_report: "P ctx \<Longrightarrow> I sm \<Longrightarrow> I (report_result ctx ops sm)"
    and I_reschedule: "I sm \<Longrightarrow> I (emit RegisterStep (emit CancelStep sm))"
begin

lemma after_eap: "P ctx \<Longrightarrow> I sm \<Longrightarrow> I (after_eap ctx r sm)"
  unfolding after_eap_def by (auto intro!: foldl_invariant I_callback I_eap split: prod.split)

lemma step_once: "P ctx \<Longrightarrow> I sm \<Longrightarrow> I (step_once ctx ops sm)"
  unfolding step_once_def Let_def
  by (auto intro!: I_changed after_eap I_be I_key_rx I_pae split: prod.split)

lemma step_loop: "P ctx \<Longrightarrow> I sm \<Longrightarrow> I (step_loop n ctx ops sm)"
  by (induction n arbitrary: sm) (simp_all add: Let_def step_once)

lemma step: "P ctx \<Longrightarrow> I sm \<Longrightarrow> I (eapol_sm_step ctx ops sm)"
  unfolding eapol_sm_step_def Let_def by (auto intro!: I_report I_reschedule step_loop)

end

section \<open>The port\<close>

text \<open>The driver's view of the port: the last port callback.\<close>

definition port_view :: "eapol_out list \<Rightarrow> bool option" where
  "port_view xs = foldl (\<lambda>v x. case x of PortCb b \<Rightarrow> Some b | _ \<Rightarrow> v) None xs"

lemma port_view_snoc [simp]:
  "port_view [] = None" "port_view (xs @ [x]) = (case x of PortCb b \<Rightarrow> Some b | _ \<Rightarrow> port_view xs)"
  by (simp_all add: port_view_def split: eapol_out.split)

lemma port_view_snoc2 [simp]:
  "port_view (xs @ [x, y]) = (case y of PortCb b \<Rightarrow> Some b | _ \<Rightarrow> port_view (xs @ [x]))"
  using port_view_snoc(2) [of "xs @ [x]" y] by simp

text \<open>The part of the state the port invariant looks at.\<close>

definition port_part :: "'e eapol_sm \<Rightarrow> supp_pae \<times> PortStatus \<times> bool option \<times> bool" where
  "port_part sm = (SUPP_PAE_state sm, suppPortStatus sm, port_view (outs sm), force_authorized_update sm)"

fun port_ok :: "supp_pae \<times> PortStatus \<times> bool option \<times> bool \<Rightarrow> bool" where
  "port_ok (p, s, v, f) \<longleftrightarrow>
     (p \<in> {PAE_UNKNOWN, PAE_LOGOFF, PAE_DISCONNECTED, PAE_HELD, PAE_S_FORCE_UNAUTH} \<longrightarrow> s = Unauthorized) \<and>
     (p \<in> {PAE_AUTHENTICATED, PAE_S_FORCE_AUTH} \<longrightarrow> s = Authorized) \<and>
     v = Some (s = Authorized)"

definition port_inv :: "'e eapol_sm \<Rightarrow> bool" where
  "port_inv sm \<longleftrightarrow> port_ok (port_part sm)"

lemma port_part_upd [simp]:
  "port_part (sm\<lparr>authWhile := v0\<rparr>) = port_part sm"
  "port_part (sm\<lparr>heldWhile := v1\<rparr>) = port_part sm"
  "port_part (sm\<lparr>startWhen := v2\<rparr>) = port_part sm"
  "port_part (sm\<lparr>idleWhile := v3\<rparr>) = port_part sm"
  "port_part (sm\<lparr>timer_tick_enabled := v4\<rparr>) = port_part sm"
  "port_part (sm\<lparr>eapFail := v5\<rparr>) = port_part sm"
  "port_part (sm\<lparr>eapolEap := v6\<rparr>) = port_part sm"
  "port_part (sm\<lparr>eapSuccess := v7\<rparr>) = port_part sm"
  "port_part (sm\<lparr>initialize := v8\<rparr>) = port_part sm"
  "port_part (sm\<lparr>keyDone := v9\<rparr>) = port_part sm"
  "port_part (sm\<lparr>keyRun := v10\<rparr>) = port_part sm"
  "port_part (sm\<lparr>portControl := v11\<rparr>) = port_part sm"
  "port_part (sm\<lparr>portEnabled := v12\<rparr>) = port_part sm"
  "port_part (sm\<lparr>portValid := v13\<rparr>) = port_part sm"
  "port_part (sm\<lparr>suppAbort := v14\<rparr>) = port_part sm"
  "port_part (sm\<lparr>suppFail := v15\<rparr>) = port_part sm"
  "port_part (sm\<lparr>suppStart := v16\<rparr>) = port_part sm"
  "port_part (sm\<lparr>suppSuccess := v17\<rparr>) = port_part sm"
  "port_part (sm\<lparr>suppTimeout := v18\<rparr>) = port_part sm"
  "port_part (sm\<lparr>userLogoff := v19\<rparr>) = port_part sm"
  "port_part (sm\<lparr>logoffSent := v20\<rparr>) = port_part sm"
  "port_part (sm\<lparr>startCount := v21\<rparr>) = port_part sm"
  "port_part (sm\<lparr>eapRestart := v22\<rparr>) = port_part sm"
  "port_part (sm\<lparr>sPortMode := v23\<rparr>) = port_part sm"
  "port_part (sm\<lparr>heldPeriod := v24\<rparr>) = port_part sm"
  "port_part (sm\<lparr>startPeriod := v25\<rparr>) = port_part sm"
  "port_part (sm\<lparr>maxStart := v26\<rparr>) = port_part sm"
  "port_part (sm\<lparr>KEY_RX_state := v27\<rparr>) = port_part sm"
  "port_part (sm\<lparr>rxKey := v28\<rparr>) = port_part sm"
  "port_part (sm\<lparr>SUPP_BE_state := v29\<rparr>) = port_part sm"
  "port_part (sm\<lparr>eapNoResp := v30\<rparr>) = port_part sm"
  "port_part (sm\<lparr>eapReq := v31\<rparr>) = port_part sm"
  "port_part (sm\<lparr>eapResp := v32\<rparr>) = port_part sm"
  "port_part (sm\<lparr>authPeriod := v33\<rparr>) = port_part sm"
  "port_part (sm\<lparr>stats := v34\<rparr>) = port_part sm"
  "port_part (sm\<lparr>changed := v35\<rparr>) = port_part sm"
  "port_part (sm\<lparr>eap := v36\<rparr>) = port_part sm"
  "port_part (sm\<lparr>initial_req := v37\<rparr>) = port_part sm"
  "port_part (sm\<lparr>last_rx_key := v38\<rparr>) = port_part sm"
  "port_part (sm\<lparr>eapReqData := v39\<rparr>) = port_part sm"
  "port_part (sm\<lparr>altAccept := v40\<rparr>) = port_part sm"
  "port_part (sm\<lparr>altReject := v41\<rparr>) = port_part sm"
  "port_part (sm\<lparr>eapTriggerStart := v42\<rparr>) = port_part sm"
  "port_part (sm\<lparr>replay_counter_valid := v43\<rparr>) = port_part sm"
  "port_part (sm\<lparr>last_replay_counter := v44\<rparr>) = port_part sm"
  "port_part (sm\<lparr>conf := v45\<rparr>) = port_part sm"
  "port_part (sm\<lparr>cb_status := v46\<rparr>) = port_part sm"
  "port_part (sm\<lparr>cached_pmk := v47\<rparr>) = port_part sm"
  "port_part (sm\<lparr>unicast_key_received := v48\<rparr>) = port_part sm"
  "port_part (sm\<lparr>broadcast_key_received := v49\<rparr>) = port_part sm"
  by (simp_all add: port_part_def)

lemma port_part_emit [simp]:
  "port_part (emit RegisterTick sm) = port_part sm" "port_part (emit CancelTick sm) = port_part sm"
  "port_part (emit SendStart sm) = port_part sm" "port_part (emit DoneCb sm) = port_part sm"
  "port_part (emit RegisterStep sm) = port_part sm" "port_part (emit CancelStep sm) = port_part sm"
  "port_part (emit AbortedCached sm) = port_part sm" "port_part (emit (SendEapPacket d) sm) = port_part sm"
  "port_part (emit (SetWepKey u i d) sm) = port_part sm" "port_part (emit (ResultCb r) sm) = port_part sm"
  by (simp_all add: port_part_def emit_def)

lemma port_part_tick [simp]: "port_part (eapol_enable_timer_tick ctx sm) = port_part sm"
  by (simp add: eapol_enable_timer_tick_def Let_def)

lemma port_part_callback [simp]: "port_part (eap_callback ctx sm c) = port_part sm"
  by (cases c) (simp_all add: eap_callback_def eapol_sm_set_bool_def eapol_sm_set_int_def Let_def
      split: eapol_bool_var.split)

lemma port_part_after_eap [simp]: "port_part (after_eap ctx r sm) = port_part sm"
proof -
  have "port_part (foldl (eap_callback ctx) s calls) = port_part s" for s :: "'a eapol_sm" and calls
    by (induction calls arbitrary: s) simp_all
  then show ?thesis by (simp add: after_eap_def split: prod.split)
qed

lemma port_part_process [simp]: "port_part (eapol_sm_processKey ctx ops sm) = port_part sm"
  by (simp add: eapol_sm_processKey_def install_key_def emit_if_def Let_def split: option.split prod.split)

lemma port_part_key_rx: "port_part (KEY_RX_Step ctx ops sm) = port_part sm"
  by (simp add: KEY_RX_Step_def key_rx_KEY_RECEIVE_def key_rx_entry_def Let_def split: key_rx.split)

lemma port_part_be_states [simp]:
  "port_part (be_REQUEST g sm) = port_part sm" "port_part (be_SUCCESS ops g sm) = port_part sm"
  "port_part (be_FAIL g sm) = port_part sm" "port_part (be_TIMEOUT g sm) = port_part sm"
  "port_part (be_IDLE g sm) = port_part sm" "port_part (be_RECEIVE ctx g sm) = port_part sm"
  "port_part (be_INITIALIZE ctx ops g sm) = port_part sm"
  by (simp_all add: be_states eapol_sm_abortSupp_def Let_def)

lemma port_part_be_response [simp]: "port_part (be_RESPONSE ops g sm) = port_part sm"
proof -
  have "port_part (eapol_sm_txSuppRsp ops s) = port_part s" for s :: "'a eapol_sm"
    by (simp add: eapol_sm_txSuppRsp_def Let_def split: prod.split option.split)
  then show ?thesis by (simp add: be_RESPONSE_def be_entry_def)
qed

lemma port_part_be: "port_part (SUPP_BE_Step ctx ops sm) = port_part sm"
  by (simp add: SUPP_BE_Step_def split: supp_be.split)

lemma port_part_entry: "port_part sm = (p, q) \<Longrightarrow> port_part (pae_entry g st sm) = (st, q)"
  by (auto simp: pae_entry_def port_part_def)

lemma port_part_authorized:
  "has_port_cb ctx \<Longrightarrow> port_part sm = (p, s, v, f) \<Longrightarrow>
   port_part (eapol_sm_set_port_authorized ctx sm) = (p, Authorized, if s \<noteq> Authorized \<or> f then Some True else v, False)"
  "has_port_cb ctx \<Longrightarrow> port_part sm = (p, s, v, f) \<Longrightarrow>
   port_part (eapol_sm_set_port_unauthorized ctx sm) = (p, Unauthorized, if s \<noteq> Unauthorized \<or> f then Some False else v, False)"
  by (auto simp: eapol_sm_set_port_authorized_def eapol_sm_set_port_unauthorized_def emit_if_def emit_def port_part_def Let_def)

lemma port_part_tx [simp]:
  "port_part (eapol_sm_txStart sm) = port_part sm" "port_part (eapol_sm_txLogoff sm) = port_part sm"
  by (simp_all add: eapol_sm_txStart_def eapol_sm_txLogoff_def port_part_def emit_def)

lemma port_parts_pae:
  assumes "has_port_cb ctx" "port_part sm = (p, s, v, f)"
  shows "port_part (pae_LOGOFF ctx g sm) = (PAE_LOGOFF, Unauthorized, if s \<noteq> Unauthorized \<or> f then Some False else v, False)"
    and "port_part (pae_DISCONNECTED ctx g sm) =
           (PAE_DISCONNECTED, Unauthorized, if s \<noteq> Unauthorized \<or> f then Some False else v, False)"
    and "port_part (pae_CONNECTING ctx g sm) = (PAE_CONNECTING, s, v, f)"
    and "port_part (pae_AUTHENTICATING g sm) = (PAE_AUTHENTICATING, s, v, f)"
    and "port_part (pae_HELD ctx g sm) = (PAE_HELD, Unauthorized, if s \<noteq> Unauthorized \<or> f then Some False else v, False)"
    and "port_part (pae_AUTHENTICATED ctx g sm) =
           (PAE_AUTHENTICATED, Authorized, if s \<noteq> Authorized \<or> f then Some True else v, False)"
    and "port_part (pae_RESTART g sm) = (PAE_RESTART, s, v, f)"
    and "port_part (pae_S_FORCE_AUTH ctx g sm) =
           (PAE_S_FORCE_AUTH, Authorized, if s \<noteq> Authorized \<or> f then Some True else v, False)"
    and "port_part (pae_S_FORCE_UNAUTH ctx g sm) =
           (PAE_S_FORCE_UNAUTH, Unauthorized, if s \<noteq> Unauthorized \<or> f then Some False else v, False)"
proof -
  note e = port_part_entry [OF assms(2)]
  show "port_part (pae_CONNECTING ctx g sm) = (PAE_CONNECTING, s, v, f)"
    unfolding pae_CONNECTING_def Let_def using e [of g PAE_CONNECTING] by simp
  show "port_part (pae_RESTART g sm) = (PAE_RESTART, s, v, f)"
    unfolding pae_RESTART_def Let_def using e [of g PAE_RESTART] by simp
qed (simp_all add: pae_LOGOFF_def pae_DISCONNECTED_def pae_AUTHENTICATING_def pae_HELD_def pae_AUTHENTICATED_def
      pae_S_FORCE_AUTH_def pae_S_FORCE_UNAUTH_def Let_def
      port_part_authorized [OF assms(1)] port_part_entry [OF assms(2)])

lemma port_inv_entries:
  assumes "has_port_cb ctx" "port_inv sm"
  shows "port_inv (pae_LOGOFF ctx g sm)" "port_inv (pae_DISCONNECTED ctx g sm)" "port_inv (pae_CONNECTING ctx g sm)"
    "port_inv (pae_AUTHENTICATING g sm)" "port_inv (pae_HELD ctx g sm)" "port_inv (pae_AUTHENTICATED ctx g sm)"
    "port_inv (pae_RESTART g sm)" "port_inv (pae_S_FORCE_AUTH ctx g sm)" "port_inv (pae_S_FORCE_UNAUTH ctx g sm)"
proof -
  obtain p s v f where pt: "port_part sm = (p, s, v, f)" by (metis prod.exhaust)
  have "v = Some True \<and> s = Authorized \<or> v = Some False \<and> s = Unauthorized"
    using assms(2) pt by (cases s) (auto simp: port_inv_def)
  then show "port_inv (pae_LOGOFF ctx g sm)" "port_inv (pae_DISCONNECTED ctx g sm)" "port_inv (pae_CONNECTING ctx g sm)"
    "port_inv (pae_AUTHENTICATING g sm)" "port_inv (pae_HELD ctx g sm)" "port_inv (pae_AUTHENTICATED ctx g sm)"
    "port_inv (pae_RESTART g sm)" "port_inv (pae_S_FORCE_AUTH ctx g sm)" "port_inv (pae_S_FORCE_UNAUTH ctx g sm)"
    by (auto simp: port_inv_def port_parts_pae [OF assms(1) pt])
qed

lemma port_inv_authenticating:
  assumes "has_port_cb ctx" "port_inv sm"
  shows "port_inv (pae_step_authenticating ctx sm)"
proof -
  define s where "s = (if eapSuccess sm \<and> \<not> portValid sm \<and> accept_802_1x_keys (conf sm) \<and> required_keys (conf sm) = 0
                then emit_if (has_done_cb ctx) DoneCb (sm\<lparr>portValid := True\<rparr>) else sm)"
  have "port_inv s" using assms(2) by (simp add: s_def emit_if_def port_inv_def)
  then show ?thesis unfolding pae_step_authenticating_def Let_def s_def [symmetric]
    by (simp add: port_inv_entries [OF assms(1)])
qed

lemma port_inv_pae:
  assumes "has_port_cb ctx" "port_inv sm"
  shows "port_inv (SUPP_PAE_Step ctx sm)"
  unfolding SUPP_PAE_Step_def
  by (simp add: assms(2) port_inv_entries [OF assms] port_inv_authenticating [OF assms] split: supp_pae.split)

interpretation port: eapol_invariant port_inv has_port_cb ops for ops :: "'e eap_ops"
  by unfold_locales
    (simp_all add: port_inv_pae, simp_all add: port_inv_def port_part_key_rx port_part_be report_result_def Let_def)

lemma port_inv_cong: "port_part sm = port_part sm' \<Longrightarrow> port_inv sm = port_inv sm'"
  by (simp add: port_inv_def)

lemmas port_inv_upd [simp] = port_part_upd [THEN port_inv_cong] port_part_emit [THEN port_inv_cong]
  port_part_tx [THEN port_inv_cong] port_part_after_eap [THEN port_inv_cong]

text \<open>Each event, with the direct assignments it makes before it runs the machines.\<close>

lemma port_inv_abort_cached:
  assumes "has_port_cb ctx" "port_inv sm"
  shows "port_inv (eapol_sm_abort_cached ctx sm)"
proof -
  obtain p s v f where pt: "port_part sm = (p, s, v, f)" by (metis prod.exhaust)
  have "port_part (sm\<lparr>cached_pmk := False, SUPP_PAE_state := PAE_CONNECTING\<rparr>) = (PAE_CONNECTING, s, v, f)"
    using pt by (simp add: port_part_def)
  from port_part_authorized(2) [OF assms(1) this] assms(2) pt show ?thesis
    by (cases s) (auto simp: eapol_sm_abort_cached_def Let_def emit_if_def port_inv_def)
qed

lemma port_inv_rx:
  assumes "has_port_cb ctx" "port_inv sm"
  shows "port_inv (snd (eapol_sm_rx_eapol ctx ops src buf sm))"
proof -
  have eap: "port_inv (rx_eap_packet ctx ops buf plen s)" if "port_inv s" for plen s
    using that assms(1) port_inv_abort_cached [of ctx s] unfolding rx_eap_packet_def Let_def
    by (auto intro!: port.step)
  have key: "port_inv (snd (rx_key_frame ctx ops buf plen s))" if "port_inv s" for plen s
    using that assms(1) unfolding rx_key_frame_def by (auto intro!: port.step)
  show ?thesis unfolding eapol_sm_rx_eapol_def Let_def by (simp add: assms(2) eap key)
qed

lemma port_inv_event:
  assumes "has_port_cb ctx" "port_inv sm"
  shows "port_inv (eapol_handle ctx ops ev sm)"
proof -
  note step = port.step [OF assms(1)]
  have force: "port_inv (eapol_sm_notify_portEnabled ctx ops b sm)" for b
  proof -
    have "port_inv (sm\<lparr>force_authorized_update := True\<rparr>)"
      using assms(2) by (simp add: port_inv_def port_part_def)
    then show ?thesis using assms unfolding eapol_sm_notify_portEnabled_def Let_def
      by (intro port.step) simp_all
  qed
  show ?thesis
  proof (cases ev)
    case (RxEapol src buf)
    then show ?thesis by (simp add: eapol_handle_def port_inv_rx [OF assms])
  next
    case (PortEnabled b)
    then show ?thesis by (simp add: eapol_handle_def force)
  qed (use assms(2) in \<open>auto simp: eapol_notify_defs eapol_port_timers_tick_def intro!: step split: option.split\<close>)
qed

text \<open>The first run of the machines reports the closed port.\<close>

lemma port_inv_first:
  assumes "has_port_cb ctx" "initialize sm" "force_authorized_update sm"
  shows "port_inv (eapol_sm_step ctx ops sm)"
proof -
  obtain p s v where "port_part (sm\<lparr>changed := False\<rparr>) = (p, s, v, True)"
    using assms(3) by (simp add: port_part_def)
  from port_parts_pae(2) [OF assms(1) this, of True] assms(2)
  have "port_inv (SUPP_PAE_Step ctx (sm\<lparr>changed := False\<rparr>))"
    by (simp add: SUPP_PAE_Step_def port_inv_def)
  then have "port_inv (SUPP_BE_Step ctx ops (KEY_RX_Step ctx ops (SUPP_PAE_Step ctx (sm\<lparr>changed := False\<rparr>))))"
    by (intro port.I_be port.I_key_rx assms(1))
  then have once: "port_inv (step_once ctx ops sm)" unfolding step_once_def Let_def by (simp split: prod.split)
  have "step_loop 100 ctx ops sm = (if changed (step_once ctx ops sm)
      then step_loop 99 ctx ops (step_once ctx ops sm) else step_once ctx ops sm)"
    using step_loop.simps(2) [of 99 ctx ops sm] by (simp add: Let_def)
  then have "port_inv (step_loop 100 ctx ops sm)" using once port.step_loop [OF assms(1) once, of 99] by simp
  then show ?thesis unfolding eapol_sm_step_def Let_def
    by (auto intro!: port.I_report port.I_reschedule assms(1))
qed

text \<open>Initialisation: two runs of the machines from the zeroed structure.\<close>

definition eapol_sm_start :: "'e \<Rightarrow> 'e eapol_sm" where
  "eapol_sm_start e = (eapol_sm_zero e)\<lparr>portControl := Auto, heldPeriod := 60, startPeriod := 30, maxStart := 3,
     authPeriod := 30, force_authorized_update := True, initialize := True\<rparr>"

definition init_result :: "eapol_ctx \<Rightarrow> 'e eap_ops \<Rightarrow> 'e eapol_sm \<Rightarrow> 'e eapol_sm set" where
  "init_result ctx ops s =
     (let r = emit RegisterTick (eapol_sm_step ctx ops ((eapol_sm_step ctx ops s)\<lparr>initialize := False\<rparr>))
      in {r, r\<lparr>timer_tick_enabled := True\<rparr>})"

lemma eapol_sm_init_shape:
  "eapol_sm_init ctx ops e = Some sm \<Longrightarrow> \<exists>e'. sm \<in> init_result ctx ops (eapol_sm_start e')"
  by (auto simp: eapol_sm_init_def init_result_def eapol_sm_start_def Let_def split: if_splits option.splits)

lemma port_inv_init:
  assumes "has_port_cb ctx" "eapol_sm_init ctx ops e = Some sm"
  shows "port_inv sm"
proof -
  from eapol_sm_init_shape [OF assms(2)] obtain e' where "sm \<in> init_result ctx ops (eapol_sm_start e')" by blast
  moreover have "port_inv (eapol_sm_step ctx ops (eapol_sm_start e'))"
    by (rule port_inv_first [OF assms(1)]) (simp_all add: eapol_sm_start_def)
  ultimately show ?thesis by (auto simp: init_result_def Let_def intro!: port.step [OF assms(1)])
qed

lemma port_inv_reach: "eapol_reach ops has_port_cb sm \<Longrightarrow> port_inv sm"
  by (induction rule: eapol_reach.induct) (auto intro: port_inv_init port_inv_event)

section \<open>Frames\<close>

text \<open>The stored EAPOL-Key frame is complete: its header length is its length.\<close>

definition key_frame_ok :: "bytes \<Rightarrow> bool" where
  "key_frame_ok f \<longleftrightarrow> 48 \<le> length f \<and> length f = 4 + hdr_length f \<and> key_type f = 1"

definition frame_inv :: "'e eapol_sm \<Rightarrow> bool" where
  "frame_inv sm \<longleftrightarrow> pred_option key_frame_ok (last_rx_key sm)"

text \<open>Only an abort of the session touches the stored frame inside the machines.\<close>

lemma last_key_prims [simp]:
  "last_rx_key (emit x sm) = last_rx_key sm" "last_rx_key (emit_if c x sm) = last_rx_key sm"
  "last_rx_key (eapol_enable_timer_tick ctx sm) = last_rx_key sm"
  "last_rx_key (eapol_sm_set_port_authorized ctx sm) = last_rx_key sm"
  "last_rx_key (eapol_sm_set_port_unauthorized ctx sm) = last_rx_key sm"
  "last_rx_key (eapol_sm_txStart sm) = last_rx_key sm" "last_rx_key (eapol_sm_txLogoff sm) = last_rx_key sm"
  "last_rx_key (pae_entry g p sm) = last_rx_key sm" "last_rx_key (be_entry g b sm) = last_rx_key sm"
  "last_rx_key (key_rx_entry g k sm) = last_rx_key sm"
  by (simp_all add: eapol_prims Let_def pae_entry_def be_entry_def key_rx_entry_def)

lemma last_key_callback [simp]: "last_rx_key (eap_callback ctx sm c) = last_rx_key sm"
  by (cases c) (simp_all add: eap_callback_def eapol_sm_set_bool_def eapol_sm_set_int_def Let_def
      split: eapol_bool_var.split)

lemma last_key_after_eap [simp]: "last_rx_key (after_eap ctx r sm) = last_rx_key sm"
proof -
  have "last_rx_key (foldl (eap_callback ctx) s calls) = last_rx_key s" for s :: "'a eapol_sm" and calls
    by (induction calls arbitrary: s) simp_all
  then show ?thesis by (simp add: after_eap_def split: prod.split)
qed

lemma last_key_pae_states [simp]:
  "last_rx_key (pae_LOGOFF ctx g sm) = last_rx_key sm" "last_rx_key (pae_DISCONNECTED ctx g sm) = last_rx_key sm"
  "last_rx_key (pae_CONNECTING ctx g sm) = last_rx_key sm" "last_rx_key (pae_AUTHENTICATING g sm) = last_rx_key sm"
  "last_rx_key (pae_HELD ctx g sm) = last_rx_key sm" "last_rx_key (pae_AUTHENTICATED ctx g sm) = last_rx_key sm"
  "last_rx_key (pae_RESTART g sm) = last_rx_key sm" "last_rx_key (pae_S_FORCE_AUTH ctx g sm) = last_rx_key sm"
  "last_rx_key (pae_S_FORCE_UNAUTH ctx g sm) = last_rx_key sm"
  by (simp_all add: pae_LOGOFF_def pae_DISCONNECTED_def pae_CONNECTING_def pae_AUTHENTICATING_def pae_HELD_def
      pae_AUTHENTICATED_def pae_RESTART_def pae_S_FORCE_AUTH_def pae_S_FORCE_UNAUTH_def Let_def)

lemma last_key_authenticating [simp]: "last_rx_key (pae_step_authenticating ctx sm) = last_rx_key sm"
proof -
  define s where "s = (if eapSuccess sm \<and> \<not> portValid sm \<and> accept_802_1x_keys (conf sm) \<and> required_keys (conf sm) = 0
                then emit_if (has_done_cb ctx) DoneCb (sm\<lparr>portValid := True\<rparr>) else sm)"
  have "last_rx_key s = last_rx_key sm" by (simp add: s_def)
  then show ?thesis unfolding pae_step_authenticating_def Let_def s_def [symmetric] by simp
qed

lemma last_key_pae: "last_rx_key (SUPP_PAE_Step ctx sm) = last_rx_key sm"
  unfolding SUPP_PAE_Step_def by (simp split: supp_pae.split)

lemma last_key_process [simp]: "last_rx_key (eapol_sm_processKey ctx ops sm) = last_rx_key sm"
  by (simp add: eapol_sm_processKey_def install_key_def Let_def split: option.split prod.split)

lemma last_key_key_rx: "last_rx_key (KEY_RX_Step ctx ops sm) = last_rx_key sm"
  by (simp add: KEY_RX_Step_def key_rx_KEY_RECEIVE_def Let_def split: key_rx.split)

lemma last_key_be: "last_rx_key (SUPP_BE_Step ctx ops sm) = last_rx_key sm \<or> last_rx_key (SUPP_BE_Step ctx ops sm) = None"
proof -
  have "last_rx_key (be_REQUEST g s) = last_rx_key s" "last_rx_key (be_SUCCESS ops g s) = last_rx_key s"
    "last_rx_key (be_FAIL g s) = last_rx_key s" "last_rx_key (be_TIMEOUT g s) = last_rx_key s"
    "last_rx_key (be_IDLE g s) = last_rx_key s" "last_rx_key (be_RECEIVE ctx g s) = last_rx_key s"
    "last_rx_key (be_INITIALIZE ctx ops g s) = None" for g and s :: "'a eapol_sm"
    by (simp_all add: be_REQUEST_def be_SUCCESS_def be_FAIL_def be_TIMEOUT_def be_IDLE_def be_RECEIVE_def
        be_INITIALIZE_def eapol_sm_abortSupp_def Let_def)
  moreover have "last_rx_key (be_RESPONSE ops g s) = last_rx_key s" for g and s :: "'a eapol_sm"
    by (simp add: be_RESPONSE_def eapol_sm_txSuppRsp_def Let_def split: prod.split option.split)
  ultimately show ?thesis by (simp add: SUPP_BE_Step_def split: supp_be.split)
qed

lemma frame_inv_cong: "last_rx_key sm' = last_rx_key sm \<Longrightarrow> frame_inv sm' = frame_inv sm"
  by (simp add: frame_inv_def)

interpretation frame: eapol_invariant frame_inv "\<lambda>_. True" ops for ops :: "'e eap_ops"
proof unfold_locales
  fix ctx :: eapol_ctx and sm :: "'e eapol_sm"
  assume "frame_inv sm"
  then show "frame_inv (SUPP_BE_Step ctx ops sm)"
    using last_key_be [of ctx ops sm] by (auto simp: frame_inv_def)
qed (simp_all add: frame_inv_def last_key_pae last_key_key_rx report_result_def Let_def)

lemma key_frame_length: "hdr_type buf = 3 \<Longrightarrow> fixed_plen c buf = hdr_length buf"
  by (simp add: fixed_plen_def Let_def)

lemma key_frame_take: "4 < k \<Longrightarrow> key_type (take k buf) = key_type buf" "4 < k \<Longrightarrow> hdr_length (take k buf) = hdr_length buf"
  by (simp_all add: key_type_def hdr_length_def get_be16_def)

lemma frame_inv_rx:
  assumes "frame_inv sm"
  shows "frame_inv (snd (eapol_sm_rx_eapol ctx ops src buf sm))"
proof -
  note step = frame.step [OF TrueI, unfolded frame_inv_def]
  have eap: "frame_inv (rx_eap_packet ctx ops buf plen s)" if "frame_inv s" for plen s
  proof -
    have "last_rx_key (eapol_sm_abort_cached ctx s) = last_rx_key s" by (simp add: eapol_sm_abort_cached_def Let_def)
    then show ?thesis using that unfolding rx_eap_packet_def Let_def frame_inv_def by (simp add: step)
  qed
  have key: "frame_inv (snd (rx_key_frame ctx ops buf (hdr_length buf) s))"
    if "frame_inv s" "hdr_length buf \<le> length buf - 4" for s
  proof -
    have "key_frame_ok (take (hdr_length buf + 4) buf)" if "44 \<le> hdr_length buf" "key_type buf = 1"
      using that \<open>hdr_length buf \<le> length buf - 4\<close>
      by (simp add: key_frame_ok_def key_frame_take)
    then show ?thesis using \<open>frame_inv s\<close> unfolding rx_key_frame_def frame_inv_def by (simp add: step not_less)
  qed
  have upd: "frame_inv (sm\<lparr>stats := st\<rparr>)" for st using assms by (simp add: frame_inv_def)
  show ?thesis unfolding eapol_sm_rx_eapol_def Let_def
    by (simp add: key_frame_length not_less upd eap key)
qed

lemma frame_inv_event:
  assumes "frame_inv sm"
  shows "frame_inv (eapol_handle ctx ops ev sm)"
proof -
  have keep: "frame_inv s" if "last_rx_key s = last_rx_key sm" for s
    using that assms by (simp add: frame_inv_def)
  then have step: "frame_inv (eapol_sm_step ctx ops s)" if "last_rx_key s = last_rx_key sm" for s
    using frame.step [OF TrueI, of s ctx ops] that by blast
  show ?thesis
  proof (cases ev)
    case (RxEapol src buf)
    then show ?thesis by (simp add: eapol_handle_def frame_inv_rx [OF assms])
  qed (simp_all add: eapol_notify_defs eapol_port_timers_tick_def eapol_sm_notify_portEnabled_def
        step keep split: option.split)
qed

lemma frame_inv_init:
  assumes "eapol_sm_init ctx ops e = Some sm"
  shows "frame_inv sm"
proof -
  from eapol_sm_init_shape [OF assms] obtain e' where "sm \<in> init_result ctx ops (eapol_sm_start e')" by blast
  moreover have "frame_inv (eapol_sm_start e')" by (simp add: eapol_sm_start_def frame_inv_def eapol_sm_zero_def)
  then have "frame_inv (eapol_sm_step ctx ops (eapol_sm_start e'))" by (rule frame.step [OF TrueI])
  then have "frame_inv ((eapol_sm_step ctx ops (eapol_sm_start e'))\<lparr>initialize := False\<rparr>)" by (simp add: frame_inv_def)
  then have "frame_inv (eapol_sm_step ctx ops ((eapol_sm_step ctx ops (eapol_sm_start e'))\<lparr>initialize := False\<rparr>))"
    by (rule frame.step [OF TrueI])
  ultimately show ?thesis by (auto simp: init_result_def Let_def frame_inv_def)
qed

lemma frame_inv_reach: "eapol_reach ops P sm \<Longrightarrow> frame_inv sm"
  by (induction rule: eapol_reach.induct) (auto intro: frame_inv_init frame_inv_event)

end
