(* ===== verification/EapolTimers.thy ===== *)
theory EapolTimers
  imports EapolProofs
begin

text \<open>
  The port timers of the EAPOL supplicant: while the event loop accepts registrations, no timer
  runs without a tick to count it down.
\<close>

definition timers_of :: "'e eapol_sm \<Rightarrow> bool \<times> bool" where
  "timers_of sm = (authWhile sm \<noteq> 0 \<or> heldWhile sm \<noteq> 0 \<or> startWhen sm \<noteq> 0 \<or> idleWhile sm \<noteq> 0, timer_tick_enabled sm)"

definition tick_inv :: "'e eapol_sm \<Rightarrow> bool" where
  "tick_inv sm \<longleftrightarrow> (fst (timers_of sm) \<longrightarrow> snd (timers_of sm))"

lemma timers_of_upd [simp]:
  "timers_of (sm\<lparr>eapFail := v5\<rparr>) = timers_of sm"
  "timers_of (sm\<lparr>eapolEap := v6\<rparr>) = timers_of sm"
  "timers_of (sm\<lparr>eapSuccess := v7\<rparr>) = timers_of sm"
  "timers_of (sm\<lparr>initialize := v8\<rparr>) = timers_of sm"
  "timers_of (sm\<lparr>keyDone := v9\<rparr>) = timers_of sm"
  "timers_of (sm\<lparr>keyRun := v10\<rparr>) = timers_of sm"
  "timers_of (sm\<lparr>portControl := v11\<rparr>) = timers_of sm"
  "timers_of (sm\<lparr>portEnabled := v12\<rparr>) = timers_of sm"
  "timers_of (sm\<lparr>suppPortStatus := v13\<rparr>) = timers_of sm"
  "timers_of (sm\<lparr>portValid := v14\<rparr>) = timers_of sm"
  "timers_of (sm\<lparr>suppAbort := v15\<rparr>) = timers_of sm"
  "timers_of (sm\<lparr>suppFail := v16\<rparr>) = timers_of sm"
  "timers_of (sm\<lparr>suppStart := v17\<rparr>) = timers_of sm"
  "timers_of (sm\<lparr>suppSuccess := v18\<rparr>) = timers_of sm"
  "timers_of (sm\<lparr>suppTimeout := v19\<rparr>) = timers_of sm"
  "timers_of (sm\<lparr>SUPP_PAE_state := v20\<rparr>) = timers_of sm"
  "timers_of (sm\<lparr>userLogoff := v21\<rparr>) = timers_of sm"
  "timers_of (sm\<lparr>logoffSent := v22\<rparr>) = timers_of sm"
  "timers_of (sm\<lparr>startCount := v23\<rparr>) = timers_of sm"
  "timers_of (sm\<lparr>eapRestart := v24\<rparr>) = timers_of sm"
  "timers_of (sm\<lparr>sPortMode := v25\<rparr>) = timers_of sm"
  "timers_of (sm\<lparr>heldPeriod := v26\<rparr>) = timers_of sm"
  "timers_of (sm\<lparr>startPeriod := v27\<rparr>) = timers_of sm"
  "timers_of (sm\<lparr>maxStart := v28\<rparr>) = timers_of sm"
  "timers_of (sm\<lparr>KEY_RX_state := v29\<rparr>) = timers_of sm"
  "timers_of (sm\<lparr>rxKey := v30\<rparr>) = timers_of sm"
  "timers_of (sm\<lparr>SUPP_BE_state := v31\<rparr>) = timers_of sm"
  "timers_of (sm\<lparr>eapNoResp := v32\<rparr>) = timers_of sm"
  "timers_of (sm\<lparr>eapReq := v33\<rparr>) = timers_of sm"
  "timers_of (sm\<lparr>eapResp := v34\<rparr>) = timers_of sm"
  "timers_of (sm\<lparr>authPeriod := v35\<rparr>) = timers_of sm"
  "timers_of (sm\<lparr>stats := v36\<rparr>) = timers_of sm"
  "timers_of (sm\<lparr>changed := v37\<rparr>) = timers_of sm"
  "timers_of (sm\<lparr>eap := v38\<rparr>) = timers_of sm"
  "timers_of (sm\<lparr>initial_req := v39\<rparr>) = timers_of sm"
  "timers_of (sm\<lparr>last_rx_key := v40\<rparr>) = timers_of sm"
  "timers_of (sm\<lparr>eapReqData := v41\<rparr>) = timers_of sm"
  "timers_of (sm\<lparr>altAccept := v42\<rparr>) = timers_of sm"
  "timers_of (sm\<lparr>altReject := v43\<rparr>) = timers_of sm"
  "timers_of (sm\<lparr>eapTriggerStart := v44\<rparr>) = timers_of sm"
  "timers_of (sm\<lparr>replay_counter_valid := v45\<rparr>) = timers_of sm"
  "timers_of (sm\<lparr>last_replay_counter := v46\<rparr>) = timers_of sm"
  "timers_of (sm\<lparr>conf := v47\<rparr>) = timers_of sm"
  "timers_of (sm\<lparr>cb_status := v48\<rparr>) = timers_of sm"
  "timers_of (sm\<lparr>cached_pmk := v49\<rparr>) = timers_of sm"
  "timers_of (sm\<lparr>unicast_key_received := v50\<rparr>) = timers_of sm"
  "timers_of (sm\<lparr>broadcast_key_received := v51\<rparr>) = timers_of sm"
  "timers_of (sm\<lparr>force_authorized_update := v52\<rparr>) = timers_of sm"
  "timers_of (sm\<lparr>outs := v53\<rparr>) = timers_of sm"
  by (simp_all add: timers_of_def)

lemma timers_of_emit [simp]: "timers_of (emit x sm) = timers_of sm" "timers_of (emit_if c x sm) = timers_of sm"
  by (simp_all add: emit_def emit_if_def)

lemma tick_armed: "eloop_ok ctx \<Longrightarrow> tick_inv (eapol_enable_timer_tick ctx sm)"
  by (simp add: tick_inv_def timers_of_def eapol_enable_timer_tick_def Let_def)

lemma tick_inv_cong: "timers_of sm = timers_of sm' \<Longrightarrow> tick_inv sm = tick_inv sm'"
  by (simp add: tick_inv_def)

lemmas tick_inv_upd [simp] = timers_of_upd [THEN tick_inv_cong] timers_of_emit [THEN tick_inv_cong]

lemma tick_inv_stop [simp]:
  "tick_inv sm \<Longrightarrow> tick_inv (sm\<lparr>authWhile := 0\<rparr>)" "tick_inv sm \<Longrightarrow> tick_inv (sm\<lparr>heldWhile := 0\<rparr>)"
  "tick_inv sm \<Longrightarrow> tick_inv (sm\<lparr>startWhen := 0\<rparr>)" "tick_inv sm \<Longrightarrow> tick_inv (sm\<lparr>idleWhile := 0\<rparr>)"
  by (auto simp: tick_inv_def timers_of_def)

lemma tick_inv_prims [simp]:
  "tick_inv (eapol_sm_set_port_authorized ctx sm) = tick_inv sm"
  "tick_inv (eapol_sm_set_port_unauthorized ctx sm) = tick_inv sm"
  "tick_inv (eapol_sm_txStart sm) = tick_inv sm" "tick_inv (eapol_sm_txLogoff sm) = tick_inv sm"
  "tick_inv (pae_entry g p sm) = tick_inv sm" "tick_inv (be_entry g b sm) = tick_inv sm"
  "tick_inv (key_rx_entry g k sm) = tick_inv sm"
  by (simp_all add: eapol_sm_set_port_authorized_def eapol_sm_set_port_unauthorized_def eapol_sm_txStart_def
      eapol_sm_txLogoff_def pae_entry_def be_entry_def key_rx_entry_def Let_def)

lemma tick_inv_callback:
  assumes "eloop_ok ctx" "tick_inv sm"
  shows "tick_inv (eap_callback ctx sm c)"
proof (cases c)
  case (SetIdleWhile n)
  then show ?thesis using assms tick_armed [OF assms(1)]
    by (cases "n = 0") (simp_all add: eap_callback_def eapol_sm_set_int_def word_neq_0_conv)
qed (use assms in \<open>simp add: eap_callback_def eapol_sm_set_bool_def split: eapol_bool_var.split\<close>)

lemma tick_inv_pae_states:
  assumes "eloop_ok ctx" "tick_inv sm"
  shows "tick_inv (pae_LOGOFF ctx g sm)" "tick_inv (pae_DISCONNECTED ctx g sm)" "tick_inv (pae_CONNECTING ctx g sm)"
    "tick_inv (pae_AUTHENTICATING g sm)" "tick_inv (pae_HELD ctx g sm)" "tick_inv (pae_AUTHENTICATED ctx g sm)"
    "tick_inv (pae_RESTART g sm)" "tick_inv (pae_S_FORCE_AUTH ctx g sm)" "tick_inv (pae_S_FORCE_UNAUTH ctx g sm)"
  using assms(2) by (simp_all add: pae_LOGOFF_def pae_DISCONNECTED_def pae_CONNECTING_def pae_AUTHENTICATING_def
      pae_HELD_def pae_AUTHENTICATED_def pae_RESTART_def pae_S_FORCE_AUTH_def pae_S_FORCE_UNAUTH_def Let_def
      tick_armed [OF assms(1)])

lemma tick_inv_pae:
  assumes "eloop_ok ctx" "tick_inv sm"
  shows "tick_inv (SUPP_PAE_Step ctx sm)"
proof -
  define s where "s = (if eapSuccess sm \<and> \<not> portValid sm \<and> accept_802_1x_keys (conf sm) \<and> required_keys (conf sm) = 0
                then emit_if (has_done_cb ctx) DoneCb (sm\<lparr>portValid := True\<rparr>) else sm)"
  have "tick_inv s" using assms(2) by (simp add: s_def)
  then have "tick_inv (pae_step_authenticating ctx sm)" unfolding pae_step_authenticating_def Let_def s_def [symmetric]
    by (simp add: tick_inv_pae_states [OF assms(1)])
  then show ?thesis unfolding SUPP_PAE_Step_def
    by (simp add: assms(2) tick_inv_pae_states [OF assms] split: supp_pae.split)
qed

lemma tick_inv_after_eap:
  assumes "eloop_ok ctx" "tick_inv sm"
  shows "tick_inv (after_eap ctx r sm)"
proof -
  obtain e calls where r: "r = (e, calls)" by (cases r)
  have "tick_inv (sm\<lparr>eap := e\<rparr>)" using assms(2) by simp
  then have "tick_inv (foldl (eap_callback ctx) (sm\<lparr>eap := e\<rparr>) calls)"
    by (rule foldl_invariant) (rule tick_inv_callback [OF assms(1)])
  then show ?thesis by (simp add: after_eap_def r)
qed

lemma tick_inv_key_rx:
  assumes "eloop_ok ctx" "tick_inv sm"
  shows "tick_inv (KEY_RX_Step ctx ops sm)"
proof -
  have install: "tick_inv (install_key ctx f d s) = tick_inv s" for f d and s :: "'a eapol_sm"
    by (simp add: install_key_def Let_def)
  have "tick_inv (eapol_sm_processKey ctx ops s)" if "tick_inv s" for s
    unfolding eapol_sm_processKey_def Let_def
    by (simp add: that install tick_inv_after_eap [OF assms(1) that] split: option.split prod.split)
  then show ?thesis using assms(2)
    by (simp add: KEY_RX_Step_def key_rx_KEY_RECEIVE_def Let_def split: key_rx.split)
qed

lemma tick_inv_be:
  assumes "eloop_ok ctx" "tick_inv sm"
  shows "tick_inv (SUPP_BE_Step ctx ops sm)"
proof -
  have "tick_inv (be_RESPONSE ops False sm)"
    using assms(2) by (simp add: be_RESPONSE_def eapol_sm_txSuppRsp_def Let_def split: prod.split option.split)
  moreover have "tick_inv (be_REQUEST False sm)" "tick_inv (be_SUCCESS ops False sm)" "tick_inv (be_FAIL False sm)"
    "tick_inv (be_TIMEOUT False sm)" "tick_inv (be_IDLE False sm)" "tick_inv (be_RECEIVE ctx False sm)"
    "tick_inv (be_INITIALIZE ctx ops True sm)"
    using assms(2) by (simp_all add: be_REQUEST_def be_SUCCESS_def be_FAIL_def be_TIMEOUT_def be_IDLE_def be_RECEIVE_def
      be_INITIALIZE_def eapol_sm_abortSupp_def Let_def tick_armed [OF assms(1)] tick_inv_after_eap [OF assms(1)])
  ultimately show ?thesis by (simp add: SUPP_BE_Step_def assms(2) split: supp_be.split)
qed

interpretation tick: eapol_invariant tick_inv eloop_ok ops for ops :: "'e eap_ops"
  by unfold_locales
    (simp_all add: tick_inv_callback tick_inv_pae tick_inv_key_rx tick_inv_be report_result_def Let_def)


lemma tick_inv_abort_cached: "eloop_ok ctx \<Longrightarrow> tick_inv (eapol_sm_abort_cached ctx sm)"
  by (simp add: eapol_sm_abort_cached_def Let_def tick_armed)

lemma tick_inv_rx:
  assumes "eloop_ok ctx" "tick_inv sm"
  shows "tick_inv (snd (eapol_sm_rx_eapol ctx ops src buf sm))"
proof -
  note step = tick.step [OF assms(1)]
  have eap: "tick_inv (rx_eap_packet ctx ops buf plen s)" if "tick_inv s" for plen s
    using that tick_inv_abort_cached [OF assms(1)] unfolding rx_eap_packet_def Let_def by (auto intro!: step)
  have key: "tick_inv (snd (rx_key_frame ctx ops buf plen s))" if "tick_inv s" for plen s
    using that unfolding rx_key_frame_def by (auto intro!: step)
  show ?thesis unfolding eapol_sm_rx_eapol_def Let_def by (simp add: assms(2) eap key)
qed

text \<open>The tick handler disarms itself exactly when all four timers have run out.\<close>

lemma tick_inv_tick:
  assumes "eloop_ok ctx" "tick_inv sm"
  shows "tick_inv (eapol_port_timers_tick ctx ops sm)"
proof -
  define dec where "dec = (\<lambda>t :: u32. if 0 < t then t - 1 else t)"
  define s where "s = sm\<lparr>authWhile := dec (authWhile sm), heldWhile := dec (heldWhile sm),
                  startWhen := dec (startWhen sm), idleWhile := dec (idleWhile sm)\<rparr>"
  have "dec 0 = 0" by (simp add: dec_def)
  then have "fst (timers_of s) \<Longrightarrow> fst (timers_of sm)" by (auto simp: timers_of_def s_def)
  then have "tick_inv s" using assms(2) by (simp add: tick_inv_def) (simp add: timers_of_def s_def)
  moreover have "tick_inv (s\<lparr>timer_tick_enabled := False\<rparr>)"
    if "authWhile s OR heldWhile s OR startWhen s OR idleWhile s = 0"
    using that by (simp add: tick_inv_def timers_of_def or_eq_0_iff)
  ultimately show ?thesis unfolding eapol_port_timers_tick_def Let_def dec_def [symmetric] s_def [symmetric]
    using assms(1) by (intro tick.step) auto
qed

lemma tick_inv_event:
  assumes "eloop_ok ctx" "tick_inv sm"
  shows "tick_inv (eapol_handle ctx ops ev sm)"
proof -
  note step = tick.step [OF assms(1)]
  have eap: "tick_inv (after_eap ctx r s)" if "tick_inv s" for r s by (rule tick_inv_after_eap [OF assms(1) that])
  show ?thesis
  proof (cases ev)
    case (RxEapol src buf)
    then show ?thesis by (simp add: eapol_handle_def tick_inv_rx [OF assms])
  next
    case Tick
    then show ?thesis by (simp add: eapol_handle_def tick_inv_tick [OF assms])
  qed (use assms(2) in \<open>auto simp: eapol_notify_defs eapol_sm_notify_portEnabled_def
        intro!: step eap split: option.split\<close>)
qed

lemma tick_inv_init:
  assumes "eloop_ok ctx" "eapol_sm_init ctx ops e = Some sm"
  shows "tick_inv sm"
proof -
  obtain s where "sm = s\<lparr>timer_tick_enabled := True\<rparr>"
    using assms by (auto simp: eapol_sm_init_def Let_def split: if_splits option.splits)
  then show ?thesis by (simp add: tick_inv_def timers_of_def)
qed

lemma tick_inv_reach: "eapol_reach ops eloop_ok sm \<Longrightarrow> tick_inv sm"
  by (induction rule: eapol_reach.induct) (auto intro: tick_inv_init tick_inv_event)

end
