(* ===== verification/EapolProps.thy ===== *)
theory EapolProps
  imports EapolTimers
begin

text \<open>
  The guarantees of the EAPOL supplicant as a whole: when the port is open, what opens it, what
  closes it, which key frames are accepted, and that no work or timer is lost.
\<close>

section \<open>A concrete peer\<close>

text \<open>A concrete peer and context: the peer accepts everything and has 64 bytes of key.\<close>

definition demo_ops :: "unit eap_ops" where
  "demo_ops = \<lparr>eap_peer_sm_step = (\<lambda>_. (((), []), False)), eap_sm_abort = (\<lambda>_. ((), [])),
     eap_notify_success = (\<lambda>_. ((), [])), eap_notify_lower_layer_success = (\<lambda>_. ((), [])),
     eap_key_available = (\<lambda>_. True), eap_get_eapKeyData = (\<lambda>_. Some (replicate 64 7)),
     eap_get_eapRespData = (\<lambda>_. ((), None)), eap_peer_was_failure_expected = (\<lambda>_. False),
     eap_set_config = (\<lambda>_ e. e)\<rparr>"

definition demo_ctx :: eapol_ctx where
  "demo_ctx = \<lparr>preauth = False, has_cb = True, has_port_cb = True, has_done_cb = True, has_set_wep_key = True,
     has_aborted_cached = True, set_wep_key_ok = (\<lambda>_ _ _. True), eloop_ok = True, alloc_ok = True,
     stack_garbage = replicate 64 0\<rparr>"

lemmas demo_simps = demo_ops_def demo_ctx_def

lemma demo_init: "\<exists>sm. eapol_sm_init demo_ctx demo_ops (Some ()) = Some sm"
  by (simp add: eapol_sm_init_def demo_ctx_def Let_def)

section \<open>The port\<close>

text \<open>
  C13: the port and the PAE state agree in every reachable state, whatever the EAP peer and the
  network do: the port is closed in the disconnected, logged off, held and forced-unauthorized
  states and open in the two authorized ones, and the last report through \<^verbatim>\<open>port_cb\<close> is always
  the current status.
\<close>

theorem eapol_port_invariant:
  assumes "eapol_reach ops has_port_cb sm"
  shows "(SUPP_PAE_state sm \<in> {PAE_LOGOFF, PAE_DISCONNECTED, PAE_HELD, PAE_S_FORCE_UNAUTH} \<longrightarrow> suppPortStatus sm = Unauthorized) \<and>
    (SUPP_PAE_state sm \<in> {PAE_AUTHENTICATED, PAE_S_FORCE_AUTH} \<longrightarrow> suppPortStatus sm = Authorized) \<and>
    port_view (outs sm) = Some (suppPortStatus sm = Authorized)"
  using port_inv_reach [OF assms] by (simp add: port_inv_def port_part_def)

theorem eapol_port_invariant_witness:
  "\<exists>sm. eapol_sm_init demo_ctx demo_ops (Some ()) = Some sm \<and> port_view (outs sm) = Some (suppPortStatus sm = Authorized)"
proof -
  obtain sm where sm: "eapol_sm_init demo_ctx demo_ops (Some ()) = Some sm" using demo_init by blast
  have "eapol_reach demo_ops has_port_cb sm" by (rule reach_init [OF _ sm]) (simp add: demo_ctx_def)
  from eapol_port_invariant [OF this] sm show ?thesis by blast
qed

text \<open>Which step can open the port.\<close>

lemma port_status_parts:
  "suppPortStatus (pae_LOGOFF ctx g sm) = Unauthorized" "suppPortStatus (pae_DISCONNECTED ctx g sm) = Unauthorized"
  "suppPortStatus (pae_CONNECTING ctx g sm) = suppPortStatus sm" "suppPortStatus (pae_AUTHENTICATING g sm) = suppPortStatus sm"
  "suppPortStatus (pae_HELD ctx g sm) = Unauthorized" "suppPortStatus (pae_AUTHENTICATED ctx g sm) = Authorized"
  "suppPortStatus (pae_RESTART g sm) = suppPortStatus sm" "suppPortStatus (pae_S_FORCE_AUTH ctx g sm) = Authorized"
  "suppPortStatus (pae_S_FORCE_UNAUTH ctx g sm) = Unauthorized"
  by (simp_all add: pae_states eapol_prims Let_def)

lemma status_of_part: "port_part sm = port_part sm' \<Longrightarrow> suppPortStatus sm = suppPortStatus sm'"
  by (simp add: port_part_def)

lemma status_step_once: "suppPortStatus (step_once ctx ops sm) = suppPortStatus (SUPP_PAE_Step ctx (sm\<lparr>changed := False\<rparr>))"
  by (rule status_of_part) (simp add: step_once_def Let_def port_part_key_rx port_part_be split: prod.split)

definition opens_port :: "'e eapol_sm \<Rightarrow> bool" where
  "opens_port sm \<longleftrightarrow>
     portControl sm = ForceAuthorized \<or>
     SUPP_PAE_state sm = PAE_CONNECTING \<and> startWhen sm = 0 \<and> maxStart sm \<le> startCount sm \<and> portValid sm \<or>
     SUPP_PAE_state sm = PAE_AUTHENTICATING \<and> eapSuccess sm \<and>
       (portValid sm \<or> accept_802_1x_keys (conf sm) \<and> required_keys (conf sm) = 0)"

lemma authenticating_opens:
  assumes "suppPortStatus sm = Unauthorized" "suppPortStatus (pae_step_authenticating ctx sm) = Authorized"
  shows "eapSuccess sm \<and> (portValid sm \<or> accept_802_1x_keys (conf sm) \<and> required_keys (conf sm) = 0)"
proof -
  define s where "s = (if eapSuccess sm \<and> \<not> portValid sm \<and> accept_802_1x_keys (conf sm) \<and> required_keys (conf sm) = 0
                then emit_if (has_done_cb ctx) DoneCb (sm\<lparr>portValid := True\<rparr>) else sm)"
  have s: "suppPortStatus s = Unauthorized" "eapSuccess s = eapSuccess sm"
    "portValid s \<longleftrightarrow> portValid sm \<or> eapSuccess sm \<and> accept_802_1x_keys (conf sm) \<and> required_keys (conf sm) = 0"
    using assms(1) by (auto simp: s_def emit_if_def emit_def)
  have "eapSuccess s \<and> portValid s"
    using assms(2) s(1) unfolding pae_step_authenticating_def Let_def s_def [symmetric]
    by (simp add: port_status_parts split: if_splits)
  then show ?thesis using s by auto
qed

text \<open>
  C14: one round of the machines opens a closed port only with the lower layer up, no initialisation
  and no unsent logoff, and then only if the port is forced open, if the authenticator stayed
  silent for all start frames and the port is already valid, or if authentication succeeded with
  the keys in place or none required.
\<close>

theorem eapol_port_opens_only:
  assumes "suppPortStatus sm = Unauthorized" "suppPortStatus (step_once ctx ops sm) = Authorized"
  shows "portEnabled sm \<and> \<not> initialize sm \<and> (userLogoff sm \<longrightarrow> logoffSent sm) \<and> opens_port sm"
proof -
  let ?s = "sm\<lparr>changed := False\<rparr>"
  have st: "suppPortStatus ?s = Unauthorized" "suppPortStatus (SUPP_PAE_Step ctx ?s) = Authorized"
    using assms by (simp_all add: status_step_once)
  have auth: "suppPortStatus (pae_step_authenticating ctx ?s) = Authorized \<Longrightarrow> opens_port ?s" if "SUPP_PAE_state ?s = PAE_AUTHENTICATING"
    using authenticating_opens [OF st(1)] that by (simp add: opens_port_def)
  have "opens_port ?s \<and> portEnabled ?s \<and> \<not> initialize ?s \<and> (userLogoff ?s \<longrightarrow> logoffSent ?s)"
    using st(2) auth unfolding SUPP_PAE_Step_def
    by (auto simp: port_status_parts st(1) opens_port_def split: if_splits supp_pae.splits)
  then show ?thesis by (simp add: opens_port_def)
qed

theorem eapol_port_opens_only_witness:
  "\<exists>sm :: unit eapol_sm. suppPortStatus sm = Unauthorized \<and> suppPortStatus (step_once demo_ctx demo_ops sm) = Authorized \<and>
     opens_port sm"
proof -
  let ?sm = "(eapol_sm_zero ())\<lparr>portControl := ForceAuthorized, portEnabled := True\<rparr>"
  have "suppPortStatus ?sm = Unauthorized" by (simp add: eapol_sm_zero_def)
  moreover have "suppPortStatus (step_once demo_ctx demo_ops ?sm) = Authorized"
    by (simp add: status_step_once SUPP_PAE_Step_def eapol_sm_zero_def port_status_parts)
  ultimately show ?thesis using eapol_port_opens_only [of ?sm demo_ctx demo_ops] by blast
qed

text \<open>The EAP peer reads \<^verbatim>\<open>portEnabled\<close> and never writes it.\<close>

definition eap_keeps_port :: "'e eap_ops \<Rightarrow> bool" where
  "eap_keeps_port ops \<longleftrightarrow> (\<forall>sm b. SetBool V_portEnabled b \<notin>
     set (snd (fst (eap_peer_sm_step ops sm))) \<union> set (snd (eap_sm_abort ops sm)) \<union>
     set (snd (eap_notify_success ops sm)) \<union> set (snd (eap_notify_lower_layer_success ops sm)))"

lemma portEnabled_callback: "\<forall>b. c \<noteq> SetBool V_portEnabled b \<Longrightarrow> portEnabled (eap_callback ctx sm c) = portEnabled sm"
  by (cases c) (auto simp: eap_callback_def eapol_sm_set_bool_def eapol_sm_set_int_def eapol_enable_timer_tick_def
      emit_def Let_def split: eapol_bool_var.split)

lemma portEnabled_after_eap: "\<forall>b. SetBool V_portEnabled b \<notin> set (snd r) \<Longrightarrow> portEnabled (after_eap ctx r sm) = portEnabled sm"
proof -
  assume a: "\<forall>b. SetBool V_portEnabled b \<notin> set (snd r)"
  obtain e calls where r: "r = (e, calls)" by (cases r)
  have "portEnabled (foldl (eap_callback ctx) (sm\<lparr>eap := e\<rparr>) calls) = portEnabled sm"
  proof (rule foldl_invariant [where P = "\<lambda>s. portEnabled s = portEnabled sm"])
    fix s :: "'a eapol_sm" and x assume "x \<in> set calls" "portEnabled s = portEnabled sm"
    moreover from this a r have "\<forall>b. x \<noteq> SetBool V_portEnabled b" by auto
    ultimately show "portEnabled (eap_callback ctx s x) = portEnabled sm" by (simp add: portEnabled_callback)
  qed simp
  then show ?thesis by (simp add: after_eap_def r)
qed

lemma portEnabled_key_rx:
  assumes "eap_keeps_port ops"
  shows "portEnabled (KEY_RX_Step ctx ops sm) = portEnabled sm"
proof -
  have k: "portEnabled (after_eap ctx (eap_notify_lower_layer_success ops s) s) = portEnabled s" for s
    using assms by (intro portEnabled_after_eap) (auto simp: eap_keeps_port_def)
  have i: "portEnabled (install_key ctx f d s) = portEnabled s" for f d and s :: "'a eapol_sm"
    by (simp add: install_key_def emit_if_def emit_def Let_def)
  have "portEnabled (eapol_sm_processKey ctx ops s) = portEnabled s" for s
    unfolding eapol_sm_processKey_def Let_def by (simp add: k i split: option.split prod.split)
  then show ?thesis by (simp add: KEY_RX_Step_def key_rx_KEY_RECEIVE_def key_rx_entry_def Let_def split: key_rx.split)
qed

lemma portEnabled_be:
  assumes "eap_keeps_port ops"
  shows "portEnabled (SUPP_BE_Step ctx ops sm) = portEnabled sm"
proof -
  have k: "portEnabled (after_eap ctx (eap_sm_abort ops s) s) = portEnabled s" for s
    using assms by (intro portEnabled_after_eap) (auto simp: eap_keeps_port_def)
  have "portEnabled (be_REQUEST g s) = portEnabled s" "portEnabled (be_SUCCESS ops g s) = portEnabled s"
    "portEnabled (be_FAIL g s) = portEnabled s" "portEnabled (be_TIMEOUT g s) = portEnabled s"
    "portEnabled (be_IDLE g s) = portEnabled s" "portEnabled (be_RECEIVE ctx g s) = portEnabled s"
    "portEnabled (be_INITIALIZE ctx ops g s) = portEnabled s" for g s
    by (simp_all add: be_entry_def be_REQUEST_def be_SUCCESS_def be_FAIL_def be_TIMEOUT_def be_IDLE_def be_RECEIVE_def
        be_INITIALIZE_def eapol_sm_abortSupp_def eapol_enable_timer_tick_def emit_def Let_def k)
  moreover have "portEnabled (be_RESPONSE ops g s) = portEnabled s" for g s
    by (simp add: be_RESPONSE_def be_entry_def eapol_sm_txSuppRsp_def emit_def Let_def split: prod.split option.split)
  ultimately show ?thesis by (simp add: SUPP_BE_Step_def split: supp_be.split)
qed

definition port_down :: "'e eapol_sm \<Rightarrow> bool" where
  "port_down sm \<longleftrightarrow> SUPP_PAE_state sm = PAE_DISCONNECTED \<and> suppPortStatus sm = Unauthorized \<and> \<not> portEnabled sm"

lemma port_down_once:
  assumes "eap_keeps_port ops" "\<not> portEnabled sm"
  shows "port_down (step_once ctx ops sm)"
proof -
  define a where "a = SUPP_PAE_Step ctx (sm\<lparr>changed := False\<rparr>)"
  have a: "SUPP_PAE_state a = PAE_DISCONNECTED" "suppPortStatus a = Unauthorized" "\<not> portEnabled a"
    using assms(2) by (simp_all add: a_def SUPP_PAE_Step_def pae_DISCONNECTED_def pae_entry_def
        eapol_sm_set_port_unauthorized_def emit_if_def emit_def Let_def)
  define b where "b = SUPP_BE_Step ctx ops (KEY_RX_Step ctx ops a)"
  have b: "port_part b = port_part a" "portEnabled b = portEnabled a"
    by (simp_all add: b_def port_part_be port_part_key_rx portEnabled_be portEnabled_key_rx assms(1))
  obtain r res where r: "eap_peer_sm_step ops b = (r, res)" by (cases "eap_peer_sm_step ops b")
  have "SetBool V_portEnabled v \<notin> set (snd (fst (eap_peer_sm_step ops b)))" for v
    using assms(1) unfolding eap_keeps_port_def by blast
  then have "portEnabled (after_eap ctx r b) = portEnabled b" by (intro portEnabled_after_eap) (simp add: r)
  moreover have "port_part (after_eap ctx r b) = port_part a" using b by simp
  ultimately show ?thesis using a b unfolding step_once_def Let_def a_def [symmetric] b_def [symmetric]
    by (simp add: port_down_def port_part_def r)
qed

lemma port_down_loop:
  "eap_keeps_port ops \<Longrightarrow> \<not> portEnabled sm \<Longrightarrow> port_down (step_loop (Suc n) ctx ops sm)"
proof (induction n arbitrary: sm)
  case (Suc n)
  then have "port_down (step_once ctx ops sm)" by (intro port_down_once)
  moreover from this have "\<not> portEnabled (step_once ctx ops sm)" by (simp add: port_down_def)
  ultimately show ?case using Suc.IH [OF Suc.prems(1)] unfolding step_loop.simps(2) [of "Suc n"] Let_def by simp
qed (simp add: port_down_once Let_def)

text \<open>
  C15: taking the lower layer down always ends in the disconnected state with the port closed,
  whatever the state before, when the EAP peer does not write \<^verbatim>\<open>portEnabled\<close> behind its back.
\<close>

theorem eapol_port_disable:
  assumes "eap_keeps_port ops"
  shows "port_down (eapol_handle ctx ops (PortEnabled False) sm)"
proof -
  have "port_down (step_loop 100 ctx ops s)" if "\<not> portEnabled s" for s
    using port_down_loop [OF assms that, of 99] by simp
  then show ?thesis
    by (simp add: eapol_handle_def eapol_sm_notify_portEnabled_def eapol_sm_step_def report_result_def
        port_down_def emit_def Let_def)
qed

theorem eapol_port_disable_witness:
  "port_down (eapol_handle demo_ctx demo_ops (PortEnabled False) ((eapol_sm_zero ())\<lparr>portEnabled := True, portValid := True\<rparr>))"
  by (rule eapol_port_disable) (simp add: eap_keeps_port_def demo_ops_def)

section \<open>Key frames\<close>

lemma memcmp_ge_be_val: "length xs = length ys \<Longrightarrow> memcmp_ge xs ys \<longleftrightarrow> be_val ys \<le> be_val xs"
proof (induction xs ys rule: memcmp_ge.induct)
  case (1 x xs y ys)
  show ?case
  proof (cases "x = y")
    case False
    have less: "be_val xs < 256 ^ length ys" "be_val ys < 256 ^ length ys"
      using be_val_bound [of xs] be_val_bound [of ys] 1(2) by simp_all
    have far: "a * n + u < b * n + w" if "a < b" "u < n" for a b n u w :: nat
    proof -
      have "a * n + u < (a + 1) * n" using that(2) by simp
      also have "\<dots> \<le> b * n" using that(1) by (intro mult_right_mono) simp_all
      finally show ?thesis by simp
    qed
    show ?thesis using False 1(2) far [of "unat y" "unat x" "be_val ys" "256 ^ length ys" "be_val xs"]
        far [of "unat x" "unat y" "be_val xs" "256 ^ length ys" "be_val ys"] less
      by (cases "y < x") (auto simp: word_less_nat_alt not_less unat_arith_simps)
  qed (use 1 in simp)
qed auto

definition wep_keys :: "eapol_out list \<Rightarrow> eapol_out list" where
  "wep_keys xs = filter (\<lambda>x. case x of SetWepKey _ _ _ \<Rightarrow> True | _ \<Rightarrow> False) xs"

text \<open>What the processing of a key frame looks at, besides the frame.\<close>

definition key_part :: "'e eapol_sm \<Rightarrow> eapol_config \<times> bool \<times> bytes \<times> eapol_out list" where
  "key_part sm = (conf sm, replay_counter_valid sm, last_replay_counter sm, wep_keys (outs sm))"

lemma key_part_callback: "key_part (eap_callback ctx sm c) = key_part sm"
  by (cases c) (simp_all add: eap_callback_def eapol_sm_set_bool_def eapol_sm_set_int_def eapol_enable_timer_tick_def
      emit_def key_part_def wep_keys_def Let_def split: eapol_bool_var.split)

lemma key_part_after_eap: "key_part (after_eap ctx r sm) = key_part sm"
proof -
  obtain e calls where r: "r = (e, calls)" by (cases r)
  have "key_part (foldl (eap_callback ctx) s calls) = key_part s" for s
    by (induction calls arbitrary: s) (simp_all add: key_part_callback)
  then have "key_part (after_eap ctx r sm) = key_part (sm\<lparr>eap := e\<rparr>)" by (simp add: after_eap_def r)
  then show ?thesis by (simp add: key_part_def)
qed

lemma install_key_parts:
  "replay_counter_valid (install_key ctx f d sm)" "last_replay_counter (install_key ctx f d sm) = replay_counter f"
  "wep_keys (outs (install_key ctx f d sm)) = wep_keys (outs sm) @
     (if has_set_wep_key ctx then [SetWepKey (key_index f AND 0x80 \<noteq> 0) (unat (key_index f AND 0x03)) d] else [])"
  by (simp_all add: install_key_def emit_if_def emit_def wep_keys_def Let_def)

text \<open>
  C12: a key reaches the driver only from an accepted, complete frame whose HMAC-MD5 verifies under
  the key of the EAP session and whose replay counter, read as a big-endian number, is greater than
  the last accepted one; then exactly one key is set and the counter is stored, so the same frame
  is not accepted twice.
\<close>

theorem eapol_key_install:
  assumes "last_rx_key sm = Some f" "length (last_replay_counter sm) = 8"
    and "wep_keys (outs (eapol_sm_processKey ctx ops sm)) \<noteq> wep_keys (outs sm)"
  shows "accept_802_1x_keys (conf sm) \<and> 48 \<le> length f \<and> 4 + hdr_length f \<le> length f \<and>
    (replay_counter_valid sm \<longrightarrow> be_val (last_replay_counter sm) < be_val (replay_counter f)) \<and>
    (\<exists>keydata el sl d.
       fetch_keydata ctx ops (after_eap ctx (eap_notify_lower_layer_success ops sm) sm) = Some (keydata, el, sl) \<and>
       frame_mac (take sl (drop 32 keydata)) f = key_signature f \<and>
       frame_datakey f (take 32 keydata) el = Some d \<and>
       wep_keys (outs (eapol_sm_processKey ctx ops sm)) =
         wep_keys (outs sm) @ [SetWepKey (key_index f AND 0x80 \<noteq> 0) (unat (key_index f AND 0x03)) d]) \<and>
    replay_counter_valid (eapol_sm_processKey ctx ops sm) \<and>
    last_replay_counter (eapol_sm_processKey ctx ops sm) = replay_counter f"
proof -
  define s where "s = after_eap ctx (eap_notify_lower_layer_success ops sm) sm"
  have part: "wep_keys (outs s) = wep_keys (outs sm)" "replay_counter_valid s = replay_counter_valid sm"
    "last_replay_counter s = last_replay_counter sm"
    using key_part_after_eap [of ctx "eap_notify_lower_layer_success ops sm" sm] by (simp_all add: s_def key_part_def)
  note P = eapol_sm_processKey_def [of ctx ops sm, unfolded assms(1) option.case Let_def, folded s_def]
  have ok: "accept_802_1x_keys (conf sm)" "48 \<le> length f" "4 + hdr_length f \<le> length f" "44 \<le> hdr_length f"
    using assms(3) by (auto simp: P split: if_splits)
  then obtain keydata el sl where k: "fetch_keydata ctx ops s = Some (keydata, el, sl)"
    using assms(3) by (auto simp: P part split: if_splits option.splits)
  have c: "\<not> (replay_counter_valid s \<and> memcmp_ge (last_replay_counter s) (replay_counter f))"
    and m: "frame_mac (take sl (drop 32 keydata)) f = key_signature f"
    using assms(3) ok by (auto simp: P k part split: if_splits)
  obtain d where d: "frame_datakey f (take 32 keydata) el = Some d"
    using assms(3) ok c m by (auto simp: P k part split: if_splits option.splits)
  have res: "eapol_sm_processKey ctx ops sm = install_key ctx f d s" using ok k c m d by (auto simp: P)
  have "length (replay_counter f) = 8" using ok by (simp add: replay_counter_def)
  then have "replay_counter_valid sm \<longrightarrow> be_val (last_replay_counter sm) < be_val (replay_counter f)"
    using c memcmp_ge_be_val [of "last_replay_counter sm" "replay_counter f"] assms(2) by (auto simp: part)
  moreover have "has_set_wep_key ctx" using assms(3) res part(1) by (auto simp: install_key_parts split: if_splits)
  ultimately show ?thesis using ok k m d res part unfolding s_def [symmetric] by (simp add: install_key_parts)
qed


text \<open>A broadcast key frame without key data, signed with the demo key.\<close>

definition demo_unsigned :: bytes where
  "demo_unsigned = [1, 3, 0, 44, 1, 0, 5, 0, 0, 0, 0, 0, 0, 0, 1] @ replicate 16 0 @ [1] @ replicate 16 0"

definition demo_frame :: bytes where
  "demo_frame = patch demo_unsigned 32 (frame_mac (replicate 32 7) demo_unsigned)"

lemma length_md5_vector: "md5_vector xs = Some d \<Longrightarrow> length d = 16"
proof -
  have "length (md5_out r) = 16" for r by (simp add: md5_out_def put_le32_def split: prod.split)
  then have "length (fst (MD5Final c)) = 16" for c by (simp add: MD5Final_def Let_def split: prod.split)
  moreover assume "md5_vector xs = Some d"
  ultimately show ?thesis by (auto simp: md5_vector_def bind_Some_eq)
qed

lemma length_frame_mac: "length (frame_mac k f) = 16"
  by (auto simp: frame_mac_def hmac_md5_def hmac_md5_vector_def Let_def bind_Some_eq
      split: option.splits if_splits dest: length_md5_vector)

lemma demo_frame_fields:
  "length demo_frame = 48" "hdr_length demo_frame = 44" "key_length demo_frame = 5"
  "frame_mac (replicate 32 7) demo_frame = key_signature demo_frame"
proof -
  define mac where "mac = frame_mac (replicate 32 7) demo_unsigned"
  have m: "length mac = 16" by (simp add: mac_def length_frame_mac)
  have f: "demo_frame = take 32 demo_unsigned @ mac"
    unfolding demo_frame_def mac_def [symmetric] by (simp add: patch_def m demo_unsigned_def)
  show "length demo_frame = 48" "hdr_length demo_frame = 44" "key_length demo_frame = 5"
    by (simp_all add: f m demo_unsigned_def hdr_length_def key_length_def get_be16_def)
  have "patch demo_frame 32 (replicate 16 0) = patch demo_unsigned 32 (replicate 16 0)"
    by (simp add: f m patch_def demo_unsigned_def)
  moreover have "hdr_length demo_frame = hdr_length demo_unsigned"
    by (simp add: f demo_unsigned_def hdr_length_def get_be16_def)
  ultimately have "frame_mac (replicate 32 7) demo_frame = mac" by (simp add: frame_mac_def mac_def)
  moreover have "key_signature demo_frame = mac" by (simp add: f m key_signature_def demo_unsigned_def)
  ultimately show "frame_mac (replicate 32 7) demo_frame = key_signature demo_frame" by simp
qed



theorem eapol_key_install_witness:
  "\<exists>sm. last_rx_key sm = Some demo_frame \<and>
     wep_keys (outs (eapol_sm_processKey demo_ctx demo_ops sm)) \<noteq> [] \<and>
     last_replay_counter (eapol_sm_processKey demo_ctx demo_ops sm) = replay_counter demo_frame"
proof -
  define sm where "sm = (eapol_sm_zero ())\<lparr>last_rx_key := Some demo_frame,
    conf := (conf (eapol_sm_zero ()))\<lparr>accept_802_1x_keys := True\<rparr>\<rparr>"
  have sm: "last_rx_key sm = Some demo_frame" "length (last_replay_counter sm) = 8" "wep_keys (outs sm) = []"
    "\<not> replay_counter_valid sm" "accept_802_1x_keys (conf sm)"
    by (simp_all add: sm_def eapol_sm_zero_def wep_keys_def)
  have k: "fetch_keydata demo_ctx demo_ops sm = Some (replicate 64 7, 32, 32)"
    by (simp add: fetch_keydata_def eapol_sm_get_key_def demo_ops_def)
  have d: "frame_datakey demo_frame (replicate 32 7) 32 = Some (replicate 5 7)"
    by (simp add: frame_datakey_def demo_frame_fields Let_def)
  have e: "after_eap demo_ctx (eap_notify_lower_layer_success demo_ops sm) sm = sm"
    by (simp add: after_eap_def demo_ops_def)
  have "eapol_sm_processKey demo_ctx demo_ops sm = install_key demo_ctx demo_frame (replicate 5 7) sm"
    using sm k d demo_frame_fields by (simp add: eapol_sm_processKey_def e Let_def)
  then have w: "wep_keys (outs (eapol_sm_processKey demo_ctx demo_ops sm)) \<noteq> wep_keys (outs sm)"
    by (simp add: install_key_parts demo_ctx_def)
  from eapol_key_install [OF sm(1,2) w] sm w show ?thesis by (intro exI [of _ sm]) simp
qed

text \<open>
  No work is lost by the limit of a hundred rounds: when the machines are still moving, the run
  is cancelled and registered again, and a pending result is always reported when there is a
  result callback.
\<close>

theorem eapol_step_rescheduled:
  "\<exists>pre post. outs (eapol_sm_step ctx ops sm) = pre @ post \<and> pre = outs (step_loop 100 ctx ops sm) \<and>
     (changed (eapol_sm_step ctx ops sm) \<longrightarrow> take 2 post = [CancelStep, RegisterStep]) \<and>
     cb_status (eapol_sm_step ctx ops sm) = (if has_cb ctx then CB_IN_PROGRESS else cb_status (step_loop 100 ctx ops sm))"
  by (auto simp: eapol_sm_step_def report_result_def emit_def Let_def)

theorem eapol_step_rescheduled_witness:
  "\<exists>pre post. outs (eapol_sm_step demo_ctx (demo_ops\<lparr>eap_peer_sm_step := \<lambda>_. (((), []), True)\<rparr>) (eapol_sm_zero ())) = pre @ post \<and>
     take 2 post = [CancelStep, RegisterStep]"
proof -
  let ?ops = "demo_ops\<lparr>eap_peer_sm_step := \<lambda>_. (((), []), True)\<rparr>"
  have once: "changed (step_once demo_ctx ?ops s)" for s by (simp add: step_once_def Let_def)
  have "changed (step_loop (Suc n) demo_ctx ?ops s)" for n s
    by (induction n arbitrary: s) (simp_all add: once Let_def)
  from this [of 99] have "changed (eapol_sm_step demo_ctx ?ops (eapol_sm_zero ()))"
    by (simp add: eapol_sm_step_def report_result_def emit_def Let_def del: step_loop.simps)
  then show ?thesis using eapol_step_rescheduled [of demo_ctx ?ops "eapol_sm_zero ()"] by metis
qed

section \<open>Timers and received frames\<close>


text \<open>The demo machine after the lower layer came up.\<close>

definition demo_up :: "unit eapol_sm option" where
  "demo_up = map_option (eapol_handle demo_ctx demo_ops (PortEnabled True)) (eapol_sm_init demo_ctx demo_ops (Some ()))"

lemma demo_up_reach:
  assumes "P demo_ctx" "demo_up = Some sm"
  shows "eapol_reach demo_ops P sm"
  using assms by (auto simp: demo_up_def intro: reach_init reach_event)



text \<open>
  The stored key frame is complete in every reachable state: whatever was received, it is an
  RC4 key frame of exactly the length its header says, key descriptor included, so the field
  accesses of the key processing stay inside it.
\<close>

theorem eapol_stored_frame:
  assumes "eapol_reach ops P sm" "last_rx_key sm = Some f"
  shows "48 \<le> length f \<and> length f = 4 + hdr_length f \<and> key_type f = 1"
  using frame_inv_reach [OF assms(1)] assms(2) by (simp add: frame_inv_def key_frame_ok_def)

text \<open>The frame with one byte behind it, received by the demo machine.\<close>

lemma demo_stores:
  "map_option (\<lambda>sm. last_rx_key (eapol_handle demo_ctx demo_ops (RxEapol [2, 0, 0, 0, 0, 1] (demo_unsigned @ [9])) sm)) demo_up
   = Some (Some demo_unsigned)"
  by code_simp

theorem eapol_stored_frame_witness:
  "\<exists>sm :: unit eapol_sm. last_rx_key sm = Some demo_unsigned \<and> length demo_unsigned = 4 + hdr_length demo_unsigned"
proof -
  obtain sm where up: "demo_up = Some sm"
    and sm: "last_rx_key (eapol_handle demo_ctx demo_ops (RxEapol [2, 0, 0, 0, 0, 1] (demo_unsigned @ [9])) sm) = Some demo_unsigned"
    using demo_stores by auto
  have "eapol_reach demo_ops (\<lambda>_. True) (eapol_handle demo_ctx demo_ops (RxEapol [2, 0, 0, 0, 0, 1] (demo_unsigned @ [9])) sm)"
    by (rule reach_event [OF demo_up_reach [OF _ up]]) simp_all
  from eapol_stored_frame [OF this sm] sm show ?thesis by blast
qed

end
