(* ===== verification/Aes.thy ===== *)
theory Aes
  imports AesTables
begin

text \<open>
  The AES block cipher (\<^verbatim>\<open>wpa_supplicant/src/crypto/aes-internal.c\<close>, \<^verbatim>\<open>aes-internal-enc.c\<close>,
  \<^verbatim>\<open>aes-internal-dec.c\<close>, macros of \<^verbatim>\<open>aes_i.h\<close>): key expansion for the three key sizes, table driven
  encryption and the equivalent inverse cipher. The array of round keys is the list of its
  words; what the code appends behind a moving \<^verbatim>\<open>rk\<close> pointer is appended to the list.
\<close>

section \<open>Table access\<close>

definition rotr :: "u32 \<Rightarrow> nat \<Rightarrow> u32" where
  "rotr val bits = drop_bit bits val OR push_bit (32 - bits) val"

definition RCON :: "nat \<Rightarrow> u32" where "RCON i = push_bit 24 (ucast (rcons ! i))"

definition idx3 :: "u32 \<Rightarrow> nat" where "idx3 w = unat (drop_bit 24 w AND 0xff)"
definition idx2 :: "u32 \<Rightarrow> nat" where "idx2 w = unat (drop_bit 16 w AND 0xff)"
definition idx1 :: "u32 \<Rightarrow> nat" where "idx1 w = unat (drop_bit 8 w AND 0xff)"
definition idx0 :: "u32 \<Rightarrow> nat" where "idx0 w = unat (w AND 0xff)"

definition TE0 :: "u32 \<Rightarrow> u32" where "TE0 w = Te0 ! idx3 w"
definition TE1 :: "u32 \<Rightarrow> u32" where "TE1 w = rotr (Te0 ! idx2 w) 8"
definition TE2 :: "u32 \<Rightarrow> u32" where "TE2 w = rotr (Te0 ! idx1 w) 16"
definition TE3 :: "u32 \<Rightarrow> u32" where "TE3 w = rotr (Te0 ! idx0 w) 24"
definition TE41 :: "u32 \<Rightarrow> u32" where "TE41 w = push_bit 8 (Te0 ! idx3 w) AND 0xff000000"
definition TE42 :: "u32 \<Rightarrow> u32" where "TE42 w = (Te0 ! idx2 w) AND 0x00ff0000"
definition TE43 :: "u32 \<Rightarrow> u32" where "TE43 w = (Te0 ! idx1 w) AND 0x0000ff00"
definition TE44 :: "u32 \<Rightarrow> u32" where "TE44 w = drop_bit 8 (Te0 ! idx0 w) AND 0x000000ff"
definition TE421 :: "u32 \<Rightarrow> u32" where "TE421 w = push_bit 8 (Te0 ! idx2 w) AND 0xff000000"
definition TE432 :: "u32 \<Rightarrow> u32" where "TE432 w = (Te0 ! idx1 w) AND 0x00ff0000"
definition TE443 :: "u32 \<Rightarrow> u32" where "TE443 w = (Te0 ! idx0 w) AND 0x0000ff00"
definition TE414 :: "u32 \<Rightarrow> u32" where "TE414 w = drop_bit 8 (Te0 ! idx3 w) AND 0x000000ff"
definition TE411 :: "u32 \<Rightarrow> u32" where "TE411 w = push_bit 8 (Te0 ! idx3 w) AND 0xff000000"
definition TE422 :: "u32 \<Rightarrow> u32" where "TE422 w = (Te0 ! idx2 w) AND 0x00ff0000"
definition TE433 :: "u32 \<Rightarrow> u32" where "TE433 w = (Te0 ! idx1 w) AND 0x0000ff00"
definition TE444 :: "u32 \<Rightarrow> u32" where "TE444 w = drop_bit 8 (Te0 ! idx0 w) AND 0x000000ff"
definition TE4 :: "u32 \<Rightarrow> u32" where "TE4 i = drop_bit 8 (Te0 ! unat i) AND 0x000000ff"

definition TD0 :: "u32 \<Rightarrow> u32" where "TD0 w = Td0 ! idx3 w"
definition TD1 :: "u32 \<Rightarrow> u32" where "TD1 w = rotr (Td0 ! idx2 w) 8"
definition TD2 :: "u32 \<Rightarrow> u32" where "TD2 w = rotr (Td0 ! idx1 w) 16"
definition TD3 :: "u32 \<Rightarrow> u32" where "TD3 w = rotr (Td0 ! idx0 w) 24"
definition TD41 :: "u32 \<Rightarrow> u32" where "TD41 w = push_bit 24 (ucast (Td4s ! idx3 w))"
definition TD42 :: "u32 \<Rightarrow> u32" where "TD42 w = push_bit 16 (ucast (Td4s ! idx2 w))"
definition TD43 :: "u32 \<Rightarrow> u32" where "TD43 w = push_bit 8 (ucast (Td4s ! idx1 w))"
definition TD44 :: "u32 \<Rightarrow> u32" where "TD44 w = ucast (Td4s ! idx0 w)"
definition TDb0 :: "u32 \<Rightarrow> u32" where "TDb0 i = Td0 ! idx0 i"
definition TDb1 :: "u32 \<Rightarrow> u32" where "TDb1 i = rotr (Td0 ! idx0 i) 8"
definition TDb2 :: "u32 \<Rightarrow> u32" where "TDb2 i = rotr (Td0 ! idx0 i) 16"
definition TDb3 :: "u32 \<Rightarrow> u32" where "TDb3 i = rotr (Td0 ! idx0 i) 24"

definition GETU32 :: "bytes \<Rightarrow> nat \<Rightarrow> u32" where
  "GETU32 pt i = push_bit 24 (ucast (pt ! i)) XOR push_bit 16 (ucast (pt ! (i + 1))) XOR
                 push_bit 8 (ucast (pt ! (i + 2))) XOR ucast (pt ! (i + 3))"

definition PUTU32 :: "u32 \<Rightarrow> bytes" where
  "PUTU32 st = [ucast (drop_bit 24 st), ucast (drop_bit 16 st), ucast (drop_bit 8 st), ucast st]"

section \<open>Key expansion\<close>

definition sub_rot :: "u32 \<Rightarrow> u32" where
  "sub_rot temp = TE421 temp XOR TE432 temp XOR TE443 temp XOR TE414 temp"

definition sub_word :: "u32 \<Rightarrow> u32" where
  "sub_word temp = TE411 temp XOR TE422 temp XOR TE433 temp XOR TE444 temp"

text \<open>The three loops; \<open>n\<close> counts the iterations left, \<open>i\<close> is the loop variable.\<close>

fun setup128 :: "nat \<Rightarrow> nat \<Rightarrow> u32 list \<Rightarrow> u32 list" where
  "setup128 0 i rk = rk"
| "setup128 (Suc n) i rk =
     (let p = drop (4 * i) rk;
          a = p ! 0 XOR sub_rot (p ! 3) XOR RCON i;
          b = p ! 1 XOR a;
          c = p ! 2 XOR b;
          d = p ! 3 XOR c
      in setup128 n (i + 1) (rk @ [a, b, c, d]))"

fun setup192 :: "nat \<Rightarrow> nat \<Rightarrow> u32 list \<Rightarrow> u32 list" where
  "setup192 0 i rk = rk"
| "setup192 (Suc n) i rk =
     (let p = drop (6 * i) rk;
          a = p ! 0 XOR sub_rot (p ! 5) XOR RCON i;
          b = p ! 1 XOR a;
          c = p ! 2 XOR b;
          d = p ! 3 XOR c
      in if i = 7 then rk @ [a, b, c, d]
         else
           let e = p ! 4 XOR d;
               f = p ! 5 XOR e
           in setup192 n (i + 1) (rk @ [a, b, c, d, e, f]))"

fun setup256 :: "nat \<Rightarrow> nat \<Rightarrow> u32 list \<Rightarrow> u32 list" where
  "setup256 0 i rk = rk"
| "setup256 (Suc n) i rk =
     (let p = drop (8 * i) rk;
          a = p ! 0 XOR sub_rot (p ! 7) XOR RCON i;
          b = p ! 1 XOR a;
          c = p ! 2 XOR b;
          d = p ! 3 XOR c
      in if i = 6 then rk @ [a, b, c, d]
         else
           let e = p ! 4 XOR sub_word d;
               f = p ! 5 XOR e;
               g = p ! 6 XOR f;
               h = p ! 7 XOR g
           in setup256 n (i + 1) (rk @ [a, b, c, d, e, f, g, h]))"

text \<open>The number of rounds with the round keys, or \<open>None\<close> for the return value -1.\<close>

definition rijndaelKeySetupEnc :: "bytes \<Rightarrow> nat \<Rightarrow> (nat \<times> u32 list) option" where
  "rijndaelKeySetupEnc key keyBits =
     (let rk = [GETU32 key 0, GETU32 key 4, GETU32 key 8, GETU32 key 12] in
      if keyBits = 128 then Some (10, setup128 10 0 rk)
      else
        let rk = rk @ [GETU32 key 16, GETU32 key 20] in
        if keyBits = 192 then Some (12, setup192 8 0 rk)
        else
          let rk = rk @ [GETU32 key 24, GETU32 key 28] in
          if keyBits = 256 then Some (14, setup256 7 0 rk)
          else None)"

text \<open>The decryption key: round keys in reverse order, all but the outer two mixed back.\<close>

definition swap_word :: "nat \<Rightarrow> nat \<Rightarrow> u32 list \<Rightarrow> u32 list" where
  "swap_word i j rk = rk[i := rk ! j, j := rk ! i]"

function invert_order :: "nat \<Rightarrow> nat \<Rightarrow> u32 list \<Rightarrow> u32 list" where
  "invert_order i j rk =
     (if i < j then
        invert_order (i + 4) (j - 4)
          (swap_word (i + 3) (j + 3) (swap_word (i + 2) (j + 2) (swap_word (i + 1) (j + 1) (swap_word i j rk))))
      else rk)"
  by pat_completeness auto
termination by (relation "measure (\<lambda>(i, j, rk). j - i)") auto

declare invert_order.simps [simp del]

definition inv_mix_word :: "u32 \<Rightarrow> u32" where
  "inv_mix_word w = TDb0 (TE4 (drop_bit 24 w)) XOR TDb1 (TE4 (drop_bit 16 w AND 0xff)) XOR
                    TDb2 (TE4 (drop_bit 8 w AND 0xff)) XOR TDb3 (TE4 (w AND 0xff))"

definition rijndaelKeySetupDec :: "bytes \<Rightarrow> nat \<Rightarrow> (nat \<times> u32 list) option" where
  "rijndaelKeySetupDec key keyBits =
     (case rijndaelKeySetupEnc key keyBits of
        None \<Rightarrow> None
      | Some (Nr, rk) \<Rightarrow>
          let rk = invert_order 0 (4 * Nr) rk
          in Some (Nr, take 4 rk @ map inv_mix_word (take (4 * (Nr - 1)) (drop 4 rk)) @ drop (4 * Nr) rk))"

section \<open>Rounds\<close>

type_synonym aes_state = "u32 \<times> u32 \<times> u32 \<times> u32"

text \<open>The macro \<^verbatim>\<open>ROUND(i,d,s)\<close> of the encryption; \<open>k\<close> is \<^verbatim>\<open>rk + 4 * i\<close>.\<close>

definition enc_round :: "u32 list \<Rightarrow> aes_state \<Rightarrow> aes_state" where
  "enc_round k s =
     (case s of (s0, s1, s2, s3) \<Rightarrow>
        (TE0 s0 XOR TE1 s1 XOR TE2 s2 XOR TE3 s3 XOR k ! 0,
         TE0 s1 XOR TE1 s2 XOR TE2 s3 XOR TE3 s0 XOR k ! 1,
         TE0 s2 XOR TE1 s3 XOR TE2 s0 XOR TE3 s1 XOR k ! 2,
         TE0 s3 XOR TE1 s0 XOR TE2 s1 XOR TE3 s2 XOR k ! 3))"

definition enc_last :: "u32 list \<Rightarrow> aes_state \<Rightarrow> aes_state" where
  "enc_last k t =
     (case t of (t0, t1, t2, t3) \<Rightarrow>
        (TE41 t0 XOR TE42 t1 XOR TE43 t2 XOR TE44 t3 XOR k ! 0,
         TE41 t1 XOR TE42 t2 XOR TE43 t3 XOR TE44 t0 XOR k ! 1,
         TE41 t2 XOR TE42 t3 XOR TE43 t0 XOR TE44 t1 XOR k ! 2,
         TE41 t3 XOR TE42 t0 XOR TE43 t1 XOR TE44 t2 XOR k ! 3))"

definition dec_round :: "u32 list \<Rightarrow> aes_state \<Rightarrow> aes_state" where
  "dec_round k s =
     (case s of (s0, s1, s2, s3) \<Rightarrow>
        (TD0 s0 XOR TD1 s3 XOR TD2 s2 XOR TD3 s1 XOR k ! 0,
         TD0 s1 XOR TD1 s0 XOR TD2 s3 XOR TD3 s2 XOR k ! 1,
         TD0 s2 XOR TD1 s1 XOR TD2 s0 XOR TD3 s3 XOR k ! 2,
         TD0 s3 XOR TD1 s2 XOR TD2 s1 XOR TD3 s0 XOR k ! 3))"

definition dec_last :: "u32 list \<Rightarrow> aes_state \<Rightarrow> aes_state" where
  "dec_last k t =
     (case t of (t0, t1, t2, t3) \<Rightarrow>
        (TD41 t0 XOR TD42 t3 XOR TD43 t2 XOR TD44 t1 XOR k ! 0,
         TD41 t1 XOR TD42 t0 XOR TD43 t3 XOR TD44 t2 XOR k ! 1,
         TD41 t2 XOR TD42 t1 XOR TD43 t0 XOR TD44 t3 XOR k ! 2,
         TD41 t3 XOR TD42 t2 XOR TD43 t1 XOR TD44 t0 XOR k ! 3))"

text \<open>
  The loop over two rounds at a time, for either direction: it ends in the middle of an
  iteration and leaves the moved \<^verbatim>\<open>rk\<close>. \<open>r\<close> is at least 1 whenever it starts.
\<close>

fun round_loop :: "(u32 list \<Rightarrow> aes_state \<Rightarrow> aes_state) \<Rightarrow> nat \<Rightarrow> u32 list \<Rightarrow> aes_state \<Rightarrow> aes_state \<times> u32 list" where
  "round_loop f 0 rk s = (s, rk)"
| "round_loop f (Suc r) rk s =
     (let t = f (drop 4 rk) s; rk = drop 8 rk
      in if r = 0 then (t, rk) else round_loop f r rk (f rk t))"

definition load_state :: "bytes \<Rightarrow> u32 list \<Rightarrow> aes_state" where
  "load_state pt rk = (GETU32 pt 0 XOR rk ! 0, GETU32 pt 4 XOR rk ! 1, GETU32 pt 8 XOR rk ! 2, GETU32 pt 12 XOR rk ! 3)"

definition store_state :: "aes_state \<Rightarrow> bytes" where
  "store_state s = (case s of (s0, s1, s2, s3) \<Rightarrow> PUTU32 s0 @ PUTU32 s1 @ PUTU32 s2 @ PUTU32 s3)"

definition rijndaelEncrypt :: "u32 list \<Rightarrow> nat \<Rightarrow> bytes \<Rightarrow> bytes" where
  "rijndaelEncrypt rk Nr pt =
     (case round_loop enc_round (Nr div 2) rk (load_state pt rk) of (t, rk) \<Rightarrow> store_state (enc_last rk t))"

definition rijndaelDecrypt :: "u32 list \<Rightarrow> nat \<Rightarrow> bytes \<Rightarrow> bytes" where
  "rijndaelDecrypt rk Nr ct =
     (case round_loop dec_round (Nr div 2) rk (load_state ct rk) of (t, rk) \<Rightarrow> store_state (dec_last rk t))"

section \<open>Contexts\<close>

text \<open>The allocated context: the round keys and, behind them, the number of rounds.\<close>

record aes_ctx =
  ctx_rk :: "u32 list"
  ctx_nr :: nat

definition aes_encrypt_init :: "bool \<Rightarrow> bytes \<Rightarrow> aes_ctx option" where
  "aes_encrypt_init mem key =
     (if \<not> mem then None
      else map_option (\<lambda>(n, w). \<lparr>ctx_rk = w, ctx_nr = n\<rparr>) (rijndaelKeySetupEnc key (length key * 8)))"

definition aes_encrypt :: "aes_ctx \<Rightarrow> bytes \<Rightarrow> bytes" where
  "aes_encrypt ctx plain = rijndaelEncrypt (ctx_rk ctx) (ctx_nr ctx) plain"

definition aes_decrypt_init :: "bool \<Rightarrow> bytes \<Rightarrow> aes_ctx option" where
  "aes_decrypt_init mem key =
     (if \<not> mem then None
      else map_option (\<lambda>(n, w). \<lparr>ctx_rk = w, ctx_nr = n\<rparr>) (rijndaelKeySetupDec key (length key * 8)))"

definition aes_decrypt :: "aes_ctx \<Rightarrow> bytes \<Rightarrow> bytes" where
  "aes_decrypt ctx crypt = rijndaelDecrypt (ctx_rk ctx) (ctx_nr ctx) crypt"

end
