(* ===== verification/AesProofs.thy ===== *)
theory AesProofs
  imports Aes
begin

text \<open>
  Proofs about \<^verbatim>\<open>Aes\<close>: the table look-ups are SubBytes, ShiftRows and MixColumns on words, the two
  round loops are iterations of one round, the decryption key is the reversed and mixed
  encryption key, and so decryption undoes encryption.
\<close>

section \<open>Words as bytes\<close>

lemma word4_xor: "word4 a b c d XOR word4 a' b' c' d' = word4 (a XOR a') (b XOR b') (c XOR c') (d XOR d')"
  by (rule bit_word_eqI) (auto simp: bit_word4 bit_simps)

lemma word4_exhaust: "\<exists>a b c d. w = word4 a b c d"
proof -
  have "w = word4 (ucast (drop_bit 24 w)) (ucast (drop_bit 16 w)) (ucast (drop_bit 8 w)) (ucast w)"
    by (rule bit_word_eqI) (auto simp: bit_word4 bit_simps)
  then show ?thesis by blast
qed

lemma word4_parts:
  "drop_bit 24 (word4 a b c d) AND 0xff = ucast a" "drop_bit 16 (word4 a b c d) AND 0xff = ucast b"
  "drop_bit 8 (word4 a b c d) AND 0xff = ucast c" "word4 a b c d AND 0xff = ucast d"
proof -
  have m: "0xff = (mask 8 :: u32)" by (simp add: mask_eq_exp_minus_1)
  show "drop_bit 24 (word4 a b c d) AND 0xff = ucast a" "drop_bit 16 (word4 a b c d) AND 0xff = ucast b"
    "drop_bit 8 (word4 a b c d) AND 0xff = ucast c" "word4 a b c d AND 0xff = ucast d"
    unfolding m by (rule bit_word_eqI, auto simp: bit_word4 bit_simps dest: bit_imp_le_length)+
qed

lemma word4_top: "drop_bit 24 (word4 a b c d) = ucast a"
  by (rule bit_word_eqI) (auto simp: bit_word4 bit_simps dest: bit_imp_le_length)

lemma unat_ucast_byte [simp]: "unat (ucast (b :: u8) :: u32) = unat b"
  by (simp add: unsigned_ucast_eq take_bit_nat_eq_self order_less_le_trans [OF unat_u8_less])

lemma idx_word4 [simp]:
  "idx3 (word4 a b c d) = unat a" "idx2 (word4 a b c d) = unat b"
  "idx1 (word4 a b c d) = unat c" "idx0 (word4 a b c d) = unat d"
  by (simp_all add: idx3_def idx2_def idx1_def idx0_def word4_parts)

lemma rotr_word4:
  "rotr (word4 a b c d) 8 = word4 d a b c" "rotr (word4 a b c d) 16 = word4 c d a b"
  "rotr (word4 a b c d) 24 = word4 b c d a"
  by (rule bit_word_eqI, auto simp: rotr_def bit_word4 bit_simps dest: bit_imp_le_length)+

lemma byte_masks:
  "push_bit 8 (word4 a b c d) AND 0xff000000 = word4 b 0 0 0" "word4 a b c d AND 0x00ff0000 = word4 0 b 0 0"
  "word4 a b c d AND 0x0000ff00 = word4 0 0 c 0" "drop_bit 8 (word4 a b c d) AND 0x000000ff = word4 0 0 0 c"
proof -
  have push: "push_bit 8 (word4 a b c d) = word4 b c d 0" and drop: "drop_bit 8 (word4 a b c d) = word4 0 a b c"
    by (rule bit_word_eqI, auto simp: bit_word4 bit_simps dest: bit_imp_le_length)+
  have m: "(0xff000000 :: u32) = word4 0xff 0 0 0" "(0x00ff0000 :: u32) = word4 0 0xff 0 0"
    "(0x0000ff00 :: u32) = word4 0 0 0xff 0" "(0x000000ff :: u32) = word4 0 0 0 0xff"
    by (simp_all add: word4_def)
  have all: "x AND 0xff = x" for x :: u8
  proof -
    have m8: "(0xff :: u8) = mask 8" by (simp add: mask_eq_exp_minus_1)
    show ?thesis unfolding m8 by (rule bit_word_eqI) (auto simp: bit_simps dest: bit_imp_le_length)
  qed
  show "push_bit 8 (word4 a b c d) AND 0xff000000 = word4 b 0 0 0" "word4 a b c d AND 0x00ff0000 = word4 0 b 0 0"
    "word4 a b c d AND 0x0000ff00 = word4 0 0 c 0" "drop_bit 8 (word4 a b c d) AND 0x000000ff = word4 0 0 0 c"
    by (simp_all add: push drop m word4_and all)
qed

lemma GETU32_word4: "GETU32 p i = word4 (p ! i) (p ! (i + 1)) (p ! (i + 2)) (p ! (i + 3))"
  by (rule bit_word_eqI) (auto simp: GETU32_def bit_word4 bit_simps dest: bit_imp_le_length)

lemma PUTU32_word4: "PUTU32 (word4 a b c d) = [a, b, c, d]"
proof -
  have "ucast (drop_bit 24 (word4 a b c d)) = a" "ucast (drop_bit 16 (word4 a b c d)) = b"
    "ucast (drop_bit 8 (word4 a b c d)) = c" "ucast (word4 a b c d) = d"
    by (rule bit_word_eqI, auto simp: bit_word4 bit_simps dest: bit_imp_le_length)+
  then show ?thesis by (simp add: PUTU32_def)
qed

section \<open>The tables on words\<close>

definition mix_word :: "u32 \<Rightarrow> u32" where
  "mix_word w = (let a = ucast (drop_bit 24 w); b = ucast (drop_bit 16 w); c = ucast (drop_bit 8 w); d = ucast w
     in word4 (xtime a XOR xtime b XOR b XOR c XOR d) (a XOR xtime b XOR xtime c XOR c XOR d)
              (a XOR b XOR xtime c XOR xtime d XOR d) (xtime a XOR a XOR b XOR c XOR xtime d))"

lemma word4_ucasts:
  "ucast (drop_bit 24 (word4 a b c d)) = a" "ucast (drop_bit 16 (word4 a b c d)) = b"
  "ucast (drop_bit 8 (word4 a b c d)) = c" "ucast (word4 a b c d) = d"
  using PUTU32_word4 [of a b c d] by (simp_all add: PUTU32_def)

lemma mix_word4:
  "mix_word (word4 a b c d) =
     word4 (xtime a XOR xtime b XOR b XOR c XOR d) (a XOR xtime b XOR xtime c XOR c XOR d)
           (a XOR b XOR xtime c XOR xtime d XOR d) (xtime a XOR a XOR b XOR c XOR xtime d)"
  by (simp add: mix_word_def word4_ucasts)

lemmas te_defs = TE0_def TE1_def TE2_def TE3_def TE41_def TE42_def TE43_def TE44_def
lemmas td_defs = TD0_def TD1_def TD2_def TD3_def TD41_def TD42_def TD43_def TD44_def

lemma te_column:
  "TE0 (word4 a0 b0 c0 d0) XOR TE1 (word4 a1 b1 c1 d1) XOR TE2 (word4 a2 b2 c2 d2) XOR TE3 (word4 a3 b3 c3 d3) =
   mix_word (word4 (sbox a0) (sbox b1) (sbox c2) (sbox d3))"
  by (simp add: te_defs Te0_entry rotr_word4 word4_xor mix_word4 ac_simps)

lemma te_last:
  "TE41 (word4 a0 b0 c0 d0) XOR TE42 (word4 a1 b1 c1 d1) XOR TE43 (word4 a2 b2 c2 d2) XOR TE44 (word4 a3 b3 c3 d3) =
   word4 (sbox a0) (sbox b1) (sbox c2) (sbox d3)"
  by (simp add: te_defs Te0_entry byte_masks word4_xor)

definition imix4 :: "u8 \<Rightarrow> u8 \<Rightarrow> u8 \<Rightarrow> u8 \<Rightarrow> u32" where
  "imix4 a b c d =
     word4 (mul14 a XOR mul11 b XOR mul13 c XOR mul9 d) (mul9 a XOR mul14 b XOR mul11 c XOR mul13 d)
           (mul13 a XOR mul9 b XOR mul14 c XOR mul11 d) (mul11 a XOR mul13 b XOR mul9 c XOR mul14 d)"

lemma td_column:
  "TD0 (word4 a0 b0 c0 d0) XOR TD1 (word4 a1 b1 c1 d1) XOR TD2 (word4 a2 b2 c2 d2) XOR TD3 (word4 a3 b3 c3 d3) =
   imix4 (inv_sbox a0) (inv_sbox b1) (inv_sbox c2) (inv_sbox d3)"
  by (simp add: td_defs Td0_entry rotr_word4 word4_xor imix4_def ac_simps)

lemma td_last:
  "TD41 (word4 a0 b0 c0 d0) XOR TD42 (word4 a1 b1 c1 d1) XOR TD43 (word4 a2 b2 c2 d2) XOR TD44 (word4 a3 b3 c3 d3) =
   word4 (inv_sbox a0) (inv_sbox b1) (inv_sbox c2) (inv_sbox d3)"
proof -
  have "push_bit 24 (ucast x) = word4 x 0 0 0" "push_bit 16 (ucast x) = word4 0 x 0 0"
    "push_bit 8 (ucast x) = word4 0 0 x 0" "ucast x = word4 0 0 0 x" for x
    by (simp_all add: word4_def)
  then show ?thesis by (simp add: td_defs inv_sbox_def [symmetric] word4_xor)
qed

lemma inv_mix_word4: "inv_mix_word (word4 a b c d) = imix4 a b c d"
proof -
  have te4: "TE4 (ucast x) = word4 0 0 0 (sbox x)" for x by (simp add: TE4_def Te0_entry byte_masks)
  show ?thesis unfolding inv_mix_word_def word4_parts word4_top te4
    by (simp add: TDb0_def TDb1_def TDb2_def TDb3_def Td0_entry rotr_word4 word4_xor imix4_def ac_simps)
qed

lemma xor_self_cancel: "a XOR a = 0" "a XOR (a XOR b) = b" for a b :: u8
  by (simp_all flip: xor.assoc)

lemma imix_mix: "inv_mix_word (mix_word w) = w"
proof -
  obtain a b c d where w: "w = word4 a b c d" using word4_exhaust by blast
  show ?thesis
    by (simp add: w mix_word4 inv_mix_word4 imix4_def mul9_def mul11_def mul13_def mul14_def xtime_xor
        xor_self_cancel xor.assoc xor.left_commute xor.commute)
qed

lemma imix_xor: "inv_mix_word (v XOR w) = inv_mix_word v XOR inv_mix_word w"
proof -
  obtain a b c d where v: "v = word4 a b c d" using word4_exhaust by blast
  obtain a' b' c' d' where w: "w = word4 a' b' c' d'" using word4_exhaust by blast
  show ?thesis
    by (simp add: v w word4_xor inv_mix_word4 imix4_def mul9_def mul11_def mul13_def mul14_def xtime_xor
        xor.assoc xor.left_commute xor.commute)
qed


section \<open>Rounds\<close>

definition xor4 :: "aes_state \<Rightarrow> aes_state \<Rightarrow> aes_state" where
  "xor4 k s = (case (k, s) of ((k0, k1, k2, k3), (s0, s1, s2, s3)) \<Rightarrow> (s0 XOR k0, s1 XOR k1, s2 XOR k2, s3 XOR k3))"

definition map4 :: "(u32 \<Rightarrow> u32) \<Rightarrow> aes_state \<Rightarrow> aes_state" where
  "map4 f s = (case s of (s0, s1, s2, s3) \<Rightarrow> (f s0, f s1, f s2, f s3))"

definition sub_shift :: "aes_state \<Rightarrow> aes_state" where "sub_shift s = enc_last [0, 0, 0, 0] s"

definition inv_shift_sub :: "aes_state \<Rightarrow> aes_state" where "inv_shift_sub s = dec_last [0, 0, 0, 0] s"

definition key_at :: "u32 list \<Rightarrow> nat \<Rightarrow> aes_state" where
  "key_at rk i = (rk ! (4 * i), rk ! (4 * i + 1), rk ! (4 * i + 2), rk ! (4 * i + 3))"

lemma te_mix: "TE0 w XOR TE1 x XOR TE2 y XOR TE3 z = mix_word (TE41 w XOR TE42 x XOR TE43 y XOR TE44 z)"
  using word4_exhaust [of w] word4_exhaust [of x] word4_exhaust [of y] word4_exhaust [of z]
  by (metis te_column te_last)

lemma td_mix: "TD0 w XOR TD1 x XOR TD2 y XOR TD3 z = inv_mix_word (TD41 w XOR TD42 x XOR TD43 y XOR TD44 z)"
  using word4_exhaust [of w] word4_exhaust [of x] word4_exhaust [of y] word4_exhaust [of z]
  by (metis td_column td_last inv_mix_word4)

lemma te_mix_key: "TE0 w XOR TE1 x XOR TE2 y XOR TE3 z XOR k = mix_word (TE41 w XOR TE42 x XOR TE43 y XOR TE44 z) XOR k"
  by (simp flip: te_mix add: xor.assoc)

lemma td_mix_key: "TD0 w XOR TD1 x XOR TD2 y XOR TD3 z XOR k = inv_mix_word (TD41 w XOR TD42 x XOR TD43 y XOR TD44 z) XOR k"
  by (simp flip: td_mix add: xor.assoc)

lemma rounds_at:
  assumes "4 * i + 4 \<le> length rk"
  shows "enc_round (drop (4 * i) rk) s = xor4 (key_at rk i) (map4 mix_word (sub_shift s))"
    and "enc_last (drop (4 * i) rk) s = xor4 (key_at rk i) (sub_shift s)"
    and "dec_round (drop (4 * i) rk) s = xor4 (key_at rk i) (map4 inv_mix_word (inv_shift_sub s))"
    and "dec_last (drop (4 * i) rk) s = xor4 (key_at rk i) (inv_shift_sub s)"
proof -
  obtain s0 s1 s2 s3 where s: "s = (s0, s1, s2, s3)" by (metis prod.exhaust)
  have key: "drop (4 * i) rk ! 0 = rk ! (4 * i)" "drop (4 * i) rk ! 1 = rk ! (4 * i + 1)"
    "drop (4 * i) rk ! 2 = rk ! (4 * i + 2)" "drop (4 * i) rk ! 3 = rk ! (4 * i + 3)"
    using assms by simp_all
  have four: "[x, x, x, x] ! 0 = x" "[x, x, x, x] ! 1 = x" "[x, x, x, x] ! 2 = x" "[x, x, x, x] ! 3 = x" for x :: u32
    by simp_all
  note defs = sub_shift_def inv_shift_sub_def xor4_def map4_def key_at_def s prod.case key four
  show "enc_round (drop (4 * i) rk) s = xor4 (key_at rk i) (map4 mix_word (sub_shift s))"
    unfolding enc_round_def enc_last_def defs te_mix_key by simp
  show "enc_last (drop (4 * i) rk) s = xor4 (key_at rk i) (sub_shift s)"
    unfolding enc_last_def defs by (simp add: xor.assoc)
  show "dec_round (drop (4 * i) rk) s = xor4 (key_at rk i) (map4 inv_mix_word (inv_shift_sub s))"
    unfolding dec_round_def dec_last_def defs td_mix_key by simp
  show "dec_last (drop (4 * i) rk) s = xor4 (key_at rk i) (inv_shift_sub s)"
    unfolding dec_last_def defs by (simp add: xor.assoc)
qed

lemma inv_sub_shift [simp]: "inv_shift_sub (sub_shift s) = s"
proof -
  obtain w x y z where s: "s = (w, x, y, z)" by (metis prod.exhaust)
  obtain a0 b0 c0 d0 where w: "w = word4 a0 b0 c0 d0" using word4_exhaust by blast
  obtain a1 b1 c1 d1 where x: "x = word4 a1 b1 c1 d1" using word4_exhaust by blast
  obtain a2 b2 c2 d2 where y: "y = word4 a2 b2 c2 d2" using word4_exhaust by blast
  obtain a3 b3 c3 d3 where z: "z = word4 a3 b3 c3 d3" using word4_exhaust by blast
  have "sub_shift s = (word4 (sbox a0) (sbox b1) (sbox c2) (sbox d3), word4 (sbox a1) (sbox b2) (sbox c3) (sbox d0),
      word4 (sbox a2) (sbox b3) (sbox c0) (sbox d1), word4 (sbox a3) (sbox b0) (sbox c1) (sbox d2))"
    by (simp add: sub_shift_def enc_last_def s w x y z te_last)
  then show ?thesis by (simp add: inv_shift_sub_def dec_last_def td_last s w x y z)
qed

lemma xor4_cancel [simp]: "xor4 k (xor4 k s) = s"
  by (cases k; cases s) (simp add: xor4_def split: prod.split)

lemma map4_imix: "map4 inv_mix_word (xor4 k (map4 mix_word s)) = xor4 (map4 inv_mix_word k) s"
  by (cases k; cases s) (simp add: xor4_def map4_def imix_xor imix_mix split: prod.split)

text \<open>\<open>n\<close> rounds with the keys from \<open>i\<close> on.\<close>

fun iter_rounds :: "(aes_state \<Rightarrow> aes_state \<Rightarrow> aes_state) \<Rightarrow> u32 list \<Rightarrow> nat \<Rightarrow> nat \<Rightarrow> aes_state \<Rightarrow> aes_state" where
  "iter_rounds g rk i 0 s = s"
| "iter_rounds g rk i (Suc n) s = g (key_at rk (i + n)) (iter_rounds g rk i n s)"

lemma iter_rounds_first: "iter_rounds g rk i (Suc n) s = iter_rounds g rk (Suc i) n (g (key_at rk i) s)"
  by (induction n) simp_all

lemma round_loop_iter:
  assumes "\<And>i s. 4 * i + 4 \<le> length rk \<Longrightarrow> f (drop (4 * i) rk) s = g (key_at rk i) s"
  shows "4 * (j + 2 * r + 2) \<le> length rk \<Longrightarrow>
    round_loop f (Suc r) (drop (4 * j) rk) s = (iter_rounds g rk (j + 1) (2 * r + 1) s, drop (4 * (j + 2 * r + 2)) rk)"
proof (induction r arbitrary: j s)
  case 0
  then show ?case using assms [of "j + 1" s] by (simp add: Let_def add.commute)
next
  case (Suc r)
  let ?t = "g (key_at rk (j + 2)) (g (key_at rk (j + 1)) s)"
  have "4 * (j + 1) + 4 \<le> length rk" "4 * (j + 2) + 4 \<le> length rk" using Suc.prems by simp_all
  note eq = assms [OF this(1), of s] assms [OF this(2), of "g (key_at rk (j + 1)) s"]
  have "round_loop f (Suc (Suc r)) (drop (4 * j) rk) s =
      round_loop f (Suc r) (drop (4 * (j + 2)) rk) (f (drop (4 * (j + 2)) rk) (f (drop (4 * (j + 1)) rk) s))"
    by (simp add: Let_def add.commute)
  also have "\<dots> = round_loop f (Suc r) (drop (4 * (j + 2)) rk) ?t" unfolding eq ..
  also have "\<dots> = (iter_rounds g rk (j + 3) (2 * r + 1) ?t, drop (4 * (j + 2 + 2 * r + 2)) rk)"
    using Suc.IH [of "j + 2" ?t] Suc.prems by (simp add: numeral_3_eq_3)
  also have "iter_rounds g rk (j + 3) (2 * r + 1) ?t = iter_rounds g rk (j + 1) (2 * Suc r + 1) s"
    using iter_rounds_first [of g rk "j + 2" "2 * r + 1"] iter_rounds_first [of g rk "j + 1" "2 * r + 2"]
    by (simp add: numeral_3_eq_3 numeral_2_eq_2)
  finally show ?case by (simp add: add.commute add.left_commute)
qed

definition enc_g :: "aes_state \<Rightarrow> aes_state \<Rightarrow> aes_state" where "enc_g k s = xor4 k (map4 mix_word (sub_shift s))"
definition dec_g :: "aes_state \<Rightarrow> aes_state \<Rightarrow> aes_state" where "dec_g k s = xor4 k (map4 inv_mix_word (inv_shift_sub s))"

definition words4 :: "bytes \<Rightarrow> aes_state" where
  "words4 b = (GETU32 b 0, GETU32 b 4, GETU32 b 8, GETU32 b 12)"

lemma load_state_eq: "load_state pt rk = xor4 (key_at rk 0) (words4 pt)"
  by (simp add: load_state_def xor4_def key_at_def words4_def eval_nat_numeral)

lemma encrypt_rounds:
  assumes "even Nr" "0 < Nr" "length rk = 4 * (Nr + 1)"
  shows "rijndaelEncrypt rk Nr pt =
      store_state (xor4 (key_at rk Nr) (sub_shift (iter_rounds enc_g rk 1 (Nr - 1) (xor4 (key_at rk 0) (words4 pt)))))"
    and "rijndaelDecrypt rk Nr pt =
      store_state (xor4 (key_at rk Nr) (inv_shift_sub (iter_rounds dec_g rk 1 (Nr - 1) (xor4 (key_at rk 0) (words4 pt)))))"
proof -
  from \<open>even Nr\<close> obtain k where k: "Nr = 2 * k" by (elim evenE)
  define r where "r = k - 1"
  have Nr: "Nr = 2 * r + 2" using k \<open>0 < Nr\<close> by (simp add: r_def)
  then have half: "Nr div 2 = Suc r" by simp
  have le: "4 * (0 + 2 * r + 2) \<le> length rk" "4 * Nr + 4 \<le> length rk" using assms(3) Nr by simp_all
  have "round_loop enc_round (Suc r) (drop (4 * 0) rk) s =
      (iter_rounds enc_g rk (0 + 1) (2 * r + 1) s, drop (4 * (0 + 2 * r + 2)) rk)" for s
    by (rule round_loop_iter [OF _ le(1)]) (simp only: enc_g_def rounds_at(1))
  then have enc: "round_loop enc_round (Nr div 2) rk s = (iter_rounds enc_g rk 1 (Nr - 1) s, drop (4 * Nr) rk)" for s
    by (simp add: half Nr)
  have "round_loop dec_round (Suc r) (drop (4 * 0) rk) s =
      (iter_rounds dec_g rk (0 + 1) (2 * r + 1) s, drop (4 * (0 + 2 * r + 2)) rk)" for s
    by (rule round_loop_iter [OF _ le(1)]) (simp only: dec_g_def rounds_at(3))
  then have dec: "round_loop dec_round (Nr div 2) rk s = (iter_rounds dec_g rk 1 (Nr - 1) s, drop (4 * Nr) rk)" for s
    by (simp add: half Nr)
  show "rijndaelEncrypt rk Nr pt =
      store_state (xor4 (key_at rk Nr) (sub_shift (iter_rounds enc_g rk 1 (Nr - 1) (xor4 (key_at rk 0) (words4 pt)))))"
    unfolding rijndaelEncrypt_def enc load_state_eq prod.case rounds_at(2) [OF le(2)] ..
  show "rijndaelDecrypt rk Nr pt =
      store_state (xor4 (key_at rk Nr) (inv_shift_sub (iter_rounds dec_g rk 1 (Nr - 1) (xor4 (key_at rk 0) (words4 pt)))))"
    unfolding rijndaelDecrypt_def dec load_state_eq prod.case rounds_at(4) [OF le(2)] ..
qed


section \<open>The decryption key\<close>

definition swap4 :: "nat \<Rightarrow> nat \<Rightarrow> u32 list \<Rightarrow> u32 list" where
  "swap4 i j rk = swap_word (i + 3) (j + 3) (swap_word (i + 2) (j + 2) (swap_word (i + 1) (j + 1) (swap_word i j rk)))"

lemma length_swap_word [simp]: "length (swap_word i j rk) = length rk"
  by (simp add: swap_word_def)

lemma length_swap4 [simp]: "length (swap4 i j rk) = length rk"
  by (simp add: swap4_def)

lemma invert_order_swap4: "invert_order i j rk = (if i < j then invert_order (i + 4) (j - 4) (swap4 i j rk) else rk)"
  by (subst invert_order.simps) (simp only: swap4_def)

lemma nth_swap_word:
  assumes "i < length rk" "j < length rk"
  shows "swap_word i j rk ! n = rk ! (if n = i then j else if n = j then i else n)"
  using assms by (auto simp: swap_word_def nth_list_update)

lemma less4E: fixes m :: nat assumes "m < 4" obtains "m = 0" | "m = 1" | "m = 2" | "m = 3"
  using assms by linarith

lemma key_swap4:
  assumes "a < b" "4 * b + 4 \<le> length rk"
  shows "key_at (swap4 (4 * a) (4 * b) rk) k = key_at rk (if k = a then b else if k = b then a else k)"
proof -
  have "swap4 (4 * a) (4 * b) rk ! (4 * k + m) = rk ! (4 * (if k = a then b else if k = b then a else k) + m)"
    if "m < 4" for m
    using that assms by (elim less4E; auto simp: swap4_def nth_swap_word; presburger)
  from this [of 0] this [of 1] this [of 2] this [of 3] show ?thesis by (simp add: key_at_def)
qed

lemma length_invert_order [simp]: "length (invert_order i j rk) = length rk"
  by (induction i j rk rule: invert_order.induct) (subst invert_order_swap4, simp only: swap4_def [symmetric] length_swap4 split: if_split, blast)

lemma key_invert_order:
  "4 * b + 4 \<le> length rk \<Longrightarrow>
   key_at (invert_order (4 * a) (4 * b) rk) k = key_at rk (if a \<le> k \<and> k \<le> b then a + b - k else k)"
proof (induction "b - a" arbitrary: a b rk rule: less_induct)
  case less
  show ?case
  proof (cases "a < b")
    case False
    then show ?thesis by (subst invert_order_swap4) (auto simp: le_less)
  next
    case True
    have ix: "4 * a + 4 = 4 * (a + 1)" "4 * b - 4 = 4 * (b - 1)" using True by simp_all
    have "key_at (invert_order (4 * a) (4 * b) rk) k =
        key_at (invert_order (4 * (a + 1)) (4 * (b - 1)) (swap4 (4 * a) (4 * b) rk)) k"
      using True by (subst invert_order_swap4) (simp only: ix, simp)
    also have "\<dots> = key_at (swap4 (4 * a) (4 * b) rk) (if a + 1 \<le> k \<and> k \<le> b - 1 then a + 1 + (b - 1) - k else k)"
      using True less.prems by (intro less.hyps) auto
    also have "\<dots> = key_at rk (if a \<le> k \<and> k \<le> b then a + b - k else k)"
      unfolding key_swap4 [OF True less.prems] using True by (intro arg_cong [where f = "key_at rk"]) auto
    finally show ?thesis .
  qed
qed

definition mix_middle :: "nat \<Rightarrow> u32 list \<Rightarrow> u32 list" where
  "mix_middle Nr rk = take 4 rk @ map inv_mix_word (take (4 * (Nr - 1)) (drop 4 rk)) @ drop (4 * Nr) rk"

definition dec_keys :: "nat \<Rightarrow> u32 list \<Rightarrow> u32 list" where
  "dec_keys Nr rk = mix_middle Nr (invert_order 0 (4 * Nr) rk)"

lemma nth_mix_middle:
  assumes "length rk = 4 * (Nr + 1)" "0 < Nr" "n < 4 * (Nr + 1)"
  shows "mix_middle Nr rk ! n = (if 4 \<le> n \<and> n < 4 * Nr then inv_mix_word (rk ! n) else rk ! n)"
proof -
  have "4 * Nr + n - (4 + 4 * (Nr - 1)) = n" using assms(2) by simp
  then show ?thesis using assms by (auto simp: mix_middle_def nth_append)
qed

lemma key_mix_middle:
  assumes "length rk = 4 * (Nr + 1)" "0 < Nr" "i \<le> Nr"
  shows "key_at (mix_middle Nr rk) i = (if 0 < i \<and> i < Nr then map4 inv_mix_word (key_at rk i) else key_at rk i)"
  using assms unfolding key_at_def map4_def by (auto simp: nth_mix_middle)

lemma key_dec_keys:
  assumes "length rk = 4 * (Nr + 1)" "0 < Nr" "i \<le> Nr"
  shows "key_at (dec_keys Nr rk) i =
    (if 0 < i \<and> i < Nr then map4 inv_mix_word (key_at rk (Nr - i)) else key_at rk (Nr - i))"
proof -
  have "key_at (invert_order 0 (4 * Nr) rk) i = key_at rk (Nr - i)"
    using key_invert_order [of Nr rk 0 i] assms by simp
  then show ?thesis using assms by (auto simp: dec_keys_def key_mix_middle)
qed

lemma length_dec_keys: "length rk = 4 * (Nr + 1) \<Longrightarrow> 0 < Nr \<Longrightarrow> length (dec_keys Nr rk) = 4 * (Nr + 1)"
  by (simp add: dec_keys_def mix_middle_def)

section \<open>Decryption undoes encryption\<close>

lemma dec_g_undo: "dec_g (map4 inv_mix_word k) (sub_shift (enc_g k s)) = sub_shift s"
  by (simp add: dec_g_def enc_g_def map4_imix)

lemma dec_rounds_undo:
  assumes "length rk = 4 * (Nr + 1)"
  shows "n < Nr \<Longrightarrow> iter_rounds dec_g (dec_keys Nr rk) 1 n (sub_shift (iter_rounds enc_g rk 1 (Nr - 1) s)) =
    sub_shift (iter_rounds enc_g rk 1 (Nr - 1 - n) s)"
proof (induction n)
  case (Suc n)
  then have "Nr - 1 - n = Suc (Nr - 1 - Suc n)" and key: "Nr - (1 + n) = 1 + (Nr - 1 - Suc n)" by simp_all
  then show ?case using Suc assms by (simp add: key_dec_keys dec_g_undo)
qed simp

lemma words4_store: "words4 (store_state s) = s"
proof -
  obtain w x y z where s: "s = (w, x, y, z)" by (metis prod.exhaust)
  obtain a0 b0 c0 d0 where w: "w = word4 a0 b0 c0 d0" using word4_exhaust by blast
  obtain a1 b1 c1 d1 where x: "x = word4 a1 b1 c1 d1" using word4_exhaust by blast
  obtain a2 b2 c2 d2 where y: "y = word4 a2 b2 c2 d2" using word4_exhaust by blast
  obtain a3 b3 c3 d3 where z: "z = word4 a3 b3 c3 d3" using word4_exhaust by blast
  show ?thesis by (simp add: words4_def store_state_def s w x y z PUTU32_word4 GETU32_word4)
qed

lemma store_words4: "length b = 16 \<Longrightarrow> store_state (words4 b) = b"
  by (simp add: words4_def store_state_def PUTU32_word4 GETU32_word4 list_eq_iff_nth_eq nth_Cons' less_Suc_eq numeral_eq_Suc)

lemma length_store_state [simp]: "length (store_state s) = 16"
  by (simp add: store_state_def PUTU32_def split: prod.split)

lemma rijndael_roundtrip:
  assumes "even Nr" "0 < Nr" "length rk = 4 * (Nr + 1)" "length b = 16"
  shows "rijndaelDecrypt (dec_keys Nr rk) Nr (rijndaelEncrypt rk Nr b) = b"
  using assms dec_rounds_undo [OF assms(3), of "Nr - 1"]
  by (simp add: encrypt_rounds length_dec_keys words4_store key_dec_keys store_words4)

section \<open>Key sizes\<close>

lemma length_setup128: "length (setup128 n i rk) = length rk + 4 * n"
  by (induction n i rk rule: setup128.induct) (simp_all add: Let_def)

lemma length_setup192: "n + i = 8 \<Longrightarrow> 0 < n \<Longrightarrow> length (setup192 n i rk) = length rk + 6 * n - 2"
  by (induction n i rk rule: setup192.induct) (auto simp: Let_def)

lemma length_setup256: "n + i = 7 \<Longrightarrow> 0 < n \<Longrightarrow> length (setup256 n i rk) = length rk + 8 * n - 4"
  by (induction n i rk rule: setup256.induct) (auto simp: Let_def)

lemma key_setup_shape:
  assumes "rijndaelKeySetupEnc key bits = Some (Nr, rk)"
  shows "even Nr" "0 < Nr" "length rk = 4 * (Nr + 1)"
  using assms
  by (auto simp: rijndaelKeySetupEnc_def length_setup128 length_setup192 length_setup256 Let_def
      simp del: setup128.simps setup192.simps setup256.simps split: if_splits)

lemma key_setup_dec: "rijndaelKeySetupDec key bits = map_option (\<lambda>(Nr, rk). (Nr, dec_keys Nr rk)) (rijndaelKeySetupEnc key bits)"
  by (auto simp: rijndaelKeySetupDec_def dec_keys_def mix_middle_def Let_def split: option.split)

lemma key_setup_some: "(\<exists>r. rijndaelKeySetupEnc key bits = Some r) \<longleftrightarrow> bits \<in> {128, 192, 256}"
  by (auto simp: rijndaelKeySetupEnc_def Let_def)

lemma aes_init_some: "aes_encrypt_init True key = None \<longleftrightarrow> length key \<notin> {16, 24, 32}"
  by (auto simp: aes_encrypt_init_def rijndaelKeySetupEnc_def Let_def)

lemma aes_roundtrip_ctx:
  assumes "aes_encrypt_init mem key = Some e" "aes_decrypt_init mem key = Some d" "length b = 16"
  shows "aes_decrypt d (aes_encrypt e b) = b"
  using assms
  by (auto simp: aes_encrypt_init_def aes_decrypt_init_def aes_encrypt_def aes_decrypt_def key_setup_dec
      dest: key_setup_shape intro!: rijndael_roundtrip split: if_splits)

lemma length_aes_encrypt: "length (aes_encrypt e b) = 16"
  by (simp add: aes_encrypt_def rijndaelEncrypt_def split: prod.split)

lemma length_aes_decrypt: "length (aes_decrypt e b) = 16"
  by (simp add: aes_decrypt_def rijndaelDecrypt_def split: prod.split)

end
