(* ===== verification/AesModes.thy ===== *)
theory AesModes
  imports AesProofs ByteOps
begin

text \<open>
  Modes of operation of the block cipher: key wrap (\<^verbatim>\<open>crypto/aes-wrap.c\<close>, \<^verbatim>\<open>aes-unwrap.c\<close>), CBC
  (\<^verbatim>\<open>aes-cbc.c\<close>), counter mode (\<^verbatim>\<open>aes-ctr.c\<close>), a single block (\<^verbatim>\<open>aes-encblock.c\<close>) and OMAC1
  (\<^verbatim>\<open>aes-omac1.c\<close>). The code calls the cipher through a context; the loops take the block
  operation of that context as an argument. Functions return the C result with the buffer they
  write. \<open>mem\<close> says whether the context can be allocated.
\<close>

section \<open>Key wrap\<close>

text \<open>The counter is added to the low half of the integrity register.\<close>

definition xor_t :: "bytes \<Rightarrow> u32 \<Rightarrow> bytes" where
  "xor_t a t = a[7 := a ! 7 XOR ucast t, 6 := a ! 6 XOR ucast (drop_bit 8 t),
                 5 := a ! 5 XOR ucast (drop_bit 16 t), 4 := a ! 4 XOR ucast (drop_bit 24 t)]"

text \<open>One pass of the inner loop; \<open>i\<close> counts from 1, \<^verbatim>\<open>r\<close> points at block \<open>i - 1\<close>.\<close>

definition wrap_step :: "(bytes \<Rightarrow> bytes) \<Rightarrow> nat \<Rightarrow> nat \<Rightarrow> nat \<Rightarrow> bytes \<times> bytes \<Rightarrow> bytes \<times> bytes" where
  "wrap_step E n j i s =
     (case s of (a, r) \<Rightarrow>
        let b = E (a @ take 8 (drop (8 * (i - 1)) r))
        in (xor_t (take 8 b) (of_nat (n * j + i)), patch r (8 * (i - 1)) (drop 8 b)))"

fun wrap_row :: "(bytes \<Rightarrow> bytes) \<Rightarrow> nat \<Rightarrow> nat \<Rightarrow> nat \<Rightarrow> bytes \<times> bytes \<Rightarrow> bytes \<times> bytes" where
  "wrap_row E n j 0 s = s"
| "wrap_row E n j (Suc i) s = wrap_step E n j (Suc i) (wrap_row E n j i s)"

definition wrap_rows :: "(bytes \<Rightarrow> bytes) \<Rightarrow> nat \<Rightarrow> bytes \<times> bytes \<Rightarrow> bytes \<times> bytes" where
  "wrap_rows E n s = foldl (\<lambda>s j. wrap_row E n j n s) s [0..<6]"

definition aes_wrap :: "bool \<Rightarrow> bytes \<Rightarrow> nat \<Rightarrow> bytes \<Rightarrow> int \<times> bytes" where
  "aes_wrap mem kek n plain =
     (let a = replicate 8 0xa6; r = take (8 * n) plain in
      case aes_encrypt_init mem kek of
        None \<Rightarrow> (-1, a @ r)
      | Some ctx \<Rightarrow> (case wrap_rows (aes_encrypt ctx) n (a, r) of (a, r) \<Rightarrow> (0, a @ r)))"

definition unwrap_step :: "(bytes \<Rightarrow> bytes) \<Rightarrow> nat \<Rightarrow> nat \<Rightarrow> nat \<Rightarrow> bytes \<times> bytes \<Rightarrow> bytes \<times> bytes" where
  "unwrap_step D n j i s =
     (case s of (a, r) \<Rightarrow>
        let b = D (xor_t a (of_nat (n * j + i)) @ take 8 (drop (8 * (i - 1)) r))
        in (take 8 b, patch r (8 * (i - 1)) (drop 8 b)))"

fun unwrap_row :: "(bytes \<Rightarrow> bytes) \<Rightarrow> nat \<Rightarrow> nat \<Rightarrow> nat \<Rightarrow> bytes \<times> bytes \<Rightarrow> bytes \<times> bytes" where
  "unwrap_row D n j 0 s = s"
| "unwrap_row D n j (Suc i) s = unwrap_row D n j i (unwrap_step D n j (Suc i) s)"

definition unwrap_rows :: "(bytes \<Rightarrow> bytes) \<Rightarrow> nat \<Rightarrow> bytes \<times> bytes \<Rightarrow> bytes \<times> bytes" where
  "unwrap_rows D n s = foldl (\<lambda>s j. unwrap_row D n j n s) s (rev [0..<6])"

definition aes_unwrap :: "bool \<Rightarrow> bytes \<Rightarrow> nat \<Rightarrow> bytes \<Rightarrow> int \<times> bytes" where
  "aes_unwrap mem kek n cipher =
     (let a = take 8 cipher; r = take (8 * n) (drop 8 cipher) in
      case aes_decrypt_init mem kek of
        None \<Rightarrow> (-1, r)
      | Some ctx \<Rightarrow>
          (case unwrap_rows (aes_decrypt ctx) n (a, r) of
             (a, r) \<Rightarrow> (if list_all (\<lambda>i. a ! i = 0xa6) [0..<8] then 0 else -1, r)))"

section \<open>CBC\<close>

fun cbc_encrypt_loop :: "(bytes \<Rightarrow> bytes) \<Rightarrow> nat \<Rightarrow> bytes \<Rightarrow> bytes \<Rightarrow> bytes" where
  "cbc_encrypt_loop E 0 cbc pos = pos"
| "cbc_encrypt_loop E (Suc n) cbc pos =
     (let cbc = E (xor_bytes cbc (take 16 pos)) in cbc @ cbc_encrypt_loop E n cbc (drop 16 pos))"

definition aes_128_cbc_encrypt :: "bool \<Rightarrow> bytes \<Rightarrow> bytes \<Rightarrow> bytes \<Rightarrow> int \<times> bytes" where
  "aes_128_cbc_encrypt mem key iv data =
     (case aes_encrypt_init mem (take 16 key) of
        None \<Rightarrow> (-1, data)
      | Some ctx \<Rightarrow> (0, cbc_encrypt_loop (aes_encrypt ctx) (length data div 16) (take 16 iv) data))"

fun cbc_decrypt_loop :: "(bytes \<Rightarrow> bytes) \<Rightarrow> nat \<Rightarrow> bytes \<Rightarrow> bytes \<Rightarrow> bytes" where
  "cbc_decrypt_loop D 0 cbc pos = pos"
| "cbc_decrypt_loop D (Suc n) cbc pos =
     (let tmp = take 16 pos in xor_bytes (D tmp) cbc @ cbc_decrypt_loop D n tmp (drop 16 pos))"

definition aes_128_cbc_decrypt :: "bool \<Rightarrow> bytes \<Rightarrow> bytes \<Rightarrow> bytes \<Rightarrow> int \<times> bytes" where
  "aes_128_cbc_decrypt mem key iv data =
     (case aes_decrypt_init mem (take 16 key) of
        None \<Rightarrow> (-1, data)
      | Some ctx \<Rightarrow> (0, cbc_decrypt_loop (aes_decrypt ctx) (length data div 16) (take 16 iv) data))"

section \<open>Counter mode\<close>

text \<open>The increment runs from the last byte and stops at the first that does not wrap.\<close>

definition ctr_increment :: "bytes \<Rightarrow> bytes" where
  "ctr_increment counter = rev (inc_bytes_from_end (rev counter))"

function ctr_loop :: "(bytes \<Rightarrow> bytes) \<Rightarrow> bytes \<Rightarrow> bytes \<Rightarrow> bytes" where
  "ctr_loop E counter pos =
     (if pos = [] then []
      else
        let buf = E counter;
            len = (if length pos < 16 then length pos else 16)
        in xor_bytes (take len pos) buf @ ctr_loop E (ctr_increment counter) (drop len pos))"
  by pat_completeness auto
termination by (relation "measure (\<lambda>(E, c, pos). length pos)") auto

declare ctr_loop.simps [simp del]

definition aes_ctr_encrypt :: "bool \<Rightarrow> bytes \<Rightarrow> bytes \<Rightarrow> bytes \<Rightarrow> int \<times> bytes" where
  "aes_ctr_encrypt mem key nonce data =
     (case aes_encrypt_init mem key of
        None \<Rightarrow> (-1, data)
      | Some ctx \<Rightarrow> (0, ctr_loop (aes_encrypt ctx) (take 16 nonce) data))"

definition aes_128_ctr_encrypt :: "bool \<Rightarrow> bytes \<Rightarrow> bytes \<Rightarrow> bytes \<Rightarrow> int \<times> bytes" where
  "aes_128_ctr_encrypt mem key nonce data = aes_ctr_encrypt mem (take 16 key) nonce data"

definition aes_128_encrypt_block :: "bool \<Rightarrow> bytes \<Rightarrow> bytes \<Rightarrow> bytes option" where
  "aes_128_encrypt_block mem key inp =
     (case aes_encrypt_init mem (take 16 key) of None \<Rightarrow> None | Some ctx \<Rightarrow> Some (aes_encrypt ctx inp))"

section \<open>OMAC1\<close>

text \<open>Doubling in GF(2^128), in place.\<close>

fun shift_left_one :: "bytes \<Rightarrow> bytes" where
  "shift_left_one [] = []"
| "shift_left_one [p] = [push_bit 1 p]"
| "shift_left_one (p # q # ps) = (push_bit 1 p OR drop_bit 7 q) # shift_left_one (q # ps)"

definition gf_mulx :: "bytes \<Rightarrow> bytes" where
  "gf_mulx pad =
     (let carry = pad ! 0 AND 0x80; pad = shift_left_one pad
      in if carry \<noteq> 0 then pad[15 := pad ! 15 XOR 0x87] else pad)"

text \<open>
  The walk over the elements: the rest of the current element (\<^verbatim>\<open>pos\<close> up to \<^verbatim>\<open>end\<close>) and the elements
  after it. A byte is read before \<^verbatim>\<open>pos\<close> is compared with \<^verbatim>\<open>end\<close>; \<open>None\<close> is a read outside the
  element or the array. \<open>stop\<close> is the test that ends the walk at the last byte.
\<close>

definition next_byte :: "bool \<Rightarrow> bytes \<times> bytes list \<Rightarrow> (u8 \<times> bytes \<times> bytes list) option" where
  "next_byte stop src =
     (case src of
        ([], rest) \<Rightarrow> None
      | (c # cur, rest) \<Rightarrow>
          if cur \<noteq> [] then Some (c, cur, rest)
          else if stop then Some (c, [], rest)
          else (case rest of [] \<Rightarrow> None | p # ps \<Rightarrow> Some (c, p, ps)))"

text \<open>The next \<open>k\<close> bytes into \<^verbatim>\<open>cbc\<close> from index \<open>i\<close>; \<open>final\<close> when the message ends with them.\<close>

fun omac_fill :: "bool \<Rightarrow> nat \<Rightarrow> nat \<Rightarrow> bytes \<Rightarrow> bytes \<times> bytes list \<Rightarrow> (bytes \<times> bytes \<times> bytes list) option" where
  "omac_fill final 0 i cbc src = Some (cbc, src)"
| "omac_fill final (Suc k) i cbc src =
     (case next_byte (final \<and> k = 0) src of
        None \<Rightarrow> None
      | Some (c, src) \<Rightarrow> omac_fill final k (i + 1) (cbc[i := cbc ! i XOR c]) src)"

function omac_loop :: "(bytes \<Rightarrow> bytes) \<Rightarrow> nat \<Rightarrow> bytes \<Rightarrow> bytes \<times> bytes list \<Rightarrow> (nat \<times> bytes \<times> bytes \<times> bytes list) option" where
  "omac_loop E left cbc src =
     (if left < 16 then Some (left, cbc, src)
      else
        case omac_fill (left = 16) 16 0 cbc src of
          None \<Rightarrow> None
        | Some (cbc, src) \<Rightarrow> omac_loop E (left - 16) (if 16 < left then E cbc else cbc) src)"
  by pat_completeness auto
termination by (relation "measure (\<lambda>(E, left, c, s). left)") auto

declare omac_loop.simps [simp del]

text \<open>
  \<^verbatim>\<open>Some None\<close> is the failure return, \<^verbatim>\<open>None\<close> a read out of bounds. An empty vector makes the code
  read \<^verbatim>\<open>addr[0]\<close>.
\<close>

definition omac_tail :: "(bytes \<Rightarrow> bytes) \<Rightarrow> nat \<Rightarrow> nat \<times> bytes \<times> bytes \<times> bytes list \<Rightarrow> bytes option" where
  "omac_tail E total_len r =
     (case r of (left, cbc, src) \<Rightarrow>
        let pad = gf_mulx (E (replicate 16 0)) in
        if left \<noteq> 0 \<or> total_len = 0 then
          (case omac_fill True left 0 cbc src of
             None \<Rightarrow> None
           | Some (cbc, src) \<Rightarrow> Some (E (xor_bytes (gf_mulx pad) (cbc[left := cbc ! left XOR 0x80]))))
        else Some (E (xor_bytes pad cbc)))"

definition omac1_aes_vector :: "bool \<Rightarrow> bytes \<Rightarrow> bytes list \<Rightarrow> bytes option option" where
  "omac1_aes_vector mem key elems =
     (case aes_encrypt_init mem key of
        None \<Rightarrow> Some None
      | Some ctx \<Rightarrow>
          let E = aes_encrypt ctx; total_len = sum_list (map length elems) in
          case elems of
            [] \<Rightarrow> None
          | p # ps \<Rightarrow>
              map_option Some (omac_loop E total_len (replicate 16 0) (p, ps) \<bind> omac_tail E total_len))"

definition omac1_aes_128_vector :: "bool \<Rightarrow> bytes \<Rightarrow> bytes list \<Rightarrow> bytes option option" where
  "omac1_aes_128_vector mem key elems = omac1_aes_vector mem (take 16 key) elems"

definition omac1_aes_128 :: "bool \<Rightarrow> bytes \<Rightarrow> bytes \<Rightarrow> bytes option option" where
  "omac1_aes_128 mem key data = omac1_aes_128_vector mem key [data]"

definition omac1_aes_256 :: "bool \<Rightarrow> bytes \<Rightarrow> bytes \<Rightarrow> bytes option option" where
  "omac1_aes_256 mem key data = omac1_aes_vector mem (take 32 key) [data]"

end
