(* ===== verification/AesModeProofs.thy ===== *)
theory AesModeProofs
  imports AesModes
begin

text \<open>
  What the modes of \<^verbatim>\<open>AesModes\<close> promise. The locale \<open>block_cipher\<close> is all they rely on: that the two
  initialisations accept the same keys and that decryption undoes encryption on blocks. It is
  interpreted on the AES of \<^verbatim>\<open>aes-internal*.c\<close>, for which \<^verbatim>\<open>AesProofs\<close> proves these laws. Key wrap and
  CBC are inverted, counter mode is its key stream, OMAC1 is the CMAC of SP 800-38B.
\<close>

section \<open>The cipher as an interface\<close>

lemma foldl_undo:
  assumes "\<And>x j. P x \<Longrightarrow> j \<in> set js \<Longrightarrow> P (f x j) \<and> g (f x j) j = x" "P x"
  shows "foldl g (foldl f x js) (rev js) = x"
  using assms by (induction js arbitrary: x) auto

lemma foldl_keeps:
  assumes "\<And>x j. P x \<Longrightarrow> j \<in> set js \<Longrightarrow> P (f x j)" "P x"
  shows "P (foldl f x js)"
  using assms by (induction js arbitrary: x) auto

lemma finite_blocks: "finite {b :: bytes. length b = n}"
  using finite_lists_length_eq [of "UNIV :: u8 set" n] by simp

locale block_cipher =
  fixes enc_init :: "bytes \<Rightarrow> 'e option" and enc :: "'e \<Rightarrow> bytes \<Rightarrow> bytes"
    and dec_init :: "bytes \<Rightarrow> 'd option" and dec :: "'d \<Rightarrow> bytes \<Rightarrow> bytes"
  assumes init_together: "enc_init key = None \<longleftrightarrow> dec_init key = None"
    and dec_enc: "enc_init key = Some e \<Longrightarrow> dec_init key = Some d \<Longrightarrow> length b = 16 \<Longrightarrow> dec d (enc e b) = b"
    and length_enc [simp]: "length (enc e b) = 16"
    and length_dec [simp]: "length (dec d b) = 16"
begin

text \<open>An injective map of the finite set of blocks into itself is onto, so the inverse is two-sided.\<close>

lemma enc_dec:
  assumes "enc_init key = Some e" "dec_init key = Some d" "length b = 16"
  shows "enc e (dec d b) = b"
proof -
  let ?B = "{b :: bytes. length b = 16}"
  have "inj_on (enc e) ?B"
    using dec_enc [OF assms(1,2)] by (auto intro!: inj_on_inverseI [where g = "dec d"])
  then have "enc e ` ?B = ?B"
    by (rule endo_inj_surj [OF finite_blocks, rotated]) auto
  then obtain c where "length c = 16" "b = enc e c" using assms(3) by force
  then show ?thesis using dec_enc [OF assms(1,2)] by simp
qed

end

interpretation aes: block_cipher "aes_encrypt_init mem" aes_encrypt "aes_decrypt_init mem" aes_decrypt for mem
  by unfold_locales
    (auto simp: aes_encrypt_init_def aes_decrypt_init_def key_setup_dec length_aes_encrypt length_aes_decrypt
      intro: aes_roundtrip_ctx)

section \<open>Key wrap\<close>

lemma length_xor_t [simp]: "length (xor_t a t) = length a"
  by (simp add: xor_t_def)

lemma xor_t_cancel [simp]: "length a = 8 \<Longrightarrow> xor_t (xor_t a t) t = a"
  by (auto simp: xor_t_def list_eq_iff_nth_eq nth_list_update)

definition wrap_wf :: "nat \<Rightarrow> bytes \<times> bytes \<Rightarrow> bool" where
  "wrap_wf n s \<longleftrightarrow> length (fst s) = 8 \<and> length (snd s) = 8 * n"

lemma patch_block:
  assumes "8 * i + 8 \<le> length r" "length b = 8"
  shows "take 8 (drop (8 * i) (patch r (8 * i) b)) = b"
    and "length c = 8 \<Longrightarrow> patch (patch r (8 * i) b) (8 * i) c = patch r (8 * i) c"
  using assms by (auto simp: patch_def min_def add.commute)

context block_cipher
begin

lemma wrap_step_undo:
  assumes "enc_init key = Some e" "dec_init key = Some d" "wrap_wf n s" "i < n"
  shows "unwrap_step (dec d) n j (Suc i) (wrap_step (enc e) n j (Suc i) s) = s"
    and "wrap_step (enc e) n j (Suc i) (unwrap_step (dec d) n j (Suc i) s) = s"
    and "wrap_wf n (wrap_step (enc e) n j (Suc i) s)" and "wrap_wf n (unwrap_step (dec d) n j (Suc i) s)"
proof -
  obtain a r where s: "s = (a, r)" by fastforce
  have len: "length a = 8" "length r = 8 * n" "8 * i + 8 \<le> length r" "8 * i + 8 \<le> 8 * n"
    using assms(3,4) by (simp_all add: wrap_wf_def s)
  have self: "patch r (8 * i) (take 8 (drop (8 * i) r)) = r"
    using len by (simp add: patch_def) (metis append_take_drop_id drop_drop add.commute)
  show "unwrap_step (dec d) n j (Suc i) (wrap_step (enc e) n j (Suc i) s) = s"
    using len by (simp add: unwrap_step_def wrap_step_def s Let_def patch_block dec_enc [OF assms(1,2)] self)
  show "wrap_step (enc e) n j (Suc i) (unwrap_step (dec d) n j (Suc i) s) = s"
    using len by (simp add: unwrap_step_def wrap_step_def s Let_def patch_block enc_dec [OF assms(1,2)] self)
  show "wrap_wf n (wrap_step (enc e) n j (Suc i) s)" "wrap_wf n (unwrap_step (dec d) n j (Suc i) s)"
    using len by (simp_all add: wrap_wf_def wrap_step_def unwrap_step_def s Let_def)
qed

lemma wrap_row_undo:
  assumes "enc_init key = Some e" "dec_init key = Some d"
  shows "wrap_wf n s \<Longrightarrow> i \<le> n \<Longrightarrow> unwrap_row (dec d) n j i (wrap_row (enc e) n j i s) = s \<and> wrap_wf n (wrap_row (enc e) n j i s)"
    and "wrap_wf n s \<Longrightarrow> i \<le> n \<Longrightarrow> wrap_row (enc e) n j i (unwrap_row (dec d) n j i s) = s \<and> wrap_wf n (unwrap_row (dec d) n j i s)"
  by (induction i arbitrary: s) (simp_all add: wrap_step_undo [OF assms])

lemma wrap_undo:
  assumes "enc_init key = Some e" "dec_init key = Some d" "wrap_wf n s"
  shows "unwrap_rows (dec d) n (wrap_rows (enc e) n s) = s" and "wrap_rows (enc e) n (unwrap_rows (dec d) n s) = s"
    and "wrap_wf n (wrap_rows (enc e) n s)" and "wrap_wf n (unwrap_rows (dec d) n s)"
proof -
  note row = wrap_row_undo [OF assms(1,2)]
  show "unwrap_rows (dec d) n (wrap_rows (enc e) n s) = s"
    unfolding wrap_rows_def unwrap_rows_def using assms(3) row by (intro foldl_undo [where P = "wrap_wf n"]) auto
  show "wrap_rows (enc e) n (unwrap_rows (dec d) n s) = s"
    using foldl_undo [where P = "wrap_wf n" and js = "rev [0..<6]" and f = "\<lambda>s j. unwrap_row (dec d) n j n s"
        and g = "\<lambda>s j. wrap_row (enc e) n j n s"] assms(3) row
    unfolding wrap_rows_def unwrap_rows_def rev_rev_ident by simp
  show "wrap_wf n (wrap_rows (enc e) n s)" "wrap_wf n (unwrap_rows (dec d) n s)"
    unfolding wrap_rows_def unwrap_rows_def
    by (rule foldl_keeps [where P = "wrap_wf n"]; simp add: assms(3) row)+
qed

text \<open>CBC over whole blocks.\<close>

lemma cbc_undo:
  assumes "enc_init key = Some e" "dec_init key = Some d"
  shows "length iv = 16 \<Longrightarrow> 16 * n \<le> length m \<Longrightarrow>
    cbc_decrypt_loop (dec d) n iv (cbc_encrypt_loop (enc e) n iv m) = m \<and> length (cbc_encrypt_loop (enc e) n iv m) = length m"
proof (induction n arbitrary: iv m)
  case (Suc n)
  let ?c = "enc e (xor_bytes iv (take 16 m))"
  from Suc.prems have "xor_bytes (xor_bytes iv (take 16 m)) iv = take 16 m"
    by (simp add: xor_bytes_def list_eq_iff_nth_eq xor.commute xor.left_commute)
  then show ?case using Suc.IH [of ?c "drop 16 m"] Suc.prems by (simp add: Let_def dec_enc [OF assms])
qed simp

end

lemma a6_register: "length a = 8 \<Longrightarrow> list_all (\<lambda>i. a ! i = 0xa6) [0..<8] \<longleftrightarrow> a = replicate 8 0xa6"
  by (auto simp: list_eq_iff_nth_eq list_all_iff)

lemma key_wrap_inverse:
  assumes "length cipher = 8 * (n + 1)" "length plain = 8 * n"
  shows "aes_unwrap mem kek n cipher = (0, plain) \<longleftrightarrow> aes_wrap mem kek n plain = (0, cipher)"
proof (cases "aes_encrypt_init mem kek")
  case None
  then show ?thesis using aes.init_together [of mem kek] by (simp add: aes_wrap_def aes_unwrap_def Let_def)
next
  case (Some e)
  then obtain d where d: "aes_decrypt_init mem kek = Some d" using aes.init_together [of mem kek] by auto
  note undo = aes.wrap_undo [OF Some d]
  let ?s = "(replicate 8 0xa6, plain)" and ?c = "(take 8 cipher, drop 8 cipher)"
  have wf: "wrap_wf n ?s" "wrap_wf n ?c" using assms by (simp_all add: wrap_wf_def)
  have "aes_unwrap mem kek n cipher = (0, plain) \<longleftrightarrow> unwrap_rows (aes_decrypt d) n ?c = ?s"
    using undo(4) [OF wf(2)] assms(1)
    by (auto simp: aes_unwrap_def d Let_def wrap_wf_def a6_register split: prod.splits if_splits)
  also have "\<dots> \<longleftrightarrow> wrap_rows (aes_encrypt e) n ?s = ?c" using undo(1) [OF wf(1)] undo(2) [OF wf(2)] by metis
  also have "\<dots> \<longleftrightarrow> aes_wrap mem kek n plain = (0, cipher)"
    using undo(3) [OF wf(1)] assms
    by (auto simp: aes_wrap_def Some Let_def wrap_wf_def append_eq_conv_conj split: prod.splits)
  finally show ?thesis .
qed

text \<open>C34: \<^verbatim>\<open>aes_unwrap\<close> accepts a wrapped key exactly when it is what \<^verbatim>\<open>aes_wrap\<close> makes of the key it
  returns, for every key encryption key and number of blocks; a key of unsupported length and a
  failed allocation are refused by both.\<close>
theorem key_wrap_exact:
  assumes "length cipher = 8 * (n + 1)" "length plain = 8 * n"
  shows "aes_unwrap mem kek n cipher = (0, plain) \<longleftrightarrow> aes_wrap mem kek n plain = (0, cipher)"
  using assms by (rule key_wrap_inverse)

theorem key_wrap_exact_witness:
  "aes_unwrap True (replicate 16 0) 2 (replicate 24 1) = (0, replicate 16 2) \<longleftrightarrow>
   aes_wrap True (replicate 16 0) 2 (replicate 16 2) = (0, replicate 24 1)"
  using key_wrap_exact [of "replicate 24 1" 2 "replicate 16 2" True "replicate 16 0"] by simp

section \<open>Big-endian numbers\<close>

fun be_bytes :: "nat \<Rightarrow> nat \<Rightarrow> bytes" where
  "be_bytes 0 v = []"
| "be_bytes (Suc n) v = of_nat (v div 256 ^ n) # be_bytes n (v mod 256 ^ n)"

lemma be_bytes_val: "be_bytes (length b) (be_val b) = b"
proof (induction b)
  case (Cons c b)
  have "be_val b < 256 ^ length b" by (rule be_val_bound)
  then show ?case using Cons by (simp del: of_nat_add of_nat_mult)
qed simp

lemma length_shift_left_one [simp]: "length (shift_left_one bs) = length bs"
  by (induction bs rule: shift_left_one.induct) simp_all

lemma unat_shift_carry: "unat (push_bit 1 p OR drop_bit 7 q :: u8) = (2 * unat p + unat q div 128) mod 256"
proof -
  have "push_bit 1 p OR drop_bit 7 q = push_bit 1 p + drop_bit 7 q"
    by (rule disjunctive_add [symmetric]) (auto simp only: bit_push_bit_iff bit_drop_bit_eq comp_apply dest!: bit_u8D)
  moreover have "unat (drop_bit 7 q) = unat q div 128" 
    using unat_drop_bit [of 7 q] drop_bit_eq_div [of 7 "unat q"] by simp
  moreover have "unat (push_bit 1 p) = 2 * unat p mod 256"
    by (simp add: push_bit_eq_mult unat_word_ariths mult.commute)
  ultimately show ?thesis by (simp add: unat_word_ariths mod_simps)
qed

lemma be_val_shift_left: "be_val (shift_left_one bs) = 2 * be_val bs mod 256 ^ length bs"
proof (induction bs rule: shift_left_one.induct)
  case (2 p)
  then show ?case by (simp add: push_bit_eq_mult unat_word_ariths mult.commute)
next
  case (3 p q ps)
  define N V where "N = (256 :: nat) ^ length (q # ps)" and "V = be_val (q # ps)"
  have V: "V < N" unfolding N_def V_def by (rule be_val_bound)
  have carry: "2 * V div N = unat q div 128"
  proof -
    let ?M = "256 ^ length ps :: nat"
    have "2 * V div N = V div (128 * ?M)" unfolding N_def by (simp add: div_mult2_eq)
    also have "\<dots> = (V div ?M) div 128" by (simp add: div_mult2_eq div_swap [of V 128])
    also have "V div ?M = unat q" unfolding V_def using be_val_bound [of ps] by simp
    finally show ?thesis .
  qed
  have "2 * be_val (p # q # ps) = (2 * unat p + 2 * V div N) * N + 2 * V mod N"
  proof -
    have "2 * be_val (p # q # ps) = 2 * unat p * N + 2 * V" by (simp add: V_def N_def)
    also have "2 * V = 2 * V div N * N + 2 * V mod N" by simp
    finally show ?thesis by (simp add: add_mult_distrib)
  qed
  then have "2 * be_val (p # q # ps) mod (256 * N) = ((2 * unat p + 2 * V div N) * N + 2 * V mod N) mod (256 * N)" by simp
  also have "\<dots> = ((2 * unat p + 2 * V div N) mod 256) * N + 2 * V mod N"
    using V mod_mult2_eq [of "(2 * unat p + 2 * V div N) * N + 2 * V mod N" N 256] by (simp add: mult.commute)
  also have "\<dots> = be_val (shift_left_one (p # q # ps))"
    unfolding shift_left_one.simps be_val.simps(2) [of "push_bit 1 p OR drop_bit 7 q"] unat_shift_carry
      length_shift_left_one 3 carry unfolding N_def V_def ..
  also have "256 * N = 256 ^ length (p # q # ps)" by (simp add: N_def)
  finally show ?case ..
qed simp

text \<open>Multiplication by the generator of GF(2^128) on 128-bit numbers.\<close>

definition dbl128 :: "nat \<Rightarrow> nat" where
  "dbl128 v = (2 * v mod 2 ^ 128) XOR (if 2 ^ 127 \<le> v then 0x87 else 0)"

lemma xor_low_byte: "(256 * x + unat y) XOR unat z = 256 * x + unat (y XOR z :: u8)" for x :: nat
proof -
  have or: "256 * x + unat w = push_bit 8 x OR unat w" for w :: u8
  proof -
    have "push_bit 8 x + unat w = push_bit 8 x OR unat w"
      by (rule disjunctive_add) (auto simp: bit_simps dest: bit_u8D)
    then show ?thesis by (simp add: push_bit_eq_mult)
  qed
  show ?thesis unfolding or by (rule bit_eqI) (auto simp: bit_simps dest: bit_u8D)
qed

lemma be_val_last_xor:
  assumes "length bs = 16"
  shows "be_val (bs[15 := bs ! 15 XOR z]) = be_val bs XOR unat z"
proof -
  obtain cs c where bs: "bs = cs @ [c]" using assms by (metis length_0_conv rev_exhaust zero_neq_numeral)
  then have "length cs = 15" using assms by simp
  then show ?thesis 
    by (simp add: bs list_update_append nth_append be_val_append xor_low_byte mult.commute [of _ 256])
qed

lemma top_bit: "length (b # bs) = 16 \<Longrightarrow> b AND 0x80 \<noteq> 0 \<longleftrightarrow> 2 ^ 127 \<le> be_val (b # bs)"
proof -
  assume len: "length (b # bs) = 16"
  have m: "(0x80 :: u8) = push_bit 7 1" by simp
  have "b AND 0x80 \<noteq> 0 \<longleftrightarrow> bit b 7" unfolding m by (simp add: bit_iff_and_push_bit_not_eq_0)
  also have "\<dots> \<longleftrightarrow> 128 \<le> unat b"
  proof -
    have "bit b 7 \<longleftrightarrow> odd (unat b div 128)" 
      using bit_iff_odd [of "unat b" 7] by (simp add: bit_unsigned_iff)
    moreover have "unat b div 128 = 0 \<or> unat b div 128 = 1" using unat_u8_less [of b] by linarith
    ultimately show ?thesis by auto
  qed
  also have "\<dots> \<longleftrightarrow> 2 ^ 127 \<le> be_val (b # bs)" using be_val_bound [of bs] len by auto
  finally show ?thesis .
qed

lemma gf_mulx_eq:
  assumes "length b = 16"
  shows "gf_mulx b = be_bytes 16 (dbl128 (be_val b))"
proof -
  obtain c cs where b: "b = c # cs" using assms by (cases b) auto
  have "be_val (gf_mulx b) = dbl128 (be_val b)"
    using assms top_bit [of c cs] be_val_shift_left [of b]
    by (simp add: gf_mulx_def dbl128_def Let_def b be_val_last_xor del: be_val.simps)
  moreover have "length (gf_mulx b) = 16" using assms by (simp add: gf_mulx_def Let_def)
  ultimately show ?thesis using be_bytes_val [of "gf_mulx b"] by simp
qed

section \<open>Counter mode\<close>

lemma length_ctr_increment [simp]: "length (ctr_increment c) = length c"
  by (simp add: ctr_increment_def)

lemma be_val_ctr_increment: "be_val (ctr_increment c) = (be_val c + 1) mod 256 ^ length c"
  using be_val_inc [of "rev c"] by (simp add: ctr_increment_def)

lemma ctr_increment_pow:
  "length ((ctr_increment ^^ k) c) = length c \<and> be_val ((ctr_increment ^^ k) c) = (be_val c + k) mod 256 ^ length c"
proof (induction k)
  case 0
  then show ?case by (simp add: be_val_bound)
next
  case (Suc k)
  then show ?case by (simp add: be_val_ctr_increment mod_simps)
qed

lemma counter_block: "length c = 16 \<Longrightarrow> (ctr_increment ^^ k) c = be_bytes 16 ((be_val c + k) mod 2 ^ 128)"
  using ctr_increment_pow [of k c] be_bytes_val [of "(ctr_increment ^^ k) c"] by simp

lemma ctr_loop_short: "pos \<noteq> [] \<Longrightarrow> length pos \<le> 16 \<Longrightarrow> ctr_loop E c pos = xor_bytes pos (E c)"
  by (subst ctr_loop.simps) (simp add: Let_def ctr_loop.simps [of E _ "[]"])

lemma ctr_loop_long:
  "16 < length pos \<Longrightarrow> ctr_loop E c pos = xor_bytes (take 16 pos) (E c) @ ctr_loop E (ctr_increment c) (drop 16 pos)"
  by (subst ctr_loop.simps) (auto simp: Let_def)

lemma ctr_loop_stream:
  assumes "\<And>c. length (E c) = 16"
  shows "length (ctr_loop E c pos) = length pos \<and>
    (\<forall>i < length pos. ctr_loop E c pos ! i = pos ! i XOR E ((ctr_increment ^^ (i div 16)) c) ! (i mod 16))"
proof (induction "length pos" arbitrary: c pos rule: less_induct)
  case less
  consider "pos = []" | "pos \<noteq> []" "length pos \<le> 16" | "16 < length pos" by linarith
  then show ?case
  proof cases
    case 1
    then show ?thesis by (simp add: ctr_loop.simps [of E c])
  next
    case 2
    then show ?thesis by (auto simp: ctr_loop_short assms xor_bytes_def nth_append div_eq_0_iff le_less)
  next
    case 3
    note IH = less [of "drop 16 pos" "ctr_increment c"]
    have "ctr_loop E c pos ! i = pos ! i XOR E ((ctr_increment ^^ (i div 16)) c) ! (i mod 16)" if "i < length pos" for i
    proof (cases "i < 16")
      case True
      then show ?thesis using 3 by (simp add: ctr_loop_long nth_append assms xor_bytes_def)
    next
      case False
      then have "i = 16 + (i - 16)" and "i div 16 = Suc ((i - 16) div 16)" and "(i - 16) mod 16 = i mod 16" 
        by (simp_all add: le_div_geq le_mod_geq)
      then show ?thesis using IH 3 that False
        by (simp add: ctr_loop_long nth_append assms funpow_Suc_right del: funpow.simps)
    qed
    then show ?thesis using 3 IH by (simp add: ctr_loop_long assms)
  qed
qed

lemma ctr_loop_involution:
  assumes "\<And>c. length (E c) = 16"
  shows "ctr_loop E c (ctr_loop E c pos) = pos"
  using ctr_loop_stream [of E c pos, OF assms] ctr_loop_stream [of E c "ctr_loop E c pos", OF assms]
  by (auto simp: list_eq_iff_nth_eq)

lemma length_ctr_loop: "(\<And>c. length (E c) = 16) \<Longrightarrow> length (ctr_loop E c pos) = length pos"
  using ctr_loop_stream by blast

text \<open>Counter mode XORs byte \<open>i\<close> of the data with byte \<open>i mod 16\<close> of the encryption of the 128-bit
  big-endian number nonce + \<open>i div 16\<close>, the sum taken modulo 2^128, for data of any length and each of
  the three key sizes.\<close>
theorem ctr_keystream:
  assumes "aes_encrypt_init mem key = Some ctx" "length nonce = 16"
  shows "\<exists>out. aes_ctr_encrypt mem key nonce data = (0, out) \<and> length out = length data \<and>
    (\<forall>i < length data. out ! i =
       data ! i XOR aes_encrypt ctx (be_bytes 16 ((be_val nonce + i div 16) mod 2 ^ 128)) ! (i mod 16))"
  using ctr_loop_stream [of "aes_encrypt ctx" nonce data] assms
  by (simp add: aes_ctr_encrypt_def length_aes_encrypt counter_block)

theorem ctr_keystream_witness:
  "\<exists>ctx out. aes_encrypt_init True (replicate 16 0) = Some ctx \<and>
    aes_ctr_encrypt True (replicate 16 0) (replicate 16 1) [2] = (0, out) \<and> length out = 1 \<and>
    out ! 0 = 2 XOR aes_encrypt ctx (be_bytes 16 (be_val (replicate 16 1) mod 2 ^ 128)) ! 0"
proof -
  obtain ctx where "aes_encrypt_init True (replicate 16 0) = Some ctx" using aes_init_some [of "replicate 16 0"] by auto
  then show ?thesis using ctr_keystream [of True "replicate 16 0" ctx "replicate 16 1" "[2]"] by auto
qed

text \<open>CBC decryption undoes CBC encryption for every key, initialisation vector and data; bytes
  behind the last whole block are left alone by both.\<close>
theorem cbc_roundtrip:
  assumes "16 \<le> length key" "length iv = 16"
  shows "\<exists>c. aes_128_cbc_encrypt True key iv data = (0, c) \<and> length c = length data \<and>
    drop (length data div 16 * 16) c = drop (length data div 16 * 16) data \<and>
    aes_128_cbc_decrypt True key iv c = (0, data)"
proof -
  obtain e where e: "aes_encrypt_init True (take 16 key) = Some e"
    using assms(1) aes_init_some [of "take 16 key"] by (cases "aes_encrypt_init True (take 16 key)") auto
  then obtain d where d: "aes_decrypt_init True (take 16 key) = Some d" using aes.init_together [of True "take 16 key"] by auto
  let ?n = "length data div 16"
  have "drop (n * 16) (cbc_encrypt_loop (aes_encrypt e) n iv m) = drop (n * 16) m" for n iv m
    by (induction n arbitrary: iv m) (simp_all add: Let_def length_aes_encrypt add.commute)
  then show ?thesis using aes.cbc_undo [OF e d assms(2), of ?n data] assms(2)
    by (simp add: aes_128_cbc_encrypt_def aes_128_cbc_decrypt_def e d)
qed

theorem cbc_roundtrip_witness:
  "\<exists>c. aes_128_cbc_encrypt True (replicate 16 0) (replicate 16 1) (replicate 20 2) = (0, c) \<and> length c = 20 \<and>
    drop 16 c = replicate 4 2 \<and> aes_128_cbc_decrypt True (replicate 16 0) (replicate 16 1) c = (0, replicate 20 2)"
  using cbc_roundtrip [of "replicate 16 0" "replicate 16 1" "replicate 20 2"] by simp

section \<open>OMAC1\<close>

text \<open>The message left in front of the walk.\<close>

definition stream :: "bytes \<times> bytes list \<Rightarrow> bytes" where
  "stream src = fst src @ concat (snd src)"

definition src_ok :: "bytes \<times> bytes list \<Rightarrow> bool" where
  "src_ok src \<longleftrightarrow> fst src \<noteq> [] \<and> [] \<notin> set (snd src)"

lemma next_byte_ok:
  assumes "src_ok src" "stop \<longrightarrow> length (stream src) = 1" "length (stream src) = 1 \<longrightarrow> stop"
  shows "\<exists>src'. next_byte stop src = Some (hd (stream src), src') \<and> stream src' = tl (stream src) \<and>
    (tl (stream src) \<noteq> [] \<longrightarrow> src_ok src')"
proof -
  obtain c cur rest where src: "src = (c # cur, rest)"
    using assms(1) by (metis src_ok_def list.exhaust prod.collapse)
  show ?thesis
  proof (cases "cur = []")
    case False
    then show ?thesis using assms(1) by (simp add: src next_byte_def stream_def src_ok_def)
  next
    case True
    then show ?thesis
    proof (cases rest)
      case Nil
      then show ?thesis using True assms(3) by (simp add: src next_byte_def stream_def)
    next
      case (Cons p ps)
      then have "\<not> stop" using True assms(1,2) by (auto simp: src stream_def src_ok_def)
      then show ?thesis using True Cons assms(1) by (auto simp: src next_byte_def stream_def src_ok_def)
    qed
  qed
qed

lemma omac_fill_ok:
  "src_ok src \<or> k = 0 \<Longrightarrow> k < length (stream src) \<or> final \<and> k = length (stream src) \<Longrightarrow> \<not> (final \<and> k < length (stream src)) \<Longrightarrow>
   i + k \<le> length cbc \<Longrightarrow>
   \<exists>src'. omac_fill final k i cbc src = Some (patch cbc i (xor_bytes (take k (drop i cbc)) (take k (stream src))), src') \<and>
     stream src' = drop k (stream src) \<and> (src_ok src \<and> drop k (stream src) \<noteq> [] \<longrightarrow> src_ok src')"
proof (induction k arbitrary: i cbc src)
  case 0
  then show ?case by (simp add: patch_def xor_bytes_def)
next
  case (Suc k)
  let ?stop = "final \<and> k = 0"
  have ok: "src_ok src" using Suc.prems by simp
  have "?stop \<longrightarrow> length (stream src) = 1" "length (stream src) = 1 \<longrightarrow> ?stop" using Suc.prems by auto
  from next_byte_ok [OF ok this] obtain src' where nb: "next_byte ?stop src = Some (hd (stream src), src')"
    and st: "stream src' = tl (stream src)" and ok': "tl (stream src) \<noteq> [] \<longrightarrow> src_ok src'" by blast
  obtain c s where cs: "stream src = c # s" using ok by (cases "stream src") (auto simp: stream_def src_ok_def)
  let ?cbc = "cbc[i := cbc ! i XOR c]"
  have "src_ok src' \<or> k = 0" "k < length (stream src') \<or> final \<and> k = length (stream src')"
    "\<not> (final \<and> k < length (stream src'))" "(i + 1) + k \<le> length ?cbc"
    using Suc.prems ok' by (auto simp: st cs)
  from Suc.IH [OF this] obtain src'' where fill: "omac_fill final k (i + 1) ?cbc src' =
      Some (patch ?cbc (i + 1) (xor_bytes (take k (drop (i + 1) ?cbc)) (take k s)), src'')"
    and st': "stream src'' = drop k s" and ok'': "src_ok src' \<and> drop k s \<noteq> [] \<longrightarrow> src_ok src''"
    by (auto simp: st cs)
  have "patch ?cbc (i + 1) (xor_bytes (take k (drop (i + 1) ?cbc)) (take k s)) =
      patch cbc i ((cbc ! i XOR c) # xor_bytes (take k (drop (i + 1) cbc)) (take k s))"
  proof -
    have "i < length cbc" using Suc.prems by simp
    then have "?cbc = patch cbc i [cbc ! i XOR c]" "i \<le> length cbc" by (simp_all add: list_update_patch)
    moreover have "drop (i + 1) ?cbc = drop (i + 1) cbc" by simp
    ultimately show ?thesis using patch_patch [of i cbc "[cbc ! i XOR c]"] by simp
  qed
  also have "(cbc ! i XOR c) # xor_bytes (take k (drop (i + 1) cbc)) (take k s) =
      xor_bytes (take (Suc k) (drop i cbc)) (take (Suc k) (stream src))"
    using Suc.prems by (simp add: xor_bytes_def cs Cons_nth_drop_Suc [of i cbc, symmetric])
  finally show ?case using fill ok' ok'' st' by (auto simp: nb cs)
qed


text \<open>
  CMAC as NIST SP 800-38B defines it: subkeys by doubling the encrypted zero block, a chain over
  the blocks, the last one masked with the first subkey when it is complete and padded with a one
  bit and masked with the second when not.
\<close>

definition subkey1 :: "(bytes \<Rightarrow> bytes) \<Rightarrow> bytes" where
  "subkey1 E = be_bytes 16 (dbl128 (be_val (E (replicate 16 0))))"

definition subkey2 :: "(bytes \<Rightarrow> bytes) \<Rightarrow> bytes" where
  "subkey2 E = be_bytes 16 (dbl128 (be_val (subkey1 E)))"

function cmac_chain :: "(bytes \<Rightarrow> bytes) \<Rightarrow> bytes \<Rightarrow> bytes \<Rightarrow> bytes" where
  "cmac_chain E x m =
     (if 16 < length m then cmac_chain E (E (xor_bytes x (take 16 m))) (drop 16 m)
      else if length m = 16 then E (xor_bytes (subkey1 E) (xor_bytes x m))
      else E (xor_bytes (subkey2 E) (xor_bytes x (m @ 0x80 # replicate (15 - length m) 0))))"
  by pat_completeness auto
termination by (relation "measure (\<lambda>(E, x, m). length m)") auto

declare cmac_chain.simps [simp del]

definition cmac :: "(bytes \<Rightarrow> bytes) \<Rightarrow> bytes \<Rightarrow> bytes" where
  "cmac E m = cmac_chain E (replicate 16 0) m"

lemma subkeys:
  assumes "\<And>c. length (E c) = 16"
  shows "gf_mulx (E (replicate 16 0)) = subkey1 E" "gf_mulx (gf_mulx (E (replicate 16 0))) = subkey2 E"
proof -
  show 1: "gf_mulx (E (replicate 16 0)) = subkey1 E" by (simp add: subkey1_def gf_mulx_eq assms)
  have "length (gf_mulx (E (replicate 16 0))) = 16" by (simp add: gf_mulx_def Let_def assms)
  then show "gf_mulx (gf_mulx (E (replicate 16 0))) = subkey2 E" by (simp add: gf_mulx_eq 1 subkey2_def)
qed

lemma xor_whole: "length s = length x \<Longrightarrow> patch x 0 (xor_bytes (take (length x) (drop 0 x)) (take (length x) s)) = xor_bytes x s"
  by (simp add: patch_def)

lemma xor_padded:
  assumes "length s < 16" "length x = 16"
  shows "(let y = patch x 0 (xor_bytes (take (length s) (drop 0 x)) (take (length s) s)) in y[length s := y ! length s XOR 0x80]) =
    xor_bytes x (s @ 0x80 # replicate (15 - length s) 0)"
  using assms
  by (auto simp: Let_def patch_def xor_bytes_def list_eq_iff_nth_eq nth_append nth_list_update nth_Cons split: nat.split)

lemma omac_short:
  assumes "\<And>c. length (E c) = 16" "length x = 16" "length (stream src) < 16" "src_ok src \<or> stream src = []"
    "tot = 0 \<or> stream src \<noteq> []"
  shows "omac_loop E (length (stream src)) x src \<bind> omac_tail E tot = Some (cmac_chain E x (stream src))"
proof -
  obtain src' where "omac_fill True (length (stream src)) 0 x src =
      Some (patch x 0 (xor_bytes (take (length (stream src)) (drop 0 x)) (take (length (stream src)) (stream src))), src')"
    using omac_fill_ok [of src "length (stream src)" True 0 x] assms(2-4) by auto
  then show ?thesis
    using assms xor_padded [OF assms(3,2)] subkeys [of E, OF assms(1)]
    by (simp add: omac_loop.simps [of E "length (stream src)"] omac_tail_def Let_def cmac_chain.simps [of E x]) blast
qed

lemma omac_chain:
  assumes "\<And>c. length (E c) = 16" "tot \<noteq> 0"
  shows "src_ok src \<Longrightarrow> length x = 16 \<Longrightarrow>
    omac_loop E (length (stream src)) x src \<bind> omac_tail E tot = Some (cmac_chain E x (stream src))"
proof (induction "length (stream src)" arbitrary: x src rule: less_induct)
  case less
  let ?n = "length (stream src)"
  have ne: "stream src \<noteq> []" using less.prems by (auto simp: src_ok_def stream_def)
  consider "?n < 16" | "?n = 16" | "16 < ?n" by linarith
  then show ?case
  proof cases
    case 1
    then show ?thesis using less.prems ne assms by (intro omac_short) auto
  next
    case 2
    then obtain src' where "omac_fill True 16 0 x src = Some (xor_bytes x (stream src), src')"
      using omac_fill_ok [of src 16 True 0 x] less.prems xor_whole [of "stream src" x] by auto
    then show ?thesis using 2 assms
      by (simp add: omac_loop.simps [of E 16] omac_loop.simps [of E 0] omac_tail_def Let_def subkeys cmac_chain.simps [of E x])
  next
    case 3
    then obtain src' where fill: "omac_fill False 16 0 x src = Some (xor_bytes x (take 16 (stream src)), src')"
      and st: "stream src' = drop 16 (stream src)" and ok: "src_ok src'"
      using omac_fill_ok [of src 16 False 0 x] less.prems xor_whole [of "take 16 (stream src)" x] by auto
    then show ?thesis using 3 less.hyps [OF _ ok, of "E (xor_bytes x (take 16 (stream src)))"] assms(1)
      by (simp add: omac_loop.simps [of E ?n] cmac_chain.simps [of E x "stream src"])
  qed
qed

lemma omac1_cmac:
  assumes "aes_encrypt_init mem key = Some ctx" "elems = [[]] \<or> elems \<noteq> [] \<and> [] \<notin> set elems"
  shows "omac1_aes_vector mem key elems = Some (Some (cmac (aes_encrypt ctx) (concat elems)))"
proof -
  obtain p ps where elems: "elems = p # ps" using assms(2) by (cases elems) auto
  have st: "stream (p, ps) = concat elems" by (simp add: stream_def elems)
  then have len: "sum_list (map length elems) = length (stream (p, ps))" by (simp add: length_concat)
  let ?E = "aes_encrypt ctx" and ?n = "length (stream (p, ps))"
  have "omac_loop ?E ?n (replicate 16 0) (p, ps) \<bind> omac_tail ?E ?n = Some (cmac_chain ?E (replicate 16 0) (stream (p, ps)))"
  proof (cases "elems = [[]]")
    case True
    then show ?thesis by (intro omac_short) (simp_all add: length_aes_encrypt stream_def elems)
  next
    case False
    then have "src_ok (p, ps)" using assms(2) elems by (auto simp: src_ok_def)
    then show ?thesis by (intro omac_chain) (auto simp: length_aes_encrypt stream_def src_ok_def)
  qed
  then show ?thesis using assms(1) by (simp add: omac1_aes_vector_def len cmac_def st elems [symmetric]) (simp add: elems)
qed

lemma omac1_single:
  "omac1_aes_vector mem key [d] = Some (map_option (\<lambda>ctx. cmac (aes_encrypt ctx) d) (aes_encrypt_init mem key))"
proof (cases "aes_encrypt_init mem key")
  case None
  then show ?thesis by (simp add: omac1_aes_vector_def)
next
  case (Some ctx)
  then show ?thesis using omac1_cmac [of mem key ctx "[d]"] by (cases d) simp_all
qed

lemma length_cmac: "(\<And>c. length (E c) = 16) \<Longrightarrow> length (cmac E m) = 16"
proof -
  assume "\<And>c. length (E c) = 16"
  then have "length (cmac_chain E x m) = 16" for x
    by (induction E x m rule: cmac_chain.induct) (subst cmac_chain.simps, simp)
  then show ?thesis by (simp add: cmac_def)
qed

text \<open>Without the condition on the elements the walk leaves them.\<close>

lemma omac1_empty_element:
  "aes_encrypt_init mem key = Some ctx \<Longrightarrow> omac1_aes_vector mem key [] = None \<and> omac1_aes_vector mem key [[], [b]] = None"
  by (simp add: omac1_aes_vector_def Let_def omac_loop.simps omac_tail_def next_byte_def)

text \<open>C35: \<^verbatim>\<open>omac1_aes_vector\<close> computes the CMAC of SP 800-38B of the concatenation of its elements, however
  the message is cut, and never reads outside them, provided that no element is empty (a single
  empty element is the empty message).\<close>
theorem omac1_is_cmac:
  assumes "aes_encrypt_init mem key = Some ctx" "elems = [[]] \<or> elems \<noteq> [] \<and> [] \<notin> set elems"
  shows "omac1_aes_vector mem key elems = Some (Some (cmac (aes_encrypt ctx) (concat elems)))"
  using assms by (rule omac1_cmac)

theorem omac1_is_cmac_witness:
  "\<exists>ctx. aes_encrypt_init True (replicate 16 0) = Some ctx \<and>
    omac1_aes_vector True (replicate 16 0) [[1], [2, 3]] = Some (Some (cmac (aes_encrypt ctx) [1, 2, 3]))"
proof -
  obtain ctx where "aes_encrypt_init True (replicate 16 0) = Some ctx" using aes_init_some [of "replicate 16 0"] by auto
  then show ?thesis using omac1_is_cmac [of True "replicate 16 0" ctx "[[1], [2, 3]]"] by auto
qed

end
