(* ===== verification/AesSpec.thy ===== *)
theory AesSpec
  imports AesModeProofs
begin

text \<open>
  AES as FIPS 197 defines it, byte by byte (SubBytes, ShiftRows, MixColumns, AddRoundKey and the
  word-wise key expansion), and the proof that the table driven implementation of \<^verbatim>\<open>Aes\<close> computes it.
\<close>

section \<open>FIPS 197\<close>

definition SBOX :: "u8 list" where
  "SBOX =
    [99, 124, 119, 123, 242, 107, 111, 197, 48, 1, 103, 43, 254, 215, 171, 118,
     202, 130, 201, 125, 250, 89, 71, 240, 173, 212, 162, 175, 156, 164, 114, 192,
     183, 253, 147, 38, 54, 63, 247, 204, 52, 165, 229, 241, 113, 216, 49, 21,
     4, 199, 35, 195, 24, 150, 5, 154, 7, 18, 128, 226, 235, 39, 178, 117,
     9, 131, 44, 26, 27, 110, 90, 160, 82, 59, 214, 179, 41, 227, 47, 132,
     83, 209, 0, 237, 32, 252, 177, 91, 106, 203, 190, 57, 74, 76, 88, 207,
     208, 239, 170, 251, 67, 77, 51, 133, 69, 249, 2, 127, 80, 60, 159, 168,
     81, 163, 64, 143, 146, 157, 56, 245, 188, 182, 218, 33, 16, 255, 243, 210,
     205, 12, 19, 236, 95, 151, 68, 23, 196, 167, 126, 61, 100, 93, 25, 115,
     96, 129, 79, 220, 34, 42, 144, 136, 70, 238, 184, 20, 222, 94, 11, 219,
     224, 50, 58, 10, 73, 6, 36, 92, 194, 211, 172, 98, 145, 149, 228, 121,
     231, 200, 55, 109, 141, 213, 78, 169, 108, 86, 244, 234, 101, 122, 174, 8,
     186, 120, 37, 46, 28, 166, 180, 198, 232, 221, 116, 31, 75, 189, 139, 138,
     112, 62, 181, 102, 72, 3, 246, 14, 97, 53, 87, 185, 134, 193, 29, 158,
     225, 248, 152, 17, 105, 217, 142, 148, 155, 30, 135, 233, 206, 85, 40, 223,
     140, 161, 137, 13, 191, 230, 66, 104, 65, 153, 45, 15, 176, 84, 187, 22]"

definition SubBytes :: "bytes \<Rightarrow> bytes" where
  "SubBytes s = map (\<lambda>b. SBOX ! unat b) s"

text \<open>Byte \<open>r + 4 * c\<close> of a block is row \<open>r\<close>, column \<open>c\<close> of the state.\<close>

definition ShiftRows :: "bytes \<Rightarrow> bytes" where
  "ShiftRows s = map (\<lambda>i. s ! ((i + 4 * (i mod 4)) mod 16)) [0..<16]"

definition mix_column :: "u8 \<Rightarrow> u8 \<Rightarrow> u8 \<Rightarrow> u8 \<Rightarrow> bytes" where
  "mix_column a b c d =
     (let three = \<lambda>x. xtime x XOR x in
      [xtime a XOR three b XOR c XOR d, a XOR xtime b XOR three c XOR d,
       a XOR b XOR xtime c XOR three d, three a XOR b XOR c XOR xtime d])"

definition MixColumns :: "bytes \<Rightarrow> bytes" where
  "MixColumns s = concat (map (\<lambda>c. mix_column (s ! (4 * c)) (s ! (4 * c + 1)) (s ! (4 * c + 2)) (s ! (4 * c + 3))) [0..<4])"

definition Rcon :: "nat \<Rightarrow> bytes" where
  "Rcon i = [(xtime ^^ (i - 1)) 1, 0, 0, 0]"

text \<open>The next word of the key schedule from those before it; words are lists of four bytes.\<close>

definition next_word :: "nat \<Rightarrow> bytes list \<Rightarrow> bytes" where
  "next_word Nk w =
     (let i = length w; temp = last w;
          temp = (if i mod Nk = 0 then xor_bytes (SubBytes (rotate1 temp)) (Rcon (i div Nk))
                  else if 6 < Nk \<and> i mod Nk = 4 then SubBytes temp else temp)
      in xor_bytes (w ! (i - Nk)) temp)"

fun expand :: "nat \<Rightarrow> nat \<Rightarrow> bytes list \<Rightarrow> bytes list" where
  "expand Nk 0 w = w"
| "expand Nk (Suc n) w = expand Nk n (w @ [next_word Nk w])"

definition KeyExpansion :: "bytes \<Rightarrow> bytes list" where
  "KeyExpansion key =
     (let Nk = length key div 4; Nr = Nk + 6
      in expand Nk (4 * (Nr + 1) - Nk) (map (\<lambda>i. take 4 (drop (4 * i) key)) [0..<Nk]))"

definition round_key :: "bytes list \<Rightarrow> nat \<Rightarrow> bytes" where
  "round_key w i = concat (map (\<lambda>j. w ! (4 * i + j)) [0..<4])"

definition AddRoundKey :: "bytes list \<Rightarrow> nat \<Rightarrow> bytes \<Rightarrow> bytes" where
  "AddRoundKey w i s = xor_bytes s (round_key w i)"

definition Cipher :: "bytes \<Rightarrow> bytes \<Rightarrow> bytes" where
  "Cipher key block =
     (let Nr = length key div 4 + 6; w = KeyExpansion key;
          s = foldl (\<lambda>s i. AddRoundKey w i (MixColumns (ShiftRows (SubBytes s)))) (AddRoundKey w 0 block) [1..<Nr]
      in AddRoundKey w Nr (ShiftRows (SubBytes s)))"

section \<open>The rounds\<close>

lemma SBOX_table: "map te_byte Te0 = SBOX"
  by code_simp

lemma SBOX_sbox: "SBOX ! unat b = sbox b"
  using unat_u8_less [of b] by (simp add: SBOX_table [symmetric] sbox_def table_lengths)

lemma state_exhaust:
  obtains a0 b0 c0 d0 a1 b1 c1 d1 a2 b2 c2 d2 a3 b3 c3 d3
  where "s = (word4 a0 b0 c0 d0, word4 a1 b1 c1 d1, word4 a2 b2 c2 d2, word4 a3 b3 c3 d3)"
  by (metis prod.exhaust word4_exhaust)

lemma store_word4:
  "store_state (word4 a0 b0 c0 d0, word4 a1 b1 c1 d1, word4 a2 b2 c2 d2, word4 a3 b3 c3 d3) =
     [a0, b0, c0, d0, a1, b1, c1, d1, a2, b2, c2, d2, a3, b3, c3, d3]"
  by (simp add: store_state_def PUTU32_word4)

lemma sub_shift_word4:
  "sub_shift (word4 a0 b0 c0 d0, word4 a1 b1 c1 d1, word4 a2 b2 c2 d2, word4 a3 b3 c3 d3) =
     (word4 (sbox a0) (sbox b1) (sbox c2) (sbox d3), word4 (sbox a1) (sbox b2) (sbox c3) (sbox d0),
      word4 (sbox a2) (sbox b3) (sbox c0) (sbox d1), word4 (sbox a3) (sbox b0) (sbox c1) (sbox d2))"
  by (simp add: sub_shift_def enc_last_def te_last)

lemma store_sub_shift: "store_state (sub_shift s) = ShiftRows (SubBytes (store_state s))"
  by (rule state_exhaust [of s])
    (simp add: sub_shift_word4 store_word4 ShiftRows_def SubBytes_def SBOX_sbox upt_conv_Cons del: upt_Suc)

lemma store_mix: "store_state (map4 mix_word s) = MixColumns (store_state s)"
  by (rule state_exhaust [of s])
    (simp add: map4_def mix_word4 store_word4 MixColumns_def mix_column_def Let_def upt_conv_Cons xor.assoc del: upt_Suc)

lemma store_xor4: "store_state (xor4 k s) = xor_bytes (store_state s) (store_state k)"
  by (rule state_exhaust [of s]; rule state_exhaust [of k])
    (simp add: xor4_def word4_xor store_word4 xor_bytes_def)

lemma store_key: "4 * i + 4 \<le> length rk \<Longrightarrow> store_state (key_at rk i) = round_key (map PUTU32 rk) i"
  by (simp add: key_at_def store_state_def round_key_def upt_conv_Cons numeral_3_eq_3 del: upt_Suc)

section \<open>The key schedule\<close>

lemma PUTU32_xor: "PUTU32 (v XOR w) = xor_bytes (PUTU32 v) (PUTU32 w)"
proof -
  obtain a b c d where v: "v = word4 a b c d" using word4_exhaust by blast
  obtain a' b' c' d' where w: "w = word4 a' b' c' d'" using word4_exhaust by blast
  show ?thesis by (simp add: v w word4_xor PUTU32_word4 xor_bytes_def)
qed

lemma PUTU32_sub_rot: "PUTU32 (sub_rot w) = SubBytes (rotate1 (PUTU32 w))"
proof -
  obtain a b c d where w: "w = word4 a b c d" using word4_exhaust by blast
  show ?thesis
    by (simp add: w sub_rot_def TE421_def TE432_def TE443_def TE414_def Te0_entry byte_masks word4_xor PUTU32_word4
        SubBytes_def SBOX_sbox)
qed

lemma PUTU32_sub_word: "PUTU32 (sub_word w) = SubBytes (PUTU32 w)"
proof -
  obtain a b c d where w: "w = word4 a b c d" using word4_exhaust by blast
  show ?thesis
    by (simp add: w sub_word_def TE411_def TE422_def TE433_def TE444_def Te0_entry byte_masks word4_xor PUTU32_word4
        SubBytes_def SBOX_sbox)
qed

lemma rcons_xtime: "i < 10 \<Longrightarrow> rcons ! i = (xtime ^^ i) 1"
proof -
  have "list_all (\<lambda>i. rcons ! i = (xtime ^^ i) 1) [0..<10]" by code_simp
  then show "i < 10 \<Longrightarrow> rcons ! i = (xtime ^^ i) 1" by (simp add: list_all_iff)
qed

lemma PUTU32_RCON: "i < 10 \<Longrightarrow> PUTU32 (RCON i) = Rcon (i + 1)"
proof -
  have "push_bit 24 (ucast x) = word4 x 0 0 0" for x by (simp add: word4_def)
  then show "i < 10 \<Longrightarrow> PUTU32 (RCON i) = Rcon (i + 1)" by (simp add: RCON_def PUTU32_word4 Rcon_def rcons_xtime)
qed

text \<open>The schedule on words, one word at a time.\<close>

definition nxt :: "nat \<Rightarrow> u32 list \<Rightarrow> u32" where
  "nxt Nk rk =
     (let i = length rk; t = last rk
      in rk ! (i - Nk) XOR (if i mod Nk = 0 then sub_rot t XOR RCON (i div Nk - 1)
                            else if 6 < Nk \<and> i mod Nk = 4 then sub_word t else t))"

fun wexpand :: "nat \<Rightarrow> nat \<Rightarrow> u32 list \<Rightarrow> u32 list" where
  "wexpand Nk 0 rk = rk"
| "wexpand Nk (Suc n) rk = wexpand Nk n (rk @ [nxt Nk rk])"

lemma wexpand_add: "wexpand Nk (m + n) rk = wexpand Nk n (wexpand Nk m rk)"
  by (induction m arbitrary: rk) simp_all

lemma nxt_next_word:
  assumes "0 < Nk" "Nk \<le> length rk" "length rk < 11 * Nk"
  shows "PUTU32 (nxt Nk rk) = next_word Nk (map PUTU32 rk)"
proof -
  have "length rk div Nk - 1 < 10" "length rk div Nk - 1 + 1 = length rk div Nk"
    using assms less_mult_imp_div_less [of "length rk" 11 Nk] div_le_mono [of Nk "length rk" Nk] by auto
  then have "PUTU32 (RCON (length rk div Nk - 1)) = Rcon (length rk div Nk)" using PUTU32_RCON by metis
  moreover have "rk \<noteq> []" using assms by auto
  ultimately show ?thesis using assms
    by (simp add: nxt_def next_word_def Let_def PUTU32_xor PUTU32_sub_rot PUTU32_sub_word last_map)
qed

lemma wexpand_expand:
  "0 < Nk \<Longrightarrow> Nk \<le> length rk \<Longrightarrow> length rk + n \<le> 11 * Nk \<Longrightarrow> map PUTU32 (wexpand Nk n rk) = expand Nk n (map PUTU32 rk)"
  by (induction n arbitrary: rk) (simp_all add: nxt_next_word)

text \<open>The word \<open>k\<close> of a group is the one \<open>Nk\<close> before it XORed with the last.\<close>

lemma nxt_at:
  assumes "length rk = Nk * (i + 1)" "length ws = k" "k < Nk"
  shows "nxt Nk (rk @ ws) = drop (Nk * i) rk ! k XOR
    (if k = 0 then sub_rot (drop (Nk * i) rk ! (Nk - 1)) XOR RCON i
     else if 6 < Nk \<and> k = 4 then sub_word (last ws) else last ws)"
proof -
  have "last (rk @ ws) = (if k = 0 then drop (Nk * i) rk ! (Nk - 1) else last ws)"
  proof (cases "ws = []")
    case True
    then have "rk \<noteq> []" "k = 0" using assms by auto
    then show ?thesis using True assms by (simp add: last_conv_nth add.commute)
  next
    case False
    then show ?thesis using assms by auto
  qed
  moreover have "(rk @ ws) ! (length (rk @ ws) - Nk) = drop (Nk * i) rk ! k"
    using assms by (simp add: nth_append)
  moreover have "length (rk @ ws) mod Nk = k" "k = 0 \<Longrightarrow> length (rk @ ws) div Nk - 1 = i"
    using assms mod_mult_self4 [of Nk "i + 1" k] by auto
  ultimately show ?thesis by (simp add: nxt_def Let_def)
qed

lemma wexpand_4:
  "wexpand Nk 4 rk =
     (let a = nxt Nk rk; b = nxt Nk (rk @ [a]); c = nxt Nk (rk @ [a, b]); d = nxt Nk (rk @ [a, b, c]) in rk @ [a, b, c, d])"
  by (simp add: eval_nat_numeral Let_def)

lemma first_four:
  assumes "length rk = Nk * (i + 1)" "4 \<le> Nk"
  shows "wexpand Nk 4 rk =
     (let p = drop (Nk * i) rk; a = p ! 0 XOR sub_rot (p ! (Nk - 1)) XOR RCON i; b = p ! 1 XOR a; c = p ! 2 XOR b;
          d = p ! 3 XOR c in rk @ [a, b, c, d])"
proof -
  let ?p = "drop (Nk * i) rk"
  have at: "nxt Nk rk = ?p ! 0 XOR sub_rot (?p ! (Nk - 1)) XOR RCON i" "nxt Nk (rk @ [a]) = ?p ! 1 XOR a"
    "nxt Nk (rk @ [a, b]) = ?p ! 2 XOR b" "nxt Nk (rk @ [a, b, c]) = ?p ! 3 XOR c" for a b c
    using nxt_at [OF assms(1), of "[]" 0] nxt_at [OF assms(1), of "[a]" 1] nxt_at [OF assms(1), of "[a, b]" 2]
      nxt_at [OF assms(1), of "[a, b, c]" 3] assms(2) by simp_all
  show ?thesis unfolding wexpand_4 at Let_def ..
qed

lemma setup128_wexpand: "length rk = 4 * (i + 1) \<Longrightarrow> setup128 n i rk = wexpand 4 (4 * n) rk"
proof (induction n arbitrary: i rk)
  case (Suc n)
  have "wexpand 4 (4 * Suc n) rk = wexpand 4 (4 * n) (wexpand 4 4 rk)" by (simp add: wexpand_add [symmetric])
  then show ?case using Suc by (simp add: Let_def first_four)
qed simp

lemma setup192_wexpand:
  "length rk = 6 * (i + 1) \<Longrightarrow> i + n = 8 \<Longrightarrow> 0 < n \<Longrightarrow> setup192 n i rk = wexpand 6 (6 * n - 2) rk"
proof (induction n arbitrary: i rk)
  case (Suc n)
  let ?r = "wexpand 6 4 rk" and ?p = "drop (6 * i) rk"
  show ?case
  proof (cases "n = 0")
    case True
    then show ?thesis using Suc.prems by (simp add: Let_def first_four)
  next
    case False
    have six: "wexpand 6 6 rk = (let r = wexpand 6 4 rk; e = nxt 6 r; f = nxt 6 (r @ [e]) in r @ [e, f])"
      using wexpand_add [of 6 4 2 rk] by (simp add: Let_def numeral_2_eq_2)
    have at: "nxt 6 (rk @ [a, b, c, d]) = ?p ! 4 XOR d" "nxt 6 (rk @ [a, b, c, d, e]) = ?p ! 5 XOR e" for a b c d e
      using nxt_at [OF Suc.prems(1), of "[a, b, c, d]" 4] nxt_at [OF Suc.prems(1), of "[a, b, c, d, e]" 5] by simp_all
    have "6 * Suc n - 2 = 6 + (6 * n - 2)" using False by simp
    then have "wexpand 6 (6 * Suc n - 2) rk = wexpand 6 (6 * n - 2) (wexpand 6 6 rk)" by (simp only: wexpand_add)
    then show ?thesis using Suc False by (simp add: Let_def six first_four at)
  qed
qed simp

lemma setup256_wexpand:
  "length rk = 8 * (i + 1) \<Longrightarrow> i + n = 7 \<Longrightarrow> 0 < n \<Longrightarrow> setup256 n i rk = wexpand 8 (8 * n - 4) rk"
proof (induction n arbitrary: i rk)
  case (Suc n)
  let ?p = "drop (8 * i) rk"
  show ?case
  proof (cases "n = 0")
    case True
    then show ?thesis using Suc.prems by (simp add: Let_def first_four)
  next
    case False
    have eight: "wexpand 8 8 rk = (let r = wexpand 8 4 rk; e = nxt 8 r; f = nxt 8 (r @ [e]); g = nxt 8 (r @ [e, f]);
        h = nxt 8 (r @ [e, f, g]) in r @ [e, f, g, h])"
      using wexpand_add [of 8 4 4 rk] wexpand_4 [of 8 "wexpand 8 4 rk"] by (simp add: Let_def)
    have at: "nxt 8 (rk @ [a, b, c, d]) = ?p ! 4 XOR sub_word d" "nxt 8 (rk @ [a, b, c, d, e]) = ?p ! 5 XOR e"
      "nxt 8 (rk @ [a, b, c, d, e, f]) = ?p ! 6 XOR f" "nxt 8 (rk @ [a, b, c, d, e, f, g]) = ?p ! 7 XOR g" for a b c d e f g
      using nxt_at [OF Suc.prems(1), of "[a, b, c, d]" 4] nxt_at [OF Suc.prems(1), of "[a, b, c, d, e]" 5]
        nxt_at [OF Suc.prems(1), of "[a, b, c, d, e, f]" 6] nxt_at [OF Suc.prems(1), of "[a, b, c, d, e, f, g]" 7] by simp_all
    have "8 * Suc n - 4 = 8 + (8 * n - 4)" using False by simp
    then have "wexpand 8 (8 * Suc n - 4) rk = wexpand 8 (8 * n - 4) (wexpand 8 8 rk)" by (simp only: wexpand_add)
    then show ?thesis using Suc False by (simp add: Let_def eight first_four at)
  qed
qed simp

lemma GETU32_bytes: "i + 4 \<le> length key \<Longrightarrow> PUTU32 (GETU32 key i) = take 4 (drop i key)"
  by (simp add: GETU32_word4 PUTU32_word4 list_eq_iff_nth_eq nth_Cons' less_Suc_eq numeral_eq_Suc)

lemma key_words:
  assumes "length key = 4 * n"
  shows "map PUTU32 (map (\<lambda>i. GETU32 key (4 * i)) [0..<n]) = map (\<lambda>i. take 4 (drop (4 * i) key)) [0..<n]"
  using assms by (simp add: GETU32_bytes)

lemma key_setup_fips:
  assumes "rijndaelKeySetupEnc key (length key * 8) = Some (Nr, rk)"
  shows "map PUTU32 rk = KeyExpansion key" "Nr = length key div 4 + 6"
proof -
  have key: "length key * 8 \<in> {128, 192, 256}" using assms key_setup_some by blast
  define n where "n = length key div 4"
  have n: "n \<in> {4, 6, 8}" "length key = 4 * n" using key by (auto simp: n_def)
  define w where "w = map (\<lambda>i. GETU32 key (4 * i)) [0..<n]"
  have init: "n = 4 \<Longrightarrow> w = [GETU32 key 0, GETU32 key 4, GETU32 key 8, GETU32 key 12]"
    "n = 6 \<Longrightarrow> w = [GETU32 key 0, GETU32 key 4, GETU32 key 8, GETU32 key 12, GETU32 key 16, GETU32 key 20]"
    "n = 8 \<Longrightarrow> w = [GETU32 key 0, GETU32 key 4, GETU32 key 8, GETU32 key 12, GETU32 key 16, GETU32 key 20, GETU32 key 24, GETU32 key 28]"
    by (simp_all add: w_def upt_conv_Cons del: upt_Suc)
  have len: "length w = n" by (simp add: w_def)
  have rk: "rk = wexpand n (4 * (n + 7) - n) w \<and> Nr = n + 6"
  proof -
    consider "n = 4" | "n = 6" | "n = 8" using n(1) by auto
    then show ?thesis
    proof cases
      case 1
      then show ?thesis using assms n(2) init(1) setup128_wexpand [of w 0 10] by (simp add: rijndaelKeySetupEnc_def Let_def)
    next
      case 2
      then show ?thesis using assms n(2) init(2) setup192_wexpand [of w 0 8] by (simp add: rijndaelKeySetupEnc_def Let_def)
    next
      case 3
      then show ?thesis using assms n(2) init(3) setup256_wexpand [of w 0 7] by (simp add: rijndaelKeySetupEnc_def Let_def)
    qed
  qed
  have "map PUTU32 rk = expand n (4 * (n + 7) - n) (map PUTU32 w)"
    using rk n len wexpand_expand [of n w "4 * (n + 7) - n"] by auto
  also have "map PUTU32 w = map (\<lambda>i. take 4 (drop (4 * i) key)) [0..<n]" unfolding w_def using n(2) by (rule key_words)
  finally show "map PUTU32 rk = KeyExpansion key" by (simp add: KeyExpansion_def Let_def n_def [symmetric])
  show "Nr = length key div 4 + 6" using rk by (simp add: n_def)
qed

section \<open>The cipher\<close>

lemma rounds_fips:
  assumes "length rk = 4 * (Nr + 1)"
  shows "n < Nr \<Longrightarrow> store_state (iter_rounds enc_g rk 1 n s) =
    foldl (\<lambda>s i. AddRoundKey (map PUTU32 rk) i (MixColumns (ShiftRows (SubBytes s)))) (store_state s) [1..<Suc n]"
proof (induction n)
  case (Suc n)
  then have "4 * (1 + n) + 4 \<le> length rk" using assms by simp
  from store_key [OF this] Suc show ?case
    by (simp add: enc_g_def store_xor4 store_mix store_sub_shift AddRoundKey_def)
qed simp

lemma encrypt_fips:
  assumes "rijndaelKeySetupEnc key (length key * 8) = Some (Nr, rk)" "length b = 16"
  shows "rijndaelEncrypt rk Nr b = Cipher key b"
proof -
  note shape = key_setup_shape [OF assms(1)] and fips = key_setup_fips [OF assms(1)]
  have "4 * 0 + 4 \<le> length rk" "4 * Nr + 4 \<le> length rk" using shape by simp_all
  note keys = store_key [OF this(1)] store_key [OF this(2)]
  have "Suc (Nr - 1) = Nr" using shape by simp
  then show ?thesis
    using rounds_fips [OF shape(3), of "Nr - 1"] shape assms(2) keys
    by (simp add: encrypt_rounds store_xor4 store_sub_shift store_words4 Cipher_def Let_def fips(1) fips(2) [symmetric] AddRoundKey_def)
qed

text \<open>C33: The table driven block encryption computes the cipher of FIPS 197 for the three key sizes,
  decryption undoes it, and every other key length is refused by both initialisations.\<close>
theorem aes_fips197:
  assumes "length b = 16"
  shows "if length key \<in> {16, 24, 32}
    then \<exists>e d. aes_encrypt_init True key = Some e \<and> aes_decrypt_init True key = Some d \<and>
      aes_encrypt e b = Cipher key b \<and> aes_decrypt d (Cipher key b) = b
    else aes_encrypt_init True key = None \<and> aes_decrypt_init True key = None"
proof (cases "aes_encrypt_init True key")
  case None
  then show ?thesis using aes_init_some [of key] aes.init_together [of True key] by simp
next
  case (Some e)
  then obtain d where d: "aes_decrypt_init True key = Some d" using aes.init_together [of True key] by auto
  have "aes_encrypt e b = Cipher key b"
    using Some assms by (auto simp: aes_encrypt_init_def aes_encrypt_def encrypt_fips)
  then show ?thesis using aes_init_some [of key] aes_roundtrip_ctx [OF Some d assms] Some d by simp
qed

theorem aes_fips197_witness:
  "\<exists>e d. aes_encrypt_init True (replicate 24 1) = Some e \<and> aes_decrypt_init True (replicate 24 1) = Some d \<and>
    aes_encrypt e (replicate 16 2) = Cipher (replicate 24 1) (replicate 16 2) \<and>
    aes_decrypt d (Cipher (replicate 24 1) (replicate 16 2)) = replicate 16 2"
  using aes_fips197 [of "replicate 16 2" "replicate 24 1"] by simp

end
