(* ===== verification/AesAead.thy ===== *)
theory AesAead
  imports AesModeProofs Sha256
begin

text \<open>
  Authenticated encryption: CCM (\<^verbatim>\<open>crypto/aes-ccm.c\<close>), GCM and GMAC (\<^verbatim>\<open>aes-gcm.c\<close>), EAX (\<^verbatim>\<open>aes-eax.c\<close>) and
  SIV (\<^verbatim>\<open>aes-siv.c\<close>). The internal functions take the block operation of the context. Results are
  the C return value with the buffers the function writes; what a failing call leaves unwritten
  is the empty list. For each mode the decryption accepts exactly what the encryption produces.
\<close>

section \<open>CCM\<close>

definition put_be16 :: "u16 \<Rightarrow> bytes" where
  "put_be16 v = [ucast (drop_bit 8 v), ucast v]"

text \<open>Four 32-bit XORs over the 16 bytes of a block.\<close>

definition xor_aes_block :: "bytes \<Rightarrow> bytes \<Rightarrow> bytes" where
  "xor_aes_block dst src = xor_bytes (take 16 dst) (take 16 src)"

definition ccm_b0 :: "nat \<Rightarrow> nat \<Rightarrow> bytes \<Rightarrow> nat \<Rightarrow> nat \<Rightarrow> bytes" where
  "ccm_b0 M L nonce aad_len plain_len =
     [(if aad_len \<noteq> 0 then 0x40 else 0) OR ucast (push_bit 3 ((of_nat M - 2 :: u64) div 2)) OR of_nat L - 1]
     @ take (15 - L) nonce @ put_be16 (of_nat plain_len)"

definition aes_ccm_auth_start :: "(bytes \<Rightarrow> bytes) \<Rightarrow> nat \<Rightarrow> nat \<Rightarrow> bytes \<Rightarrow> bytes \<Rightarrow> nat \<Rightarrow> bytes" where
  "aes_ccm_auth_start E M L nonce aad plain_len =
     (let x = E (ccm_b0 M L nonce (length aad) plain_len) in
      if aad = [] then x
      else
        let aad_buf = put_be16 (of_nat (length aad)) @ aad @ replicate (30 - length aad) 0;
            x = E (xor_aes_block aad_buf x)
        in if 14 < length aad then E (xor_aes_block (drop 16 aad_buf) x) else x)"

fun ccm_auth_blocks :: "(bytes \<Rightarrow> bytes) \<Rightarrow> nat \<Rightarrow> bytes \<Rightarrow> bytes \<Rightarrow> bytes \<times> bytes" where
  "ccm_auth_blocks E 0 data x = (x, data)"
| "ccm_auth_blocks E (Suc n) data x = ccm_auth_blocks E n (drop 16 data) (E (xor_aes_block x data))"

definition aes_ccm_auth :: "(bytes \<Rightarrow> bytes) \<Rightarrow> bytes \<Rightarrow> bytes \<Rightarrow> bytes" where
  "aes_ccm_auth E data x =
     (let last = length data mod 16 in
      case ccm_auth_blocks E (length data div 16) data x of
        (x, data) \<Rightarrow> if last \<noteq> 0 then E (xor_bytes (take last x) data @ drop last x) else x)"

text \<open>
  \<open>a\<close> is the counter block without its last two bytes, which the code writes before every use.
\<close>

definition aes_ccm_encr_start :: "nat \<Rightarrow> bytes \<Rightarrow> bytes" where
  "aes_ccm_encr_start L nonce = (of_nat L - 1) # take (15 - L) nonce"

text \<open>
  All that is written to \<^verbatim>\<open>out\<close>. The last block is encrypted in place before it is XORed: with a
  partial block, key stream is written behind the end of the message.
\<close>

fun ccm_encr_loop :: "(bytes \<Rightarrow> bytes) \<Rightarrow> bytes \<Rightarrow> nat \<Rightarrow> nat \<Rightarrow> bytes \<Rightarrow> bytes" where
  "ccm_encr_loop E a 0 i inp =
     (if inp \<noteq> [] then
        let s = E (a @ put_be16 (of_nat i)) in xor_bytes (take (length inp) s) inp @ drop (length inp) s
      else [])"
| "ccm_encr_loop E a (Suc n) i inp =
     xor_aes_block (E (a @ put_be16 (of_nat i))) inp @ ccm_encr_loop E a n (i + 1) (drop 16 inp)"

definition aes_ccm_encr :: "(bytes \<Rightarrow> bytes) \<Rightarrow> bytes \<Rightarrow> bytes \<Rightarrow> bytes" where
  "aes_ccm_encr E a inp = ccm_encr_loop E a (length inp div 16) 1 inp"

definition aes_ccm_encr_auth :: "(bytes \<Rightarrow> bytes) \<Rightarrow> nat \<Rightarrow> bytes \<Rightarrow> bytes \<Rightarrow> bytes" where
  "aes_ccm_encr_auth E M x a = (let tmp = E (a @ put_be16 0) in xor_bytes (take M x) (take M tmp))"

definition aes_ccm_decr_auth :: "(bytes \<Rightarrow> bytes) \<Rightarrow> nat \<Rightarrow> bytes \<Rightarrow> bytes \<Rightarrow> bytes" where
  "aes_ccm_decr_auth E M a auth = (let tmp = E (a @ put_be16 0) in xor_bytes (take M auth) (take M tmp))"

text \<open>Result, bytes written to \<^verbatim>\<open>crypt\<close>, bytes written to \<^verbatim>\<open>auth\<close>.\<close>

definition aes_ccm_ae :: "bool \<Rightarrow> bytes \<Rightarrow> bytes \<Rightarrow> nat \<Rightarrow> bytes \<Rightarrow> bytes \<Rightarrow> int \<times> bytes \<times> bytes" where
  "aes_ccm_ae mem key nonce M plain aad =
     (let L = 2 in
      if 30 < length aad \<or> 16 < M then (-1, [], [])
      else
        case aes_encrypt_init mem key of
          None \<Rightarrow> (-1, [], [])
        | Some aes \<Rightarrow>
            let E = aes_encrypt aes;
                x = aes_ccm_auth_start E M L nonce aad (length plain);
                x = aes_ccm_auth E plain x;
                a = aes_ccm_encr_start L nonce;
                crypt = aes_ccm_encr E a plain
            in (0, crypt, aes_ccm_encr_auth E M x a))"

definition aes_ccm_ad :: "bool \<Rightarrow> bytes \<Rightarrow> bytes \<Rightarrow> nat \<Rightarrow> bytes \<Rightarrow> bytes \<Rightarrow> bytes \<Rightarrow> int \<times> bytes" where
  "aes_ccm_ad mem key nonce M crypt aad auth =
     (let L = 2 in
      if 30 < length aad \<or> 16 < M then (-1, [])
      else
        case aes_encrypt_init mem key of
          None \<Rightarrow> (-1, [])
        | Some aes \<Rightarrow>
            let E = aes_encrypt aes;
                a = aes_ccm_encr_start L nonce;
                t = aes_ccm_decr_auth E M a auth;
                plain = aes_ccm_encr E a crypt;
                x = aes_ccm_auth_start E M L nonce aad (length crypt);
                x = aes_ccm_auth E (take (length crypt) plain) x
            in (if take M x \<noteq> take M t then -1 else 0, plain))"

section \<open>GCM\<close>

definition inc32 :: "bytes \<Rightarrow> bytes" where
  "inc32 block = take 12 block @ put_be32 (get_be32 (drop 12 block) + 1)"

definition xor_block :: "bytes \<Rightarrow> bytes \<Rightarrow> bytes" where
  "xor_block dst src = xor_bytes (take 16 dst) (take 16 src)"

text \<open>Each word takes the low bit of the byte before it, read before that byte is shifted.\<close>

definition shift_word :: "bytes \<Rightarrow> nat \<Rightarrow> u32" where
  "shift_word v i = drop_bit 1 (get_be32 (drop i v)) OR (if 0 < i \<and> v ! (i - 1) AND 0x01 \<noteq> 0 then 0x80000000 else 0)"

definition shift_right_block :: "bytes \<Rightarrow> bytes" where
  "shift_right_block v = put_be32 (shift_word v 0) @ put_be32 (shift_word v 4) @ put_be32 (shift_word v 8) @ put_be32 (shift_word v 12)"

definition gf_step :: "bytes \<Rightarrow> bytes \<times> bytes \<Rightarrow> nat \<Rightarrow> bytes \<times> bytes" where
  "gf_step x s n =
     (case s of (z, v) \<Rightarrow>
        let i = n div 8; j = n mod 8;
            z = (if x ! i AND push_bit (7 - j) 1 \<noteq> 0 then xor_block z v else z);
            low = v ! 15 AND 0x01;
            v = shift_right_block v;
            v = (if low \<noteq> 0 then v[0 := v ! 0 XOR 0xe1] else v)
        in (z, v))"

definition gf_mult :: "bytes \<Rightarrow> bytes \<Rightarrow> bytes" where
  "gf_mult x y = fst (foldl (gf_step x) (replicate 16 0, take 16 y) [0..<128])"

definition ghash_start :: bytes where "ghash_start = replicate 16 0"

fun ghash_blocks :: "bytes \<Rightarrow> nat \<Rightarrow> bytes \<Rightarrow> bytes \<Rightarrow> bytes \<times> bytes" where
  "ghash_blocks h 0 xpos y = (xpos, y)"
| "ghash_blocks h (Suc n) xpos y = ghash_blocks h n (drop 16 xpos) (gf_mult (xor_block y xpos) h)"

definition ghash :: "bytes \<Rightarrow> bytes \<Rightarrow> bytes \<Rightarrow> bytes" where
  "ghash h x y =
     (case ghash_blocks h (length x div 16) x y of
        (xpos, y) \<Rightarrow>
          if xpos \<noteq> [] then gf_mult (xor_block y (xpos @ replicate (16 - length xpos) 0)) h else y)"

fun gctr_loop :: "(bytes \<Rightarrow> bytes) \<Rightarrow> nat \<Rightarrow> bytes \<Rightarrow> bytes \<Rightarrow> bytes" where
  "gctr_loop E 0 cb xpos = (if xpos \<noteq> [] then xor_bytes xpos (E cb) else [])"
| "gctr_loop E (Suc n) cb xpos = xor_block (E cb) xpos @ gctr_loop E n (inc32 cb) (drop 16 xpos)"

definition aes_gctr :: "(bytes \<Rightarrow> bytes) \<Rightarrow> bytes \<Rightarrow> bytes \<Rightarrow> bytes" where
  "aes_gctr E icb x = (if x = [] then [] else gctr_loop E (length x div 16) (take 16 icb) x)"

definition aes_gcm_init_hash_subkey :: "bool \<Rightarrow> bytes \<Rightarrow> (aes_ctx \<times> bytes) option" where
  "aes_gcm_init_hash_subkey mem key =
     (case aes_encrypt_init mem key of
        None \<Rightarrow> None
      | Some aes \<Rightarrow> Some (aes, aes_encrypt aes (replicate 16 0)))"

definition aes_gcm_prepare_j0 :: "bytes \<Rightarrow> bytes \<Rightarrow> bytes" where
  "aes_gcm_prepare_j0 iv H =
     (if length iv = 12 then (iv @ replicate 4 0)[15 := 1]
      else
        let J0 = ghash H iv ghash_start
        in ghash H (put_be64 0 @ put_be64 (of_nat (length iv) * 8)) J0)"

definition aes_gcm_gctr :: "(bytes \<Rightarrow> bytes) \<Rightarrow> bytes \<Rightarrow> bytes \<Rightarrow> bytes" where
  "aes_gcm_gctr E J0 inp = (if inp = [] then [] else aes_gctr E (inc32 J0) inp)"

definition aes_gcm_ghash :: "bytes \<Rightarrow> bytes \<Rightarrow> bytes \<Rightarrow> bytes" where
  "aes_gcm_ghash H aad crypt =
     (let S = ghash H aad ghash_start;
          S = ghash H crypt S
      in ghash H (put_be64 (of_nat (length aad) * 8) @ put_be64 (of_nat (length crypt) * 8)) S)"

definition aes_gcm_ae :: "bool \<Rightarrow> bytes \<Rightarrow> bytes \<Rightarrow> bytes \<Rightarrow> bytes \<Rightarrow> int \<times> bytes \<times> bytes" where
  "aes_gcm_ae mem key iv plain aad =
     (case aes_gcm_init_hash_subkey mem key of
        None \<Rightarrow> (-1, [], [])
      | Some (aes, H) \<Rightarrow>
          let E = aes_encrypt aes;
              J0 = aes_gcm_prepare_j0 iv H;
              crypt = aes_gcm_gctr E J0 plain;
              S = aes_gcm_ghash H aad crypt
          in (0, crypt, aes_gctr E J0 S))"

definition aes_gcm_ad :: "bool \<Rightarrow> bytes \<Rightarrow> bytes \<Rightarrow> bytes \<Rightarrow> bytes \<Rightarrow> bytes \<Rightarrow> int \<times> bytes" where
  "aes_gcm_ad mem key iv crypt aad tag =
     (case aes_gcm_init_hash_subkey mem key of
        None \<Rightarrow> (-1, [])
      | Some (aes, H) \<Rightarrow>
          let E = aes_encrypt aes;
              J0 = aes_gcm_prepare_j0 iv H;
              plain = aes_gcm_gctr E J0 crypt;
              S = aes_gcm_ghash H aad crypt;
              T = aes_gctr E J0 S
          in (if take 16 tag \<noteq> take 16 T then -1 else 0, plain))"

definition aes_gmac :: "bool \<Rightarrow> bytes \<Rightarrow> bytes \<Rightarrow> bytes \<Rightarrow> int \<times> bytes" where
  "aes_gmac mem key iv aad = (case aes_gcm_ae mem key iv [] aad of (r, c, tag) \<Rightarrow> (r, tag))"

section \<open>EAX\<close>





section \<open>SIV\<close>

definition dbl :: "bytes \<Rightarrow> bytes" where
  "dbl pad =
     (let carry = pad ! 0 AND 0x80; pad = shift_left_one pad
      in if carry \<noteq> 0 then pad[15 := pad ! 15 XOR 0x87] else pad)"

definition siv_xor :: "bytes \<Rightarrow> bytes \<Rightarrow> bytes" where
  "siv_xor a b = xor_bytes (take 16 a) (take 16 b)"

definition xorend :: "bytes \<Rightarrow> bytes \<Rightarrow> bytes" where
  "xorend a b =
     (if length a < length b then a
      else take (length a - length b) a @ xor_bytes (drop (length a - length b) a) b)"

definition pad_block :: "bytes \<Rightarrow> bytes" where
  "pad_block addr =
     (let pad = patch (replicate 16 0) 0 addr in if length addr < 16 then pad[length addr := 0x80] else pad)"

text \<open>A nonzero return value as \<open>Inl\<close>; \<open>None\<close> is a read out of bounds in the MAC.\<close>

definition siv_mac :: "bool \<Rightarrow> bytes \<Rightarrow> bytes \<Rightarrow> (int + bytes) option" where
  "siv_mac mem key data =
     map_option (\<lambda>r. case r of None \<Rightarrow> Inl (-1) | Some mac \<Rightarrow> Inr mac) (omac1_aes_vector mem key [data])"

definition ENOMEM :: int where "ENOMEM = 12"

fun s2v_loop :: "bool \<Rightarrow> bytes \<Rightarrow> bytes list \<Rightarrow> bytes \<Rightarrow> (int + bytes) option" where
  "s2v_loop mem key [] tmp = Some (Inr tmp)"
| "s2v_loop mem key (e # es) tmp = do {
     r \<leftarrow> siv_mac mem key e;
     case r of Inl ret \<Rightarrow> Some (Inl ret) | Inr tmp2 \<Rightarrow> s2v_loop mem key es (siv_xor (dbl tmp) tmp2)
   }"

text \<open>\<open>mem\<close>: the cipher contexts can be allocated; \<open>dup\<close>: the copy of the last element can.\<close>

definition s2v_last :: "bool \<Rightarrow> bool \<Rightarrow> bytes \<Rightarrow> bytes \<Rightarrow> bytes \<Rightarrow> (int + bytes) option" where
  "s2v_last mem dup key e tmp =
     (if 16 \<le> length e then
        if \<not> dup then Some (Inl (- ENOMEM))
        else siv_mac mem key (xorend e tmp)
      else siv_mac mem key (siv_xor (dbl tmp) (pad_block e)))"

definition aes_s2v :: "bool \<Rightarrow> bool \<Rightarrow> bytes \<Rightarrow> bytes list \<Rightarrow> (int + bytes) option" where
  "aes_s2v mem dup key elems =
     (if elems = [] then siv_mac mem key ((replicate 16 0)[15 := 1])
      else do {
        r \<leftarrow> siv_mac mem key (replicate 16 0);
        case r of Inl ret \<Rightarrow> Some (Inl ret) | Inr tmp \<Rightarrow> do {
          r \<leftarrow> s2v_loop mem key (butlast elems) tmp;
          case r of Inl ret \<Rightarrow> Some (Inl ret) | Inr tmp \<Rightarrow> s2v_last mem dup key (last elems) tmp
        }
      })"

definition siv_counter :: "bytes \<Rightarrow> bytes" where
  "siv_counter v = v[8 := v ! 8 AND 0x7f, 12 := v ! 12 AND 0x7f]"

definition siv_key_ok :: "bytes \<Rightarrow> bool" where
  "siv_key_ok key \<longleftrightarrow> length key = 32 \<or> length key = 48 \<or> length key = 64"

definition aes_siv_encrypt :: "bool \<Rightarrow> bool \<Rightarrow> bool \<Rightarrow> bytes \<Rightarrow> bytes \<Rightarrow> bytes list \<Rightarrow> (int \<times> bytes) option" where
  "aes_siv_encrypt mem dup mem_ctr key pw addr =
     (if 5 < length addr \<or> \<not> siv_key_ok key then Some (-1, [])
      else do {
        let key_len = length key div 2;
        let k1 = take key_len key;
        let k2 = drop key_len key;
        r \<leftarrow> aes_s2v mem dup k1 (addr @ [pw]);
        case r of
          Inl ret \<Rightarrow> Some (-1, [])
        | Inr v \<Rightarrow> (case aes_ctr_encrypt mem_ctr k2 (siv_counter v) pw of (ret, c) \<Rightarrow> Some (ret, v @ c))
      })"

definition aes_siv_decrypt :: "bool \<Rightarrow> bool \<Rightarrow> bool \<Rightarrow> bytes \<Rightarrow> bytes \<Rightarrow> bytes list \<Rightarrow> (int \<times> bytes) option" where
  "aes_siv_decrypt mem dup mem_ctr key iv_crypt addr =
     (if length iv_crypt < 16 \<or> 5 < length addr \<or> \<not> siv_key_ok key then Some (-1, [])
      else do {
        let key_len = length key div 2;
        let k1 = take key_len key;
        let k2 = drop key_len key;
        let iv = take 16 iv_crypt;
        case aes_ctr_encrypt mem_ctr k2 (siv_counter iv) (drop 16 iv_crypt) of (ret, out) \<Rightarrow>
          if ret \<noteq> 0 then Some (ret, out)
          else do {
            r \<leftarrow> aes_s2v mem dup k1 (addr @ [out]);
            case r of
              Inl ret \<Rightarrow> Some (ret, out)
            | Inr check \<Rightarrow> Some (if check = iv then 0 else -1, out)
          }
      })"

section \<open>XOR with a key stream\<close>

locale stream_cipher =
  fixes crypt :: "'k \<Rightarrow> bytes \<Rightarrow> bytes"
  assumes crypt_crypt: "crypt k (crypt k m) = m"
    and length_crypt: "length (crypt k m) = length m"
begin

lemma crypt_swap: "crypt k c = p \<longleftrightarrow> crypt k p = c"
  using crypt_crypt by metis

end

interpretation ctr: stream_cipher "\<lambda>(ctx, c). ctr_loop (aes_encrypt ctx) c"
  by unfold_locales (auto intro: ctr_loop_involution length_ctr_loop simp: length_aes_encrypt)

lemma xor_bytes_Nil: "xor_bytes xs ys = [] \<longleftrightarrow> xs = [] \<or> ys = []"
  by (cases xs; cases ys) (simp_all add: xor_bytes_def)

lemma xor_block_cancel: "16 \<le> length m \<Longrightarrow> length s = 16 \<Longrightarrow> xor_bytes s (take 16 (xor_bytes s (take 16 m))) = take 16 m"
  by simp

lemma gctr_loop_stream:
  assumes "\<And>c. length (E c) = 16"
  shows "length m div 16 = n \<Longrightarrow> length (gctr_loop E n cb m) = length m \<and> gctr_loop E n cb (gctr_loop E n cb m) = m"
proof (induction n arbitrary: cb m)
  case 0
  then have "length m < 16" by (simp add: div_eq_0_iff)
  then have "xor_bytes m (E cb) \<noteq> []" if "m \<noteq> []"
    using that assms [of cb] by (auto simp: xor_bytes_Nil)
  then show ?case using \<open>length m < 16\<close> by (simp add: assms)
next
  case (Suc n)
  then have "16 \<le> length m" "length (drop 16 m) div 16 = n" by auto
  then show ?case using Suc.IH [of "drop 16 m" "inc32 cb"] assms by (simp add: xor_block_def)
qed

interpretation gctr: stream_cipher "\<lambda>(ctx, icb). aes_gctr (aes_encrypt ctx) icb"
proof
  fix k :: "aes_ctx \<times> bytes" and m
  obtain ctx icb where k: "k = (ctx, icb)" by fastforce
  note g = gctr_loop_stream [of "aes_encrypt ctx" m, OF length_aes_encrypt refl, of "take 16 icb"]
  show "(case k of (ctx, icb) \<Rightarrow> aes_gctr (aes_encrypt ctx) icb) ((case k of (ctx, icb) \<Rightarrow> aes_gctr (aes_encrypt ctx) icb) m) = m"
    and "length ((case k of (ctx, icb) \<Rightarrow> aes_gctr (aes_encrypt ctx) icb) m) = length m"
    using g by (auto simp: k aes_gctr_def)
qed

definition ccm_stream :: "aes_ctx \<times> bytes \<Rightarrow> bytes \<Rightarrow> bytes" where
  "ccm_stream k m = take (length m) (aes_ccm_encr (aes_encrypt (fst k)) (snd k) m)"

lemma ccm_loop_stream:
  assumes "\<And>c. length (E c) = 16"
  shows "length m div 16 = n \<Longrightarrow> length m \<le> length (ccm_encr_loop E a n i m) \<and>
    take (length m) (ccm_encr_loop E a n i (take (length m) (ccm_encr_loop E a n i m))) = m"
proof (induction n arbitrary: i m)
  case 0
  then have "length m < 16" by (simp add: div_eq_0_iff)
  let ?s = "take (length m) (E (a @ put_be16 (of_nat i)))"
  have s: "length ?s = length m" using \<open>length m < 16\<close> by (simp add: assms)
  then have "xor_bytes ?s m \<noteq> []" if "m \<noteq> []" using that by (auto simp: xor_bytes_Nil)
  then show ?case using s \<open>length m < 16\<close> by (simp add: assms Let_def)
next
  case (Suc n)
  then have len: "16 \<le> length m" "length (drop 16 m) div 16 = n" by auto
  let ?r = "ccm_encr_loop E a n (i + 1) (drop 16 m)"
  have r: "length m - 16 \<le> length ?r" "take (length m - 16) (ccm_encr_loop E a n (i + 1) (take (length m - 16) ?r)) = drop 16 m"
    using Suc.IH [OF len(2), of "i + 1"] by auto
  then show ?case using len(1) assms by (simp add: xor_aes_block_def)
qed

interpretation ccm: stream_cipher ccm_stream
proof
  fix k :: "aes_ctx \<times> bytes" and m
  note g = ccm_loop_stream [of "aes_encrypt (fst k)" m, OF length_aes_encrypt refl, of "snd k" 1]
  show len: "length (ccm_stream k m) = length m" using g by (simp add: ccm_stream_def aes_ccm_encr_def)
  show "ccm_stream k (ccm_stream k m) = m"
    unfolding ccm_stream_def [of k "ccm_stream k m"] len using g by (simp add: aes_ccm_encr_def ccm_stream_def)
qed

section \<open>CCM\<close>

lemma length_ccm_auth: "length (aes_ccm_auth (aes_encrypt ctx) data (aes_ccm_auth_start (aes_encrypt ctx) M L nonce aad n)) = 16"
proof -
  have "length x = 16 \<Longrightarrow> length (fst (ccm_auth_blocks (aes_encrypt ctx) k data x)) = 16" for k x data
    by (induction k arbitrary: x data) (simp_all add: length_aes_encrypt)
  moreover have "length (aes_ccm_auth_start (aes_encrypt ctx) M L nonce aad n) = 16"
    by (simp add: aes_ccm_auth_start_def Let_def length_aes_encrypt)
  ultimately show ?thesis by (auto simp: aes_ccm_auth_def Let_def length_aes_encrypt split: prod.split) (metis fst_conv)
qed

lemma xor_swap:
  assumes "length a = length b" "length c = length b"
  shows "xor_bytes a b = c \<longleftrightarrow> xor_bytes c b = a"
  using assms xor_bytes_cancel(1) [of a b] xor_bytes_cancel(1) [of c b] by auto

text \<open>The encryption writes whole blocks, also behind the end of a message with a partial one.\<close>

lemma ccm_writes:
  assumes "aes_ccm_ae mem key nonce M plain aad = (0, w, auth)"
  shows "length w = (length plain + 15) div 16 * 16"
proof -
  have "length m div 16 = n \<Longrightarrow> length (ccm_encr_loop (aes_encrypt ctx) a n i m) = (length m + 15) div 16 * 16" for n i m a ctx
  proof (induction n arbitrary: i m)
    case 0
    then have short: "length m < 16" by (simp add: div_eq_0_iff)
    moreover have "(length m + 15) div 16 = 1" if "0 < length m" using that short by presburger
    ultimately show ?case by (simp add: Let_def length_aes_encrypt)
  next
    case (Suc n)
    then have "16 \<le> length m" "length (drop 16 m) div 16 = n" by auto
    then show ?case using Suc.IH [of "drop 16 m" "i + 1"] by (simp add: xor_aes_block_def length_aes_encrypt le_div_geq)
  qed
  then show ?thesis using assms
    by (auto simp: aes_ccm_ae_def Let_def aes_ccm_encr_def split: if_splits option.splits)
qed

text \<open>C36: CCM decryption accepts a ciphertext and MAC exactly when CCM encryption of the plaintext it
  returns produces them, for every key, nonce, additional data and MAC length.\<close>
theorem ccm_exact:
  assumes "length auth = M" "length plain = length crypt"
  shows "(\<exists>w. aes_ccm_ad mem key nonce M crypt aad auth = (0, w) \<and> take (length crypt) w = plain) \<longleftrightarrow>
    (\<exists>w. aes_ccm_ae mem key nonce M plain aad = (0, w, auth) \<and> take (length plain) w = crypt)"
proof (cases "30 < length aad \<or> 16 < M \<or> aes_encrypt_init mem key = None")
  case True
  then show ?thesis by (auto simp: aes_ccm_ad_def aes_ccm_ae_def Let_def)
next
  case False
  then obtain ctx where ctx: "aes_encrypt_init mem key = Some ctx" by auto
  define E a where "E = aes_encrypt ctx" and "a = aes_ccm_encr_start 2 nonce"
  define x where "x p = aes_ccm_auth E p (aes_ccm_auth_start E M 2 nonce aad (length p))" for p
  define tmp where "tmp = take M (E (a @ put_be16 0))"
  have M: "M \<le> 16" "length tmp = M" using False by (simp_all add: tmp_def E_def length_aes_encrypt)
  have len: "length (x p) = 16" for p by (simp add: x_def E_def length_ccm_auth)
  have ae: "aes_ccm_ae mem key nonce M plain aad = (0, aes_ccm_encr E a plain, xor_bytes (take M (x plain)) tmp)"
    using False by (simp add: aes_ccm_ae_def ctx Let_def aes_ccm_encr_auth_def x_def E_def [symmetric] a_def [symmetric] tmp_def)
  have ad: "aes_ccm_ad mem key nonce M crypt aad auth =
      (if take M (x plain) \<noteq> xor_bytes auth tmp then -1 else 0, aes_ccm_encr E a crypt)"
    if "take (length crypt) (aes_ccm_encr E a crypt) = plain"
    using False that assms M
    by (simp add: aes_ccm_ad_def ctx Let_def aes_ccm_decr_auth_def x_def E_def [symmetric] a_def [symmetric] tmp_def)
  have st: "take (length crypt) (aes_ccm_encr E a crypt) = plain \<longleftrightarrow> take (length plain) (aes_ccm_encr E a plain) = crypt"
    using ccm.crypt_swap [of "(ctx, a)" crypt plain] by (simp add: ccm_stream_def E_def)
  have tag: "take M (x plain) = xor_bytes auth tmp \<longleftrightarrow> auth = xor_bytes (take M (x plain)) tmp"
    using xor_swap [of auth tmp "take M (x plain)"] assms(1) M len [of plain] by auto
  have dec: "snd (aes_ccm_ad mem key nonce M crypt aad auth) = aes_ccm_encr E a crypt"
    using False by (simp add: aes_ccm_ad_def ctx Let_def E_def a_def)
  show ?thesis
  proof (cases "take (length crypt) (aes_ccm_encr E a crypt) = plain")
    case True
    then show ?thesis using st tag by (auto simp: ae ad)
  next
    case False
    then have "\<not> (\<exists>w. aes_ccm_ad mem key nonce M crypt aad auth = (0, w) \<and> take (length crypt) w = plain)"
      using dec by auto
    then show ?thesis using False st by (simp add: ae)
  qed
qed

theorem ccm_exact_witness:
  "(\<exists>w. aes_ccm_ad True (replicate 16 0) (replicate 13 1) 8 [1, 2, 3] [4] (replicate 8 5) = (0, w) \<and> take 3 w = [6, 7, 8]) \<longleftrightarrow>
   (\<exists>w. aes_ccm_ae True (replicate 16 0) (replicate 13 1) 8 [6, 7, 8] [4] = (0, w, replicate 8 5) \<and> take 3 w = [1, 2, 3])"
  using ccm_exact [of "replicate 8 5" 8 "[6, 7, 8]" "[1, 2, 3]" True "replicate 16 0" "replicate 13 1" "[4]"] by (simp add: numeral_3_eq_3)

section \<open>GCM\<close>

lemma length_gf_mult: "length (gf_mult x y) = 16" if "length y = 16"
proof -
  have "length (fst (foldl (gf_step x) s ns)) = 16 \<and> length (snd (foldl (gf_step x) s ns)) = 16"
    if "length (fst s) = 16" "length (snd s) = 16" for s ns
    using that by (induction ns arbitrary: s)
      (auto simp: gf_step_def Let_def xor_block_def shift_right_block_def split: prod.split)
  then show ?thesis using that by (simp add: gf_mult_def)
qed

lemma length_gcm_ghash: "length H = 16 \<Longrightarrow> length (aes_gcm_ghash H aad crypt) = 16"
  by (simp add: aes_gcm_ghash_def ghash_def Let_def put_be64_def length_gf_mult)

text \<open>C37: GCM decryption returns a plaintext exactly when GCM encryption of it gives the ciphertext and
  tag, for every key, initialisation vector of any length and additional data.\<close>
theorem gcm_exact:
  assumes "length tag = 16"
  shows "aes_gcm_ad mem key iv crypt aad tag = (0, plain) \<longleftrightarrow> aes_gcm_ae mem key iv plain aad = (0, crypt, tag)"
proof (cases "aes_encrypt_init mem key")
  case None
  then show ?thesis by (simp add: aes_gcm_ad_def aes_gcm_ae_def aes_gcm_init_hash_subkey_def)
next
  case (Some ctx)
  let ?E = "aes_encrypt ctx"
  define H where "H = ?E (replicate 16 0)"
  define J0 where "J0 = aes_gcm_prepare_j0 iv H"
  have swap: "aes_gcm_gctr ?E J0 crypt = plain \<longleftrightarrow> aes_gcm_gctr ?E J0 plain = crypt"
    using gctr.crypt_swap [of "(ctx, inc32 J0)" crypt plain] by (auto simp: aes_gcm_gctr_def aes_gctr_def)
  have "length (aes_gctr ?E J0 (aes_gcm_ghash H aad c)) = 16" for c
    using gctr.length_crypt [of "(ctx, J0)"] length_gcm_ghash [of H] by (simp add: H_def length_aes_encrypt)
  then show ?thesis using swap assms
    by (auto simp: aes_gcm_ad_def aes_gcm_ae_def aes_gcm_init_hash_subkey_def Some Let_def H_def [symmetric] J0_def [symmetric])
qed

theorem gcm_exact_witness:
  "aes_gcm_ad True (replicate 16 0) (replicate 12 1) [1, 2, 3] [4] (replicate 16 5) = (0, [6, 7, 8]) \<longleftrightarrow>
   aes_gcm_ae True (replicate 16 0) (replicate 12 1) [6, 7, 8] [4] = (0, [1, 2, 3], replicate 16 5)"
  using gcm_exact [of "replicate 16 5" True "replicate 16 0" "replicate 12 1" "[1, 2, 3]" "[4]" "[6, 7, 8]"] by simp

section \<open>EAX\<close>


lemma init_no_mem [simp]: "aes_encrypt_init False key = None"
  by (simp add: aes_encrypt_init_def)




section \<open>SIV\<close>

lemma siv_mac_eq: "siv_mac mem key d =
    Some (case aes_encrypt_init mem key of None \<Rightarrow> Inl (-1) | Some ctx \<Rightarrow> Inr (cmac (aes_encrypt ctx) d))"
  by (simp add: siv_mac_def omac1_single split: option.split)

text \<open>A vector of 16 bytes or a nonzero error.\<close>

definition s2v_wf :: "(int + bytes) option \<Rightarrow> bool" where
  "s2v_wf r \<longleftrightarrow> (case r of None \<Rightarrow> False | Some (Inl e) \<Rightarrow> e \<noteq> 0 | Some (Inr v) \<Rightarrow> length v = 16)"

lemma s2v_wf_mac: "s2v_wf (siv_mac mem key d)"
  by (simp add: siv_mac_eq s2v_wf_def length_cmac length_aes_encrypt split: option.split)

lemma s2v_wf_bind:
  assumes "s2v_wf r" "\<And>v. length v = 16 \<Longrightarrow> s2v_wf (f v)"
  shows "s2v_wf (r \<bind> case_sum (\<lambda>e. Some (Inl e)) f)"
proof (cases r)
  case None
  then show ?thesis using assms(1) by (simp add: s2v_wf_def)
next
  case (Some x)
  then show ?thesis using assms by (cases x) (simp_all add: s2v_wf_def)
qed

lemma s2v_wf_loop: "length tmp = 16 \<Longrightarrow> s2v_wf (s2v_loop mem key es tmp)"
proof (induction es arbitrary: tmp)
  case Nil
  then show ?case by (simp add: s2v_wf_def)
next
  case (Cons e es)
  then have "length (dbl tmp) = 16" by (simp add: dbl_def Let_def)
  then show ?case using Cons.IH by (auto intro!: s2v_wf_bind s2v_wf_mac simp: siv_xor_def)
qed

lemma s2v_wf: "s2v_wf (aes_s2v mem dup key es)"
proof -
  have "s2v_wf (s2v_last mem dup key e tmp)" for e tmp
    using s2v_wf_mac by (simp add: s2v_last_def) (simp add: s2v_wf_def ENOMEM_def)
  then show ?thesis by (simp add: aes_s2v_def s2v_wf_mac s2v_wf_bind s2v_wf_loop)
qed

lemma s2v_cases:
  obtains v where "aes_s2v mem dup key es = Some (Inr v)" "length v = 16"
  | r where "aes_s2v mem dup key es = Some (Inl r)" "r \<noteq> 0"
  using s2v_wf [of mem dup key es] by (auto simp: s2v_wf_def split: option.splits sum.splits)

text \<open>SIV decryption returns a plaintext exactly when SIV encryption of it gives the input, for
  every key and additional data; the synthetic vector that was sent is the one recomputed.\<close>
theorem siv_exact:
  "aes_siv_decrypt mem dup mem_ctr key iv_crypt addr = Some (0, pw) \<longleftrightarrow>
   aes_siv_encrypt mem dup mem_ctr key pw addr = Some (0, iv_crypt)"
proof (cases "length addr \<le> 5 \<and> siv_key_ok key \<and> aes_encrypt_init mem_ctr (drop (length key div 2) key) \<noteq> None")
  case False
  then show ?thesis
    by (cases "aes_encrypt_init mem_ctr (drop (length key div 2) key)";
        cases rule: s2v_cases [of mem dup "take (length key div 2) key" "addr @ [pw]"])
      (auto simp: aes_siv_decrypt_def aes_siv_encrypt_def aes_ctr_encrypt_def)
next
  case True
  then obtain ctx where ctx: "aes_encrypt_init mem_ctr (drop (length key div 2) key) = Some ctx" by auto
  let ?S = "\<lambda>p. aes_s2v mem dup (take (length key div 2) key) (addr @ [p])"
  define C where "C v m = ctr_loop (aes_encrypt ctx) (take 16 (siv_counter v)) m" for v m
  have swap: "C v c = p \<longleftrightarrow> C v p = c" for v c p
    using ctr.crypt_swap [of "(ctx, take 16 (siv_counter v))" c p] by (simp add: C_def)
  have "aes_siv_encrypt mem dup mem_ctr key pw addr = Some (0, iv_crypt) \<longleftrightarrow>
      (\<exists>v. ?S pw = Some (Inr v) \<and> v @ C v pw = iv_crypt)"
    using True by (cases rule: s2v_cases [of mem dup "take (length key div 2) key" "addr @ [pw]"])
      (auto simp: aes_siv_encrypt_def aes_ctr_encrypt_def ctx C_def Let_def)
  also have "\<dots> \<longleftrightarrow> 16 \<le> length iv_crypt \<and> ?S pw = Some (Inr (take 16 iv_crypt)) \<and> C (take 16 iv_crypt) (drop 16 iv_crypt) = pw"
    using s2v_wf [of mem dup "take (length key div 2) key" "addr @ [pw]"]
    by (auto simp: swap s2v_wf_def)
  also have "\<dots> \<longleftrightarrow> aes_siv_decrypt mem dup mem_ctr key iv_crypt addr = Some (0, pw)"
    using True by (cases rule: s2v_cases [of mem dup "take (length key div 2) key" "addr @ [C (take 16 iv_crypt) (drop 16 iv_crypt)]"])
      (auto simp: aes_siv_decrypt_def aes_ctr_encrypt_def ctx C_def [symmetric] Let_def split: if_splits)
  finally show ?thesis ..
qed

end
