(* ===== verification/OsUtil.thy ===== *)
theory OsUtil
  imports Prelude
begin

text \<open>
  The operating system layer (\<^verbatim>\<open>utils/os_unix.c\<close>, \<^verbatim>\<open>utils/os.h\<close>): relative time, bounded string copy,
  constant time comparison, absolute paths. \<^verbatim>\<open>os_time_t\<close> is a \<^verbatim>\<open>long\<close>, 32 bits wide on the target.
\<close>

section \<open>Time\<close>

record os_reltime =
  sec :: int
  usec :: int

text \<open>Conversion to \<^verbatim>\<open>long\<close>.\<close>

definition to_long :: "int \<Rightarrow> int" where
  "to_long x = signed_take_bit 31 x"

definition os_reltime_before :: "os_reltime \<Rightarrow> os_reltime \<Rightarrow> bool" where
  "os_reltime_before a b \<longleftrightarrow> sec a < sec b \<or> sec a = sec b \<and> usec a < usec b"

definition os_reltime_sub :: "os_reltime \<Rightarrow> os_reltime \<Rightarrow> os_reltime" where
  "os_reltime_sub a b =
     (let s = sec a - sec b; u = usec a - usec b
      in if u < 0 then \<lparr>sec = s - 1, usec = u + 1000000\<rparr> else \<lparr>sec = s, usec = u\<rparr>)"

definition os_reltime_expired :: "os_reltime \<Rightarrow> os_reltime \<Rightarrow> int \<Rightarrow> bool" where
  "os_reltime_expired now ts timeout_secs =
     (let age = os_reltime_sub now ts
      in timeout_secs < sec age \<or> sec age = timeout_secs \<and> 0 < usec age)"

definition os_reltime_initialized :: "os_reltime \<Rightarrow> bool" where
  "os_reltime_initialized t \<longleftrightarrow> sec t \<noteq> 0 \<or> usec t \<noteq> 0"

text \<open>
  \<^verbatim>\<open>os_get_reltime\<close> tries the clocks in turn and keeps the one that answers in a static variable:
  result, clock kept. \<open>clock\<close> is \<^verbatim>\<open>clock_gettime\<close>, seconds and nanoseconds.
\<close>

datatype clockid = CLOCK_BOOTTIME | CLOCK_MONOTONIC | CLOCK_REALTIME

definition timespec_time :: "int \<times> int \<Rightarrow> os_reltime" where
  "timespec_time ts = \<lparr>sec = fst ts, usec = snd ts div 1000\<rparr>"

definition try_realtime :: "(clockid \<Rightarrow> (int \<times> int) option) \<Rightarrow> os_reltime option \<times> clockid" where
  "try_realtime clock = (map_option timespec_time (clock CLOCK_REALTIME), CLOCK_REALTIME)"

definition try_monotonic :: "(clockid \<Rightarrow> (int \<times> int) option) \<Rightarrow> os_reltime option \<times> clockid" where
  "try_monotonic clock =
     (case clock CLOCK_MONOTONIC of
        Some ts \<Rightarrow> (Some (timespec_time ts), CLOCK_MONOTONIC)
      | None \<Rightarrow> try_realtime clock)"

definition os_get_reltime :: "(clockid \<Rightarrow> (int \<times> int) option) \<Rightarrow> clockid \<Rightarrow> os_reltime option \<times> clockid" where
  "os_get_reltime clock clock_id =
     (case clock_id of
        CLOCK_BOOTTIME \<Rightarrow>
          (case clock CLOCK_BOOTTIME of
             Some ts \<Rightarrow> (Some (timespec_time ts), CLOCK_BOOTTIME)
           | None \<Rightarrow> try_monotonic clock)
      | CLOCK_MONOTONIC \<Rightarrow> try_monotonic clock
      | CLOCK_REALTIME \<Rightarrow> try_realtime clock)"

section \<open>Strings and memory\<close>

text \<open>
  The copy loop of \<^verbatim>\<open>os_strlcpy\<close>: what is left of \<^verbatim>\<open>left\<close> and of the source (with its terminator),
  and the bytes written.
\<close>

fun strlcpy_loop :: "nat \<Rightarrow> bytes \<Rightarrow> bytes \<Rightarrow> nat \<times> bytes \<times> bytes" where
  "strlcpy_loop 0 s out = (0, s, out)"
| "strlcpy_loop (Suc left) s out =
     (if left = 0 then (0, s, out)
      else
        case s of
          [] \<Rightarrow> (left, [], out)
        | c # s \<Rightarrow> if c = 0 then (left, s, out @ [c]) else strlcpy_loop left s (out @ [c]))"

definition os_strlcpy :: "bytes \<Rightarrow> bytes \<Rightarrow> nat \<Rightarrow> bytes \<times> nat" where
  "os_strlcpy dest src siz =
     (let whole = src @ [0] in
      case (if siz \<noteq> 0 then strlcpy_loop siz whole [] else (0, whole, [])) of
        (left, s, out) \<Rightarrow>
          if left = 0 then (patch dest 0 (if siz \<noteq> 0 then out @ [0] else out), length whole - 1)
          else (patch dest 0 out, length whole - length s - 1))"

definition os_memcmp_const :: "bytes \<Rightarrow> bytes \<Rightarrow> nat \<Rightarrow> u8" where
  "os_memcmp_const a b len = foldl (\<lambda>res i. res OR (a ! i XOR b ! i)) 0 [0..<len]"

text \<open>
  \<^verbatim>\<open>os_rel2abs_path\<close>: the working directory is asked for with buffers of growing size. \<open>getcwd len\<close>
  is the answer for a buffer of that size, \<open>Inl True\<close> for \<^verbatim>\<open>ERANGE\<close>.
\<close>

function getcwd_loop :: "(nat \<Rightarrow> bool) \<Rightarrow> (nat \<Rightarrow> bool + bytes) \<Rightarrow> nat \<Rightarrow> bytes option" where
  "getcwd_loop mem getcwd len =
     (if \<not> mem len then None
      else
        case getcwd len of
          Inl erange \<Rightarrow> if \<not> erange then None else if len = 0 \<or> 2000 < len * 2 then None else getcwd_loop mem getcwd (len * 2)
        | Inr cwd \<Rightarrow> Some cwd)"
  by pat_completeness auto
termination by (relation "measure (\<lambda>(m, g, len). 2001 - len)") auto

declare getcwd_loop.simps [simp del]

definition os_rel2abs_path :: "(nat \<Rightarrow> bool) \<Rightarrow> (nat \<Rightarrow> bool + bytes) \<Rightarrow> bytes option \<Rightarrow> bytes option" where
  "os_rel2abs_path mem getcwd rel_path =
     (case rel_path of
        None \<Rightarrow> None
      | Some rel \<Rightarrow>
          if peek rel = 0x2f then if mem (length rel + 1) then Some rel else None
          else
            case getcwd_loop mem getcwd 128 of
              None \<Rightarrow> None
            | Some cwd \<Rightarrow> if mem (length cwd + 1 + length rel + 1) then Some (cwd @ [0x2f] @ rel) else None)"

section \<open>Properties\<close>

text \<open>A time in microseconds, for times in normal form.\<close>

definition in_usec :: "os_reltime \<Rightarrow> int" where "in_usec t = sec t * 1000000 + usec t"

definition normal_time :: "os_reltime \<Rightarrow> bool" where "normal_time t \<longleftrightarrow> 0 \<le> usec t \<and> usec t < 1000000"

lemma before_usec: "normal_time a \<Longrightarrow> normal_time b \<Longrightarrow> os_reltime_before a b \<longleftrightarrow> in_usec a < in_usec b"
  by (auto simp: os_reltime_before_def in_usec_def normal_time_def)

lemma sub_usec: "normal_time a \<Longrightarrow> normal_time b \<Longrightarrow>
  in_usec (os_reltime_sub a b) = in_usec a - in_usec b \<and> normal_time (os_reltime_sub a b)"
  by (auto simp: os_reltime_sub_def in_usec_def normal_time_def Let_def)

lemma expired_usec: "normal_time a \<Longrightarrow> normal_time b \<Longrightarrow>
  os_reltime_expired a b s \<longleftrightarrow> s * 1000000 < in_usec a - in_usec b"
  by (auto simp: os_reltime_expired_def os_reltime_sub_def in_usec_def normal_time_def Let_def)

lemma before_irrefl [simp]: "\<not> os_reltime_before a a"
  by (simp add: os_reltime_before_def)

lemma before_trans: "os_reltime_before a b \<Longrightarrow> os_reltime_before b c \<Longrightarrow> os_reltime_before a c"
  by (auto simp: os_reltime_before_def)

lemma not_before_trans: "\<not> os_reltime_before b a \<Longrightarrow> \<not> os_reltime_before c b \<Longrightarrow> \<not> os_reltime_before c a"
  by (auto simp: os_reltime_before_def)

lemma before_not_before: "os_reltime_before a b \<Longrightarrow> \<not> os_reltime_before b a"
  by (auto simp: os_reltime_before_def)

lemma xor_eq_0: "a XOR b = 0 \<longleftrightarrow> a = b" for a b :: u8
  by (metis xor_cancel(1) xor.left_neutral xor_self_eq)

lemma memcmp_const_eq: "os_memcmp_const a b n = 0 \<longleftrightarrow> (\<forall>i < n. a ! i = b ! i)"
proof (induction n)
  case (Suc n)
  then show ?case by (auto simp: os_memcmp_const_def or_eq_0_iff less_Suc_eq xor_eq_0)
qed (simp add: os_memcmp_const_def)

lemma memcmp_const_take: "n \<le> length a \<Longrightarrow> n \<le> length b \<Longrightarrow> os_memcmp_const a b n = 0 \<longleftrightarrow> take n a = take n b"
  by (auto simp: memcmp_const_eq list_eq_iff_nth_eq)

lemma strlcpy_loop_fits:
  "0 \<notin> set s \<Longrightarrow> length s < n - 1 \<Longrightarrow> strlcpy_loop n (s @ [0]) out = (n - 1 - length s, [], out @ s @ [0])"
  by (induction s arbitrary: n out; case_tac n) auto

lemma strlcpy_loop_cut:
  "0 \<notin> set s \<Longrightarrow> 0 < n \<Longrightarrow> n - 1 \<le> length s \<Longrightarrow> strlcpy_loop n (s @ [0]) out = (0, drop (n - 1) s @ [0], out @ take (n - 1) s)"
proof (induction s arbitrary: n out)
  case (Cons c s)
  then obtain m where n: "n = Suc m" by (cases n) auto
  show ?case
  proof (cases "m = 0")
    case False
    then have "strlcpy_loop m (s @ [0]) (out @ [c]) = (0, drop (m - 1) s @ [0], (out @ [c]) @ take (m - 1) s)"
      using Cons.prems by (intro Cons.IH) (auto simp: n)
    moreover have "c \<noteq> 0" using Cons.prems by auto
    ultimately show ?thesis using False by (cases m) (auto simp: n)
  qed (simp add: n)
next
  case Nil
  then have "n = 1" by simp
  then show ?case by simp
qed

lemma strlcpy_spec_eq:
  assumes "cstr src" "siz \<le> length dest"
  shows "os_strlcpy dest src siz =
    (if siz = 0 then dest else patch dest 0 (take (siz - 1) src @ [0]), length src)"
proof -
  have nz: "0 \<notin> set src" using assms(1) by (auto simp: cstr_def)
  consider "siz = 0" | "0 < siz" "length src < siz - 1" | "0 < siz" "siz - 1 \<le> length src" by linarith
  then show ?thesis
  proof cases
    case 1
    then show ?thesis by (simp add: os_strlcpy_def patch_def Let_def)
  next
    case 2
    then have "\<not> siz \<le> Suc (length src)" by simp
    then show ?thesis using 2 strlcpy_loop_fits [OF nz, of siz "[]"] by (simp add: os_strlcpy_def Let_def)
  next
    case 3
    then show ?thesis using strlcpy_loop_cut [OF nz, of siz "[]"] by (simp add: os_strlcpy_def Let_def)
  qed
qed

text \<open>\<^verbatim>\<open>os_strlcpy\<close> returns the length of the source, writes only the first \<open>siz\<close> bytes of the destination
  and leaves there the longest prefix that fits with a terminator, for every size including 0.\<close>
theorem strlcpy_spec:
  assumes "cstr src" "siz \<le> length dest"
  shows "os_strlcpy dest src siz =
    (if siz = 0 then dest else patch dest 0 (take (siz - 1) src @ [0]), length src)"
  using assms by (rule strlcpy_spec_eq)

theorem strlcpy_spec_witness:
  "os_strlcpy [9, 9, 9, 9] [1, 2, 3, 4, 5] 3 = ([1, 2, 0, 9], 5)"
  using strlcpy_spec [of "[1, 2, 3, 4, 5]" 3 "[9, 9, 9, 9]"] by (simp add: cstr_def patch_def)

end
