(* ===== verification/WpaCtrl.thy ===== *)
theory WpaCtrl
  imports OsUtil ByteOps
begin

text \<open>
  The control interface client (\<^verbatim>\<open>common/wpa_ctrl.c\<close>, built with \<^verbatim>\<open>CONFIG_CTRL_IFACE_UNIX\<close>), the library
  through which the WiFi panel talks to the supplicant. What the kernel answers is an input: the
  results of the system calls of \<^verbatim>\<open>wpa_ctrl_open2\<close>, the outcome of each \<^verbatim>\<open>send\<close> with the clock read
  after it, and of each wait for a datagram. A loop whose inputs run out has not returned: \<open>None\<close>.
\<close>

section \<open>Opening and closing\<close>

text \<open>
  The part of the system that the library changes: open sockets, socket files, live
  \<^verbatim>\<open>struct wpa_ctrl\<close> objects, and its static counter.
\<close>

record ctrl_world =
  socks :: "int set"
  files :: "bytes set"
  objects :: nat
  counter :: nat

record ctrl_os =
  zalloc_ok :: bool
  socket_fd :: int
  pid :: nat
  bind_err :: "nat \<Rightarrow> int"
  unlink_ok :: bool
  connect_ok :: bool
  getfl :: int
  setfl_ok :: bool

record wpa_ctrl =
  ctrl_s :: int
  local_path :: bytes
  dest_path :: bytes
  nonblock :: bool

definition EADDRINUSE :: int where "EADDRINUSE = 98"

definition sun_path_size :: nat where "sun_path_size = 108"

text \<open>\<^verbatim>\<open>/tmp\<close> and \<^verbatim>\<open>wpa_ctrl_\<close>; the numbers are printed with \<^verbatim>\<open>%d\<close>.\<close>

definition client_dir :: bytes where "client_dir = [0x2f, 0x74, 0x6d, 0x70]"

definition client_prefix :: bytes where "client_prefix = [0x77, 0x70, 0x61, 0x5f, 0x63, 0x74, 0x72, 0x6c, 0x5f]"

definition local_name :: "ctrl_os \<Rightarrow> bytes option \<Rightarrow> nat \<Rightarrow> bytes" where
  "local_name os cli_path n =
     (case cli_path of
        Some p \<Rightarrow> if peek p = 0x2f then p @ [0x2f] else client_dir @ [0x2f]
      | None \<Rightarrow> client_dir @ [0x2f])
     @ client_prefix @ decimal (pid os) @ [0x2d] @ decimal n"

definition unlink_file :: "ctrl_os \<Rightarrow> bytes \<Rightarrow> ctrl_world \<Rightarrow> ctrl_world" where
  "unlink_file os p w = (if unlink_ok os then w\<lparr>files := files w - {p}\<rparr> else w)"

definition close_ctrl :: "ctrl_os \<Rightarrow> ctrl_world \<Rightarrow> ctrl_world" where
  "close_ctrl os w = w\<lparr>socks := socks w - {socket_fd os}, objects := objects w - 1\<rparr>"

text \<open>\<^verbatim>\<open>bind\<close> creates the socket file; it fails when the file exists or for the given other reason.\<close>

definition bind_sock :: "ctrl_os \<Rightarrow> nat \<Rightarrow> bytes \<Rightarrow> ctrl_world \<Rightarrow> int \<times> ctrl_world" where
  "bind_sock os tries p w =
     (if bind_err os tries \<noteq> 0 then (bind_err os tries, w)
      else if p \<in> files w then (EADDRINUSE, w)
      else (0, w\<lparr>files := insert p (files w)\<rparr>))"

text \<open>The first attempt and, after a stale file was removed, the second.\<close>

definition bind_local :: "ctrl_os \<Rightarrow> bytes \<Rightarrow> ctrl_world \<Rightarrow> int \<times> ctrl_world" where
  "bind_local os p w =
     (case bind_sock os 1 p w of
        (e, w) \<Rightarrow> if e = EADDRINUSE then bind_sock os 2 p (unlink_file os p w) else (e, w))"

text \<open>\<^verbatim>\<open>@abstract:\<close>\<close>

definition abstract_prefix :: bytes where
  "abstract_prefix = [0x40, 0x61, 0x62, 0x73, 0x74, 0x72, 0x61, 0x63, 0x74, 0x3a]"

text \<open>The address to connect to; \<open>None\<close> when the path does not fit.\<close>

definition set_dest :: "bytes \<Rightarrow> bytes option" where
  "set_dest ctrl_path =
     (let zero = replicate sun_path_size 0 in
      if take 10 ctrl_path = abstract_prefix
      then Some (0 # fst (os_strlcpy (tl zero) (drop 10 ctrl_path) (sun_path_size - 1)))
      else case os_strlcpy zero ctrl_path sun_path_size of
             (dest, res) \<Rightarrow> if sun_path_size \<le> res then None else Some dest)"

text \<open>From the bound socket on: the address, \<^verbatim>\<open>connect\<close>, and the non-blocking mode.\<close>

definition connect_ctrl :: "ctrl_os \<Rightarrow> bytes \<Rightarrow> bytes \<Rightarrow> ctrl_world \<Rightarrow> wpa_ctrl option \<times> ctrl_world" where
  "connect_ctrl os ctrl_path p w =
     (case set_dest ctrl_path of
        None \<Rightarrow> (None, close_ctrl os w)
      | Some dest \<Rightarrow>
          if \<not> connect_ok os then (None, unlink_file os p (close_ctrl os w))
          else (Some \<lparr>ctrl_s = socket_fd os, local_path = p, dest_path = dest,
                  nonblock = (0 \<le> getfl os \<and> setfl_ok os)\<rparr>, w))"

definition open_socket :: "ctrl_os \<Rightarrow> bytes \<Rightarrow> bytes option \<Rightarrow> ctrl_world \<Rightarrow> wpa_ctrl option \<times> ctrl_world" where
  "open_socket os ctrl_path cli_path w =
     (let w = w\<lparr>socks := insert (socket_fd os) (socks w), counter := counter w + 1\<rparr>;
          p = local_name os cli_path (counter w) in
      if sun_path_size \<le> length p then (None, close_ctrl os w)
      else
        case bind_local os p w of
          (e, w) \<Rightarrow> if e \<noteq> 0 then (None, close_ctrl os w) else connect_ctrl os ctrl_path p w)"

definition wpa_ctrl_open2 :: "ctrl_os \<Rightarrow> bytes option \<Rightarrow> bytes option \<Rightarrow> ctrl_world \<Rightarrow> wpa_ctrl option \<times> ctrl_world" where
  "wpa_ctrl_open2 os ctrl_path cli_path w =
     (case ctrl_path of
        None \<Rightarrow> (None, w)
      | Some ctrl_path \<Rightarrow>
          if \<not> zalloc_ok os then (None, w)
          else
            let w = w\<lparr>objects := objects w + 1\<rparr> in
            if socket_fd os < 0 then (None, w\<lparr>objects := objects w - 1\<rparr>)
            else open_socket os ctrl_path cli_path w)"

definition wpa_ctrl_open :: "ctrl_os \<Rightarrow> bytes option \<Rightarrow> ctrl_world \<Rightarrow> wpa_ctrl option \<times> ctrl_world" where
  "wpa_ctrl_open os ctrl_path w = wpa_ctrl_open2 os ctrl_path None w"


section \<open>Requests\<close>

definition EAGAIN :: int where "EAGAIN = 11"
definition EBUSY :: int where "EBUSY = 16"

text \<open>
  The attempts to send: the error of each, 0 for success, and the clock read after it. \<^verbatim>\<open>EWOULDBLOCK\<close>
  is \<^verbatim>\<open>EAGAIN\<close> on Linux. A start time of 0 seconds means that no attempt has failed yet.
\<close>

fun send_loop :: "os_reltime \<Rightarrow> (int \<times> os_reltime) list \<Rightarrow> bool option" where
  "send_loop started_at [] = None"
| "send_loop started_at ((e, now) # rest) =
     (if e = 0 then Some True
      else if e = EAGAIN \<or> e = EBUSY then
        if sec started_at = 0 then send_loop now rest
        else if os_reltime_expired now started_at 5 then Some False
        else send_loop started_at rest
      else Some False)"

text \<open>One wait: \<^verbatim>\<open>select\<close> interrupted, failed, timed out, or readable and then what \<^verbatim>\<open>recv\<close> gives.\<close>

datatype wait = Interrupted | Select_error int | Timed_out | Recv_error int | Datagram bytes

text \<open>\<^verbatim>\<open>IFNAME=\<close>\<close>

definition ifname_prefix :: bytes where "ifname_prefix = [0x49, 0x46, 0x4e, 0x41, 0x4d, 0x45, 0x3d]"

definition unsolicited :: "bytes \<Rightarrow> bool" where
  "unsolicited reply \<longleftrightarrow> reply \<noteq> [] \<and> hd reply = 0x3c \<or> 6 < length reply \<and> take 7 reply = ifname_prefix"

text \<open>
  Result, reply and the messages given to the callback. \<open>cb\<close>: there is a callback. A message that
  fills the buffer loses its last byte to the terminator.
\<close>

fun reply_loop :: "nat \<Rightarrow> bool \<Rightarrow> bytes list \<Rightarrow> wait list \<Rightarrow> (int \<times> bytes \<times> bytes list) option" where
  "reply_loop reply_len cb msgs [] = None"
| "reply_loop reply_len cb msgs (Interrupted # ws) = reply_loop reply_len cb msgs ws"
| "reply_loop reply_len cb msgs (Select_error e # ws) = Some (-1, [], msgs)"
| "reply_loop reply_len cb msgs (Timed_out # ws) = Some (-2, [], msgs)"
| "reply_loop reply_len cb msgs (Recv_error e # ws) = Some (-1, [], msgs)"
| "reply_loop reply_len cb msgs (Datagram d # ws) =
     (let reply = take reply_len d in
      if unsolicited reply then
        reply_loop reply_len cb
          (if cb then msgs @ [if length reply = reply_len then take (reply_len - 1) reply else reply] else msgs) ws
      else Some (0, reply, msgs))"

definition wpa_ctrl_request :: "(int \<times> os_reltime) list \<Rightarrow> wait list \<Rightarrow> nat \<Rightarrow> bool \<Rightarrow> (int \<times> bytes \<times> bytes list) option" where
  "wpa_ctrl_request sends waits reply_len cb =
     (case send_loop \<lparr>sec = 0, usec = 0\<rparr> sends of
        None \<Rightarrow> None
      | Some False \<Rightarrow> Some (-1, [], [])
      | Some True \<Rightarrow> reply_loop reply_len cb [] waits)"

text \<open>\<^verbatim>\<open>wpa_ctrl_attach\<close> and \<^verbatim>\<open>wpa_ctrl_detach\<close> differ in the command only.\<close>

definition wpa_ctrl_attach_helper :: "(int \<times> os_reltime) list \<Rightarrow> wait list \<Rightarrow> int option" where
  "wpa_ctrl_attach_helper sends waits =
     (case wpa_ctrl_request sends waits 10 False of
        None \<Rightarrow> None
      | Some (ret, buf, msgs) \<Rightarrow>
          Some (if ret < 0 then ret else if length buf = 3 \<and> buf = [0x4f, 0x4b, 0x0a] then 0 else -1))"

definition wpa_ctrl_recv :: "wait \<Rightarrow> nat \<Rightarrow> (int \<times> bytes)" where
  "wpa_ctrl_recv answer reply_len =
     (case answer of Datagram d \<Rightarrow> (0, take reply_len d) | _ \<Rightarrow> (-1, []))"

section \<open>Resources\<close>







definition sample_os :: ctrl_os where
  "sample_os = \<lparr>zalloc_ok = True, socket_fd = 5, pid = 7, bind_err = (\<lambda>_. 0), unlink_ok = True, connect_ok = True,
     getfl = 2, setfl_ok = True\<rparr>"

definition sample_world :: ctrl_world where
  "sample_world = \<lparr>socks = {4}, files = {}, objects = 0, counter = 2\<rparr>"

lemmas ctrl_eval = sample_os_def sample_world_def wpa_ctrl_open2_def open_socket_def local_name_def bind_local_def bind_sock_def
  connect_ctrl_def sun_path_size_def client_dir_def client_prefix_def abstract_prefix_def
  decimal.simps EADDRINUSE_def Let_def

text \<open>The third connection of process 7: the file is \<^verbatim>\<open>/tmp/wpa_ctrl_7-3\<close>.\<close>

lemma sample_name: "local_name sample_os None 3 = [47,116,109,112,47,119,112,97,95,99,116,114,108,95,55,45,51]"
  by (simp add: ctrl_eval)



text \<open>The one failure after which the socket file stays behind: a control path that is too long.\<close>

lemma ctrl_open_leak:
  assumes "zalloc_ok os" "0 \<le> socket_fd os" "bind_err os 1 = 0" "cstr path" "sun_path_size \<le> length path"
    "take 10 path \<noteq> abstract_prefix" "local_name os None (counter w + 1) \<notin> files w"
    "length (local_name os None (counter w + 1)) < sun_path_size"
  shows "fst (wpa_ctrl_open os (Some path) w) = None \<and>
    local_name os None (counter w + 1) \<in> files (snd (wpa_ctrl_open os (Some path) w))"
proof -
  have "set_dest path = None"
    using assms(4-6) strlcpy_spec_eq [of path sun_path_size "replicate sun_path_size 0"]
    by (simp add: set_dest_def Let_def split: prod.splits)
  then show ?thesis using assms
    by (simp add: wpa_ctrl_open_def wpa_ctrl_open2_def open_socket_def bind_local_def bind_sock_def connect_ctrl_def
        Let_def close_ctrl_def EADDRINUSE_def)
qed

section \<open>Requests and replies\<close>






lemma send_loop_waiting:
  "send_loop started sends = None \<Longrightarrow> sec started \<noteq> 0 \<Longrightarrow> (e, now) \<in> set sends \<Longrightarrow> \<not> os_reltime_expired now started 5"
  by (induction started sends rule: send_loop.induct) (auto split: if_splits)

text \<open>A sleep of a second between the attempts adds up.\<close>

lemma paced_lower:
  assumes "\<forall>i < n. f i + (1000000 :: int) \<le> f (Suc i)"
  shows "f 0 + 1000000 * int n \<le> f n"
  using assms
proof (induction n)
  case (Suc n)
  then have "f 0 + 1000000 * int n \<le> f n" "f n + 1000000 \<le> f (Suc n)" by auto
  then show ?case by simp
qed simp

text \<open>A request that cannot be sent is given up: when the clock moves on by at least a second
  between attempts, as the sleep between them ensures, no more than seven attempts are made.\<close>
theorem ctrl_send_terminates:
  assumes "length sends = 7" "0 < sec (snd (sends ! 0))"
    "\<forall>i < 7. normal_time (snd (sends ! i))"
    "\<forall>i < 6. in_usec (snd (sends ! i)) + 1000000 \<le> in_usec (snd (sends ! Suc i))"
  shows "send_loop \<lparr>sec = 0, usec = 0\<rparr> (sends @ later) \<noteq> None"
proof
  assume none: "send_loop \<lparr>sec = 0, usec = 0\<rparr> (sends @ later) = None"
  obtain e0 t0 rest where sends: "sends = (e0, t0) # rest" using assms(1) by (cases sends) auto
  have "sends ! 6 = rest ! 5" "5 < length rest" using assms(1) by (simp_all add: sends)
  then have "(fst (sends ! 6), snd (sends ! 6)) \<in> set (rest @ later)" by simp
  moreover have "send_loop t0 (rest @ later) = None" using none by (simp add: sends split: if_splits)
  ultimately have "\<not> os_reltime_expired (snd (sends ! 6)) t0 5"
    using send_loop_waiting [of t0 "rest @ later" "fst (sends ! 6)" "snd (sends ! 6)"] assms(2) by (simp add: sends)
  moreover have "in_usec t0 + 6000000 \<le> in_usec (snd (sends ! 6))"
    using paced_lower [of 6 "\<lambda>i. in_usec (snd (sends ! i))"] assms(4) by (simp add: sends)
  moreover have "normal_time (snd (sends ! 0))" "normal_time (snd (sends ! 6))" using assms(3) by simp_all
  ultimately show False by (simp add: expired_usec sends)
qed

theorem ctrl_send_terminates_witness:
  "send_loop \<lparr>sec = 0, usec = 0\<rparr> (map (\<lambda>s. (EAGAIN, \<lparr>sec = s, usec = 5\<rparr>)) [10, 11, 12, 13, 14, 15, 16] @ []) \<noteq> None"
  by (rule ctrl_send_terminates) (simp_all add: normal_time_def in_usec_def eval_nat_numeral All_less_Suc)

end
