(* ===== verification/Eloop.thy ===== *)
theory Eloop
  imports OsUtil
begin

text \<open>
  The event loop of the supplicant (\<^verbatim>\<open>utils/eloop.c\<close>, built with \<^verbatim>\<open>CONFIG_ELOOP_SELECT\<close>): socket tables,
  the ordered timer queue, signals, and \<^verbatim>\<open>eloop_run\<close>. The handlers belong to the rest of the program:
  \<open>app\<close> gives, for a call of a handler in a state of the program, the calls back into the loop that the
  handler makes, and the next state. Pointers are 32 bits wide; a failing \<^verbatim>\<open>assert\<close> and a descriptor
  outside an \<^verbatim>\<open>fd_set\<close> are \<open>None\<close>.
\<close>

section \<open>State\<close>

type_synonym ptr = u32
type_synonym handler = nat

definition ELOOP_ALL_CTX :: ptr where "ELOOP_ALL_CTX = -1"

record eloop_sock =
  sock :: int
  sock_eloop_data :: ptr
  sock_user_data :: ptr
  sock_handler :: handler

record eloop_timeout =
  time :: os_reltime
  timeout_eloop_data :: ptr
  timeout_user_data :: ptr
  timeout_handler :: handler

record eloop_signal =
  sig :: int
  signal_user_data :: ptr
  signal_handler :: handler
  sig_signaled :: nat

text \<open>\<^verbatim>\<open>count\<close> is the length of \<open>table\<close>.\<close>

record eloop_sock_table =
  table :: "eloop_sock list"
  changed :: bool

datatype eloop_event_type = EVENT_TYPE_READ | EVENT_TYPE_WRITE | EVENT_TYPE_EXCEPTION

text \<open>\<open>alarm_set\<close>: the two second alarm is running.\<close>

record eloop_data =
  max_sock :: int
  sock_count :: int
  readers :: eloop_sock_table
  writers :: eloop_sock_table
  exceptions :: eloop_sock_table
  timeouts :: "eloop_timeout list"
  signals :: "eloop_signal list"
  signaled :: nat
  pending_terminate :: bool
  terminate :: bool
  alarm_set :: bool

definition empty_table :: eloop_sock_table where "empty_table = \<lparr>table = [], changed = False\<rparr>"

definition eloop_init :: eloop_data where
  "eloop_init = \<lparr>max_sock = 0, sock_count = 0, readers = empty_table, writers = empty_table, exceptions = empty_table,
     timeouts = [], signals = [], signaled = 0, pending_terminate = False, terminate = False, alarm_set = False\<rparr>"

section \<open>Sockets\<close>

definition eloop_get_sock_table :: "eloop_event_type \<Rightarrow> eloop_data \<Rightarrow> eloop_sock_table" where
  "eloop_get_sock_table ty d =
     (case ty of EVENT_TYPE_READ \<Rightarrow> readers d | EVENT_TYPE_WRITE \<Rightarrow> writers d | EVENT_TYPE_EXCEPTION \<Rightarrow> exceptions d)"

definition put_sock_table :: "eloop_event_type \<Rightarrow> eloop_sock_table \<Rightarrow> eloop_data \<Rightarrow> eloop_data" where
  "put_sock_table ty t d =
     (case ty of
        EVENT_TYPE_READ \<Rightarrow> d\<lparr>readers := t\<rparr>
      | EVENT_TYPE_WRITE \<Rightarrow> d\<lparr>writers := t\<rparr>
      | EVENT_TYPE_EXCEPTION \<Rightarrow> d\<lparr>exceptions := t\<rparr>)"

text \<open>\<open>mem\<close>: the reallocation succeeds.\<close>

definition eloop_sock_table_add_sock :: "bool \<Rightarrow> eloop_event_type \<Rightarrow> eloop_sock \<Rightarrow> eloop_data \<Rightarrow> int \<times> eloop_data" where
  "eloop_sock_table_add_sock mem ty s d =
     (let new_max_sock = (if max_sock d < sock s then sock s else max_sock d);
          t = eloop_get_sock_table ty d
      in if \<not> mem then (-1, d)
         else (0, (put_sock_table ty \<lparr>table = table t @ [s], changed = True\<rparr> d)
                    \<lparr>max_sock := new_max_sock, sock_count := sock_count d + 1\<rparr>))"

text \<open>The search loop: the index of the first entry of the socket, or the count.\<close>

fun find_sock :: "int \<Rightarrow> eloop_sock list \<Rightarrow> nat" where
  "find_sock fd [] = 0"
| "find_sock fd (s # ss) = (if sock s = fd then 0 else Suc (find_sock fd ss))"

definition eloop_sock_table_remove_sock :: "eloop_event_type \<Rightarrow> int \<Rightarrow> eloop_data \<Rightarrow> eloop_data" where
  "eloop_sock_table_remove_sock ty fd d =
     (let t = table (eloop_get_sock_table ty d); i = find_sock fd t
      in if i = length t then d
         else (put_sock_table ty \<lparr>table = take i t @ drop (i + 1) t, changed = True\<rparr> d)\<lparr>sock_count := sock_count d - 1\<rparr>)"

definition eloop_register_sock ::
    "bool \<Rightarrow> int \<Rightarrow> eloop_event_type \<Rightarrow> handler \<Rightarrow> ptr \<Rightarrow> ptr \<Rightarrow> eloop_data \<Rightarrow> (int \<times> eloop_data) option" where
  "eloop_register_sock mem fd ty h ed ud d =
     (if fd < 0 then None
      else Some (eloop_sock_table_add_sock mem ty
             \<lparr>sock = fd, sock_eloop_data = ed, sock_user_data = ud, sock_handler = h\<rparr> d))"

definition eloop_unregister_sock :: "int \<Rightarrow> eloop_event_type \<Rightarrow> eloop_data \<Rightarrow> eloop_data" where
  "eloop_unregister_sock fd ty d = eloop_sock_table_remove_sock ty fd d"

definition eloop_register_read_sock :: "bool \<Rightarrow> int \<Rightarrow> handler \<Rightarrow> ptr \<Rightarrow> ptr \<Rightarrow> eloop_data \<Rightarrow> (int \<times> eloop_data) option" where
  "eloop_register_read_sock mem fd h ed ud d = eloop_register_sock mem fd EVENT_TYPE_READ h ed ud d"

definition eloop_unregister_read_sock :: "int \<Rightarrow> eloop_data \<Rightarrow> eloop_data" where
  "eloop_unregister_read_sock fd d = eloop_unregister_sock fd EVENT_TYPE_READ d"

section \<open>Timers\<close>

text \<open>The loop that carries microseconds into seconds.\<close>

function carry_usec :: "os_reltime \<Rightarrow> os_reltime" where
  "carry_usec t = (if 1000000 \<le> usec t then carry_usec \<lparr>sec = to_long (sec t + 1), usec = usec t - 1000000\<rparr> else t)"
  by pat_completeness auto
termination by (relation "measure (\<lambda>t. nat (usec t))") auto

declare carry_usec.simps [simp del]

fun insert_timeout :: "eloop_timeout \<Rightarrow> eloop_timeout list \<Rightarrow> eloop_timeout list" where
  "insert_timeout t [] = [t]"
| "insert_timeout t (x # xs) = (if os_reltime_before (time t) (time x) then t # x # xs else x # insert_timeout t xs)"

text \<open>\<open>now\<close> is the reading of the clock, \<open>None\<close> when it fails.\<close>

definition eloop_register_timeout ::
    "bool \<Rightarrow> os_reltime option \<Rightarrow> u32 \<Rightarrow> u32 \<Rightarrow> handler \<Rightarrow> ptr \<Rightarrow> ptr \<Rightarrow> eloop_data \<Rightarrow> int \<times> eloop_data" where
  "eloop_register_timeout mem clock secs usecs h ed ud d =
     (if \<not> mem then (-1, d)
      else
        case clock of
          None \<Rightarrow> (-1, d)
        | Some now \<Rightarrow>
            let s = to_long (sec now + uint secs) in
            if s < sec now then (0, d)
            else
              let t = carry_usec \<lparr>sec = s, usec = to_long (usec now + uint usecs)\<rparr>
              in (0, d\<lparr>timeouts := insert_timeout
                     \<lparr>time = t, timeout_eloop_data = ed, timeout_user_data = ud, timeout_handler = h\<rparr> (timeouts d)\<rparr>))"

definition matches :: "handler \<Rightarrow> ptr \<Rightarrow> ptr \<Rightarrow> eloop_timeout \<Rightarrow> bool" where
  "matches h ed ud t \<longleftrightarrow>
     timeout_handler t = h \<and> (timeout_eloop_data t = ed \<or> ed = ELOOP_ALL_CTX) \<and> (timeout_user_data t = ud \<or> ud = ELOOP_ALL_CTX)"

definition matches_exactly :: "handler \<Rightarrow> ptr \<Rightarrow> ptr \<Rightarrow> eloop_timeout \<Rightarrow> bool" where
  "matches_exactly h ed ud t \<longleftrightarrow> timeout_handler t = h \<and> timeout_eloop_data t = ed \<and> timeout_user_data t = ud"

fun cancel_loop :: "handler \<Rightarrow> ptr \<Rightarrow> ptr \<Rightarrow> int \<Rightarrow> eloop_timeout list \<Rightarrow> int \<times> eloop_timeout list" where
  "cancel_loop h ed ud removed [] = (removed, [])"
| "cancel_loop h ed ud removed (t # ts) =
     (if matches h ed ud t then cancel_loop h ed ud (removed + 1) ts
      else case cancel_loop h ed ud removed ts of (n, ts) \<Rightarrow> (n, t # ts))"

definition eloop_cancel_timeout :: "handler \<Rightarrow> ptr \<Rightarrow> ptr \<Rightarrow> eloop_data \<Rightarrow> int \<times> eloop_data" where
  "eloop_cancel_timeout h ed ud d =
     (case cancel_loop h ed ud 0 (timeouts d) of (n, ts) \<Rightarrow> (n, d\<lparr>timeouts := ts\<rparr>))"

text \<open>Removed, remaining time, timers.\<close>

fun cancel_one_loop :: "os_reltime \<Rightarrow> handler \<Rightarrow> ptr \<Rightarrow> ptr \<Rightarrow> eloop_timeout list \<Rightarrow> int \<times> os_reltime \<times> eloop_timeout list" where
  "cancel_one_loop now h ed ud [] = (0, \<lparr>sec = 0, usec = 0\<rparr>, [])"
| "cancel_one_loop now h ed ud (t # ts) =
     (if matches_exactly h ed ud t
      then (1, if os_reltime_before now (time t) then os_reltime_sub (time t) now else \<lparr>sec = 0, usec = 0\<rparr>, ts)
      else case cancel_one_loop now h ed ud ts of (n, remaining, ts) \<Rightarrow> (n, remaining, t # ts))"

definition eloop_cancel_timeout_one ::
    "os_reltime \<Rightarrow> handler \<Rightarrow> ptr \<Rightarrow> ptr \<Rightarrow> eloop_data \<Rightarrow> int \<times> os_reltime \<times> eloop_data" where
  "eloop_cancel_timeout_one now h ed ud d =
     (case cancel_one_loop now h ed ud (timeouts d) of (n, remaining, ts) \<Rightarrow> (n, remaining, d\<lparr>timeouts := ts\<rparr>))"

fun eloop_is_timeout_registered :: "handler \<Rightarrow> ptr \<Rightarrow> ptr \<Rightarrow> eloop_timeout list \<Rightarrow> bool" where
  "eloop_is_timeout_registered h ed ud [] = False"
| "eloop_is_timeout_registered h ed ud (t # ts) =
     (if matches_exactly h ed ud t then True else eloop_is_timeout_registered h ed ud ts)"

text \<open>\<open>now\<close> is the first reading of the clock, \<open>clock\<close> the one of the new registration.\<close>

definition eloop_deplete_timeout ::
    "os_reltime \<Rightarrow> bool \<Rightarrow> os_reltime option \<Rightarrow> u32 \<Rightarrow> u32 \<Rightarrow> handler \<Rightarrow> ptr \<Rightarrow> ptr \<Rightarrow> eloop_data \<Rightarrow> int \<times> eloop_data" where
  "eloop_deplete_timeout now mem clock req_secs req_usecs h ed ud d =
     (case find (matches_exactly h ed ud) (timeouts d) of
        None \<Rightarrow> (-1, d)
      | Some t \<Rightarrow>
          let requested = \<lparr>sec = to_long (uint req_secs), usec = to_long (uint req_usecs)\<rparr>;
              remaining = os_reltime_sub (time t) now
          in if os_reltime_before requested remaining then
               (1, snd (eloop_register_timeout mem clock (word_of_int (sec requested)) (word_of_int (usec requested)) h ed ud
                      (snd (eloop_cancel_timeout h ed ud d))))
             else (0, d))"

definition eloop_replenish_timeout ::
    "os_reltime \<Rightarrow> bool \<Rightarrow> os_reltime option \<Rightarrow> u32 \<Rightarrow> u32 \<Rightarrow> handler \<Rightarrow> ptr \<Rightarrow> ptr \<Rightarrow> eloop_data \<Rightarrow> int \<times> eloop_data" where
  "eloop_replenish_timeout now mem clock req_secs req_usecs h ed ud d =
     (case find (matches_exactly h ed ud) (timeouts d) of
        None \<Rightarrow> (-1, d)
      | Some t \<Rightarrow>
          let requested = \<lparr>sec = to_long (uint req_secs), usec = to_long (uint req_usecs)\<rparr>;
              remaining = os_reltime_sub (time t) now
          in if os_reltime_before remaining requested then
               (1, snd (eloop_register_timeout mem clock (word_of_int (sec requested)) (word_of_int (usec requested)) h ed ud
                      (snd (eloop_cancel_timeout h ed ud d))))
             else (0, d))"

section \<open>Signals\<close>

definition SIGHUP :: int where "SIGHUP = 1"
definition SIGINT :: int where "SIGINT = 2"
definition SIGTERM :: int where "SIGTERM = 15"

fun count_signal :: "int \<Rightarrow> eloop_signal list \<Rightarrow> eloop_signal list" where
  "count_signal n [] = []"
| "count_signal n (s # ss) = (if sig s = n then s\<lparr>sig_signaled := sig_signaled s + 1\<rparr> # ss else s # count_signal n ss)"

definition eloop_handle_signal :: "int \<Rightarrow> eloop_data \<Rightarrow> eloop_data" where
  "eloop_handle_signal n d =
     (let d = (if (n = SIGINT \<or> n = SIGTERM) \<and> \<not> pending_terminate d then d\<lparr>pending_terminate := True, alarm_set := True\<rparr> else d)
      in d\<lparr>signaled := signaled d + 1, signals := count_signal n (signals d)\<rparr>)"

definition eloop_register_signal :: "bool \<Rightarrow> int \<Rightarrow> handler \<Rightarrow> ptr \<Rightarrow> eloop_data \<Rightarrow> int \<times> eloop_data" where
  "eloop_register_signal mem n h ud d =
     (if \<not> mem then (-1, d)
      else (0, d\<lparr>signals := signals d @ [\<lparr>sig = n, signal_user_data = ud, signal_handler = h, sig_signaled = 0\<rparr>]\<rparr>))"

definition eloop_register_signal_terminate :: "bool \<Rightarrow> bool \<Rightarrow> handler \<Rightarrow> ptr \<Rightarrow> eloop_data \<Rightarrow> int \<times> eloop_data" where
  "eloop_register_signal_terminate mem mem2 h ud d =
     (case eloop_register_signal mem SIGINT h ud d of
        (ret, d) \<Rightarrow> if ret = 0 then eloop_register_signal mem2 SIGTERM h ud d else (ret, d))"

definition eloop_register_signal_reconfig :: "bool \<Rightarrow> handler \<Rightarrow> ptr \<Rightarrow> eloop_data \<Rightarrow> int \<times> eloop_data" where
  "eloop_register_signal_reconfig mem h ud d = eloop_register_signal mem SIGHUP h ud d"

definition eloop_terminate :: "eloop_data \<Rightarrow> eloop_data" where
  "eloop_terminate d = d\<lparr>terminate := True\<rparr>"

text \<open>The timers are removed one by one; the tables and the signal array are freed, with their pointers
  left as they are, so that the loop is not to be used afterwards.\<close>

definition eloop_destroy :: "eloop_data \<Rightarrow> eloop_data" where
  "eloop_destroy d = d\<lparr>timeouts := []\<rparr>"

definition eloop_terminated :: "eloop_data \<Rightarrow> bool" where
  "eloop_terminated d \<longleftrightarrow> terminate d \<or> pending_terminate d"

section \<open>Handlers\<close>

text \<open>
  The calls a handler makes into the loop, with what the system answers in them. \<open>Raise\<close>: a signal
  arrives. Handlers do not register signals: the program does so before \<^verbatim>\<open>eloop_run\<close>.
\<close>

datatype api =
    Register_sock bool int eloop_event_type handler ptr ptr
  | Unregister_sock int eloop_event_type
  | Register_timeout bool "os_reltime option" u32 u32 handler ptr ptr
  | Cancel_timeout handler ptr ptr
  | Cancel_timeout_one os_reltime handler ptr ptr
  | Deplete_timeout os_reltime bool "os_reltime option" u32 u32 handler ptr ptr
  | Replenish_timeout os_reltime bool "os_reltime option" u32 u32 handler ptr ptr
  | Terminate
  | Raise int

fun exec_api :: "api \<Rightarrow> eloop_data \<Rightarrow> eloop_data option" where
  "exec_api (Register_sock mem fd ty h ed ud) d = map_option snd (eloop_register_sock mem fd ty h ed ud d)"
| "exec_api (Unregister_sock fd ty) d = Some (eloop_unregister_sock fd ty d)"
| "exec_api (Register_timeout mem clock secs usecs h ed ud) d = Some (snd (eloop_register_timeout mem clock secs usecs h ed ud d))"
| "exec_api (Cancel_timeout h ed ud) d = Some (snd (eloop_cancel_timeout h ed ud d))"
| "exec_api (Cancel_timeout_one now h ed ud) d = Some (snd (snd (eloop_cancel_timeout_one now h ed ud d)))"
| "exec_api (Deplete_timeout now mem clock secs usecs h ed ud) d =
     Some (snd (eloop_deplete_timeout now mem clock secs usecs h ed ud d))"
| "exec_api (Replenish_timeout now mem clock secs usecs h ed ud) d =
     Some (snd (eloop_replenish_timeout now mem clock secs usecs h ed ud d))"
| "exec_api Terminate d = Some (eloop_terminate d)"
| "exec_api (Raise n) d = Some (eloop_handle_signal n d)"

fun exec_apis :: "api list \<Rightarrow> eloop_data \<Rightarrow> eloop_data option" where
  "exec_apis [] d = Some d"
| "exec_apis (a # as) d = (case exec_api a d of None \<Rightarrow> None | Some d \<Rightarrow> exec_apis as d)"

text \<open>A call of a handler: a ready socket, a timer and the time at which it was found due, a signal.\<close>

datatype call = Sock_call eloop_event_type eloop_sock | Timeout_call os_reltime eloop_timeout | Signal_call int handler ptr

record 's world =
  loop :: eloop_data
  program :: 's
  calls :: "call list"

type_synonym 's app = "call \<Rightarrow> 's \<Rightarrow> api list \<times> 's"

definition call_handler :: "'s app \<Rightarrow> call \<Rightarrow> 's world \<Rightarrow> 's world option" where
  "call_handler app c w =
     (case app c (program w) of
        (as, p) \<Rightarrow>
          case exec_apis as (loop w) of
            None \<Rightarrow> None
          | Some d \<Rightarrow> Some \<lparr>loop = d, program = p, calls = calls w @ [c]\<rparr>)"

section \<open>The timer queue\<close>

definition in_order :: "('t \<Rightarrow> os_reltime) \<Rightarrow> 't list \<Rightarrow> bool" where
  "in_order key = sorted_wrt (\<lambda>a b. \<not> os_reltime_before (key b) (key a))"

lemma before_in_order:
  "in_order key (a # xs) \<Longrightarrow> os_reltime_before t (key a) \<Longrightarrow> \<forall>x \<in> set xs. os_reltime_before t (key x)"
  by (auto simp: in_order_def os_reltime_before_def)

lemma split_in_order:
  "in_order key xs \<Longrightarrow> filter (\<lambda>x. \<not> os_reltime_before t (key x)) xs @ filter (\<lambda>x. os_reltime_before t (key x)) xs = xs"
proof (induction xs)
  case (Cons a xs)
  show ?case
  proof (cases "os_reltime_before t (key a)")
    case True
    then show ?thesis using before_in_order [OF Cons.prems True] by simp
  next
    case False
    then show ?thesis using Cons by (simp add: in_order_def)
  qed
qed simp

text \<open>
  What the loop needs of the queue: a new timer goes behind all that are not later and before all that
  are, and a cancellation takes out the selected timers and nothing else.
\<close>

locale timer_queue =
  fixes key :: "'t \<Rightarrow> os_reltime" and items :: "'q \<Rightarrow> 't list"
    and insert :: "'t \<Rightarrow> 'q \<Rightarrow> 'q" and cancel :: "'m \<Rightarrow> 'q \<Rightarrow> 'q" and selected :: "'m \<Rightarrow> 't \<Rightarrow> bool"
  assumes items_insert: "in_order key (items q) \<Longrightarrow>
      items (insert t q) = filter (\<lambda>x. \<not> os_reltime_before (key t) (key x)) (items q)
        @ t # filter (\<lambda>x. os_reltime_before (key t) (key x)) (items q)"
    and items_cancel: "items (cancel m q) = filter (\<lambda>x. \<not> selected m x) (items q)"
begin

lemma in_order_insert: "in_order key (items q) \<Longrightarrow> in_order key (items (insert t q))"
  by (auto simp: items_insert in_order_def sorted_wrt_append sorted_wrt_filter
      dest: before_not_before before_trans intro: not_before_trans)

lemma in_order_cancel: "in_order key (items q) \<Longrightarrow> in_order key (items (cancel m q))"
  by (simp add: items_cancel in_order_def sorted_wrt_filter)

lemma set_insert: "in_order key (items q) \<Longrightarrow> set (items (insert t q)) = Set.insert t (set (items q))"
  by (auto simp: items_insert)

lemma first_earliest: "in_order key (items q) \<Longrightarrow> items q = t # ts \<Longrightarrow> x \<in> set (items q) \<Longrightarrow> \<not> os_reltime_before (key x) (key t)"
  by (auto simp: in_order_def)

text \<open>Of two timers for the same time the one registered first stays first.\<close>

lemma insert_fifo:
  assumes "in_order key (items q)" "x \<in> set (items q)" "\<not> os_reltime_before (key t) (key x)"
  shows "\<exists>as bs. items (insert t q) = as @ t # bs \<and> x \<in> set as"
  unfolding items_insert [OF assms(1)]
  by (intro exI conjI, rule refl) (use assms in simp)

lemma cancel_insert:
  assumes "in_order key (items q)" "selected m t"
  shows "items (cancel m (insert t q)) = items (cancel m q)"
proof -
  have "items (cancel m q) = filter (\<lambda>x. \<not> selected m x)
      (filter (\<lambda>x. \<not> os_reltime_before (key t) (key x)) (items q) @ filter (\<lambda>x. os_reltime_before (key t) (key x)) (items q))"
    using split_in_order [OF assms(1), of "key t"] by (simp only: items_cancel)
  then show ?thesis using assms by (simp add: items_cancel items_insert)
qed

end


lemma insert_timeout_split:
  "in_order time ts \<Longrightarrow> insert_timeout t ts =
     filter (\<lambda>x. \<not> os_reltime_before (time t) (time x)) ts @ t # filter (\<lambda>x. os_reltime_before (time t) (time x)) ts"
proof (induction ts)
  case (Cons a ts)
  show ?case
  proof (cases "os_reltime_before (time t) (time a)")
    case True
    then show ?thesis using before_in_order [OF Cons.prems True] by simp
  next
    case False
    then show ?thesis using Cons by (simp add: in_order_def)
  qed
qed simp

lemma cancel_loop_eq:
  "cancel_loop h ed ud n ts = (n + int (length (filter (matches h ed ud) ts)), filter (\<lambda>t. \<not> matches h ed ud t) ts)"
  by (induction h ed ud n ts rule: cancel_loop.induct) auto

definition cancel_matching :: "handler \<times> ptr \<times> ptr \<Rightarrow> eloop_timeout list \<Rightarrow> eloop_timeout list" where
  "cancel_matching m ts = (case m of (h, ed, ud) \<Rightarrow> snd (cancel_loop h ed ud 0 ts))"

definition matching :: "handler \<times> ptr \<times> ptr \<Rightarrow> eloop_timeout \<Rightarrow> bool" where
  "matching m t = (case m of (h, ed, ud) \<Rightarrow> matches h ed ud t)"

interpretation tq: timer_queue time "\<lambda>ts. ts" insert_timeout cancel_matching matching
  by unfold_locales (simp_all add: insert_timeout_split cancel_matching_def matching_def cancel_loop_eq split: prod.splits)

lemma cancel_one_subset:
  "in_order time ts \<Longrightarrow>
    in_order time (snd (snd (cancel_one_loop now h ed ud ts))) \<and> set (snd (snd (cancel_one_loop now h ed ud ts))) \<subseteq> set ts"
proof (induction ts)
  case (Cons t ts)
  then show ?case by (cases "cancel_one_loop now h ed ud ts") (auto simp: in_order_def)
qed simp

section \<open>Invariant\<close>

text \<open>
  Timers in order, the total number of entries, and every registered socket non-negative and at most
  \<^verbatim>\<open>max_sock\<close>, so that the first argument of \<^verbatim>\<open>select\<close> covers it.
\<close>

definition socks_ok :: "int \<Rightarrow> eloop_sock list \<Rightarrow> bool" where
  "socks_ok m ss \<longleftrightarrow> (\<forall>s \<in> set ss. 0 \<le> sock s \<and> sock s \<le> m)"

definition eloop_inv :: "eloop_data \<Rightarrow> bool" where
  "eloop_inv d \<longleftrightarrow>
     in_order time (timeouts d) \<and>
     sock_count d = int (length (table (readers d)) + length (table (writers d)) + length (table (exceptions d))) \<and>
     socks_ok (max_sock d) (table (readers d)) \<and> socks_ok (max_sock d) (table (writers d)) \<and>
     socks_ok (max_sock d) (table (exceptions d))"

lemma eloop_inv_init: "eloop_inv eloop_init"
  by (simp add: eloop_inv_def eloop_init_def empty_table_def in_order_def socks_ok_def)

text \<open>The parts of the state an operation leaves alone.\<close>

definition same_socks :: "eloop_data \<Rightarrow> eloop_data \<Rightarrow> bool" where
  "same_socks d d' \<longleftrightarrow> max_sock d' = max_sock d \<and> sock_count d' = sock_count d \<and> readers d' = readers d \<and>
     writers d' = writers d \<and> exceptions d' = exceptions d"

lemma inv_same_socks: "eloop_inv d \<Longrightarrow> same_socks d d' \<Longrightarrow> in_order time (timeouts d') \<Longrightarrow> eloop_inv d'"
  by (simp add: eloop_inv_def same_socks_def)

lemma get_same_socks: "same_socks d d' \<Longrightarrow> eloop_get_sock_table ty d' = eloop_get_sock_table ty d"
  by (simp add: same_socks_def eloop_get_sock_table_def split: eloop_event_type.splits)

lemma socks_ok_simps [simp]:
  "socks_ok m []" "socks_ok m (s # ss) \<longleftrightarrow> (0 \<le> sock s \<and> sock s \<le> m) \<and> socks_ok m ss"
  "socks_ok m (xs @ ys) \<longleftrightarrow> socks_ok m xs \<and> socks_ok m ys"
  by (auto simp: socks_ok_def)

lemma socks_ok_mono: "socks_ok m ss \<Longrightarrow> m \<le> m' \<Longrightarrow> socks_ok m' ss"
  by (auto simp: socks_ok_def)

lemma socks_ok_remove: "socks_ok m ss \<Longrightarrow> socks_ok m (take i ss @ drop j ss)"
  by (auto simp: socks_ok_def dest: in_set_takeD in_set_dropD)

lemma find_sock_le: "find_sock fd ss \<le> length ss"
  by (induction ss) auto

lemma add_sock_inv:
  assumes "eloop_inv d" "0 \<le> sock s"
  shows "eloop_inv (snd (eloop_sock_table_add_sock mem ty s d))"
proof (cases mem)
  case True
  then show ?thesis using assms
    by (cases ty) (auto simp: eloop_sock_table_add_sock_def Let_def eloop_inv_def put_sock_table_def
        eloop_get_sock_table_def elim: socks_ok_mono)
qed (use assms in \<open>simp add: eloop_sock_table_add_sock_def\<close>)

lemma remove_sock_inv:
  assumes "eloop_inv d"
  shows "eloop_inv (eloop_sock_table_remove_sock ty fd d)"
proof (cases "find_sock fd (table (eloop_get_sock_table ty d)) = length (table (eloop_get_sock_table ty d))")
  case False
  then have "find_sock fd (table (eloop_get_sock_table ty d)) < length (table (eloop_get_sock_table ty d))"
    using find_sock_le le_neq_implies_less by blast
  then show ?thesis using assms
    by (cases ty) (simp_all add: eloop_sock_table_remove_sock_def Let_def eloop_inv_def put_sock_table_def
        eloop_get_sock_table_def socks_ok_remove del: socks_ok_simps(3))
qed (use assms in \<open>simp add: eloop_sock_table_remove_sock_def\<close>)

text \<open>Timer operations.\<close>

definition timer_frame :: "eloop_data \<Rightarrow> eloop_data \<Rightarrow> bool" where
  "timer_frame d d' \<longleftrightarrow> same_socks d d' \<and> length (signals d') = length (signals d) \<and>
     (in_order time (timeouts d) \<longrightarrow> in_order time (timeouts d'))"

lemma timer_frame_refl [simp]: "timer_frame d d"
  by (simp add: timer_frame_def same_socks_def)

lemma timer_frame_trans: "timer_frame a b \<Longrightarrow> timer_frame b c \<Longrightarrow> timer_frame a c"
  by (simp add: timer_frame_def same_socks_def)

lemma timer_frame_inv: "timer_frame d d' \<Longrightarrow> eloop_inv d \<Longrightarrow> eloop_inv d'"
  by (simp add: timer_frame_def inv_same_socks eloop_inv_def same_socks_def)

lemma timer_frame_timeouts: "(in_order time (timeouts d) \<Longrightarrow> in_order time ts) \<Longrightarrow> timer_frame d (d\<lparr>timeouts := ts\<rparr>)"
  by (simp add: timer_frame_def same_socks_def)

lemma register_timeout_frame: "timer_frame d (snd (eloop_register_timeout mem clock secs usecs h ed ud d))"
  by (auto simp: eloop_register_timeout_def Let_def split: option.splits intro!: timer_frame_timeouts tq.in_order_insert)

lemma cancel_timeout_eq:
  "eloop_cancel_timeout h ed ud d =
    (int (length (filter (matches h ed ud) (timeouts d))), d\<lparr>timeouts := filter (\<lambda>t. \<not> matches h ed ud t) (timeouts d)\<rparr>)"
  by (simp add: eloop_cancel_timeout_def cancel_loop_eq)

lemma cancel_timeout_frame: "timer_frame d (snd (eloop_cancel_timeout h ed ud d))"
  unfolding cancel_timeout_eq by (simp, rule timer_frame_timeouts) (simp add: in_order_def sorted_wrt_filter)

lemmas reschedule_frame = timer_frame_trans [OF cancel_timeout_frame register_timeout_frame]

lemma deplete_timeout_frame: "timer_frame d (snd (eloop_deplete_timeout now mem clock secs usecs h ed ud d))"
  by (simp add: eloop_deplete_timeout_def Let_def reschedule_frame split: option.splits)

lemma replenish_timeout_frame: "timer_frame d (snd (eloop_replenish_timeout now mem clock secs usecs h ed ud d))"
  by (simp add: eloop_replenish_timeout_def Let_def reschedule_frame split: option.splits)

lemma cancel_one_frame: "timer_frame d (snd (snd (eloop_cancel_timeout_one now h ed ud d)))"
proof -
  have "snd (snd (eloop_cancel_timeout_one now h ed ud d)) = d\<lparr>timeouts := snd (snd (cancel_one_loop now h ed ud (timeouts d)))\<rparr>"
    by (simp add: eloop_cancel_timeout_one_def split: prod.splits)
  then show ?thesis by (simp add: timer_frame_timeouts cancel_one_subset)
qed

lemma length_count_signal [simp]: "length (count_signal n ss) = length ss"
  by (induction ss) auto

lemma handle_signal_frame: "timer_frame d (eloop_handle_signal n d)"
  by (simp add: eloop_handle_signal_def timer_frame_def same_socks_def Let_def)

lemma terminate_frame: "timer_frame d (eloop_terminate d)"
  by (simp add: eloop_terminate_def timer_frame_def same_socks_def)

lemmas frames = register_timeout_frame cancel_timeout_frame deplete_timeout_frame replenish_timeout_frame cancel_one_frame
  handle_signal_frame terminate_frame

section \<open>Calls from handlers\<close>

text \<open>An operation either works on a socket table or keeps all of them.\<close>

lemma exec_api_cases:
  assumes "exec_api a d = Some d'"
  obtains (add) mem ty s where "0 \<le> sock s" "d' = snd (eloop_sock_table_add_sock mem ty s d)"
    | (remove) ty fd where "d' = eloop_sock_table_remove_sock ty fd d"
    | (timer) "timer_frame d d'"
proof (cases a)
  case (Register_sock mem fd ty h ed ud)
  then have "0 \<le> fd" "d' = snd (eloop_sock_table_add_sock mem ty
      \<lparr>sock = fd, sock_eloop_data = ed, sock_user_data = ud, sock_handler = h\<rparr> d)"
    using assms by (auto simp: eloop_register_sock_def split: if_splits)
  then show ?thesis by (intro add) simp_all
qed (use assms remove timer in \<open>auto simp: frames eloop_unregister_sock_def\<close>)

lemma exec_api_inv: "exec_api a d = Some d' \<Longrightarrow> eloop_inv d \<Longrightarrow> eloop_inv d'"
  by (erule exec_api_cases) (simp_all add: add_sock_inv remove_sock_inv timer_frame_inv)

lemma exec_apis_inv: "exec_apis as d = Some d' \<Longrightarrow> eloop_inv d \<Longrightarrow> eloop_inv d'"
  by (induction as d rule: exec_apis.induct) (auto split: option.splits intro: exec_api_inv)

lemma get_put_sock_table [simp]:
  "eloop_get_sock_table ty (put_sock_table ty' t d) = (if ty = ty' then t else eloop_get_sock_table ty d)"
  by (cases ty; cases ty') (simp_all add: put_sock_table_def eloop_get_sock_table_def)

lemma get_sock_table_update [simp]:
  "eloop_get_sock_table ty (d\<lparr>max_sock := m\<rparr>) = eloop_get_sock_table ty d"
  "eloop_get_sock_table ty (d\<lparr>sock_count := n0\<rparr>) = eloop_get_sock_table ty d"
  "eloop_get_sock_table ty (d\<lparr>timeouts := n1\<rparr>) = eloop_get_sock_table ty d"
  "eloop_get_sock_table ty (d\<lparr>signals := n2\<rparr>) = eloop_get_sock_table ty d"
  "eloop_get_sock_table ty (d\<lparr>signaled := n3\<rparr>) = eloop_get_sock_table ty d"
  "eloop_get_sock_table ty (d\<lparr>pending_terminate := n4\<rparr>) = eloop_get_sock_table ty d"
  "eloop_get_sock_table ty (d\<lparr>terminate := n5\<rparr>) = eloop_get_sock_table ty d"
  "eloop_get_sock_table ty (d\<lparr>alarm_set := n6\<rparr>) = eloop_get_sock_table ty d"
  by (simp_all add: eloop_get_sock_table_def split: eloop_event_type.splits)

lemma signals_put_sock_table [simp]: "signals (put_sock_table ty t d) = signals d"
  by (cases ty) (simp_all add: put_sock_table_def)

text \<open>A table that is not marked as changed is the same; the number of signals is fixed.\<close>

lemma exec_api_table:
  "exec_api a d = Some d' \<Longrightarrow> eloop_get_sock_table ty d' = eloop_get_sock_table ty d \<or> changed (eloop_get_sock_table ty d')"
  by (erule exec_api_cases)
    (auto simp: eloop_sock_table_add_sock_def eloop_sock_table_remove_sock_def Let_def get_same_socks timer_frame_def)

lemma exec_apis_table:
  "exec_apis as d = Some d' \<Longrightarrow> eloop_get_sock_table ty d' = eloop_get_sock_table ty d \<or> changed (eloop_get_sock_table ty d')"
proof (induction as d rule: exec_apis.induct)
  case (2 a as d)
  then obtain d1 where "exec_api a d = Some d1" "exec_apis as d1 = Some d'" by (auto split: option.splits)
  then show ?case using 2 exec_api_table [of a d d1 ty] by metis
qed simp

lemma exec_api_signals: "exec_api a d = Some d' \<Longrightarrow> length (signals d') = length (signals d)"
  by (erule exec_api_cases)
    (auto simp: eloop_sock_table_add_sock_def eloop_sock_table_remove_sock_def Let_def timer_frame_def)

lemma exec_apis_signals: "exec_apis as d = Some d' \<Longrightarrow> length (signals d') = length (signals d)"
  by (induction as d rule: exec_apis.induct) (auto split: option.splits dest: exec_api_signals)

lemma call_handler_loop:
  "call_handler app c w = Some w' \<Longrightarrow> exec_apis (fst (app c (program w))) (loop w) = Some (loop w') \<and> calls w' = calls w @ [c]"
  by (auto simp: call_handler_def split: prod.splits option.splits)

section \<open>Deadlines\<close>







end
