(* ===== verification/EloopRun.thy ===== *)
theory EloopRun
  imports Eloop
begin

text \<open>
  \<^verbatim>\<open>eloop_run\<close> (\<^verbatim>\<open>utils/eloop.c\<close>): one pass of the loop with the processing of signals, the timer check
  and the dispatch of ready sockets. What the system does in a pass is an input: the two readings of
  the clock, the signals that arrive while it waits, and the answer of \<^verbatim>\<open>select\<close>. A list of inputs is
  a run; one that uses them up is still waiting.
\<close>

section \<open>Signals and sockets\<close>

function process_signals :: "'s app \<Rightarrow> nat \<Rightarrow> 's world \<Rightarrow> 's world option" where
  "process_signals app i w =
     (if i < length (signals (loop w)) then
        let s = signals (loop w) ! i in
        if sig_signaled s \<noteq> 0 then
          let w = w\<lparr>loop := (loop w)\<lparr>signals := (signals (loop w))[i := s\<lparr>sig_signaled := 0\<rparr>]\<rparr>\<rparr> in
          case call_handler app (Signal_call (sig s) (signal_handler s) (signal_user_data s)) w of
            None \<Rightarrow> None
          | Some w \<Rightarrow> process_signals app (i + 1) w
        else process_signals app (i + 1) w
      else Some w)"
  by pat_completeness auto
termination
  by (relation "measure (\<lambda>(app, i, w). length (signals (loop w)) - i)")
    (auto dest!: call_handler_loop exec_apis_signals)

declare process_signals.simps [simp del]

definition eloop_process_pending_signals :: "'s app \<Rightarrow> 's world \<Rightarrow> 's world option" where
  "eloop_process_pending_signals app w =
     (if signaled (loop w) = 0 then Some w
      else
        let d = (loop w)\<lparr>signaled := 0\<rparr>;
            d = (if pending_terminate d then d\<lparr>alarm_set := False, pending_terminate := False\<rparr> else d)
        in process_signals app 0 (w\<lparr>loop := d\<rparr>))"

definition FD_SETSIZE :: int where "FD_SETSIZE = 1024"

definition eloop_sock_table_set_fds :: "eloop_sock_table \<Rightarrow> int list option" where
  "eloop_sock_table_set_fds t =
     (if list_all (\<lambda>s. 0 \<le> sock s \<and> sock s < FD_SETSIZE) (table t) then Some (map sock (table t)) else None)"

text \<open>The table is read anew for every index, and left as soon as a handler has changed it.\<close>

function dispatch_from :: "'s app \<Rightarrow> eloop_event_type \<Rightarrow> int list \<Rightarrow> nat \<Rightarrow> 's world \<Rightarrow> 's world option" where
  "dispatch_from app ty fds i w =
     (if i < length (table (eloop_get_sock_table ty (loop w))) then
        let s = table (eloop_get_sock_table ty (loop w)) ! i in
        if sock s \<in> set fds then
          case call_handler app (Sock_call ty s) w of
            None \<Rightarrow> None
          | Some w \<Rightarrow> if changed (eloop_get_sock_table ty (loop w)) then Some w else dispatch_from app ty fds (i + 1) w
        else dispatch_from app ty fds (i + 1) w
      else Some w)"
  by pat_completeness auto
termination
  by (relation "measure (\<lambda>(app, ty, fds, i, w). length (table (eloop_get_sock_table ty (loop w))) - i)")
    (auto dest!: call_handler_loop exec_apis_table)

declare dispatch_from.simps [simp del]

definition clear_changed :: "eloop_event_type \<Rightarrow> eloop_data \<Rightarrow> eloop_data" where
  "clear_changed ty d = put_sock_table ty ((eloop_get_sock_table ty d)\<lparr>changed := False\<rparr>) d"

definition eloop_sock_table_dispatch :: "'s app \<Rightarrow> eloop_event_type \<Rightarrow> int list \<Rightarrow> 's world \<Rightarrow> 's world option" where
  "eloop_sock_table_dispatch app ty fds w = dispatch_from app ty fds 0 (w\<lparr>loop := clear_changed ty (loop w)\<rparr>)"

section \<open>The loop\<close>

text \<open>\<^verbatim>\<open>select\<close> fails with an error number, or names the ready descriptors of each set.\<close>

datatype select_answer = Select_failed int | Ready "int list" "int list" "int list"

record pass_input =
  now_before :: os_reltime
  arrived :: "int list"
  answer :: select_answer
  now_after :: os_reltime

definition EINTR :: int where "EINTR = 4"

text \<open>The arguments of \<^verbatim>\<open>select\<close>; no time limit without a timer.\<close>

definition wait_time :: "os_reltime \<Rightarrow> eloop_data \<Rightarrow> os_reltime option" where
  "wait_time now d =
     (case timeouts d of
        [] \<Rightarrow> None
      | t # _ \<Rightarrow> Some (if os_reltime_before now (time t) then os_reltime_sub (time t) now else \<lparr>sec = 0, usec = 0\<rparr>))"

definition select_args :: "os_reltime \<Rightarrow> eloop_data \<Rightarrow> (int \<times> int list \<times> int list \<times> int list \<times> os_reltime option) option" where
  "select_args now d =
     (case eloop_sock_table_set_fds (readers d) of
        None \<Rightarrow> None
      | Some r \<Rightarrow>
          case eloop_sock_table_set_fds (writers d) of
            None \<Rightarrow> None
          | Some w \<Rightarrow>
              case eloop_sock_table_set_fds (exceptions d) of
                None \<Rightarrow> None
              | Some e \<Rightarrow> Some (max_sock d + 1, r, w, e, wait_time now d))"

text \<open>The first timer, when it is due.\<close>

definition check_timeout :: "'s app \<Rightarrow> os_reltime \<Rightarrow> 's world \<Rightarrow> 's world option" where
  "check_timeout app now w =
     (case timeouts (loop w) of
        [] \<Rightarrow> Some w
      | t # ts \<Rightarrow>
          if os_reltime_before now (time t) then Some w
          else call_handler app (Timeout_call now t) (w\<lparr>loop := (loop w)\<lparr>timeouts := ts\<rparr>\<rparr>))"

definition dispatch_all :: "'s app \<Rightarrow> int list \<Rightarrow> int list \<Rightarrow> int list \<Rightarrow> 's world \<Rightarrow> 's world option" where
  "dispatch_all app rfds wfds efds w =
     (case eloop_sock_table_dispatch app EVENT_TYPE_READ rfds w of
        None \<Rightarrow> None
      | Some w \<Rightarrow>
          case eloop_sock_table_dispatch app EVENT_TYPE_WRITE wfds w of
            None \<Rightarrow> None
          | Some w \<Rightarrow> eloop_sock_table_dispatch app EVENT_TYPE_EXCEPTION efds w)"

definition any_changed :: "eloop_data \<Rightarrow> bool" where
  "any_changed d \<longleftrightarrow> changed (readers d) \<or> changed (writers d) \<or> changed (exceptions d)"

definition clear_all_changed :: "eloop_data \<Rightarrow> eloop_data" where
  "clear_all_changed d = clear_changed EVENT_TYPE_EXCEPTION (clear_changed EVENT_TYPE_WRITE (clear_changed EVENT_TYPE_READ d))"

text \<open>How a pass ends: the next one, \<^verbatim>\<open>break\<close>, \<^verbatim>\<open>goto out\<close>, or the process dies.\<close>

datatype 's outcome = Next "'s world" | Break "'s world" | Out "'s world" | Abort

text \<open>From the return of \<^verbatim>\<open>select\<close> on; \<open>res\<close> is its result.\<close>

definition after_select :: "'s app \<Rightarrow> os_reltime \<Rightarrow> int \<Rightarrow> int list \<Rightarrow> int list \<Rightarrow> int list \<Rightarrow> 's world \<Rightarrow> 's world option" where
  "after_select app now res rfds wfds efds w =
     (case eloop_process_pending_signals app (w\<lparr>loop := clear_all_changed (loop w)\<rparr>) of
        None \<Rightarrow> None
      | Some w \<Rightarrow>
          case check_timeout app now w of
            None \<Rightarrow> None
          | Some w \<Rightarrow>
              if res \<le> 0 then Some w
              else if any_changed (loop w) then Some w
              else dispatch_all app rfds wfds efds w)"

definition to_outcome :: "'s world option \<Rightarrow> 's outcome" where
  "to_outcome r = (case r of None \<Rightarrow> Abort | Some w \<Rightarrow> Next w)"

definition select_pass :: "'s app \<Rightarrow> pass_input \<Rightarrow> 's world \<Rightarrow> 's outcome" where
  "select_pass app i w =
     (case select_args (now_before i) (loop w) of
        None \<Rightarrow> Abort
      | Some (nfds, r, wr, e, tv) \<Rightarrow>
          let w = w\<lparr>loop := fold eloop_handle_signal (arrived i) (loop w)\<rparr> in
          case answer i of
            Select_failed err \<Rightarrow>
              if err \<noteq> EINTR \<and> err \<noteq> 0 then Out w else to_outcome (after_select app (now_after i) (-1) r wr e w)
          | Ready rr rw re \<Rightarrow>
              let r = filter (\<lambda>fd. fd \<in> set rr) r; wr = filter (\<lambda>fd. fd \<in> set rw) wr; e = filter (\<lambda>fd. fd \<in> set re) e
              in to_outcome (after_select app (now_after i) (int (card (set r) + card (set wr) + card (set e))) r wr e w))"

definition loop_pass :: "'s app \<Rightarrow> pass_input \<Rightarrow> 's world \<Rightarrow> 's outcome" where
  "loop_pass app i w =
     (if pending_terminate (loop w) then
        case eloop_process_pending_signals app w of
          None \<Rightarrow> Abort
        | Some w \<Rightarrow> if terminate (loop w) then Break w else select_pass app i w
      else select_pass app i w)"

definition loop_condition :: "eloop_data \<Rightarrow> bool" where
  "loop_condition d \<longleftrightarrow>
     \<not> terminate d \<and> (timeouts d \<noteq> [] \<or> table (readers d) \<noteq> [] \<or> table (writers d) \<noteq> [] \<or> table (exceptions d) \<noteq> [])"

datatype 's result = Waiting "'s world" | Returned "'s world" | Aborted

fun run_loop :: "'s app \<Rightarrow> pass_input list \<Rightarrow> 's world \<Rightarrow> 's result" where
  "run_loop app [] w = (if loop_condition (loop w) then Waiting w else Returned (w\<lparr>loop := (loop w)\<lparr>terminate := False\<rparr>\<rparr>))"
| "run_loop app (i # is) w =
     (if loop_condition (loop w) then
        case loop_pass app i w of
          Next w \<Rightarrow> run_loop app is w
        | Break w \<Rightarrow> Returned (w\<lparr>loop := (loop w)\<lparr>terminate := False\<rparr>\<rparr>)
        | Out w \<Rightarrow> Returned w
        | Abort \<Rightarrow> Aborted
      else Returned (w\<lparr>loop := (loop w)\<lparr>terminate := False\<rparr>\<rparr>))"

text \<open>\<open>mem\<close>: the three descriptor sets could be allocated.\<close>

definition eloop_run :: "bool \<Rightarrow> 's app \<Rightarrow> pass_input list \<Rightarrow> 's world \<Rightarrow> 's result" where
  "eloop_run mem app is w = (if mem then run_loop app is w else Returned w)"

section \<open>Rules for the two inner loops\<close>

definition take_signal :: "nat \<Rightarrow> 's world \<Rightarrow> 's world" where
  "take_signal i w = w\<lparr>loop := (loop w)\<lparr>signals := (signals (loop w))[i := (signals (loop w) ! i)\<lparr>sig_signaled := 0\<rparr>]\<rparr>\<rparr>"

definition signal_call_of :: "nat \<Rightarrow> 's world \<Rightarrow> call" where
  "signal_call_of i w = (let s = signals (loop w) ! i in Signal_call (sig s) (signal_handler s) (signal_user_data s))"

lemma process_signals_unfold:
  "process_signals app i w =
     (if length (signals (loop w)) \<le> i then Some w
      else if sig_signaled (signals (loop w) ! i) = 0 then process_signals app (Suc i) w
      else case call_handler app (signal_call_of i w) (take_signal i w) of
             None \<Rightarrow> None | Some w1 \<Rightarrow> process_signals app (Suc i) w1)"
  by (subst process_signals.simps) (simp add: Let_def signal_call_of_def take_signal_def not_le split: option.splits)

lemma length_take_signal [simp]: "length (signals (loop (take_signal i w))) = length (signals (loop w))"
  by (simp add: take_signal_def)

text \<open>An invariant of the signal loop holds at its end.\<close>

lemma process_signals_rule:
  assumes "process_signals app i w = Some w'" "P i w"
    and skip: "\<And>i w. P i w \<Longrightarrow> i < length (signals (loop w)) \<Longrightarrow> sig_signaled (signals (loop w) ! i) = 0 \<Longrightarrow> P (Suc i) w"
    and call: "\<And>i w w1. P i w \<Longrightarrow> i < length (signals (loop w)) \<Longrightarrow> sig_signaled (signals (loop w) ! i) \<noteq> 0 \<Longrightarrow>
      call_handler app (signal_call_of i w) (take_signal i w) = Some w1 \<Longrightarrow> P (Suc i) w1"
    and exit: "\<And>i w. P i w \<Longrightarrow> length (signals (loop w)) \<le> i \<Longrightarrow> Q w"
  shows "Q w'"
  using assms(1,2)
proof (induction "length (signals (loop w)) - i" arbitrary: i w rule: less_induct)
  case less
  show ?case
  proof (cases "i < length (signals (loop w))")
    case False
    then show ?thesis using less.prems exit by (simp add: process_signals_unfold)
  next
    case True
    show ?thesis
    proof (cases "sig_signaled (signals (loop w) ! i) = 0")
      case True
      then show ?thesis
        using less.prems less.hyps [of w "Suc i"] skip \<open>i < _\<close> by (simp add: process_signals_unfold [of app i])
    next
      case False
      then obtain w1 where w1: "call_handler app (signal_call_of i w) (take_signal i w) = Some w1" "process_signals app (Suc i) w1 = Some w'"
        using less.prems(1) \<open>i < _\<close> by (subst (asm) process_signals_unfold) (auto split: option.splits)
      then have "length (signals (loop w1)) = length (signals (loop w))"
        using call_handler_loop exec_apis_signals length_take_signal by metis
      then show ?thesis using less.hyps [of w1 "Suc i"] w1 call less.prems(2) False \<open>i < _\<close> by simp
    qed
  qed
qed

lemma dispatch_unfold:
  "dispatch_from app ty fds i w =
     (if length (table (eloop_get_sock_table ty (loop w))) \<le> i then Some w
      else if sock (table (eloop_get_sock_table ty (loop w)) ! i) \<notin> set fds then dispatch_from app ty fds (Suc i) w
      else case call_handler app (Sock_call ty (table (eloop_get_sock_table ty (loop w)) ! i)) w of
             None \<Rightarrow> None
           | Some w1 \<Rightarrow> if changed (eloop_get_sock_table ty (loop w1)) then Some w1 else dispatch_from app ty fds (Suc i) w1)"
  by (subst dispatch_from.simps) (simp add: Let_def not_le split: option.splits)

lemma dispatch_rule:
  assumes "dispatch_from app ty fds i w = Some w'" "P i w"
    and skip: "\<And>i w. P i w \<Longrightarrow> i < length (table (eloop_get_sock_table ty (loop w))) \<Longrightarrow>
      sock (table (eloop_get_sock_table ty (loop w)) ! i) \<notin> set fds \<Longrightarrow> P (Suc i) w"
    and call: "\<And>i w w1 s. P i w \<Longrightarrow> i < length (table (eloop_get_sock_table ty (loop w))) \<Longrightarrow>
      s = table (eloop_get_sock_table ty (loop w)) ! i \<Longrightarrow> sock s \<in> set fds \<Longrightarrow>
      call_handler app (Sock_call ty s) w = Some w1 \<Longrightarrow>
      if changed (eloop_get_sock_table ty (loop w1)) then Q w1 else P (Suc i) w1"
    and exit: "\<And>i w. P i w \<Longrightarrow> length (table (eloop_get_sock_table ty (loop w))) \<le> i \<Longrightarrow> Q w"
  shows "Q w'"
  using assms(1,2)
proof (induction "length (table (eloop_get_sock_table ty (loop w))) - i" arbitrary: i w rule: less_induct)
  case less
  let ?t = "table (eloop_get_sock_table ty (loop w))"
  show ?case
  proof (cases "i < length ?t")
    case False
    then show ?thesis using less.prems exit by (simp add: dispatch_unfold)
  next
    case True
    show ?thesis
    proof (cases "sock (?t ! i) \<in> set fds")
      case False
      then show ?thesis
        using less.prems less.hyps [of w "Suc i"] skip \<open>i < _\<close> by (simp add: dispatch_unfold [of app ty fds i])
    next
      case True
      then obtain w1 where w1: "call_handler app (Sock_call ty (?t ! i)) w = Some w1"
        "(if changed (eloop_get_sock_table ty (loop w1)) then Some w1 else dispatch_from app ty fds (Suc i) w1) = Some w'"
        using less.prems(1) \<open>i < _\<close> by (subst (asm) dispatch_unfold) (auto split: option.splits)
      have step: "if changed (eloop_get_sock_table ty (loop w1)) then Q w1 else P (Suc i) w1"
        using call [OF less.prems(2) \<open>i < _\<close> refl True w1(1)] .
      show ?thesis
      proof (cases "changed (eloop_get_sock_table ty (loop w1))")
        case False
        then have "eloop_get_sock_table ty (loop w1) = eloop_get_sock_table ty (loop w)"
          using call_handler_loop [OF w1(1)] exec_apis_table by blast
        then show ?thesis using less.hyps [of w1 "Suc i"] w1 step False \<open>i < _\<close> by simp
      qed (use w1 step in simp)
    qed
  qed
qed

section \<open>Invariants of a run\<close>

text \<open>Changes of flags and of signal counters only.\<close>

definition quiet :: "eloop_data \<Rightarrow> eloop_data \<Rightarrow> bool" where
  "quiet d d' \<longleftrightarrow> max_sock d' = max_sock d \<and> sock_count d' = sock_count d \<and> timeouts d' = timeouts d \<and>
     table (readers d') = table (readers d) \<and> table (writers d') = table (writers d) \<and>
     table (exceptions d') = table (exceptions d)"

lemma quiet_refl [simp]: "quiet d d"
  by (simp add: quiet_def)

lemma quiet_trans: "quiet a b \<Longrightarrow> quiet b c \<Longrightarrow> quiet a c"
  by (simp add: quiet_def)

lemma quiet_table: "quiet d d' \<Longrightarrow> table (eloop_get_sock_table ty d') = table (eloop_get_sock_table ty d)"
  by (cases ty) (simp_all add: quiet_def eloop_get_sock_table_def)

lemma quiet_clear_changed [simp]: "quiet d (clear_changed ty d)"
  by (cases ty) (simp_all add: quiet_def clear_changed_def put_sock_table_def eloop_get_sock_table_def)

lemma quiet_clear_all [simp]: "quiet d (clear_all_changed d)"
  unfolding clear_all_changed_def by (meson quiet_clear_changed quiet_trans)

lemma quiet_handle_signal [simp]: "quiet d (eloop_handle_signal n d)"
  by (simp add: quiet_def eloop_handle_signal_def Let_def)

lemma quiet_handle_signals [simp]: "quiet d (fold eloop_handle_signal ns d)"
  by (induction ns arbitrary: d) (auto intro: quiet_trans [OF quiet_handle_signal])

text \<open>
  A property that every call of a handler keeps, and that does not look at flags and signal counters,
  holds throughout a run.
\<close>

locale run_invariant =
  fixes app :: "'s app" and I :: "'s world \<Rightarrow> bool"
  assumes quiet: "I w \<Longrightarrow> quiet (loop w) d \<Longrightarrow> I (w\<lparr>loop := d\<rparr>)"
    and signal_call: "I w \<Longrightarrow> call_handler app (Signal_call n h ud) w = Some w' \<Longrightarrow> I w'"
    and sock_call: "I w \<Longrightarrow> s \<in> set (table (eloop_get_sock_table ty (loop w))) \<Longrightarrow>
      call_handler app (Sock_call ty s) w = Some w' \<Longrightarrow> I w'"
    and timeout_call: "I w \<Longrightarrow> timeouts (loop w) = t # ts \<Longrightarrow> \<not> os_reltime_before now (time t) \<Longrightarrow>
      call_handler app (Timeout_call now t) (w\<lparr>loop := (loop w)\<lparr>timeouts := ts\<rparr>\<rparr>) = Some w' \<Longrightarrow> I w'"
begin

lemma process_signals_I:
  assumes "process_signals app i w = Some w'" "I w"
  shows "I w'"
  using assms(1)
proof (rule process_signals_rule [where P = "\<lambda>_. I"])
  fix i w w1
  assume "I w" "call_handler app (signal_call_of i w) (take_signal i w) = Some w1"
  moreover have "I (take_signal i w)" if "I w" using quiet [OF that] by (simp add: take_signal_def quiet_def)
  ultimately show "I w1" using signal_call by (auto simp: signal_call_of_def Let_def)
qed (use assms(2) in simp_all)

lemma pending_signals_I: "eloop_process_pending_signals app w = Some w' \<Longrightarrow> I w \<Longrightarrow> I w'"
  by (auto simp: eloop_process_pending_signals_def Let_def quiet_def split: if_splits intro: quiet elim!: process_signals_I)

lemma dispatch_from_I:
  assumes "dispatch_from app ty fds i w = Some w'" "I w"
  shows "I w'"
  using assms(1) by (rule dispatch_rule [where P = "\<lambda>_. I"]) (use assms(2) in \<open>auto intro: sock_call [OF _ nth_mem]\<close>)

lemma dispatch_I: "eloop_sock_table_dispatch app ty fds w = Some w' \<Longrightarrow> I w \<Longrightarrow> I w'"
  unfolding eloop_sock_table_dispatch_def by (erule dispatch_from_I) (simp add: quiet)

lemma dispatch_all_I: "dispatch_all app r wr e w = Some w' \<Longrightarrow> I w \<Longrightarrow> I w'"
  by (auto simp: dispatch_all_def split: option.splits dest!: dispatch_I)

lemma check_timeout_I: "check_timeout app now w = Some w' \<Longrightarrow> I w \<Longrightarrow> I w'"
  by (auto simp: check_timeout_def split: list.splits if_splits intro: timeout_call)

lemma after_select_I: "after_select app now res r wr e w = Some w' \<Longrightarrow> I w \<Longrightarrow> I w'"
  unfolding after_select_def
  by (auto split: option.splits if_splits dest!: pending_signals_I check_timeout_I dispatch_all_I simp: quiet)

lemma select_pass_I: "select_pass app i w \<in> {Next w', Break w', Out w'} \<Longrightarrow> I w \<Longrightarrow> I w'"
  by (auto simp: select_pass_def Let_def to_outcome_def
      split: option.splits select_answer.splits if_splits dest!: after_select_I simp: quiet)

lemma loop_pass_I: "loop_pass app i w \<in> {Next w', Break w', Out w'} \<Longrightarrow> I w \<Longrightarrow> I w'"
  using select_pass_I by (fastforce simp: loop_pass_def split: if_splits option.splits dest!: pending_signals_I)

lemma run_loop_I: "run_loop app is w \<in> {Waiting w', Returned w'} \<Longrightarrow> I w \<Longrightarrow> I w'"
proof (induction "is" arbitrary: w)
  case Nil
  then show ?case by (auto simp: quiet_def split: if_splits intro: quiet)
next
  case (Cons i "is")
  show ?case
  proof (cases "loop_condition (loop w)")
    case False
    then show ?thesis using Cons.prems by (auto simp: quiet_def intro: quiet)
  next
    case True
    then show ?thesis using Cons.prems Cons.IH loop_pass_I [of i w]
      by (cases "loop_pass app i w") (auto simp: quiet_def intro: quiet)
  qed
qed

lemma eloop_run_I: "eloop_run mem app is w \<in> {Waiting w', Returned w'} \<Longrightarrow> I w \<Longrightarrow> I w'"
  by (auto simp: eloop_run_def split: if_splits intro: run_loop_I)

end

section \<open>Timers in a run\<close>

text \<open>No timer of the calls made so far was early.\<close>

definition never_early :: "call list \<Rightarrow> bool" where
  "never_early cs \<longleftrightarrow> (\<forall>now t. Timeout_call now t \<in> set cs \<longrightarrow> \<not> os_reltime_before now (time t))"

lemma call_handler_inv: "call_handler app c w = Some w' \<Longrightarrow> eloop_inv (loop w) \<Longrightarrow> eloop_inv (loop w')"
  using call_handler_loop exec_apis_inv by blast

lemma eloop_inv_quiet: "eloop_inv d \<Longrightarrow> quiet d d' \<Longrightarrow> eloop_inv d'"
  by (simp add: eloop_inv_def quiet_def)

lemma eloop_inv_pop: "eloop_inv d \<Longrightarrow> timeouts d = t # ts \<Longrightarrow> eloop_inv (d\<lparr>timeouts := ts\<rparr>)"
  by (simp add: eloop_inv_def in_order_def)

lemma never_early_call:
  "never_early (calls w) \<Longrightarrow> call_handler app c w = Some w' \<Longrightarrow>
    (\<And>now t. c = Timeout_call now t \<Longrightarrow> \<not> os_reltime_before now (time t)) \<Longrightarrow> never_early (calls w')"
  by (auto simp: never_early_def dest!: call_handler_loop)

interpretation run: run_invariant app "\<lambda>w. eloop_inv (loop w) \<and> never_early (calls w)" for app
proof (unfold_locales, goal_cases)
  case (1 w d)
  then show ?case by (auto intro: eloop_inv_quiet)
next
  case (2 w n h ud w')
  then show ?case using call_handler_inv [OF 2(2)] never_early_call [OF _ 2(2)] by simp
next
  case (3 w s ty w')
  then show ?case using call_handler_inv [OF 3(3)] never_early_call [OF _ 3(3)] by simp
next
  case (4 w t ts now w')
  then show ?case using call_handler_inv [OF 4(4)] never_early_call [OF _ 4(4)] eloop_inv_pop by simp
qed

text \<open>C17: Whatever the handlers do, at every point of a run the timers are in order, the number of
  registered sockets is right, every registered socket lies below the bound given to \<^verbatim>\<open>select\<close>, and
  no timer's handler was ever called before its time.\<close>
theorem eloop_run_safe:
  assumes "eloop_inv (loop w)" "calls w = []" "eloop_run mem app is w \<in> {Waiting w', Returned w'}"
  shows "eloop_inv (loop w') \<and> (\<forall>now t. Timeout_call now t \<in> set (calls w') \<longrightarrow> \<not> os_reltime_before now (time t))"
  using run.eloop_run_I [OF assms(3)] assms(1,2) by (simp add: never_early_def)

text \<open>The only timer, due at 12 s, is called at 13 s; its handler then registers another one.\<close>

definition sample_timer :: eloop_timeout where
  "sample_timer = \<lparr>time = \<lparr>sec = 12, usec = 0\<rparr>, timeout_eloop_data = 0, timeout_user_data = 0, timeout_handler = 1\<rparr>"

definition sample_loop :: "unit world" where
  "sample_loop = \<lparr>loop = eloop_init\<lparr>timeouts := [sample_timer]\<rparr>, program = (), calls = []\<rparr>"

definition sample_sock :: eloop_sock where
  "sample_sock = \<lparr>sock = 5, sock_eloop_data = 0, sock_user_data = 0, sock_handler = 2\<rparr>"

definition sample_app :: "unit app" where
  "sample_app c p =
     ((case c of Timeout_call now t \<Rightarrow> [Register_timeout True (Some now) 5 0 1 0 0]
       | Signal_call n h ud \<Rightarrow> [Terminate]
       | Sock_call ty s \<Rightarrow> []), p)"

definition sample_pass :: pass_input where
  "sample_pass = \<lparr>now_before = \<lparr>sec = 11, usec = 0\<rparr>, arrived = [], answer = Ready [] [] [], now_after = \<lparr>sec = 13, usec = 0\<rparr>\<rparr>"

lemmas loop_eval = sample_timer_def sample_loop_def sample_app_def sample_pass_def eloop_init_def empty_table_def
  eloop_run_def loop_condition_def loop_pass_def select_pass_def select_args_def eloop_sock_table_set_fds_def
  after_select_def to_outcome_def eloop_process_pending_signals_def check_timeout_def call_handler_def
  clear_all_changed_def clear_changed_def put_sock_table_def eloop_get_sock_table_def os_reltime_before_def
  eloop_register_timeout_def any_changed_def dispatch_all_def eloop_sock_table_dispatch_def dispatch_from.simps
  carry_usec.simps to_long_def Let_def

lemma sample_run:
  "eloop_run True sample_app [sample_pass] sample_loop =
     Waiting (sample_loop\<lparr>loop := (loop sample_loop)\<lparr>timeouts := [sample_timer\<lparr>time := \<lparr>sec = 18, usec = 0\<rparr>\<rparr>]\<rparr>,
       calls := [Timeout_call \<lparr>sec = 13, usec = 0\<rparr> sample_timer]\<rparr>)"
  by (simp add: loop_eval)

theorem eloop_run_safe_witness:
  "\<exists>w'. eloop_run True sample_app [sample_pass] sample_loop = Waiting w' \<and> eloop_inv (loop w') \<and>
     Timeout_call \<lparr>sec = 13, usec = 0\<rparr> sample_timer \<in> set (calls w')"
proof -
  have "eloop_inv (loop sample_loop)" "calls sample_loop = []"
    by (simp_all add: sample_loop_def eloop_inv_def in_order_def eloop_init_def empty_table_def)
  then show ?thesis using eloop_run_safe [of sample_loop True sample_app "[sample_pass]"] by (simp add: sample_run)
qed

section \<open>Waiting\<close>

text \<open>\<^verbatim>\<open>select\<close> is asked about exactly the registered sockets, its first argument is above all of them,
  and it never waits longer than until the earliest timer: its limit is the time left until then, zero
  when a timer is overdue, and none when there is no timer.\<close>
theorem select_waits:
  assumes "eloop_inv d" "normal_time now" "\<forall>t \<in> set (timeouts d). normal_time (time t)"
    "select_args now d = Some (nfds, r, wr, e, tv)"
  shows "(\<forall>fd \<in> set r \<union> set wr \<union> set e. 0 \<le> fd \<and> fd < nfds) \<and>
    r = map sock (table (readers d)) \<and> wr = map sock (table (writers d)) \<and> e = map sock (table (exceptions d)) \<and>
    (case tv of
       None \<Rightarrow> timeouts d = []
     | Some limit \<Rightarrow> timeouts d \<noteq> [] \<and> normal_time limit \<and>
         in_usec limit = Min ((\<lambda>t. max 0 (in_usec (time t) - in_usec now)) ` set (timeouts d)))"
proof -
  have args: "nfds = max_sock d + 1" "r = map sock (table (readers d))" "wr = map sock (table (writers d))"
    "e = map sock (table (exceptions d))" "tv = wait_time now d"
    using assms(4) by (auto simp: select_args_def eloop_sock_table_set_fds_def split: option.splits if_splits)
  have fds: "\<forall>fd \<in> set r \<union> set wr \<union> set e. 0 \<le> fd \<and> fd < nfds"
    using assms(1) by (auto simp: args eloop_inv_def socks_ok_def)
  show ?thesis
  proof (cases "timeouts d")
    case Nil
    then show ?thesis using fds args by (simp add: wait_time_def)
  next
    case (Cons t ts)
    let ?left = "\<lambda>t. max 0 (in_usec (time t) - in_usec now)"
    have first: "\<forall>x \<in> set (timeouts d). in_usec (time t) \<le> in_usec (time x)"
      using tq.first_earliest [OF _ Cons] assms(1,3) before_usec Cons by (auto simp: eloop_inv_def not_less)
    have min: "Min (?left ` set (timeouts d)) = ?left t"
      using first Cons by (intro Min_eqI) (auto simp: max_def)
    have "\<exists>limit. tv = Some limit \<and> normal_time limit \<and> in_usec limit = ?left t"
      using assms(2,3) Cons sub_usec [of "time t" now] before_usec [of now "time t"]
      by (auto simp: args wait_time_def normal_time_def in_usec_def [of "\<lparr>sec = 0, usec = 0\<rparr>"])
    then show ?thesis using fds args Cons min by auto
  qed
qed

theorem select_waits_witness:
  "\<exists>nfds r wr e limit. select_args \<lparr>sec = 11, usec = 0\<rparr> (loop sample_loop) = Some (nfds, r, wr, e, Some limit) \<and>
     in_usec limit = 1000000"
proof -
  have "select_args \<lparr>sec = 11, usec = 0\<rparr> (loop sample_loop) = Some (1, [], [], [], Some \<lparr>sec = 1, usec = 0\<rparr>)"
    by (simp add: loop_eval wait_time_def os_reltime_sub_def)
  moreover have "eloop_inv (loop sample_loop)"
    by (simp add: sample_loop_def eloop_inv_def in_order_def eloop_init_def empty_table_def)
  ultimately show ?thesis
    using select_waits [of "loop sample_loop" "\<lparr>sec = 11, usec = 0\<rparr>" 1 "[]" "[]" "[]" "Some \<lparr>sec = 1, usec = 0\<rparr>"]
    by (simp add: sample_loop_def sample_timer_def normal_time_def in_usec_def)
qed

section \<open>Dispatch\<close>

lemma get_clear_changed: "eloop_get_sock_table ty (clear_changed ty' d) =
  (if ty = ty' then (eloop_get_sock_table ty d)\<lparr>changed := False\<rparr> else eloop_get_sock_table ty d)"
  by (simp add: clear_changed_def)

lemma dispatch_calls:
  fixes w :: "'a world"
  assumes "eloop_sock_table_dispatch app ty fds w = Some w'"
  shows "\<exists>k. calls w' = calls w @ map (Sock_call ty)
        (take k (filter (\<lambda>s. sock s \<in> set fds) (table (eloop_get_sock_table ty (loop w))))) \<and>
      (\<not> changed (eloop_get_sock_table ty (loop w')) \<longrightarrow>
        calls w' = calls w @ map (Sock_call ty) (filter (\<lambda>s. sock s \<in> set fds) (table (eloop_get_sock_table ty (loop w)))))"
proof -
  define t where "t = table (eloop_get_sock_table ty (loop w))"
  define rdy where "rdy = (\<lambda>s :: eloop_sock. sock s \<in> set fds)"
  define P where "P = (\<lambda>i (v :: 'a world). eloop_get_sock_table ty (loop v) = (eloop_get_sock_table ty (loop w))\<lparr>changed := False\<rparr> \<and>
    calls v = calls w @ map (Sock_call ty) (filter rdy (take i t)))"
  have part: "filter rdy (take i t) = take (length (filter rdy (take i t))) (filter rdy t)" for i
    by (metis append_eq_conv_conj append_take_drop_id filter_append)
  have "\<exists>k. calls w' = calls w @ map (Sock_call ty) (take k (filter rdy t)) \<and>
      (\<not> changed (eloop_get_sock_table ty (loop w')) \<longrightarrow> calls w' = calls w @ map (Sock_call ty) (filter rdy t))"
    using assms unfolding eloop_sock_table_dispatch_def
  proof (rule dispatch_rule [where P = P])
    show "P 0 (w\<lparr>loop := clear_changed ty (loop w)\<rparr>)" by (simp add: P_def get_clear_changed)
  next
    fix i v assume "P i v" "i < length (table (eloop_get_sock_table ty (loop v)))"
      "sock (table (eloop_get_sock_table ty (loop v)) ! i) \<notin> set fds"
    then show "P (Suc i) v" by (simp add: P_def rdy_def take_Suc_conv_app_nth t_def)
  next
    fix i v v1 s
    assume a: "P i v" "i < length (table (eloop_get_sock_table ty (loop v)))" "s = table (eloop_get_sock_table ty (loop v)) ! i"
      "sock s \<in> set fds" "call_handler app (Sock_call ty s) v = Some v1"
    then have c: "calls v1 = calls w @ map (Sock_call ty) (filter rdy (take (Suc i) t))"
      by (simp add: P_def rdy_def t_def take_Suc_conv_app_nth call_handler_loop)
    have keep: "\<not> changed (eloop_get_sock_table ty (loop v1)) \<Longrightarrow> P (Suc i) v1"
      using c a(1) exec_apis_table [OF conjunct1 [OF call_handler_loop [OF a(5)]], of ty] by (auto simp: P_def)
    show "if changed (eloop_get_sock_table ty (loop v1))
        then \<exists>k. calls v1 = calls w @ map (Sock_call ty) (take k (filter rdy t)) \<and>
          (\<not> changed (eloop_get_sock_table ty (loop v1)) \<longrightarrow> calls v1 = calls w @ map (Sock_call ty) (filter rdy t))
        else P (Suc i) v1"
      using c keep part by (simp, metis)
  next
    fix i v assume "P i v" "length (table (eloop_get_sock_table ty (loop v))) \<le> i"
    then have "calls v = calls w @ map (Sock_call ty) (filter rdy t)" by (simp add: P_def t_def)
    then show "\<exists>k. calls v = calls w @ map (Sock_call ty) (take k (filter rdy t)) \<and>
        (\<not> changed (eloop_get_sock_table ty (loop v)) \<longrightarrow> calls v = calls w @ map (Sock_call ty) (filter rdy t))"
      by (metis take_all order_refl)
  qed
  then show ?thesis by (simp add: t_def rdy_def)
qed

text \<open>A dispatch calls the handlers of the ready sockets of the table, in the order of the table and
  each entry once, and stops early only when a handler has changed the table: an entry that was
  removed, or whose descriptor was reused, is never called.\<close>
theorem dispatch_exact:
  assumes "eloop_sock_table_dispatch app ty fds w = Some w'"
  shows "\<exists>k. calls w' = calls w @ map (Sock_call ty)
        (take k (filter (\<lambda>s. sock s \<in> set fds) (table (eloop_get_sock_table ty (loop w))))) \<and>
      (\<not> changed (eloop_get_sock_table ty (loop w')) \<longrightarrow>
        calls w' = calls w @ map (Sock_call ty) (filter (\<lambda>s. sock s \<in> set fds) (table (eloop_get_sock_table ty (loop w)))))"
  using assms by (rule dispatch_calls)

theorem dispatch_exact_witness:
  "\<exists>k w'. eloop_sock_table_dispatch sample_app EVENT_TYPE_READ [5]
       (sample_loop\<lparr>loop := (loop sample_loop)\<lparr>readers := \<lparr>table = [sample_sock], changed = True\<rparr>\<rparr>\<rparr>) = Some w' \<and>
     calls w' = [Sock_call EVENT_TYPE_READ sample_sock]"
proof -
  let ?w = "sample_loop\<lparr>loop := (loop sample_loop)\<lparr>readers := \<lparr>table = [sample_sock], changed = True\<rparr>\<rparr>\<rparr>"
  obtain w' where "eloop_sock_table_dispatch sample_app EVENT_TYPE_READ [5] ?w = Some w'"
      "\<not> changed (eloop_get_sock_table EVENT_TYPE_READ (loop w'))"
    by (simp add: loop_eval sample_sock_def)
  then show ?thesis using dispatch_exact [of sample_app EVENT_TYPE_READ "[5]" ?w w']
    by (auto simp: sample_sock_def eloop_get_sock_table_def sample_loop_def)
qed

end
