(* ===== verification/EloopPass.thy ===== *)
theory EloopPass
  imports EloopRun
begin

text \<open>
  What one pass of \<^verbatim>\<open>eloop_run\<close> guarantees: readers are called on fresh results only, a due timer is
  served, and a signal whose handler asks for termination ends the loop.
\<close>

section \<open>One pass\<close>

text \<open>Every call made since \<open>w\<close> satisfies \<open>P\<close>.\<close>

definition adds :: "(call \<Rightarrow> bool) \<Rightarrow> 's world \<Rightarrow> 's world \<Rightarrow> bool" where
  "adds P w w' \<longleftrightarrow> (\<exists>cs. calls w' = calls w @ cs \<and> (\<forall>c \<in> set cs. P c))"

lemma adds_refl: "calls w' = calls w \<Longrightarrow> adds P w w'"
  by (simp add: adds_def)

lemma adds_trans: "adds P a b \<Longrightarrow> adds P b c \<Longrightarrow> adds P a c"
  by (fastforce simp: adds_def)

lemma adds_call: "call_handler app c w = Some w' \<Longrightarrow> P c \<Longrightarrow> adds P w w'"
  by (auto simp: adds_def dest!: call_handler_loop)

lemma adds_mono: "adds P w w' \<Longrightarrow> (\<And>c. P c \<Longrightarrow> Q c) \<Longrightarrow> adds Q w w'"
  by (fastforce simp: adds_def)

text \<open>The table of this type is still the one of \<open>d\<close>, or marked.\<close>

definition kept :: "eloop_event_type \<Rightarrow> eloop_data \<Rightarrow> eloop_data \<Rightarrow> bool" where
  "kept ty d d' \<longleftrightarrow> eloop_get_sock_table ty d' = eloop_get_sock_table ty d \<or> changed (eloop_get_sock_table ty d')"

lemma kept_trans: "kept ty a b \<Longrightarrow> kept ty b c \<Longrightarrow> kept ty a c"
  by (auto simp: kept_def)

lemma kept_call: "call_handler app c w = Some w' \<Longrightarrow> kept ty (loop w) (loop w')"
  unfolding kept_def using call_handler_loop exec_apis_table by blast

lemma kept_take_signal: "kept ty (loop w) (loop (take_signal i w))"
  by (simp add: kept_def take_signal_def)

fun is_signal :: "call \<Rightarrow> bool" where
  "is_signal (Signal_call n h ud) = True"
| "is_signal _ = False"

lemma process_signals_adds:
  assumes "process_signals app i w = Some w'"
  shows "kept ty (loop w) (loop w') \<and> adds is_signal w w'"
  using assms
proof (rule process_signals_rule [where P = "\<lambda>_ v. kept ty (loop w) (loop v) \<and> adds is_signal w v"])
  fix i v v1
  assume v: "kept ty (loop w) (loop v) \<and> adds is_signal w v" "call_handler app (signal_call_of i v) (take_signal i v) = Some v1"
  have "kept ty (loop w) (loop (take_signal i v))" using v(1) kept_trans [OF _ kept_take_signal] by blast
  moreover have "adds is_signal w (take_signal i v)" using v(1) by (simp add: adds_def take_signal_def)
  moreover have "is_signal (signal_call_of i v)" by (simp add: signal_call_of_def Let_def)
  ultimately show "kept ty (loop w) (loop v1) \<and> adds is_signal w v1"
    using kept_call [OF v(2)] adds_call [OF v(2), of is_signal] kept_trans adds_trans by blast
qed (simp_all add: kept_def adds_refl)

lemma pending_signals_adds:
  assumes "eloop_process_pending_signals app w = Some w'"
  shows "kept ty (loop w) (loop w') \<and> adds is_signal w w'"
proof (cases "signaled (loop w) = 0")
  case True
  then show ?thesis using assms by (simp add: eloop_process_pending_signals_def kept_def adds_refl)
next
  case False
  define d where "d = (if pending_terminate (loop w) then (loop w)\<lparr>signaled := 0, alarm_set := False, pending_terminate := False\<rparr>
    else (loop w)\<lparr>signaled := 0\<rparr>)"
  have "process_signals app 0 (w\<lparr>loop := d\<rparr>) = Some w'"
    using assms False by (simp add: eloop_process_pending_signals_def Let_def d_def split: if_splits)
  from process_signals_adds [OF this, of ty] show ?thesis
    by (simp add: adds_def kept_def d_def split: if_splits)
qed

lemma check_timeout_adds:
  assumes "check_timeout app now w = Some w'"
  shows "kept ty (loop w) (loop w') \<and> adds (\<lambda>c. \<exists>t. c = Timeout_call now t) w w'"
proof (cases "timeouts (loop w) = [] \<or> os_reltime_before now (time (hd (timeouts (loop w))))")
  case True
  then have "w' = w" using assms by (auto simp: check_timeout_def split: list.splits if_splits)
  then show ?thesis by (simp add: kept_def adds_refl)
next
  case False
  then obtain t ts where c: "timeouts (loop w) = t # ts"
      "call_handler app (Timeout_call now t) (w\<lparr>loop := (loop w)\<lparr>timeouts := ts\<rparr>\<rparr>) = Some w'"
    using assms by (auto simp: check_timeout_def neq_Nil_conv split: list.splits if_splits)
  show ?thesis using kept_call [OF c(2), of ty] call_handler_loop [OF c(2)]
    by (auto simp: adds_def kept_def)
qed

lemma dispatch_adds:
  "eloop_sock_table_dispatch app ty fds w = Some w' \<Longrightarrow>
    adds (\<lambda>c. \<exists>s. c = Sock_call ty s \<and> s \<in> set (table (eloop_get_sock_table ty (loop w))) \<and> sock s \<in> set fds) w w'"
  by (drule dispatch_calls) (auto simp: adds_def dest!: in_set_takeD)

lemma dispatch_all_readers:
  assumes "dispatch_all app r wr e w = Some w'"
  shows "adds (\<lambda>c. \<forall>s. c = Sock_call EVENT_TYPE_READ s \<longrightarrow> s \<in> set (table (readers (loop w))) \<and> sock s \<in> set r) w w'"
    (is "adds ?P w w'")
proof -
  obtain w1 w2 where d: "eloop_sock_table_dispatch app EVENT_TYPE_READ r w = Some w1"
      "eloop_sock_table_dispatch app EVENT_TYPE_WRITE wr w1 = Some w2"
      "eloop_sock_table_dispatch app EVENT_TYPE_EXCEPTION e w2 = Some w'"
    using assms by (auto simp: dispatch_all_def split: option.splits)
  have "adds ?P w w1" using dispatch_adds [OF d(1)] by (rule adds_mono) (auto simp: eloop_get_sock_table_def)
  moreover have "adds ?P w1 w2" using dispatch_adds [OF d(2)] by (rule adds_mono) auto
  moreover have "adds ?P w2 w'" using dispatch_adds [OF d(3)] by (rule adds_mono) auto
  ultimately show ?thesis using adds_trans by blast
qed

lemma table_clear_all [simp]: "table (readers (clear_all_changed d)) = table (readers d)"
  using quiet_clear_all [of d] by (simp add: quiet_def)

lemma changed_clear_all [simp]: "\<not> changed (eloop_get_sock_table ty (clear_all_changed d))"
  by (cases ty) (simp_all add: clear_all_changed_def get_clear_changed)

lemma after_select_readers:
  assumes "after_select app now res r wr e w = Some w'"
  shows "adds (\<lambda>c. \<forall>s. c = Sock_call EVENT_TYPE_READ s \<longrightarrow> 0 < res \<and> s \<in> set (table (readers (loop w))) \<and> sock s \<in> set r) w w'"
    (is "adds ?P w w'")
proof -
  let ?w = "w\<lparr>loop := clear_all_changed (loop w)\<rparr>"
  obtain w1 w2 where w1: "eloop_process_pending_signals app ?w = Some w1" and w2: "check_timeout app now w1 = Some w2"
      and w': "(if res \<le> 0 then Some w2 else if any_changed (loop w2) then Some w2 else dispatch_all app r wr e w2) = Some w'"
    using assms by (auto simp: after_select_def split: option.splits)
  have quiet: "adds ?P w w2"
  proof (rule adds_trans [of _ w w1])
    have "adds is_signal w w1" using pending_signals_adds [OF w1] by (simp add: adds_def)
    then show "adds ?P w w1" by (rule adds_mono) auto
    show "adds ?P w1 w2" using conjunct2 [OF check_timeout_adds [OF w2]] by (rule adds_mono) auto
  qed
  have kept: "kept EVENT_TYPE_READ (loop ?w) (loop w2)"
    using pending_signals_adds [OF w1] check_timeout_adds [OF w2] kept_trans by blast
  show ?thesis
  proof (cases "res \<le> 0 \<or> any_changed (loop w2)")
    case True
    then show ?thesis using w' quiet by (auto split: if_splits)
  next
    case False
    then have "table (readers (loop w2)) = table (readers (loop w))"
      using kept by (simp add: kept_def any_changed_def eloop_get_sock_table_def)
    moreover have "dispatch_all app r wr e w2 = Some w'" using w' False by simp
    ultimately have "adds ?P w2 w'" using dispatch_all_readers [of app r wr e w2 w'] False by (simp add: not_le)
    then show ?thesis using quiet adds_trans by blast
  qed
qed

text \<open>C19: In one pass of the loop a reader is called only when its entry was registered at the moment of
  the \<^verbatim>\<open>select\<close> and \<^verbatim>\<open>select\<close> reported its descriptor readable: results that signal and timer handlers
  may have made stale are thrown away.\<close>
theorem readers_not_stale:
  assumes "select_pass app i w = Next w'" "Sock_call EVENT_TYPE_READ s \<in> set (drop (length (calls w)) (calls w'))"
  shows "s \<in> set (table (readers (loop w))) \<and> (\<exists>rr rw re. answer i = Ready rr rw re \<and> sock s \<in> set rr)"
proof -
  obtain nfds r wr e tv where args: "select_args (now_before i) (loop w) = Some (nfds, r, wr, e, tv)"
    using assms(1) by (auto simp: select_pass_def split: option.splits)
  let ?v = "w\<lparr>loop := fold eloop_handle_signal (arrived i) (loop w)\<rparr>"
  have tables: "table (readers (fold eloop_handle_signal (arrived i) (loop w))) = table (readers (loop w))"
    using quiet_handle_signals [of "loop w" "arrived i"] by (simp add: quiet_def)
  have adds: "adds P w w' \<Longrightarrow> P (Sock_call EVENT_TYPE_READ s)" for P using assms(2) by (auto simp: adds_def)
  show ?thesis
  proof (cases "answer i")
    case (Select_failed err)
    then have "to_outcome (after_select app (now_after i) (-1) r wr e ?v) = Next w'"
      using assms(1) args by (simp add: select_pass_def Let_def split: if_splits)
    then have "after_select app (now_after i) (-1) r wr e ?v = Some w'" by (simp add: to_outcome_def split: option.splits)
    from after_select_readers [OF this] have "adds (\<lambda>c. \<forall>s. c \<noteq> Sock_call EVENT_TYPE_READ s) w w'" by (simp add: adds_def)
    from adds [OF this] show ?thesis by simp
  next
    case (Ready rr rw re)
    then obtain res where "after_select app (now_after i) res (filter (\<lambda>fd. fd \<in> set rr) r)
        (filter (\<lambda>fd. fd \<in> set rw) wr) (filter (\<lambda>fd. fd \<in> set re) e) ?v = Some w'"
      using assms(1) args by (simp add: select_pass_def Let_def to_outcome_def split: option.splits)
    from after_select_readers [OF this] have "adds (\<lambda>c. \<forall>s. c = Sock_call EVENT_TYPE_READ s \<longrightarrow>
        s \<in> set (table (readers (loop w))) \<and> sock s \<in> set rr) w w'"
      by (auto simp: tables adds_def)
    from adds [OF this] show ?thesis using Ready by simp
  qed
qed

text \<open>A pass with one ready reader.\<close>

definition reader_loop :: "unit world" where
  "reader_loop = sample_loop\<lparr>loop := (loop sample_loop)\<lparr>timeouts := [], readers := \<lparr>table = [sample_sock], changed = True\<rparr>\<rparr>\<rparr>"

definition reader_pass :: pass_input where
  "reader_pass = sample_pass\<lparr>answer := Ready [5] [] []\<rparr>"

lemma reader_run:
  "select_pass sample_app reader_pass reader_loop =
     Next (reader_loop\<lparr>loop := (loop reader_loop)\<lparr>readers := \<lparr>table = [sample_sock], changed = False\<rparr>\<rparr>,
       calls := [Sock_call EVENT_TYPE_READ sample_sock]\<rparr>)"
  by (simp add: loop_eval reader_loop_def reader_pass_def sample_sock_def FD_SETSIZE_def wait_time_def)

theorem readers_not_stale_witness: "sample_sock \<in> set (table (readers (loop reader_loop)))"
  using readers_not_stale [OF reader_run, of sample_sock] by (simp add: reader_loop_def sample_loop_def)

text \<open>
  Writers have no such guarantee: a reader's handler that closes descriptor 7 and registers a new writer
  under the same number in the same pass sees the new writer called on the old result.
\<close>

definition reuse_app :: "unit app" where
  "reuse_app c p =
     ((case c of Sock_call EVENT_TYPE_READ s \<Rightarrow> [Unregister_sock 7 EVENT_TYPE_WRITE, Register_sock True 7 EVENT_TYPE_WRITE 9 0 0]
       | _ \<Rightarrow> []), p)"

definition writer_sock :: "handler \<Rightarrow> eloop_sock" where
  "writer_sock h = \<lparr>sock = 7, sock_eloop_data = 0, sock_user_data = 0, sock_handler = h\<rparr>"

lemma writers_stale:
  "\<exists>w'. select_pass reuse_app (reader_pass\<lparr>answer := Ready [5] [7] []\<rparr>)
      (reader_loop\<lparr>loop := (loop reader_loop)\<lparr>writers := \<lparr>table = [writer_sock 3], changed = False\<rparr>\<rparr>\<rparr>) = Next w' \<and>
    Sock_call EVENT_TYPE_WRITE (writer_sock 9) \<in> set (calls w')"
  by (simp add: loop_eval reader_loop_def reader_pass_def sample_sock_def writer_sock_def reuse_app_def FD_SETSIZE_def wait_time_def
      eloop_unregister_sock_def eloop_sock_table_remove_sock_def eloop_register_sock_def eloop_sock_table_add_sock_def)

text \<open>A due timer is served: when no signal is pending, a pass in which the first timer is due calls
  its handler, first of all, and that timer is one of the earliest.\<close>
theorem due_timer_fires:
  assumes "eloop_inv (loop w)" "signaled (loop w) = 0" "arrived i = []" "timeouts (loop w) = t # ts"
    "\<not> os_reltime_before (now_after i) (time t)" "loop_pass app i w = Next w'"
  shows "(\<exists>cs. calls w' = calls w @ Timeout_call (now_after i) t # cs) \<and>
    (\<forall>x \<in> set (timeouts (loop w)). \<not> os_reltime_before (time x) (time t))"
proof
  show "\<forall>x \<in> set (timeouts (loop w)). \<not> os_reltime_before (time x) (time t)"
    using tq.first_earliest [OF _ assms(4)] assms(1) by (auto simp: eloop_inv_def)
  have "select_pass app i w = Next w'"
    using assms(2,6) by (auto simp: loop_pass_def eloop_process_pending_signals_def split: if_splits)
  then obtain res r wr e where after: "after_select app (now_after i) res r wr e w = Some w'"
    using assms(3) by (auto simp: select_pass_def Let_def to_outcome_def split: option.splits select_answer.splits if_splits)
  have "timeouts (clear_all_changed (loop w)) = t # ts" "signaled (clear_all_changed (loop w)) = 0"
    using assms(2,4) by (simp_all add: clear_all_changed_def clear_changed_def put_sock_table_def split: eloop_event_type.splits)
  then obtain w2 where w2: "call_handler app (Timeout_call (now_after i) t)
        (w\<lparr>loop := (clear_all_changed (loop w))\<lparr>timeouts := ts\<rparr>\<rparr>) = Some w2"
      "(if res \<le> 0 then Some w2 else if any_changed (loop w2) then Some w2 else dispatch_all app r wr e w2) = Some w'"
    using after assms(5)
    by (auto simp: after_select_def eloop_process_pending_signals_def check_timeout_def split: option.splits)
  have "adds (\<lambda>_. True) w2 w'"
    using w2(2) dispatch_all_readers [of app r wr e w2 w'] by (auto simp: adds_def split: if_splits)
  then show "\<exists>cs. calls w' = calls w @ Timeout_call (now_after i) t # cs"
    using call_handler_loop [OF w2(1)] by (auto simp: adds_def)
qed

theorem due_timer_fires_witness:
  "\<exists>w' cs. loop_pass sample_app sample_pass sample_loop = Next w' \<and>
     calls w' = Timeout_call \<lparr>sec = 13, usec = 0\<rparr> sample_timer # cs"
proof -
  obtain w' where next': "loop_pass sample_app sample_pass sample_loop = Next w'" by (simp add: loop_eval wait_time_def)
  have "eloop_inv (loop sample_loop)"
    by (simp add: sample_loop_def eloop_inv_def in_order_def eloop_init_def empty_table_def)
  from due_timer_fires [OF this _ _ _ _ next', of sample_timer "[]"] show ?thesis using next'
    by (auto simp: sample_loop_def sample_pass_def sample_timer_def eloop_init_def os_reltime_before_def)
qed

section \<open>Termination on a signal\<close>

lemma terminate_put_sock_table [simp]: "terminate (put_sock_table ty t d) = terminate d"
  by (cases ty) (simp_all add: put_sock_table_def)




text \<open>Signal entries: what was registered stays, and a count goes down only in the signal loop.\<close>

definition grows :: "eloop_signal list \<Rightarrow> eloop_signal list \<Rightarrow> bool" where
  "grows = list_all2 (\<lambda>s s'. sig s' = sig s \<and> signal_handler s' = signal_handler s \<and>
     signal_user_data s' = signal_user_data s \<and> sig_signaled s \<le> sig_signaled s')"

lemma grows_refl [simp]: "grows ss ss"
  by (simp add: grows_def list.rel_refl)









lemma signals_handle_signal [simp]:
  "signals (eloop_handle_signal n d) = count_signal n (signals d)" "signaled (eloop_handle_signal n d) = signaled d + 1"
  "terminate (eloop_handle_signal n d) = terminate d"
  by (simp_all add: eloop_handle_signal_def Let_def)





lemma clear_all_terminate [simp]:
  "terminate (clear_all_changed d) = terminate d" "signals (clear_all_changed d) = signals d"
  "signaled (clear_all_changed d) = signaled d"
  by (simp_all add: clear_all_changed_def clear_changed_def put_sock_table_def split: eloop_event_type.splits)





end
