(* ===== verification/RsnIe.thy ===== *)
theory RsnIe
  imports Hmac
begin

text \<open>
  Security policy elements (\<^verbatim>\<open>common/wpa_common.c\<close>, \<^verbatim>\<open>rsn_supp/wpa_ie.c\<close>): the RSN and WPA elements of
  beacons, association requests and EAPOL-Key messages, parsed and generated, and the cipher suites in
  them. The build has none of the optional protocols (\<^verbatim>\<open>CONFIG_IEEE80211W\<close>, \<^verbatim>\<open>R\<close>, \<^verbatim>\<open>SAE\<close>, \<^verbatim>\<open>FILS\<close>, \<^verbatim>\<open>OWE\<close>,
  \<^verbatim>\<open>DPP\<close>, \<^verbatim>\<open>HS20\<close>). Every read of the parsers is a \<open>rd\<close>, which is \<open>None\<close> outside the element; an error
  return is \<open>Inl\<close>, the data are \<open>Inr\<close>.
\<close>

section \<open>Ciphers and suites\<close>

definition WPA_CIPHER_NONE :: u32 where "WPA_CIPHER_NONE = 0x1"
definition WPA_CIPHER_TKIP :: u32 where "WPA_CIPHER_TKIP = 0x8"
definition WPA_CIPHER_CCMP :: u32 where "WPA_CIPHER_CCMP = 0x10"
definition WPA_CIPHER_AES_128_CMAC :: u32 where "WPA_CIPHER_AES_128_CMAC = 0x20"
definition WPA_CIPHER_GCMP :: u32 where "WPA_CIPHER_GCMP = 0x40"
definition WPA_CIPHER_GCMP_256 :: u32 where "WPA_CIPHER_GCMP_256 = 0x100"
definition WPA_CIPHER_CCMP_256 :: u32 where "WPA_CIPHER_CCMP_256 = 0x200"
definition WPA_CIPHER_BIP_GMAC_128 :: u32 where "WPA_CIPHER_BIP_GMAC_128 = 0x800"
definition WPA_CIPHER_BIP_GMAC_256 :: u32 where "WPA_CIPHER_BIP_GMAC_256 = 0x1000"
definition WPA_CIPHER_BIP_CMAC_256 :: u32 where "WPA_CIPHER_BIP_CMAC_256 = 0x2000"
definition WPA_CIPHER_GTK_NOT_USED :: u32 where "WPA_CIPHER_GTK_NOT_USED = 0x4000"

lemmas ciphers = WPA_CIPHER_NONE_def WPA_CIPHER_TKIP_def WPA_CIPHER_CCMP_def WPA_CIPHER_AES_128_CMAC_def WPA_CIPHER_GCMP_def
  WPA_CIPHER_GCMP_256_def WPA_CIPHER_CCMP_256_def WPA_CIPHER_BIP_GMAC_128_def WPA_CIPHER_BIP_GMAC_256_def
  WPA_CIPHER_BIP_CMAC_256_def WPA_CIPHER_GTK_NOT_USED_def

definition WPA_KEY_MGMT_IEEE8021X :: u32 where "WPA_KEY_MGMT_IEEE8021X = 0x1"
definition WPA_KEY_MGMT_PSK :: u32 where "WPA_KEY_MGMT_PSK = 0x2"
definition WPA_KEY_MGMT_WPA_NONE :: u32 where "WPA_KEY_MGMT_WPA_NONE = 0x10"
definition WPA_KEY_MGMT_CCKM :: u32 where "WPA_KEY_MGMT_CCKM = 0x4000"
definition WPA_KEY_MGMT_OSEN :: u32 where "WPA_KEY_MGMT_OSEN = 0x8000"
definition WPA_KEY_MGMT_IEEE8021X_SUITE_B :: u32 where "WPA_KEY_MGMT_IEEE8021X_SUITE_B = 0x10000"
definition WPA_KEY_MGMT_IEEE8021X_SUITE_B_192 :: u32 where "WPA_KEY_MGMT_IEEE8021X_SUITE_B_192 = 0x20000"
definition WPA_KEY_MGMT_FILS_SHA256 :: u32 where "WPA_KEY_MGMT_FILS_SHA256 = 0x40000"
definition WPA_KEY_MGMT_FILS_SHA384 :: u32 where "WPA_KEY_MGMT_FILS_SHA384 = 0x80000"
definition WPA_KEY_MGMT_FT_FILS_SHA256 :: u32 where "WPA_KEY_MGMT_FT_FILS_SHA256 = 0x100000"
definition WPA_KEY_MGMT_FT_FILS_SHA384 :: u32 where "WPA_KEY_MGMT_FT_FILS_SHA384 = 0x200000"

lemmas key_mgmts = WPA_KEY_MGMT_IEEE8021X_def WPA_KEY_MGMT_PSK_def WPA_KEY_MGMT_WPA_NONE_def WPA_KEY_MGMT_CCKM_def
  WPA_KEY_MGMT_OSEN_def WPA_KEY_MGMT_IEEE8021X_SUITE_B_def WPA_KEY_MGMT_IEEE8021X_SUITE_B_192_def
  WPA_KEY_MGMT_FILS_SHA256_def WPA_KEY_MGMT_FILS_SHA384_def WPA_KEY_MGMT_FT_FILS_SHA256_def WPA_KEY_MGMT_FT_FILS_SHA384_def

definition WPA_PROTO_WPA :: u32 where "WPA_PROTO_WPA = 0x1"
definition WPA_PROTO_RSN :: u32 where "WPA_PROTO_RSN = 0x2"
definition WPA_PROTO_OSEN :: u32 where "WPA_PROTO_OSEN = 0x8"

definition RSN_SELECTOR :: "u8 \<Rightarrow> u8 \<Rightarrow> u8 \<Rightarrow> u8 \<Rightarrow> u32" where
  "RSN_SELECTOR a b c d = push_bit 24 (ucast a) OR push_bit 16 (ucast b) OR push_bit 8 (ucast c) OR ucast d"

text \<open>The suites of the RSN (\<open>00-0f-ac\<close>) and of the WPA (\<open>00-50-f2\<close>) organization.\<close>

definition rsn_suite :: "u8 \<Rightarrow> u32" where "rsn_suite n = RSN_SELECTOR 0x00 0x0f 0xac n"
definition wpa_suite :: "u8 \<Rightarrow> u32" where "wpa_suite n = RSN_SELECTOR 0x00 0x50 0xf2 n"

definition rsn_selector_to_bitfield :: "u32 \<Rightarrow> u32" where
  "rsn_selector_to_bitfield s =
     (if s = rsn_suite 0 then WPA_CIPHER_NONE
      else if s = rsn_suite 2 then WPA_CIPHER_TKIP
      else if s = rsn_suite 4 then WPA_CIPHER_CCMP
      else if s = rsn_suite 8 then WPA_CIPHER_GCMP
      else if s = rsn_suite 10 then WPA_CIPHER_CCMP_256
      else if s = rsn_suite 9 then WPA_CIPHER_GCMP_256
      else if s = rsn_suite 11 then WPA_CIPHER_BIP_GMAC_128
      else if s = rsn_suite 12 then WPA_CIPHER_BIP_GMAC_256
      else if s = rsn_suite 13 then WPA_CIPHER_BIP_CMAC_256
      else if s = rsn_suite 7 then WPA_CIPHER_GTK_NOT_USED
      else 0)"

definition RSN_AUTH_KEY_MGMT_OSEN :: u32 where "RSN_AUTH_KEY_MGMT_OSEN = RSN_SELECTOR 0x50 0x6f 0x9a 0x01"
definition RSN_AUTH_KEY_MGMT_CCKM :: u32 where "RSN_AUTH_KEY_MGMT_CCKM = RSN_SELECTOR 0x00 0x40 0x96 0x00"

definition rsn_key_mgmt_to_bitfield :: "u32 \<Rightarrow> u32" where
  "rsn_key_mgmt_to_bitfield s =
     (if s = rsn_suite 1 then WPA_KEY_MGMT_IEEE8021X
      else if s = rsn_suite 2 then WPA_KEY_MGMT_PSK
      else if s = rsn_suite 11 then WPA_KEY_MGMT_IEEE8021X_SUITE_B
      else if s = rsn_suite 12 then WPA_KEY_MGMT_IEEE8021X_SUITE_B_192
      else if s = rsn_suite 14 then WPA_KEY_MGMT_FILS_SHA256
      else if s = rsn_suite 15 then WPA_KEY_MGMT_FILS_SHA384
      else if s = rsn_suite 16 then WPA_KEY_MGMT_FT_FILS_SHA256
      else if s = rsn_suite 17 then WPA_KEY_MGMT_FT_FILS_SHA384
      else if s = RSN_AUTH_KEY_MGMT_OSEN then WPA_KEY_MGMT_OSEN
      else 0)"

definition wpa_selector_to_bitfield :: "u32 \<Rightarrow> u32" where
  "wpa_selector_to_bitfield s =
     (if s = wpa_suite 0 then WPA_CIPHER_NONE
      else if s = wpa_suite 2 then WPA_CIPHER_TKIP
      else if s = wpa_suite 4 then WPA_CIPHER_CCMP
      else 0)"

definition wpa_key_mgmt_to_bitfield :: "u32 \<Rightarrow> u32" where
  "wpa_key_mgmt_to_bitfield s =
     (if s = wpa_suite 1 then WPA_KEY_MGMT_IEEE8021X
      else if s = wpa_suite 2 then WPA_KEY_MGMT_PSK
      else if s = wpa_suite 0 then WPA_KEY_MGMT_WPA_NONE
      else 0)"

definition wpa_cipher_valid_pairwise :: "u32 \<Rightarrow> bool" where
  "wpa_cipher_valid_pairwise c \<longleftrightarrow>
     c = WPA_CIPHER_CCMP_256 \<or> c = WPA_CIPHER_GCMP_256 \<or> c = WPA_CIPHER_CCMP \<or> c = WPA_CIPHER_GCMP \<or> c = WPA_CIPHER_TKIP"

definition wpa_cipher_valid_group :: "u32 \<Rightarrow> bool" where
  "wpa_cipher_valid_group c \<longleftrightarrow> wpa_cipher_valid_pairwise c \<or> c = WPA_CIPHER_GTK_NOT_USED"

definition wpa_cipher_to_suite :: "u32 \<Rightarrow> u32 \<Rightarrow> u32" where
  "wpa_cipher_to_suite proto c =
     (if c AND WPA_CIPHER_CCMP_256 \<noteq> 0 then rsn_suite 10
      else if c AND WPA_CIPHER_GCMP_256 \<noteq> 0 then rsn_suite 9
      else if c AND WPA_CIPHER_CCMP \<noteq> 0 then if proto = WPA_PROTO_RSN then rsn_suite 4 else wpa_suite 4
      else if c AND WPA_CIPHER_GCMP \<noteq> 0 then rsn_suite 8
      else if c AND WPA_CIPHER_TKIP \<noteq> 0 then if proto = WPA_PROTO_RSN then rsn_suite 2 else wpa_suite 2
      else if c AND WPA_CIPHER_NONE \<noteq> 0 then if proto = WPA_PROTO_RSN then rsn_suite 0 else wpa_suite 0
      else if c AND WPA_CIPHER_GTK_NOT_USED \<noteq> 0 then rsn_suite 7
      else if c AND WPA_CIPHER_AES_128_CMAC \<noteq> 0 then rsn_suite 6
      else if c AND WPA_CIPHER_BIP_GMAC_128 \<noteq> 0 then rsn_suite 11
      else if c AND WPA_CIPHER_BIP_GMAC_256 \<noteq> 0 then rsn_suite 12
      else if c AND WPA_CIPHER_BIP_CMAC_256 \<noteq> 0 then rsn_suite 13
      else 0)"

definition wpa_cipher_key_len :: "u32 \<Rightarrow> nat" where
  "wpa_cipher_key_len c =
     (if c = WPA_CIPHER_CCMP_256 \<or> c = WPA_CIPHER_GCMP_256 \<or> c = WPA_CIPHER_BIP_GMAC_256 \<or> c = WPA_CIPHER_BIP_CMAC_256 then 32
      else if c = WPA_CIPHER_CCMP \<or> c = WPA_CIPHER_GCMP \<or> c = WPA_CIPHER_AES_128_CMAC \<or> c = WPA_CIPHER_BIP_GMAC_128 then 16
      else if c = WPA_CIPHER_TKIP then 32
      else 0)"

definition wpa_cipher_rsc_len :: "u32 \<Rightarrow> nat" where
  "wpa_cipher_rsc_len c =
     (if c = WPA_CIPHER_CCMP_256 \<or> c = WPA_CIPHER_GCMP_256 \<or> c = WPA_CIPHER_CCMP \<or> c = WPA_CIPHER_GCMP \<or> c = WPA_CIPHER_TKIP
      then 6 else 0)"

definition rsn_cipher_put_suites :: "u32 \<Rightarrow> bytes" where
  "rsn_cipher_put_suites c =
     (if c AND WPA_CIPHER_CCMP_256 \<noteq> 0 then put_be32 (rsn_suite 10) else []) @
     (if c AND WPA_CIPHER_GCMP_256 \<noteq> 0 then put_be32 (rsn_suite 9) else []) @
     (if c AND WPA_CIPHER_CCMP \<noteq> 0 then put_be32 (rsn_suite 4) else []) @
     (if c AND WPA_CIPHER_GCMP \<noteq> 0 then put_be32 (rsn_suite 8) else []) @
     (if c AND WPA_CIPHER_TKIP \<noteq> 0 then put_be32 (rsn_suite 2) else []) @
     (if c AND WPA_CIPHER_NONE \<noteq> 0 then put_be32 (rsn_suite 0) else [])"

definition wpa_cipher_put_suites :: "u32 \<Rightarrow> bytes" where
  "wpa_cipher_put_suites c =
     (if c AND WPA_CIPHER_CCMP \<noteq> 0 then put_be32 (wpa_suite 4) else []) @
     (if c AND WPA_CIPHER_TKIP \<noteq> 0 then put_be32 (wpa_suite 2) else []) @
     (if c AND WPA_CIPHER_NONE \<noteq> 0 then put_be32 (wpa_suite 0) else [])"

text \<open>\<open>None\<close> is the return of -1.\<close>

definition wpa_pick_pairwise_cipher :: "u32 \<Rightarrow> bool \<Rightarrow> u32 option" where
  "wpa_pick_pairwise_cipher c none_allowed =
     (if c AND WPA_CIPHER_CCMP_256 \<noteq> 0 then Some WPA_CIPHER_CCMP_256
      else if c AND WPA_CIPHER_GCMP_256 \<noteq> 0 then Some WPA_CIPHER_GCMP_256
      else if c AND WPA_CIPHER_CCMP \<noteq> 0 then Some WPA_CIPHER_CCMP
      else if c AND WPA_CIPHER_GCMP \<noteq> 0 then Some WPA_CIPHER_GCMP
      else if c AND WPA_CIPHER_TKIP \<noteq> 0 then Some WPA_CIPHER_TKIP
      else if none_allowed \<and> c AND WPA_CIPHER_NONE \<noteq> 0 then Some WPA_CIPHER_NONE
      else None)"

definition wpa_pick_group_cipher :: "u32 \<Rightarrow> u32 option" where
  "wpa_pick_group_cipher c =
     (if c AND WPA_CIPHER_CCMP_256 \<noteq> 0 then Some WPA_CIPHER_CCMP_256
      else if c AND WPA_CIPHER_GCMP_256 \<noteq> 0 then Some WPA_CIPHER_GCMP_256
      else if c AND WPA_CIPHER_CCMP \<noteq> 0 then Some WPA_CIPHER_CCMP
      else if c AND WPA_CIPHER_GCMP \<noteq> 0 then Some WPA_CIPHER_GCMP
      else if c AND WPA_CIPHER_GTK_NOT_USED \<noteq> 0 then Some WPA_CIPHER_GTK_NOT_USED
      else if c AND WPA_CIPHER_TKIP \<noteq> 0 then Some WPA_CIPHER_TKIP
      else None)"

section \<open>Parsing\<close>

definition get_le16 :: "bytes \<Rightarrow> u16" where
  "get_le16 p = push_bit 8 (ucast (p ! 1)) OR ucast (p ! 0)"

text \<open>\<open>pmkid\<close>: the offset of the first PMKID in the element.\<close>

record wpa_ie_data =
  proto :: u32
  pairwise_cipher :: u32
  has_pairwise :: bool
  group_cipher :: u32
  has_group :: bool
  key_mgmt :: u32
  capabilities :: u16
  num_pmkid :: nat
  pmkid :: "nat option"
  mgmt_group_cipher :: u32

type_synonym 'a parse = "(int + 'a) option"

definition rd :: "bytes \<Rightarrow> nat \<Rightarrow> nat \<Rightarrow> bytes option" where
  "rd ie pos n = (if pos + n \<le> length ie then Some (take n (drop pos ie)) else None)"

definition continue :: "'a parse \<Rightarrow> ('a \<Rightarrow> 'b parse) \<Rightarrow> 'b parse" where
  "continue m f = (case m of None \<Rightarrow> None | Some (Inl e) \<Rightarrow> Some (Inl e) | Some (Inr x) \<Rightarrow> f x)"

text \<open>Position, bytes left, data.\<close>

type_synonym ie_state = "nat \<times> nat \<times> wpa_ie_data"

fun read_suites :: "(u32 \<Rightarrow> u32) \<Rightarrow> bytes \<Rightarrow> nat \<Rightarrow> nat \<Rightarrow> u32 \<Rightarrow> u32 option" where
  "read_suites f ie pos 0 acc = Some acc"
| "read_suites f ie pos (Suc n) acc =
     (case rd ie pos 4 of None \<Rightarrow> None | Some s \<Rightarrow> read_suites f ie (pos + 4) n (acc OR f (get_be32 s)))"

definition WLAN_EID_RSN :: u8 where "WLAN_EID_RSN = 48"
definition WLAN_EID_VENDOR_SPECIFIC :: u8 where "WLAN_EID_VENDOR_SPECIFIC = 221"
definition OSEN_IE_VENDOR_TYPE :: u32 where "OSEN_IE_VENDOR_TYPE = 0x506f9a12"
definition WPA_OUI_TYPE :: u32 where "WPA_OUI_TYPE = wpa_suite 1"

definition rsn_defaults :: wpa_ie_data where
  "rsn_defaults = \<lparr>proto = WPA_PROTO_RSN, pairwise_cipher = WPA_CIPHER_CCMP, has_pairwise = False,
     group_cipher = WPA_CIPHER_CCMP, has_group = False, key_mgmt = WPA_KEY_MGMT_IEEE8021X, capabilities = 0,
     num_pmkid = 0, pmkid = None, mgmt_group_cipher = 0\<rparr>"

definition is_osen :: "bytes \<Rightarrow> bool option" where
  "is_osen ie =
     (if 6 \<le> length ie then
        case rd ie 1 5 of
          None \<Rightarrow> None
        | Some h \<Rightarrow> Some (4 \<le> h ! 0 \<and> unat (h ! 0) = length ie - 2 \<and> get_be32 (drop 1 h) = OSEN_IE_VENDOR_TYPE)
      else Some False)"

definition rsn_header :: "bytes \<Rightarrow> ie_state parse" where
  "rsn_header ie =
     (if length ie = 0 then Some (Inl (-1))
      else if length ie < 4 then Some (Inl (-1))
      else
        case is_osen ie of
          None \<Rightarrow> None
        | Some True \<Rightarrow>
            Some (Inr (6, length ie - 6, rsn_defaults\<lparr>group_cipher := WPA_CIPHER_GTK_NOT_USED, has_group := True,
              key_mgmt := WPA_KEY_MGMT_OSEN, proto := WPA_PROTO_OSEN\<rparr>))
        | Some False \<Rightarrow>
            case rd ie 0 4 of
              None \<Rightarrow> None
            | Some hdr \<Rightarrow>
                if hdr ! 0 \<noteq> WLAN_EID_RSN \<or> unat (hdr ! 1) \<noteq> length ie - 2 \<or> get_le16 (drop 2 hdr) \<noteq> 1 then Some (Inl (-2))
                else Some (Inr (4, length ie - 4, rsn_defaults)))"

definition rsn_group :: "bytes \<Rightarrow> ie_state \<Rightarrow> ie_state parse" where
  "rsn_group ie st =
     (case st of (pos, left, d) \<Rightarrow>
        if 4 \<le> left then
          case rd ie pos 4 of
            None \<Rightarrow> None
          | Some s \<Rightarrow>
              let c = rsn_selector_to_bitfield (get_be32 s) in
              if \<not> wpa_cipher_valid_group c then Some (Inl (-1))
              else Some (Inr (pos + 4, left - 4, d\<lparr>group_cipher := c, has_group := True\<rparr>))
        else if 0 < left then Some (Inl (-3))
        else Some (Inr (pos, left, d)))"

text \<open>A counted list of suites: the errors for a bad count and for a single byte, and the result.\<close>

definition suite_list :: "(u32 \<Rightarrow> u32) \<Rightarrow> int \<Rightarrow> int \<Rightarrow> bytes \<Rightarrow> nat \<Rightarrow> nat \<Rightarrow> (nat \<times> nat \<times> u32 option) parse" where
  "suite_list f botch short ie pos left =
     (if 2 \<le> left then
        case rd ie pos 2 of
          None \<Rightarrow> None
        | Some c \<Rightarrow>
            let count = unat (get_le16 c); pos = pos + 2; left = left - 2 in
            if count = 0 \<or> left div 4 < count then Some (Inl botch)
            else
              case read_suites f ie pos count 0 of
                None \<Rightarrow> None
              | Some bits \<Rightarrow> Some (Inr (pos + 4 * count, left - 4 * count, Some bits))
      else if left = 1 then Some (Inl short)
      else Some (Inr (pos, left, None)))"

definition rsn_pairwise :: "bytes \<Rightarrow> ie_state \<Rightarrow> ie_state parse" where
  "rsn_pairwise ie st =
     (case st of (pos, left, d) \<Rightarrow>
        continue (suite_list rsn_selector_to_bitfield (-4) (-5) ie pos left)
          (\<lambda>(pos, left, r). Some (Inr (pos, left,
             case r of None \<Rightarrow> d | Some bits \<Rightarrow> d\<lparr>pairwise_cipher := bits, has_pairwise := True\<rparr>))))"

definition rsn_key_mgmt :: "bytes \<Rightarrow> ie_state \<Rightarrow> ie_state parse" where
  "rsn_key_mgmt ie st =
     (case st of (pos, left, d) \<Rightarrow>
        continue (suite_list rsn_key_mgmt_to_bitfield (-6) (-7) ie pos left)
          (\<lambda>(pos, left, r). Some (Inr (pos, left, case r of None \<Rightarrow> d | Some bits \<Rightarrow> d\<lparr>key_mgmt := bits\<rparr>))))"

definition ie_capab :: "bytes \<Rightarrow> ie_state \<Rightarrow> ie_state parse" where
  "ie_capab ie st =
     (case st of (pos, left, d) \<Rightarrow>
        if 2 \<le> left then
          case rd ie pos 2 of None \<Rightarrow> None | Some c \<Rightarrow> Some (Inr (pos + 2, left - 2, d\<lparr>capabilities := get_le16 c\<rparr>))
        else Some (Inr (pos, left, d)))"

definition rsn_pmkids :: "bytes \<Rightarrow> ie_state \<Rightarrow> ie_state parse" where
  "rsn_pmkids ie st =
     (case st of (pos, left, d) \<Rightarrow>
        if 2 \<le> left then
          case rd ie pos 2 of
            None \<Rightarrow> None
          | Some c \<Rightarrow>
              let n = unat (get_le16 c); pos = pos + 2; left = left - 2 in
              if left div 16 < n then Some (Inl (-9))
              else Some (Inr (pos + n * 16, left - n * 16, d\<lparr>num_pmkid := n, pmkid := Some pos\<rparr>))
        else Some (Inr (pos, left, d)))"

definition wpa_parse_wpa_ie_rsn :: "bytes \<Rightarrow> wpa_ie_data parse" where
  "wpa_parse_wpa_ie_rsn ie =
     continue (continue (continue (continue (continue (continue (rsn_header ie)
       (rsn_group ie)) (rsn_pairwise ie)) (rsn_key_mgmt ie)) (ie_capab ie)) (rsn_pmkids ie))
       (\<lambda>(pos, left, d). Some (Inr d))"

definition wpa_defaults :: wpa_ie_data where
  "wpa_defaults = rsn_defaults\<lparr>proto := WPA_PROTO_WPA, pairwise_cipher := WPA_CIPHER_TKIP, group_cipher := WPA_CIPHER_TKIP\<rparr>"

definition wpa_header :: "bytes \<Rightarrow> ie_state parse" where
  "wpa_header ie =
     (if length ie < 8 then Some (Inl (-1))
      else
        case rd ie 0 8 of
          None \<Rightarrow> None
        | Some hdr \<Rightarrow>
            if hdr ! 0 \<noteq> WLAN_EID_VENDOR_SPECIFIC \<or> unat (hdr ! 1) \<noteq> length ie - 2 \<or>
               get_be32 (drop 2 hdr) \<noteq> WPA_OUI_TYPE \<or> get_le16 (drop 6 hdr) \<noteq> 1 then Some (Inl (-2))
            else Some (Inr (8, length ie - 8, wpa_defaults)))"

definition wpa_group :: "bytes \<Rightarrow> ie_state \<Rightarrow> ie_state parse" where
  "wpa_group ie st =
     (case st of (pos, left, d) \<Rightarrow>
        if 4 \<le> left then
          case rd ie pos 4 of
            None \<Rightarrow> None
          | Some s \<Rightarrow> Some (Inr (pos + 4, left - 4, d\<lparr>group_cipher := wpa_selector_to_bitfield (get_be32 s)\<rparr>))
        else if 0 < left then Some (Inl (-3))
        else Some (Inr (pos, left, d)))"

definition wpa_pairwise :: "bytes \<Rightarrow> ie_state \<Rightarrow> ie_state parse" where
  "wpa_pairwise ie st =
     (case st of (pos, left, d) \<Rightarrow>
        continue (suite_list wpa_selector_to_bitfield (-4) (-5) ie pos left)
          (\<lambda>(pos, left, r). Some (Inr (pos, left, case r of None \<Rightarrow> d | Some bits \<Rightarrow> d\<lparr>pairwise_cipher := bits\<rparr>))))"

definition wpa_key_mgmt :: "bytes \<Rightarrow> ie_state \<Rightarrow> ie_state parse" where
  "wpa_key_mgmt ie st =
     (case st of (pos, left, d) \<Rightarrow>
        continue (suite_list wpa_key_mgmt_to_bitfield (-6) (-7) ie pos left)
          (\<lambda>(pos, left, r). Some (Inr (pos, left, case r of None \<Rightarrow> d | Some bits \<Rightarrow> d\<lparr>key_mgmt := bits\<rparr>))))"

definition wpa_parse_wpa_ie_wpa :: "bytes \<Rightarrow> wpa_ie_data parse" where
  "wpa_parse_wpa_ie_wpa ie =
     continue (continue (continue (continue (continue (wpa_header ie)
       (wpa_group ie)) (wpa_pairwise ie)) (wpa_key_mgmt ie)) (ie_capab ie))
       (\<lambda>(pos, left, d). Some (Inr d))"

definition wpa_parse_wpa_ie :: "bytes \<Rightarrow> wpa_ie_data parse" where
  "wpa_parse_wpa_ie ie =
     (if 1 \<le> length ie \<and> ie ! 0 = WLAN_EID_RSN then wpa_parse_wpa_ie_rsn ie
      else if 6 \<le> length ie \<and> ie ! 0 = WLAN_EID_VENDOR_SPECIFIC \<and> 4 \<le> ie ! 1 \<and>
              get_be32 (take 4 (drop 2 ie)) = OSEN_IE_VENDOR_TYPE
      then wpa_parse_wpa_ie_rsn ie
      else wpa_parse_wpa_ie_wpa ie)"

section \<open>Generation\<close>

text \<open>What \<^verbatim>\<open>struct wpa_sm\<close> holds for it; \<open>cur_pmksa\<close> is the PMKID of the current cache entry.\<close>

record ie_policy =
  ie_proto :: u32
  ie_pairwise :: u32
  ie_group :: u32
  ie_key_mgmt :: u32
  ie_ocv :: bool
  ie_pmkid :: "bytes option"

definition cipher_ok :: "u32 \<Rightarrow> u32 \<Rightarrow> bool" where
  "cipher_ok suite c \<longleftrightarrow> \<not> (suite = 0 \<or> \<not> wpa_cipher_valid_pairwise c \<and> c \<noteq> WPA_CIPHER_NONE)"

definition wpa_akm :: "u32 \<Rightarrow> u32 option" where
  "wpa_akm k =
     (if k = WPA_KEY_MGMT_IEEE8021X then Some (wpa_suite 1)
      else if k = WPA_KEY_MGMT_PSK then Some (wpa_suite 2)
      else if k = WPA_KEY_MGMT_WPA_NONE then Some (wpa_suite 0)
      else if k = WPA_KEY_MGMT_CCKM then Some RSN_AUTH_KEY_MGMT_CCKM
      else None)"

definition rsn_akm :: "u32 \<Rightarrow> u32 option" where
  "rsn_akm k =
     (if k = WPA_KEY_MGMT_IEEE8021X then Some (rsn_suite 1)
      else if k = WPA_KEY_MGMT_PSK then Some (rsn_suite 2)
      else if k = WPA_KEY_MGMT_CCKM then Some RSN_AUTH_KEY_MGMT_CCKM
      else if k = WPA_KEY_MGMT_IEEE8021X_SUITE_B_192 then Some (rsn_suite 12)
      else if k = WPA_KEY_MGMT_IEEE8021X_SUITE_B then Some (rsn_suite 11)
      else None)"

text \<open>The length byte is filled in at the end. \<open>None\<close> is the return of -1.\<close>

definition wpa_gen_wpa_ie_wpa :: "nat \<Rightarrow> u32 \<Rightarrow> u32 \<Rightarrow> u32 \<Rightarrow> bytes option" where
  "wpa_gen_wpa_ie_wpa ie_len pw grp mgmt =
     (if ie_len < 8 + 4 + 2 + 4 + 2 + 4 then None
      else
        let g = wpa_cipher_to_suite WPA_PROTO_WPA grp; p = wpa_cipher_to_suite WPA_PROTO_WPA pw in
        if g = 0 then None
        else if \<not> cipher_ok p pw then None
        else
          case wpa_akm mgmt of
            None \<Rightarrow> None
          | Some akm \<Rightarrow>
              let body = put_be32 WPA_OUI_TYPE @ put_le16 1 @ put_be32 g @ [1, 0] @ put_be32 p @ [1, 0] @ put_be32 akm
              in Some ([WLAN_EID_VENDOR_SPECIFIC, of_nat (length body)] @ body))"

definition WPA_CAPABILITY_OCVC :: u16 where "WPA_CAPABILITY_OCVC = 0x4000"

definition wpa_gen_wpa_ie_rsn :: "nat \<Rightarrow> ie_policy \<Rightarrow> bytes option" where
  "wpa_gen_wpa_ie_rsn ie_len sm =
     (if ie_len < 4 + 4 + 2 + 4 + 2 + 4 + 2 + (if ie_pmkid sm \<noteq> None then 2 + 16 else 0) then None
      else
        let g = wpa_cipher_to_suite WPA_PROTO_RSN (ie_group sm); p = wpa_cipher_to_suite WPA_PROTO_RSN (ie_pairwise sm) in
        if g = 0 then None
        else if \<not> cipher_ok p (ie_pairwise sm) then None
        else
          case rsn_akm (ie_key_mgmt sm) of
            None \<Rightarrow> None
          | Some akm \<Rightarrow>
              let capab = (if ie_ocv sm then WPA_CAPABILITY_OCVC else 0);
                  body = put_le16 1 @ put_be32 g @ [1, 0] @ put_be32 p @ [1, 0] @ put_be32 akm @ put_le16 capab @
                    (case ie_pmkid sm of None \<Rightarrow> [] | Some i \<Rightarrow> [1, 0] @ i)
              in Some ([WLAN_EID_RSN, of_nat (length body)] @ body))"

definition wpa_gen_wpa_ie :: "nat \<Rightarrow> ie_policy \<Rightarrow> bytes option" where
  "wpa_gen_wpa_ie ie_len sm =
     (if ie_proto sm = WPA_PROTO_RSN then wpa_gen_wpa_ie_rsn ie_len sm
      else wpa_gen_wpa_ie_wpa ie_len (ie_pairwise sm) (ie_group sm) (ie_key_mgmt sm))"

text \<open>Without \<^verbatim>\<open>CONFIG_IEEE80211R\<close> only identical elements are equal.\<close>

definition wpa_compare_rsn_ie :: "bytes option \<Rightarrow> bytes option \<Rightarrow> int" where
  "wpa_compare_rsn_ie ie1 ie2 =
     (case (ie1, ie2) of (Some a, Some b) \<Rightarrow> if length a = length b \<and> a = b then 0 else -1 | _ \<Rightarrow> -1)"

section \<open>Reads stay inside\<close>

lemma rd_Some: "pos + n \<le> length ie \<Longrightarrow> rd ie pos n = Some (take n (drop pos ie))"
  by (simp add: rd_def)

lemma read_suites_total: "pos + 4 * n \<le> length ie \<Longrightarrow> \<exists>bits. read_suites f ie pos n acc = Some bits"
  by (induction f ie pos n acc rule: read_suites.induct) (simp_all add: rd_Some)

text \<open>The bits of a list of suites are those of its suites.\<close>

lemma read_suites_bits:
  "read_suites f ie pos n acc = Some bits \<Longrightarrow> (\<forall>s. f s OR K = K) \<Longrightarrow> acc OR K = K \<Longrightarrow> bits OR K = K"
proof (induction f ie pos n acc rule: read_suites.induct)
  case (2 f ie pos n acc)
  then show ?case by (auto split: option.splits simp: or.assoc)
qed simp

text \<open>A stage keeps \<open>pos + left = length\<close> and a property of the data, and never reads outside.\<close>

definition stage_ok :: "bytes \<Rightarrow> (ie_state parse) \<Rightarrow> (wpa_ie_data \<Rightarrow> bool) \<Rightarrow> bool" where
  "stage_ok ie r Q \<longleftrightarrow>
     (case r of None \<Rightarrow> False | Some (Inl e) \<Rightarrow> e < 0 | Some (Inr (pos, left, d)) \<Rightarrow> pos + left = length ie \<and> Q d)"

lemma stage_simps [simp]:
  "stage_ok ie (Some (Inl e)) Q \<longleftrightarrow> e < 0"
  "stage_ok ie (Some (Inr (pos, left, d))) Q \<longleftrightarrow> pos + left = length ie \<and> Q d"
  by (simp_all add: stage_ok_def)

lemma stage_continue:
  assumes "stage_ok ie m P" and f: "\<And>pos left d. pos + left = length ie \<Longrightarrow> P d \<Longrightarrow> stage_ok ie (f (pos, left, d)) Q"
  shows "stage_ok ie (continue m f) Q"
proof -
  consider e where "m = Some (Inl e)" "e < 0" | pos left d where "m = Some (Inr (pos, left, d))" "pos + left = length ie" "P d"
    using assms(1) by (auto simp: stage_ok_def split: option.splits sum.splits)
  then show ?thesis using f by cases (simp_all add: continue_def stage_ok_def)
qed

lemma suite_list_cases:
  assumes "pos + left = length ie" "botch < 0" "short < 0"
  obtains (err) e where "suite_list f botch short ie pos left = Some (Inl e)" "e < 0"
    | (absent) "suite_list f botch short ie pos left = Some (Inr (pos, left, None))"
    | (bits) pos' left' n bits where "suite_list f botch short ie pos left = Some (Inr (pos', left', Some bits))"
        "pos' + left' = length ie" "read_suites f ie (pos + 2) n 0 = Some bits"
proof (cases "2 \<le> left")
  case True
  define n where "n = unat (get_le16 (take 2 (drop pos ie)))"
  show thesis
  proof (cases "n = 0 \<or> (left - 2) div 4 < n")
    case True
    then show thesis using \<open>2 \<le> left\<close> assms by (intro err [of botch]) (auto simp: suite_list_def rd_Some Let_def n_def)
  next
    case False
    then have fits: "4 * n \<le> left - 2" by (auto simp: not_less less_eq_div_iff_mult_less_eq)
    then obtain b where b: "read_suites f ie (pos + 2) n 0 = Some b"
      using read_suites_total [of "pos + 2" n ie f 0] assms(1) True by force
    have "suite_list f botch short ie pos left = Some (Inr (pos + 2 + 4 * n, left - 2 - 4 * n, Some b))"
      using False b True assms(1) by (simp add: suite_list_def rd_Some Let_def flip: n_def)
    then show thesis by (rule bits) (use fits b assms(1) True in auto)
  qed
next
  case False
  then show thesis using assms err [of short] absent by (cases "left = 1") (simp_all add: suite_list_def)
qed

section \<open>What a parsed element is\<close>

definition cipher_bits :: u32 where "cipher_bits = 0x7b59"
definition mgmt_bits :: u32 where "mgmt_bits = 0x3f8013"

definition pmkids_in :: "bytes \<Rightarrow> nat option \<Rightarrow> nat \<Rightarrow> bool" where
  "pmkids_in ie start n \<longleftrightarrow> (case start of None \<Rightarrow> n = 0 | Some p \<Rightarrow> p + n * 16 \<le> length ie)"

definition ie_wf :: "bytes \<Rightarrow> wpa_ie_data \<Rightarrow> bool" where
  "ie_wf ie d \<longleftrightarrow>
     group_cipher d OR cipher_bits = cipher_bits \<and> pairwise_cipher d OR cipher_bits = cipher_bits \<and>
     key_mgmt d OR mgmt_bits = mgmt_bits \<and> mgmt_group_cipher d = 0 \<and>
     pmkids_in ie (pmkid d) (num_pmkid d) \<and>
     (if proto d = WPA_PROTO_WPA then pmkid d = None else wpa_cipher_valid_group (group_cipher d))"

lemma bitfield_bits:
  "\<forall>s. rsn_selector_to_bitfield s OR cipher_bits = cipher_bits" "\<forall>s. wpa_selector_to_bitfield s OR cipher_bits = cipher_bits"
  "\<forall>s. rsn_key_mgmt_to_bitfield s OR mgmt_bits = mgmt_bits" "\<forall>s. wpa_key_mgmt_to_bitfield s OR mgmt_bits = mgmt_bits"
  by (simp_all add: rsn_selector_to_bitfield_def wpa_selector_to_bitfield_def rsn_key_mgmt_to_bitfield_def
      wpa_key_mgmt_to_bitfield_def cipher_bits_def mgmt_bits_def ciphers key_mgmts)

lemma defaults_wf:
  "ie_wf ie rsn_defaults" "ie_wf ie wpa_defaults"
  "ie_wf ie (rsn_defaults\<lparr>group_cipher := WPA_CIPHER_GTK_NOT_USED, has_group := True, key_mgmt := WPA_KEY_MGMT_OSEN,
    proto := WPA_PROTO_OSEN\<rparr>)"
  by (simp_all add: ie_wf_def pmkids_in_def rsn_defaults_def wpa_defaults_def cipher_bits_def mgmt_bits_def ciphers key_mgmts WPA_PROTO_RSN_def
      WPA_PROTO_OSEN_def WPA_PROTO_WPA_def wpa_cipher_valid_group_def wpa_cipher_valid_pairwise_def)

text \<open>The stages of one protocol keep it.\<close>

definition rsn_wf :: "bytes \<Rightarrow> wpa_ie_data \<Rightarrow> bool" where "rsn_wf ie d \<longleftrightarrow> ie_wf ie d \<and> proto d \<noteq> WPA_PROTO_WPA"
definition wpa_wf :: "bytes \<Rightarrow> wpa_ie_data \<Rightarrow> bool" where "wpa_wf ie d \<longleftrightarrow> ie_wf ie d \<and> proto d = WPA_PROTO_WPA"

lemma header_protos: "proto rsn_defaults = WPA_PROTO_RSN" "proto wpa_defaults = WPA_PROTO_WPA" "WPA_PROTO_RSN \<noteq> WPA_PROTO_WPA"
  "WPA_PROTO_OSEN \<noteq> WPA_PROTO_WPA"
  by (simp_all add: rsn_defaults_def wpa_defaults_def WPA_PROTO_RSN_def WPA_PROTO_WPA_def WPA_PROTO_OSEN_def)

lemma rsn_header_ok: "stage_ok ie (rsn_header ie) (rsn_wf ie)"
proof (cases "length ie < 6")
  case True
  then show ?thesis
    by (cases "length ie < 4") (auto simp: rsn_header_def is_osen_def rd_Some rsn_wf_def defaults_wf header_protos)
next
  case False
  then show ?thesis using defaults_wf(3) [of ie]
    by (auto simp: rsn_header_def is_osen_def rd_Some rsn_wf_def defaults_wf header_protos split: bool.splits)
qed

lemma wpa_header_ok: "stage_ok ie (wpa_header ie) (wpa_wf ie)"
  by (auto simp: wpa_header_def rd_Some wpa_wf_def defaults_wf header_protos)

lemma rsn_group_ok: "pos + left = length ie \<Longrightarrow> rsn_wf ie d \<Longrightarrow> stage_ok ie (rsn_group ie (pos, left, d)) (rsn_wf ie)"
  using bitfield_bits(1) by (simp add: rsn_group_def rd_Some Let_def rsn_wf_def ie_wf_def)

lemma wpa_group_ok: "pos + left = length ie \<Longrightarrow> wpa_wf ie d \<Longrightarrow> stage_ok ie (wpa_group ie (pos, left, d)) (wpa_wf ie)"
  using bitfield_bits(2) by (auto simp: wpa_group_def rd_Some wpa_wf_def ie_wf_def)

text \<open>A list of suites stored by \<open>upd\<close>, for any of the four lists.\<close>

lemma suites_ok:
  assumes "pos + left = length ie" "P d" "botch < 0" "short < 0" "\<forall>s. f s OR K = K" "\<And>bits. bits OR K = K \<Longrightarrow> P (upd bits)"
  shows "stage_ok ie (continue (suite_list f botch short ie pos left)
    (\<lambda>(pos, left, r). Some (Inr (pos, left, case r of None \<Rightarrow> d | Some bits \<Rightarrow> upd bits)))) P"
proof (rule suite_list_cases [OF assms(1,3,4), of f])
  fix pos' left' n bits
  assume b: "suite_list f botch short ie pos left = Some (Inr (pos', left', Some bits))" "pos' + left' = length ie"
    "read_suites f ie (pos + 2) n 0 = Some bits"
  then have "P (upd bits)" using read_suites_bits [OF b(3) assms(5)] assms(6) by simp
  then show ?thesis using b by (simp add: continue_def)
qed (use assms in \<open>simp_all add: continue_def\<close>)

lemma rsn_suites_ok:
  assumes "pos + left = length ie" "rsn_wf ie d"
  shows "stage_ok ie (rsn_pairwise ie (pos, left, d)) (rsn_wf ie)" "stage_ok ie (rsn_key_mgmt ie (pos, left, d)) (rsn_wf ie)"
  unfolding rsn_pairwise_def rsn_key_mgmt_def prod.case
  by (rule suites_ok [where P = "rsn_wf ie" and K = cipher_bits], use assms bitfield_bits in \<open>simp_all add: rsn_wf_def ie_wf_def\<close>)
    (rule suites_ok [where P = "rsn_wf ie" and K = mgmt_bits], use assms bitfield_bits in \<open>simp_all add: rsn_wf_def ie_wf_def\<close>)

lemma wpa_suites_ok:
  assumes "pos + left = length ie" "wpa_wf ie d"
  shows "stage_ok ie (wpa_pairwise ie (pos, left, d)) (wpa_wf ie)" "stage_ok ie (wpa_key_mgmt ie (pos, left, d)) (wpa_wf ie)"
  unfolding wpa_pairwise_def wpa_key_mgmt_def prod.case
  by (rule suites_ok [where P = "wpa_wf ie" and K = cipher_bits], use assms bitfield_bits in \<open>auto simp: wpa_wf_def ie_wf_def\<close>)
    (rule suites_ok [where P = "wpa_wf ie" and K = mgmt_bits], use assms bitfield_bits in \<open>auto simp: wpa_wf_def ie_wf_def\<close>)

lemma ie_capab_ok:
  "pos + left = length ie \<Longrightarrow> rsn_wf ie d \<Longrightarrow> stage_ok ie (ie_capab ie (pos, left, d)) (rsn_wf ie)"
  "pos + left = length ie \<Longrightarrow> wpa_wf ie d \<Longrightarrow> stage_ok ie (ie_capab ie (pos, left, d)) (wpa_wf ie)"
  by (auto simp: ie_capab_def rd_Some rsn_wf_def wpa_wf_def ie_wf_def)

lemma rsn_pmkids_ok:
  assumes "pos + left = length ie" "rsn_wf ie d"
  shows "stage_ok ie (rsn_pmkids ie (pos, left, d)) (rsn_wf ie)"
proof (cases "2 \<le> left")
  case True
  define n where "n = unat (get_le16 (take 2 (drop pos ie)))"
  have "\<not> (left - 2) div 16 < n \<Longrightarrow> n * 16 \<le> left - 2" by (auto simp: not_less less_eq_div_iff_mult_less_eq)
  then show ?thesis using True assms by (auto simp: rsn_pmkids_def rd_Some Let_def rsn_wf_def ie_wf_def pmkids_in_def n_def)
qed (use assms in \<open>simp add: rsn_pmkids_def\<close>)

lemma parse_rsn_ok: "stage_ok ie (continue (continue (continue (continue (continue (rsn_header ie)
       (rsn_group ie)) (rsn_pairwise ie)) (rsn_key_mgmt ie)) (ie_capab ie)) (rsn_pmkids ie)) (rsn_wf ie)"
  by (intro stage_continue [of ie _ "rsn_wf ie"] rsn_header_ok rsn_group_ok rsn_suites_ok ie_capab_ok(1) rsn_pmkids_ok)

lemma parse_wpa_ok: "stage_ok ie (continue (continue (continue (continue (wpa_header ie)
       (wpa_group ie)) (wpa_pairwise ie)) (wpa_key_mgmt ie)) (ie_capab ie)) (wpa_wf ie)"
  by (intro stage_continue [of ie _ "wpa_wf ie"] wpa_header_ok wpa_group_ok wpa_suites_ok ie_capab_ok(2))

lemma stage_result:
  assumes "stage_ok ie m Q"
  shows "case continue m (\<lambda>(pos, left, d). Some (Inr d)) of None \<Rightarrow> False | Some (Inl e) \<Rightarrow> e < 0 | Some (Inr d) \<Rightarrow> Q d"
  using assms by (auto simp: stage_ok_def continue_def split: option.splits sum.splits)

text \<open>C6: Parsing any sequence of bytes as a security element never reads outside of it and ends with a
  negative error or with well-typed data: only known cipher and key management bits, a usable group
  cipher in an RSN element, and a PMKID list that lies inside the element.\<close>
theorem ie_parse_typed:
  "case wpa_parse_wpa_ie ie of None \<Rightarrow> False | Some (Inl e) \<Rightarrow> e < 0 | Some (Inr d) \<Rightarrow> ie_wf ie d"
proof -
  have "case wpa_parse_wpa_ie_rsn ie of None \<Rightarrow> False | Some (Inl e) \<Rightarrow> e < 0 | Some (Inr d) \<Rightarrow> rsn_wf ie d"
    unfolding wpa_parse_wpa_ie_rsn_def by (rule stage_result [OF parse_rsn_ok])
  moreover have "case wpa_parse_wpa_ie_wpa ie of None \<Rightarrow> False | Some (Inl e) \<Rightarrow> e < 0 | Some (Inr d) \<Rightarrow> wpa_wf ie d"
    unfolding wpa_parse_wpa_ie_wpa_def by (rule stage_result [OF parse_wpa_ok])
  ultimately show ?thesis
    by (auto simp: wpa_parse_wpa_ie_def rsn_wf_def wpa_wf_def split: option.splits sum.splits)
qed

section \<open>Round trip\<close>



text \<open>Every suite the generators write is read back as the bit it stands for.\<close>

lemma suite_values:
  "rsn_suite 0 = 0xfac00" "rsn_suite 1 = 0xfac01" "rsn_suite 2 = 0xfac02" "rsn_suite 4 = 0xfac04" "rsn_suite 7 = 0xfac07"
  "rsn_suite 8 = 0xfac08" "rsn_suite 9 = 0xfac09" "rsn_suite 10 = 0xfac0a" "rsn_suite 11 = 0xfac0b" "rsn_suite 12 = 0xfac0c"
  "rsn_suite 13 = 0xfac0d" "rsn_suite 14 = 0xfac0e" "rsn_suite 15 = 0xfac0f" "rsn_suite 16 = 0xfac10" "rsn_suite 17 = 0xfac11"
  "wpa_suite 0 = 0x50f200" "wpa_suite 1 = 0x50f201" "wpa_suite 2 = 0x50f202" "wpa_suite 4 = 0x50f204"
  "RSN_AUTH_KEY_MGMT_OSEN = 0x506f9a01" "RSN_AUTH_KEY_MGMT_CCKM = 0x409600"
  by (simp_all add: rsn_suite_def wpa_suite_def RSN_SELECTOR_def RSN_AUTH_KEY_MGMT_OSEN_def RSN_AUTH_KEY_MGMT_CCKM_def)

lemmas bit_eval = suite_values ciphers key_mgmts wpa_cipher_to_suite_def rsn_selector_to_bitfield_def wpa_selector_to_bitfield_def
  rsn_key_mgmt_to_bitfield_def wpa_key_mgmt_to_bitfield_def WPA_PROTO_RSN_def WPA_PROTO_WPA_def


lemma wpa_suite_bits:
  assumes "c = WPA_CIPHER_TKIP \<or> c = WPA_CIPHER_CCMP \<or> c = WPA_CIPHER_NONE"
  shows "wpa_selector_to_bitfield (wpa_cipher_to_suite WPA_PROTO_WPA c) = c \<and> wpa_cipher_to_suite WPA_PROTO_WPA c \<noteq> 0"
  using assms by (elim disjE) (simp_all add: bit_eval)


lemma wpa_akm_bits:
  assumes "wpa_akm k = Some s" "k \<noteq> WPA_KEY_MGMT_CCKM"
  shows "wpa_key_mgmt_to_bitfield s = k"
  using assms by (simp add: wpa_akm_def bit_eval split: if_splits)









end
