(* ===== verification/WpaKeys.thy ===== *)
theory WpaKeys
  imports RsnIe
begin

text \<open>
  Keys of the RSN handshake (\<^verbatim>\<open>common/wpa_common.c\<close>): key lengths per key management, the PTK from PMK,
  addresses and nonces, the MIC of EAPOL-Key frames, the PMKID. Without the optional protocols of the
  build, key management that needs SHA-256 or SHA-384 is refused.
\<close>

section \<open>Key management\<close>

definition WPA_KEY_MGMT_FT_IEEE8021X :: u32 where "WPA_KEY_MGMT_FT_IEEE8021X = 0x20"
definition WPA_KEY_MGMT_FT_PSK :: u32 where "WPA_KEY_MGMT_FT_PSK = 0x40"
definition WPA_KEY_MGMT_IEEE8021X_SHA256 :: u32 where "WPA_KEY_MGMT_IEEE8021X_SHA256 = 0x80"
definition WPA_KEY_MGMT_PSK_SHA256 :: u32 where "WPA_KEY_MGMT_PSK_SHA256 = 0x100"
definition WPA_KEY_MGMT_SAE :: u32 where "WPA_KEY_MGMT_SAE = 0x400"
definition WPA_KEY_MGMT_FT_SAE :: u32 where "WPA_KEY_MGMT_FT_SAE = 0x800"
definition WPA_KEY_MGMT_OWE :: u32 where "WPA_KEY_MGMT_OWE = 0x400000"
definition WPA_KEY_MGMT_DPP :: u32 where "WPA_KEY_MGMT_DPP = 0x800000"
definition WPA_KEY_MGMT_FT_IEEE8021X_SHA384 :: u32 where "WPA_KEY_MGMT_FT_IEEE8021X_SHA384 = 0x1000000"

lemmas more_key_mgmts = WPA_KEY_MGMT_FT_IEEE8021X_def WPA_KEY_MGMT_FT_PSK_def WPA_KEY_MGMT_IEEE8021X_SHA256_def
  WPA_KEY_MGMT_PSK_SHA256_def WPA_KEY_MGMT_SAE_def WPA_KEY_MGMT_FT_SAE_def WPA_KEY_MGMT_OWE_def WPA_KEY_MGMT_DPP_def
  WPA_KEY_MGMT_FT_IEEE8021X_SHA384_def

definition wpa_key_mgmt_wpa_ieee8021x :: "u32 \<Rightarrow> bool" where
  "wpa_key_mgmt_wpa_ieee8021x akm \<longleftrightarrow> akm AND (WPA_KEY_MGMT_IEEE8021X OR WPA_KEY_MGMT_FT_IEEE8021X OR
     WPA_KEY_MGMT_FT_IEEE8021X_SHA384 OR WPA_KEY_MGMT_CCKM OR WPA_KEY_MGMT_OSEN OR WPA_KEY_MGMT_IEEE8021X_SHA256 OR
     WPA_KEY_MGMT_IEEE8021X_SUITE_B OR WPA_KEY_MGMT_IEEE8021X_SUITE_B_192 OR WPA_KEY_MGMT_FILS_SHA256 OR
     WPA_KEY_MGMT_FILS_SHA384 OR WPA_KEY_MGMT_FT_FILS_SHA256 OR WPA_KEY_MGMT_FT_FILS_SHA384) \<noteq> 0"

definition wpa_key_mgmt_wpa_psk :: "u32 \<Rightarrow> bool" where
  "wpa_key_mgmt_wpa_psk akm \<longleftrightarrow> akm AND (WPA_KEY_MGMT_PSK OR WPA_KEY_MGMT_FT_PSK OR WPA_KEY_MGMT_PSK_SHA256 OR
     WPA_KEY_MGMT_SAE OR WPA_KEY_MGMT_FT_SAE) \<noteq> 0"

definition wpa_key_mgmt_ft :: "u32 \<Rightarrow> bool" where
  "wpa_key_mgmt_ft akm \<longleftrightarrow> akm AND (WPA_KEY_MGMT_FT_PSK OR WPA_KEY_MGMT_FT_IEEE8021X OR WPA_KEY_MGMT_FT_IEEE8021X_SHA384 OR
     WPA_KEY_MGMT_FT_SAE OR WPA_KEY_MGMT_FT_FILS_SHA256 OR WPA_KEY_MGMT_FT_FILS_SHA384) \<noteq> 0"

definition wpa_key_mgmt_sae :: "u32 \<Rightarrow> bool" where
  "wpa_key_mgmt_sae akm \<longleftrightarrow> akm AND (WPA_KEY_MGMT_SAE OR WPA_KEY_MGMT_FT_SAE) \<noteq> 0"

definition wpa_key_mgmt_fils :: "u32 \<Rightarrow> bool" where
  "wpa_key_mgmt_fils akm \<longleftrightarrow> akm AND (WPA_KEY_MGMT_FILS_SHA256 OR WPA_KEY_MGMT_FILS_SHA384 OR WPA_KEY_MGMT_FT_FILS_SHA256 OR
     WPA_KEY_MGMT_FT_FILS_SHA384) \<noteq> 0"

definition wpa_key_mgmt_sha256 :: "u32 \<Rightarrow> bool" where
  "wpa_key_mgmt_sha256 akm \<longleftrightarrow> akm AND (WPA_KEY_MGMT_PSK_SHA256 OR WPA_KEY_MGMT_IEEE8021X_SHA256 OR WPA_KEY_MGMT_SAE OR
     WPA_KEY_MGMT_FT_SAE OR WPA_KEY_MGMT_OSEN OR WPA_KEY_MGMT_IEEE8021X_SUITE_B OR WPA_KEY_MGMT_FILS_SHA256 OR
     WPA_KEY_MGMT_FT_FILS_SHA256) \<noteq> 0"

definition wpa_key_mgmt_sha384 :: "u32 \<Rightarrow> bool" where
  "wpa_key_mgmt_sha384 akm \<longleftrightarrow> akm AND (WPA_KEY_MGMT_IEEE8021X_SUITE_B_192 OR WPA_KEY_MGMT_FT_IEEE8021X_SHA384 OR
     WPA_KEY_MGMT_FILS_SHA384 OR WPA_KEY_MGMT_FT_FILS_SHA384) \<noteq> 0"

definition wpa_key_mgmt_suite_b :: "u32 \<Rightarrow> bool" where
  "wpa_key_mgmt_suite_b akm \<longleftrightarrow> akm AND (WPA_KEY_MGMT_IEEE8021X_SUITE_B OR WPA_KEY_MGMT_IEEE8021X_SUITE_B_192) \<noteq> 0"

definition wpa_kck_len :: "u32 \<Rightarrow> nat \<Rightarrow> nat" where
  "wpa_kck_len akmp pmk_len =
     (if akmp = WPA_KEY_MGMT_IEEE8021X_SUITE_B_192 \<or> akmp = WPA_KEY_MGMT_FT_IEEE8021X_SHA384 then 24
      else if akmp = WPA_KEY_MGMT_FILS_SHA256 \<or> akmp = WPA_KEY_MGMT_FT_FILS_SHA256 \<or> akmp = WPA_KEY_MGMT_FILS_SHA384 \<or>
              akmp = WPA_KEY_MGMT_FT_FILS_SHA384 then 0
      else if akmp = WPA_KEY_MGMT_DPP then pmk_len div 2
      else if akmp = WPA_KEY_MGMT_OWE then pmk_len div 2
      else 16)"

definition wpa_kek_len :: "u32 \<Rightarrow> nat \<Rightarrow> nat" where
  "wpa_kek_len akmp pmk_len =
     (if akmp = WPA_KEY_MGMT_FILS_SHA384 \<or> akmp = WPA_KEY_MGMT_FT_FILS_SHA384 then 64
      else if akmp = WPA_KEY_MGMT_IEEE8021X_SUITE_B_192 \<or> akmp = WPA_KEY_MGMT_FILS_SHA256 \<or> akmp = WPA_KEY_MGMT_FT_FILS_SHA256 \<or>
              akmp = WPA_KEY_MGMT_FT_IEEE8021X_SHA384 then 32
      else if akmp = WPA_KEY_MGMT_DPP then if pmk_len \<le> 32 then 16 else 32
      else if akmp = WPA_KEY_MGMT_OWE then if pmk_len \<le> 32 then 16 else 32
      else 16)"

definition wpa_mic_len :: "u32 \<Rightarrow> nat \<Rightarrow> nat" where
  "wpa_mic_len akmp pmk_len =
     (if akmp = WPA_KEY_MGMT_IEEE8021X_SUITE_B_192 \<or> akmp = WPA_KEY_MGMT_FT_IEEE8021X_SHA384 then 24
      else if akmp = WPA_KEY_MGMT_FILS_SHA256 \<or> akmp = WPA_KEY_MGMT_FILS_SHA384 \<or> akmp = WPA_KEY_MGMT_FT_FILS_SHA256 \<or>
              akmp = WPA_KEY_MGMT_FT_FILS_SHA384 then 0
      else if akmp = WPA_KEY_MGMT_DPP then pmk_len div 2
      else if akmp = WPA_KEY_MGMT_OWE then pmk_len div 2
      else 16)"

definition wpa_use_akm_defined :: "u32 \<Rightarrow> bool" where
  "wpa_use_akm_defined akmp \<longleftrightarrow>
     akmp = WPA_KEY_MGMT_OSEN \<or> akmp = WPA_KEY_MGMT_OWE \<or> akmp = WPA_KEY_MGMT_DPP \<or> akmp = WPA_KEY_MGMT_FT_IEEE8021X_SHA384 \<or>
     wpa_key_mgmt_sae akmp \<or> wpa_key_mgmt_suite_b akmp \<or> wpa_key_mgmt_fils akmp"

definition wpa_use_cmac :: "u32 \<Rightarrow> bool" where
  "wpa_use_cmac akmp \<longleftrightarrow>
     akmp = WPA_KEY_MGMT_OSEN \<or> akmp = WPA_KEY_MGMT_OWE \<or> akmp = WPA_KEY_MGMT_DPP \<or>
     wpa_key_mgmt_ft akmp \<or> wpa_key_mgmt_sha256 akmp \<or> wpa_key_mgmt_sae akmp \<or> wpa_key_mgmt_suite_b akmp"

definition wpa_use_aes_key_wrap :: "u32 \<Rightarrow> bool" where
  "wpa_use_aes_key_wrap akmp \<longleftrightarrow>
     akmp = WPA_KEY_MGMT_OSEN \<or> akmp = WPA_KEY_MGMT_OWE \<or> akmp = WPA_KEY_MGMT_DPP \<or>
     wpa_key_mgmt_ft akmp \<or> wpa_key_mgmt_sha256 akmp \<or> wpa_key_mgmt_sae akmp \<or> wpa_key_mgmt_suite_b akmp"

section \<open>Derivation\<close>

definition WPA_KEY_INFO_TYPE_AKM_DEFINED :: u16 where "WPA_KEY_INFO_TYPE_AKM_DEFINED = 0"
definition WPA_KEY_INFO_TYPE_HMAC_MD5_RC4 :: u16 where "WPA_KEY_INFO_TYPE_HMAC_MD5_RC4 = 1"
definition WPA_KEY_INFO_TYPE_HMAC_SHA1_AES :: u16 where "WPA_KEY_INFO_TYPE_HMAC_SHA1_AES = 2"
definition WPA_KEY_INFO_TYPE_AES_128_CMAC :: u16 where "WPA_KEY_INFO_TYPE_AES_128_CMAC = 3"

lemmas descriptor_versions = WPA_KEY_INFO_TYPE_AKM_DEFINED_def WPA_KEY_INFO_TYPE_HMAC_MD5_RC4_def
  WPA_KEY_INFO_TYPE_HMAC_SHA1_AES_def WPA_KEY_INFO_TYPE_AES_128_CMAC_def

text \<open>
  Every AKM-defined MIC belongs to an optional protocol that is not built, as does AES-CMAC: all that is left of
  these cases is the failure.
\<close>

definition wpa_eapol_key_mic :: "bytes \<Rightarrow> u32 \<Rightarrow> u16 \<Rightarrow> bytes \<Rightarrow> bytes option" where
  "wpa_eapol_key_mic key akmp ver buf =
     (if length key = 0 then None
      else if ver = WPA_KEY_INFO_TYPE_HMAC_MD5_RC4 then hmac_md5 key buf
      else if ver = WPA_KEY_INFO_TYPE_HMAC_SHA1_AES then map_option (take 16) (hmac_sha1 key buf)
      else None)"

text \<open>\<^verbatim>\<open>os_memcmp\<close> less than zero.\<close>

fun memcmp_less :: "bytes \<Rightarrow> bytes \<Rightarrow> bool" where
  "memcmp_less (a # as) (b # bs) = (if a = b then memcmp_less as bs else a < b)"
| "memcmp_less _ _ = False"

definition min_max :: "nat \<Rightarrow> bytes \<Rightarrow> bytes \<Rightarrow> bytes" where
  "min_max n a b = (if memcmp_less (take n a) (take n b) then take n a @ take n b else take n b @ take n a)"

record wpa_ptk =
  kck :: bytes
  kek :: bytes
  tk :: bytes
  kck2 :: bytes
  kek2 :: bytes
  kck_len :: nat
  kek_len :: nat
  tk_len :: nat
  kck2_len :: nat
  kek2_len :: nat
  installed :: bool

definition WPA_KCK_MAX_LEN :: nat where "WPA_KCK_MAX_LEN = 32"
definition WPA_KEK_MAX_LEN :: nat where "WPA_KEK_MAX_LEN = 64"
definition WPA_TK_MAX_LEN :: nat where "WPA_TK_MAX_LEN = 32"

text \<open>The three buffers have their declared sizes.\<close>

definition ptk_ok :: "wpa_ptk \<Rightarrow> bool" where
  "ptk_ok p \<longleftrightarrow> length (kck p) = WPA_KCK_MAX_LEN \<and> length (kek p) = WPA_KEK_MAX_LEN \<and> length (tk p) = WPA_TK_MAX_LEN"

text \<open>\<^verbatim>\<open>os_memcpy\<close> into the start of a buffer.\<close>

definition fill :: "bytes \<Rightarrow> bytes \<Rightarrow> bytes" where
  "fill buf v = v @ drop (length v) buf"

definition ptk_data :: "bytes \<Rightarrow> bytes \<Rightarrow> bytes \<Rightarrow> bytes \<Rightarrow> bytes option \<Rightarrow> bytes" where
  "ptk_data addr1 addr2 nonce1 nonce2 z =
     min_max 6 addr1 addr2 @ min_max 32 nonce1 nonce2 @ (case z of None \<Rightarrow> [] | Some z \<Rightarrow> z)"

definition ptk_split :: "bytes \<Rightarrow> wpa_ptk \<Rightarrow> wpa_ptk" where
  "ptk_split tmp p =
     p\<lparr>kck := fill (kck p) (take (kck_len p) tmp),
       kek := fill (kek p) (take (kek_len p) (drop (kck_len p) tmp)),
       tk := fill (tk p) (take (tk_len p) (drop (kck_len p + kek_len p) tmp)),
       kek2_len := 0, kck2_len := 0\<rparr>"

text \<open>The result is whether the call succeeds; the lengths are written even when it then fails.\<close>

definition wpa_pmk_to_ptk ::
    "bytes \<Rightarrow> bytes \<Rightarrow> bytes \<Rightarrow> bytes \<Rightarrow> bytes \<Rightarrow> bytes \<Rightarrow> wpa_ptk \<Rightarrow> u32 \<Rightarrow> u32 \<Rightarrow> bytes option \<Rightarrow> bool \<times> wpa_ptk" where
  "wpa_pmk_to_ptk pmk label addr1 addr2 nonce1 nonce2 ptk akmp cipher z =
     (if length pmk = 0 then (False, ptk)
      else if (case z of None \<Rightarrow> 0 | Some z \<Rightarrow> length z) > 66 then (False, ptk)
      else
        let data = ptk_data addr1 addr2 nonce1 nonce2 z;
            ptk = ptk\<lparr>kck_len := wpa_kck_len akmp (length pmk), kek_len := wpa_kek_len akmp (length pmk),
                      tk_len := wpa_cipher_key_len cipher\<rparr>
        in if tk_len ptk = 0 then (False, ptk)
           else if wpa_key_mgmt_sha384 akmp then (False, ptk)
           else if wpa_key_mgmt_sha256 akmp \<or> akmp = WPA_KEY_MGMT_OWE then (False, ptk)
           else
             case sha1_prf pmk label data (kck_len ptk + kek_len ptk + tk_len ptk) of
               None \<Rightarrow> (False, ptk)
             | Some tmp \<Rightarrow> (True, ptk_split tmp ptk))"

text \<open>\<^verbatim>\<open>PMK Name\<close>\<close>

definition pmk_name :: bytes where "pmk_name = [0x50, 0x4d, 0x4b, 0x20, 0x4e, 0x61, 0x6d, 0x65]"

definition rsn_pmkid :: "bytes \<Rightarrow> bytes \<Rightarrow> bytes \<Rightarrow> bytes option" where
  "rsn_pmkid pmk aa spa = map_option (take 16) (hmac_sha1_vector pmk [pmk_name, take 6 aa, take 6 spa])"

section \<open>Both ends derive the same keys\<close>

lemma memcmp_antisym: "length a = length b \<Longrightarrow> memcmp_less a b \<Longrightarrow> \<not> memcmp_less b a"
  by (induction a b rule: memcmp_less.induct) (auto split: if_splits)

lemma memcmp_linear: "length a = length b \<Longrightarrow> \<not> memcmp_less a b \<Longrightarrow> \<not> memcmp_less b a \<Longrightarrow> a = b"
  by (induction a b rule: memcmp_less.induct) (auto split: if_splits)

lemma min_max_sym: "n \<le> length a \<Longrightarrow> n \<le> length b \<Longrightarrow> min_max n a b = min_max n b a"
  using memcmp_antisym [of "take n a" "take n b"] memcmp_linear [of "take n a" "take n b"] by (auto simp: min_max_def)

lemma length_min_max [simp]: "n \<le> length a \<Longrightarrow> n \<le> length b \<Longrightarrow> length (min_max n a b) = 2 * n"
  by (simp add: min_max_def)

lemma ptk_data_sym:
  assumes "6 \<le> length addr1" "6 \<le> length addr2" "32 \<le> length nonce1" "32 \<le> length nonce2"
  shows "ptk_data addr2 addr1 nonce1 nonce2 z = ptk_data addr1 addr2 nonce1 nonce2 z"
    and "ptk_data addr1 addr2 nonce2 nonce1 z = ptk_data addr1 addr2 nonce1 nonce2 z"
  using min_max_sym [of 6 addr2 addr1] min_max_sym [of 32 nonce2 nonce1] assms by (simp_all add: ptk_data_def)

text \<open>Key lengths fit the buffers for every key management and every PMK of at most \<open>PMK_LEN_MAX\<close> bytes.\<close>

lemma cipher_key_len_max: "wpa_cipher_key_len cipher \<le> WPA_TK_MAX_LEN"
  by (simp add: wpa_cipher_key_len_def WPA_TK_MAX_LEN_def)

lemma key_lens_max:
  "n \<le> 64 \<Longrightarrow> wpa_kck_len akmp n \<le> WPA_KCK_MAX_LEN"
  "wpa_kek_len akmp n \<le> WPA_KEK_MAX_LEN"
  "wpa_mic_len akmp n = wpa_kck_len akmp n"
  by (simp_all add: wpa_kck_len_def wpa_kek_len_def wpa_mic_len_def WPA_KCK_MAX_LEN_def WPA_KEK_MAX_LEN_def) auto

lemma sha1_prf_some:
  assumes "length key < 2 ^ 32 - 64" "length label + 1 < 2 ^ 32 - 64" "length data < 2 ^ 32 - 64"
  shows "sha1_prf key label data n = Some (key_stream (sha1_prf_block key label data) 0 n)"
  using sha1_prf_loop_ref [OF assms, of n 0 "[]"] by (simp add: sha1_prf_def)

lemma length_prf_stream [simp]: "length (key_stream (sha1_prf_block key label data) i n) = n"
  by (rule length_key_stream [of _ 20]) simp_all

lemma take_fill [simp]: "take (length v) (fill buf v) = v"
  by (simp add: fill_def)

lemma length_fill [simp]: "length v \<le> length buf \<Longrightarrow> length (fill buf v) = length buf"
  by (simp add: fill_def)

lemma ptk_split_ok:
  assumes "ptk_ok p" "kck_len p \<le> WPA_KCK_MAX_LEN" "kek_len p \<le> WPA_KEK_MAX_LEN" "tk_len p \<le> WPA_TK_MAX_LEN"
    "length tmp = kck_len p + kek_len p + tk_len p"
  shows "ptk_ok (ptk_split tmp p)"
    and "take (kck_len p) (kck (ptk_split tmp p)) @ take (kek_len p) (kek (ptk_split tmp p)) @
         take (tk_len p) (tk (ptk_split tmp p)) = tmp"
proof -
  have part: "take n (fill buf (take n v)) = take n v" if "n \<le> length v" for n buf and v :: bytes
    using that take_fill [of "take n v" buf] by (simp del: take_fill)
  have "take a v @ take b (drop a v) @ take c (drop (a + b) v) = v" if "length v = a + b + c" for a b c and v :: bytes
    using that append_take_drop_id [of a v] append_take_drop_id [of b "drop a v"] by (simp add: add.commute)
  then show "take (kck_len p) (kck (ptk_split tmp p)) @ take (kek_len p) (kek (ptk_split tmp p)) @
         take (tk_len p) (tk (ptk_split tmp p)) = tmp"
    using assms(5) by (simp add: ptk_split_def part del: take_all take_all_iff)
  show "ptk_ok (ptk_split tmp p)" using assms by (simp add: ptk_ok_def ptk_split_def)
qed

text \<open>
  C8: the two ends of the handshake call \<open>wpa_pmk_to_ptk\<close> with addresses and nonces in opposite order and get
  the same PTK. It never writes past the KCK, KEK and TK buffers, for any key management and cipher and any PMK of at
  most 64 bytes; it succeeds exactly for a non-empty PMK, a cipher with a key and key management whose PRF is SHA-1,
  and then the three keys are consecutive parts of the IEEE 802.11i PRF stream over the sorted addresses and nonces.
\<close>

theorem ptk_agreement:
  assumes "ptk_ok p" "length pmk \<le> 64" "length label < 1000"
    "6 \<le> length aa" "6 \<le> length spa" "32 \<le> length anonce" "32 \<le> length snonce"
  shows "wpa_pmk_to_ptk pmk label spa aa snonce anonce p akmp cipher z = wpa_pmk_to_ptk pmk label aa spa anonce snonce p akmp cipher z \<and>
         (case wpa_pmk_to_ptk pmk label aa spa anonce snonce p akmp cipher z of
            (ok, q) \<Rightarrow>
              ptk_ok q \<and>
              (ok \<longleftrightarrow> pmk \<noteq> [] \<and> (z \<noteq> None \<longrightarrow> length (the z) \<le> 66) \<and> wpa_cipher_key_len cipher \<noteq> 0 \<and>
                 \<not> wpa_key_mgmt_sha384 akmp \<and> \<not> wpa_key_mgmt_sha256 akmp \<and> akmp \<noteq> WPA_KEY_MGMT_OWE) \<and>
              (ok \<longrightarrow> take (kck_len q) (kck q) @ take (kek_len q) (kek q) @ take (tk_len q) (tk q) =
                 key_stream (sha1_prf_block pmk label (ptk_data aa spa anonce snonce z)) 0
                   (wpa_kck_len akmp (length pmk) + wpa_kek_len akmp (length pmk) + wpa_cipher_key_len cipher)))"
proof -
  let ?kl = "wpa_kck_len akmp (length pmk)" and ?el = "wpa_kek_len akmp (length pmk)" and ?tl = "wpa_cipher_key_len cipher"
  let ?p = "p\<lparr>kck_len := ?kl, kek_len := ?el, tk_len := ?tl\<rparr>"
  let ?data = "ptk_data aa spa anonce snonce z" and ?n = "?kl + ?el + ?tl"
  let ?tmp = "key_stream (sha1_prf_block pmk label ?data) 0 ?n"
  have sym: "ptk_data spa aa snonce anonce z = ?data"
    using ptk_data_sym(1) [of aa spa snonce anonce z] ptk_data_sym(2) [of aa spa anonce snonce z] assms by metis
  have p: "ptk_ok ?p" using assms(1) by (simp add: ptk_ok_def)
  have bounds: "kck_len ?p \<le> WPA_KCK_MAX_LEN" "kek_len ?p \<le> WPA_KEK_MAX_LEN" "tk_len ?p \<le> WPA_TK_MAX_LEN"
    using key_lens_max(1) [of "length pmk" akmp] key_lens_max(2) [of akmp "length pmk"] cipher_key_len_max [of cipher] assms by simp_all
  have split: "ptk_ok (ptk_split ?tmp ?p)"
    "take ?kl (kck (ptk_split ?tmp ?p)) @ take ?el (kek (ptk_split ?tmp ?p)) @ take ?tl (tk (ptk_split ?tmp ?p)) = ?tmp"
    using ptk_split_ok [OF p bounds, of ?tmp] by simp_all
  have lens: "kck_len (ptk_split ?tmp ?p) = ?kl" "kek_len (ptk_split ?tmp ?p) = ?el" "tk_len (ptk_split ?tmp ?p) = ?tl"
    by (simp_all add: ptk_split_def)
  have prf_eq: "sha1_prf pmk label ?data ?n = Some ?tmp" if "(case z of None \<Rightarrow> 0 | Some z \<Rightarrow> length z) \<le> 66"
    using sha1_prf_some [of pmk label ?data ?n] assms that by (simp add: ptk_data_def split: option.splits)
  have zlen: "(z \<noteq> None \<longrightarrow> length (the z) \<le> 66) \<longleftrightarrow> (case z of None \<Rightarrow> 0 | Some z \<Rightarrow> length z) \<le> 66"
    by (cases z) simp_all
  let ?good = "?tl \<noteq> 0 \<and> \<not> wpa_key_mgmt_sha384 akmp \<and> \<not> wpa_key_mgmt_sha256 akmp \<and> akmp \<noteq> WPA_KEY_MGMT_OWE"
  let ?zok = "(case z of None \<Rightarrow> 0 | Some z \<Rightarrow> length z) \<le> 66"
  have run: "wpa_pmk_to_ptk pmk label aa spa anonce snonce p akmp cipher z =
      (if pmk = [] \<or> \<not> ?zok then (False, p) else if ?good then (True, ptk_split ?tmp ?p) else (False, ?p))"
    using prf_eq by (simp add: wpa_pmk_to_ptk_def Let_def)
  have "wpa_pmk_to_ptk pmk label spa aa snonce anonce p akmp cipher z = wpa_pmk_to_ptk pmk label aa spa anonce snonce p akmp cipher z"
    by (simp only: wpa_pmk_to_ptk_def sym)
  then show ?thesis
    unfolding run zlen by (cases "pmk = [] \<or> \<not> ?zok"; cases ?good) (simp_all add: assms(1) p split lens del: split_paired_All)
qed

theorem ptk_agreement_witness:
  "wpa_pmk_to_ptk (replicate 32 1) [0x50] (replicate 6 2) (replicate 6 1) (replicate 32 4) (replicate 32 3)
     \<lparr>kck = replicate 32 0, kek = replicate 64 0, tk = replicate 32 0, kck2 = [], kek2 = [], kck_len = 0, kek_len = 0, tk_len = 0,
      kck2_len = 0, kek2_len = 0, installed = False\<rparr> WPA_KEY_MGMT_PSK WPA_CIPHER_CCMP None =
   wpa_pmk_to_ptk (replicate 32 1) [0x50] (replicate 6 1) (replicate 6 2) (replicate 32 3) (replicate 32 4)
     \<lparr>kck = replicate 32 0, kek = replicate 64 0, tk = replicate 32 0, kck2 = [], kek2 = [], kck_len = 0, kek_len = 0, tk_len = 0,
      kck2_len = 0, kek2_len = 0, installed = False\<rparr> WPA_KEY_MGMT_PSK WPA_CIPHER_CCMP None"
  using ptk_agreement [of "\<lparr>kck = replicate 32 0, kek = replicate 64 0, tk = replicate 32 0, kck2 = [], kek2 = [], kck_len = 0,
      kek_len = 0, tk_len = 0, kck2_len = 0, kek2_len = 0, installed = False\<rparr>" "replicate 32 1" "[0x50]" "replicate 6 1"
      "replicate 6 2" "replicate 32 3" "replicate 32 4" WPA_KEY_MGMT_PSK WPA_CIPHER_CCMP None]
  by (simp add: ptk_ok_def WPA_KCK_MAX_LEN_def WPA_KEK_MAX_LEN_def WPA_TK_MAX_LEN_def)

end
