(* ===== verification/RsnKde.thy ===== *)
theory RsnKde
  imports WpaKeys
begin

text \<open>
  Key data of EAPOL-Key messages (\<^verbatim>\<open>rsn_supp/wpa_ie.c\<close>): elements and key data encapsulations. A pointer into the
  buffer is its offset; every read of the source is a checked read, so a result \<open>None\<close> would be a read outside the
  buffer.
\<close>

record wpa_eapol_ie_parse =
  kde_wpa_ie :: "nat option"
  kde_wpa_ie_len :: nat
  kde_rsn_ie :: "nat option"
  kde_rsn_ie_len :: nat
  kde_pmkid :: "nat option"
  kde_gtk :: "nat option"
  kde_gtk_len :: nat
  kde_mac_addr :: "nat option"
  kde_mac_addr_len :: nat
  kde_mdie :: "nat option"
  kde_mdie_len :: nat
  kde_ftie :: "nat option"
  kde_ftie_len :: nat
  kde_reassoc_deadline :: "nat option"
  kde_key_lifetime :: "nat option"
  kde_lnkid :: "nat option"
  kde_lnkid_len :: nat
  kde_ext_capab :: "nat option"
  kde_ext_capab_len :: nat
  kde_supp_rates :: "nat option"
  kde_supp_rates_len :: nat
  kde_ext_supp_rates :: "nat option"
  kde_ext_supp_rates_len :: nat
  kde_ht_capabilities :: "nat option"
  kde_vht_capabilities :: "nat option"
  kde_supp_channels :: "nat option"
  kde_supp_channels_len :: nat
  kde_supp_oper_classes :: "nat option"
  kde_supp_oper_classes_len :: nat
  kde_qosinfo :: u8
  kde_aid :: u16
  kde_wmm :: "nat option"
  kde_wmm_len :: nat

definition no_kde :: wpa_eapol_ie_parse where
  "no_kde = \<lparr>kde_wpa_ie = None, kde_wpa_ie_len = 0, kde_rsn_ie = None, kde_rsn_ie_len = 0, kde_pmkid = None, kde_gtk = None,
     kde_gtk_len = 0, kde_mac_addr = None, kde_mac_addr_len = 0, kde_mdie = None, kde_mdie_len = 0, kde_ftie = None,
     kde_ftie_len = 0, kde_reassoc_deadline = None, kde_key_lifetime = None, kde_lnkid = None, kde_lnkid_len = 0,
     kde_ext_capab = None, kde_ext_capab_len = 0, kde_supp_rates = None, kde_supp_rates_len = 0, kde_ext_supp_rates = None,
     kde_ext_supp_rates_len = 0, kde_ht_capabilities = None, kde_vht_capabilities = None, kde_supp_channels = None,
     kde_supp_channels_len = 0, kde_supp_oper_classes = None, kde_supp_oper_classes_len = 0, kde_qosinfo = 0, kde_aid = 0,
     kde_wmm = None, kde_wmm_len = 0\<rparr>"

definition rdb :: "bytes \<Rightarrow> nat \<Rightarrow> u8 option" where
  "rdb buf i = (if i < length buf then Some (buf ! i) else None)"

text \<open>\<open>RSN_SELECTOR_GET\<close>\<close>

definition sel :: "bytes \<Rightarrow> nat \<Rightarrow> u32 option" where
  "sel buf i = map_option get_be32 (rd buf i 4)"

definition sel_is :: "bytes \<Rightarrow> nat \<Rightarrow> u32 \<Rightarrow> bool option" where
  "sel_is buf i v = map_option (\<lambda>s. s = v) (sel buf i)"

definition RSN_KEY_DATA_GROUPKEY :: u32 where "RSN_KEY_DATA_GROUPKEY = rsn_suite 1"
definition RSN_KEY_DATA_MAC_ADDR :: u32 where "RSN_KEY_DATA_MAC_ADDR = rsn_suite 3"
definition RSN_KEY_DATA_PMKID :: u32 where "RSN_KEY_DATA_PMKID = rsn_suite 4"

text \<open>Lazy conjunction: the second read happens only when the first test holds.\<close>

definition andalso :: "bool option \<Rightarrow> bool option \<Rightarrow> bool option" where
  "andalso a b = (case a of None \<Rightarrow> None | Some False \<Rightarrow> Some False | Some True \<Rightarrow> b)"

definition wpa_oui_kde :: "bytes \<Rightarrow> nat \<Rightarrow> nat \<Rightarrow> bool option" where
  "wpa_oui_kde buf pos len =
     andalso (andalso (andalso (Some (6 \<le> len)) (sel_is buf (pos + 2) WPA_OUI_TYPE))
       (map_option (\<lambda>b. b = 1) (rdb buf (pos + 6)))) (map_option (\<lambda>b. b = 0) (rdb buf (pos + 7)))"

text \<open>\<open>len\<close> is the length byte \<open>pos[1]\<close>. The result is the parse data and whether the end mark was found.\<close>

definition wpa_parse_generic :: "bytes \<Rightarrow> nat \<Rightarrow> wpa_eapol_ie_parse \<Rightarrow> (bool \<times> wpa_eapol_ie_parse) option" where
  "wpa_parse_generic buf pos ie =
     do {
       len \<leftarrow> map_option unat (rdb buf (pos + 1));
       if len = 0 then Some (True, ie)
       else do {
         wpa \<leftarrow> wpa_oui_kde buf pos len;
         if wpa then Some (False, ie\<lparr>kde_wpa_ie := Some pos, kde_wpa_ie_len := len + 2\<rparr>)
         else do {
           pmkid \<leftarrow> andalso (Some (5 < length buf - pos \<and> 20 \<le> len)) (sel_is buf (pos + 2) RSN_KEY_DATA_PMKID);
           if pmkid then Some (False, ie\<lparr>kde_pmkid := Some (pos + 6)\<rparr>)
           else do {
             gtk \<leftarrow> andalso (Some (6 < len)) (sel_is buf (pos + 2) RSN_KEY_DATA_GROUPKEY);
             if gtk then Some (False, ie\<lparr>kde_gtk := Some (pos + 6), kde_gtk_len := len - 4\<rparr>)
             else do {
               mac \<leftarrow> andalso (Some (6 < len)) (sel_is buf (pos + 2) RSN_KEY_DATA_MAC_ADDR);
               Some (False, if mac then ie\<lparr>kde_mac_addr := Some (pos + 6), kde_mac_addr_len := len - 4\<rparr> else ie)
             }}}}}"

definition get_be24 :: "bytes \<Rightarrow> u32" where
  "get_be24 b = push_bit 16 (ucast (b ! 0)) OR push_bit 8 (ucast (b ! 1)) OR ucast (b ! 2)"

definition OUI_MICROSOFT :: u32 where "OUI_MICROSOFT = 0x0050f2"

definition wpa_parse_vendor_specific :: "bytes \<Rightarrow> nat \<Rightarrow> wpa_eapol_ie_parse \<Rightarrow> (bool \<times> wpa_eapol_ie_parse) option" where
  "wpa_parse_vendor_specific buf pos ie =
     do {
       len \<leftarrow> map_option unat (rdb buf (pos + 1));
       if len < 4 then Some (True, ie)
       else do {
         oui \<leftarrow> map_option get_be24 (rd buf (pos + 2) 3);
         wmm \<leftarrow> andalso (andalso (Some (oui = OUI_MICROSOFT)) (map_option (\<lambda>t. t = 2) (rdb buf (pos + 5)))) (Some (4 < len));
         if wmm then do {
           subtype \<leftarrow> rdb buf (pos + 6);
           Some (False, if subtype = 0 \<or> subtype = 1 then ie\<lparr>kde_wmm := Some (pos + 2), kde_wmm_len := len\<rparr> else ie)
         }
         else Some (False, ie)
       }}"

text \<open>One element other than vendor specific ones; the sizes are those of \<open>rsn_mdie\<close>, \<open>rsn_ftie\<close> and the HT and VHT capabilities.\<close>

definition kde_timeout :: "bytes \<Rightarrow> nat \<Rightarrow> wpa_eapol_ie_parse \<Rightarrow> wpa_eapol_ie_parse option" where
  "kde_timeout buf pos ie =
     map_option (\<lambda>t. if t = 1 then ie\<lparr>kde_reassoc_deadline := Some pos\<rparr>
                     else if t = 2 then ie\<lparr>kde_key_lifetime := Some pos\<rparr> else ie) (rdb buf (pos + 2))"

definition kde_element :: "bytes \<Rightarrow> nat \<Rightarrow> u8 \<Rightarrow> nat \<Rightarrow> wpa_eapol_ie_parse \<Rightarrow> wpa_eapol_ie_parse option" where
  "kde_element buf pos eid len ie =
     (if eid = WLAN_EID_RSN then Some (ie\<lparr>kde_rsn_ie := Some pos, kde_rsn_ie_len := len + 2\<rparr>)
      else if eid = 54 \<and> 3 \<le> len then Some (ie\<lparr>kde_mdie := Some pos, kde_mdie_len := len + 2\<rparr>)
      else if eid = 55 \<and> 82 \<le> len then Some (ie\<lparr>kde_ftie := Some pos, kde_ftie_len := len + 2\<rparr>)
      else if eid = 56 \<and> 5 \<le> len then kde_timeout buf pos ie
      else if eid = 101 then Some (if 18 \<le> len then ie\<lparr>kde_lnkid := Some pos, kde_lnkid_len := len + 2\<rparr> else ie)
      else if eid = 127 then Some (ie\<lparr>kde_ext_capab := Some pos, kde_ext_capab_len := len + 2\<rparr>)
      else if eid = 1 then Some (ie\<lparr>kde_supp_rates := Some pos, kde_supp_rates_len := len + 2\<rparr>)
      else if eid = 50 then Some (ie\<lparr>kde_ext_supp_rates := Some pos, kde_ext_supp_rates_len := len + 2\<rparr>)
      else if eid = 45 \<and> 26 \<le> len then Some (ie\<lparr>kde_ht_capabilities := Some (pos + 2)\<rparr>)
      else if eid = 197 then
        if 2 \<le> len then map_option (\<lambda>b. ie\<lparr>kde_aid := get_le16 b AND 0x3fff\<rparr>) (rd buf (pos + 2) 2) else Some ie
      else if eid = 191 \<and> 12 \<le> len then Some (ie\<lparr>kde_vht_capabilities := Some (pos + 2)\<rparr>)
      else if eid = 46 \<and> 1 \<le> len then map_option (\<lambda>b. ie\<lparr>kde_qosinfo := b\<rparr>) (rdb buf (pos + 2))
      else if eid = 36 then Some (ie\<lparr>kde_supp_channels := Some (pos + 2), kde_supp_channels_len := len\<rparr>)
      else if eid = 59 then
        Some (if 2 \<le> len \<and> len \<le> 253 then ie\<lparr>kde_supp_oper_classes := Some (pos + 2), kde_supp_oper_classes_len := len\<rparr> else ie)
      else Some ie)"

definition kde_vendor :: "bytes \<Rightarrow> nat \<Rightarrow> wpa_eapol_ie_parse \<Rightarrow> (bool \<times> wpa_eapol_ie_parse) option" where
  "kde_vendor buf pos ie =
     do {
       (stop, ie) \<leftarrow> wpa_parse_generic buf pos ie;
       if stop then Some (True, ie) else wpa_parse_vendor_specific buf pos ie
     }"

text \<open>The result is \<open>ret = 0\<close> and the parse data.\<close>

function kde_loop :: "bytes \<Rightarrow> nat \<Rightarrow> wpa_eapol_ie_parse \<Rightarrow> (bool \<times> wpa_eapol_ie_parse) option" where
  "kde_loop buf pos ie =
     (if length buf - pos \<le> 1 then Some (True, ie)
      else do {
        eid \<leftarrow> rdb buf pos;
        len \<leftarrow> map_option unat (rdb buf (pos + 1));
        if eid = 0xdd \<and> (pos + 1 = length buf \<or> len = 0) then Some (True, ie)
        else if length buf - pos < 2 + len then Some (False, ie)
        else if eid = WLAN_EID_VENDOR_SPECIFIC then do {
          (stop, ie) \<leftarrow> kde_vendor buf pos ie;
          if stop then Some (True, ie) else kde_loop buf (pos + (2 + len)) ie
        }
        else do {
          ie \<leftarrow> kde_element buf pos eid len ie;
          kde_loop buf (pos + (2 + len)) ie
        }})"
  by pat_completeness auto
termination by (relation "measure (\<lambda>(buf, pos, ie). length buf - pos)") (auto simp: rdb_def split: if_splits)

declare kde_loop.simps [simp del]

definition wpa_supplicant_parse_ies :: "bytes \<Rightarrow> (bool \<times> wpa_eapol_ie_parse) option" where
  "wpa_supplicant_parse_ies buf = kde_loop buf 0 no_kde"

section \<open>Every recorded range is inside the buffer\<close>

definition in_buf :: "bytes \<Rightarrow> nat option \<Rightarrow> nat \<Rightarrow> bool" where
  "in_buf buf p n \<longleftrightarrow> (case p of None \<Rightarrow> True | Some i \<Rightarrow> i + n \<le> length buf)"

lemma in_buf_None [simp]: "in_buf buf None n"
  by (simp add: in_buf_def)

lemma in_buf_Some [simp]: "in_buf buf (Some i) n \<longleftrightarrow> i + n \<le> length buf"
  by (simp add: in_buf_def)

text \<open>The keys and elements the handshake uses, and the elements only other protocols use.\<close>

definition kde_keys_in :: "bytes \<Rightarrow> wpa_eapol_ie_parse \<Rightarrow> bool" where
  "kde_keys_in buf ie \<longleftrightarrow>
     in_buf buf (kde_wpa_ie ie) (kde_wpa_ie_len ie) \<and> in_buf buf (kde_rsn_ie ie) (kde_rsn_ie_len ie) \<and>
     in_buf buf (kde_pmkid ie) 16 \<and> in_buf buf (kde_gtk ie) (kde_gtk_len ie) \<and> in_buf buf (kde_mac_addr ie) (kde_mac_addr_len ie) \<and>
     in_buf buf (kde_mdie ie) (kde_mdie_len ie) \<and> in_buf buf (kde_ftie ie) (kde_ftie_len ie) \<and>
     (kde_gtk ie \<noteq> None \<longrightarrow> 2 < kde_gtk_len ie)"

definition kde_caps_in :: "bytes \<Rightarrow> wpa_eapol_ie_parse \<Rightarrow> bool" where
  "kde_caps_in buf ie \<longleftrightarrow>
     in_buf buf (kde_reassoc_deadline ie) 7 \<and> in_buf buf (kde_key_lifetime ie) 7 \<and> in_buf buf (kde_lnkid ie) (kde_lnkid_len ie) \<and>
     in_buf buf (kde_ext_capab ie) (kde_ext_capab_len ie) \<and> in_buf buf (kde_supp_rates ie) (kde_supp_rates_len ie) \<and>
     in_buf buf (kde_ext_supp_rates ie) (kde_ext_supp_rates_len ie) \<and> in_buf buf (kde_ht_capabilities ie) 26 \<and>
     in_buf buf (kde_vht_capabilities ie) 12 \<and> in_buf buf (kde_supp_channels ie) (kde_supp_channels_len ie) \<and>
     in_buf buf (kde_supp_oper_classes ie) (kde_supp_oper_classes_len ie) \<and> in_buf buf (kde_wmm ie) (kde_wmm_len ie)"

definition kde_in :: "bytes \<Rightarrow> wpa_eapol_ie_parse \<Rightarrow> bool" where
  "kde_in buf ie \<longleftrightarrow> kde_keys_in buf ie \<and> kde_caps_in buf ie"

lemmas kde_in_defs = kde_in_def kde_keys_in_def kde_caps_in_def

lemma kde_in_empty [simp]: "kde_in buf no_kde"
  by (simp add: kde_in_defs no_kde_def)

lemma rdb_Some [simp]: "i < length buf \<Longrightarrow> rdb buf i = Some (buf ! i)"
  by (simp add: rdb_def)

lemma sel_is_Some: "i + 4 \<le> length buf \<Longrightarrow> sel_is buf i v = Some (get_be32 (take 4 (drop i buf)) = v)"
  by (simp add: sel_is_def sel_def rd_Some)

lemma andalso_Some: "(b \<Longrightarrow> c = Some d) \<Longrightarrow> andalso (Some b) c = Some (b \<and> d)"
  by (cases b) (simp_all add: andalso_def)

text \<open>What every parsing step keeps.\<close>

definition kde_step :: "bytes \<Rightarrow> (bool \<times> wpa_eapol_ie_parse) option \<Rightarrow> bool" where
  "kde_step buf r \<longleftrightarrow> (case r of None \<Rightarrow> False | Some (_, ie) \<Rightarrow> kde_in buf ie)"

lemma kde_step_Some [simp]: "kde_step buf (Some (b, ie)) \<longleftrightarrow> kde_in buf ie"
  by (simp add: kde_step_def)

lemma generic_step:
  assumes "kde_in buf ie" "map_option unat (rdb buf (pos + 1)) = Some len" "pos + 2 + len \<le> length buf"
  shows "kde_step buf (wpa_parse_generic buf pos ie)"
proof -
  let ?is = "\<lambda>v. get_be32 (take 4 (drop (pos + 2) buf)) = v"
  have is_sel: "sel_is buf (pos + 2) v = Some (?is v)" if "4 \<le> len" for v
    using that assms by (simp add: sel_is_Some)
  have w: "wpa_oui_kde buf pos len = Some (((6 \<le> len \<and> ?is WPA_OUI_TYPE) \<and> buf ! (pos + 6) = 1) \<and> buf ! (pos + 7) = 0)"
    using assms(3) is_sel [of WPA_OUI_TYPE] by (cases "6 \<le> len") (simp_all add: wpa_oui_kde_def andalso_def split: bool.splits)
  have k: "andalso (Some (6 < len)) (sel_is buf (pos + 2) v) = Some (6 < len \<and> ?is v)" for v
    using is_sel [of v] by (intro andalso_Some) simp
  have p: "andalso (Some (5 < length buf - pos \<and> 20 \<le> len)) (sel_is buf (pos + 2) v) =
      Some ((5 < length buf - pos \<and> 20 \<le> len) \<and> ?is v)" for v
    using is_sel [of v] by (intro andalso_Some) simp
  show ?thesis
    using assms(1,3) by (simp add: wpa_parse_generic_def assms(2) w p k kde_in_defs del: One_nat_def rdb_Some add_2_eq_Suc') auto
qed

lemma vendor_step:
  assumes "kde_in buf ie" "map_option unat (rdb buf (pos + 1)) = Some len" "pos + 2 + len \<le> length buf"
  shows "kde_step buf (wpa_parse_vendor_specific buf pos ie)"
proof (cases "len < 4")
  case True
  then show ?thesis using assms(1) by (simp add: wpa_parse_vendor_specific_def assms(2) del: One_nat_def rdb_Some)
next
  case False
  have reads: "rd buf (pos + 2) 3 = Some (take 3 (drop (pos + 2) buf))" "rdb buf (pos + 5) = Some (buf ! (pos + 5))"
    using False assms(3) by (simp_all add: rd_Some)
  have six: "rdb buf (pos + 6) = Some (buf ! (pos + 6))" if "4 < len" using that assms(3) by simp
  have both: "andalso (Some a) (Some b) = Some (a \<and> b)" for a b by (rule andalso_Some) simp
  show ?thesis using False assms(1,3)
    by (auto simp: wpa_parse_vendor_specific_def assms(2) reads six both kde_in_defs
        simp del: One_nat_def rdb_Some add_2_eq_Suc')
qed

lemma element_step:
  assumes "kde_in buf ie" "pos + 2 + len \<le> length buf"
  shows "\<exists>ie'. kde_element buf pos eid len ie = Some ie' \<and> kde_in buf ie'"
  using assms by (simp add: kde_element_def kde_timeout_def rd_Some kde_in_defs)

lemma kde_vendor_step:
  assumes "kde_in buf ie" "map_option unat (rdb buf (pos + 1)) = Some len" "pos + 2 + len \<le> length buf"
  shows "kde_step buf (kde_vendor buf pos ie)"
proof -
  obtain stop ie' where "wpa_parse_generic buf pos ie = Some (stop, ie')" "kde_in buf ie'"
    using generic_step [OF assms] by (auto simp: kde_step_def split: option.splits)
  then show ?thesis using vendor_step [OF _ assms(2,3)] by (simp add: kde_vendor_def)
qed

lemma kde_loop_step: "kde_in buf ie \<Longrightarrow> kde_step buf (kde_loop buf pos ie)"
proof (induction buf pos ie rule: kde_loop.induct)
  case (1 buf pos ie)
  show ?case
  proof (cases "length buf - pos \<le> 1")
    case True
    then show ?thesis using 1(3) by (subst kde_loop.simps) simp
  next
    case False
    let ?len = "unat (buf ! (pos + 1))"
    have b: "pos < length buf" "pos + 1 < length buf" using False by simp_all
    show ?thesis
    proof (cases "buf ! pos = 0xdd \<and> (pos + 1 = length buf \<or> ?len = 0) \<or> length buf - pos < 2 + ?len")
      case True
      then show ?thesis using 1(3) b by (subst kde_loop.simps) auto
    next
      case nostop: False
      then have fits: "pos + 2 + ?len \<le> length buf" using b by linarith
      have l: "map_option unat (rdb buf (pos + 1)) = Some ?len" using b by simp
      show ?thesis
      proof (cases "buf ! pos = WLAN_EID_VENDOR_SPECIFIC")
        case True
        obtain stop ie' where v: "kde_vendor buf pos ie = Some (stop, ie')" "kde_in buf ie'"
          using kde_vendor_step [OF 1(3) l fits] by (auto simp: kde_step_def split: option.splits)
        then show ?thesis using 1(1) [of "buf ! pos" ?len "(stop, ie')" stop ie'] True b nostop False
          by (subst kde_loop.simps) auto
      next
        case other: False
        obtain ie' where e: "kde_element buf pos (buf ! pos) ?len ie = Some ie'" "kde_in buf ie'"
          using element_step [OF 1(3) fits] by auto
        then show ?thesis using 1(2) [of "buf ! pos" ?len ie'] other b nostop False
          by (subst kde_loop.simps) auto
      qed
    qed
  qed
qed

text \<open>
  C5: whatever key data arrives, \<open>wpa_supplicant_parse_ies\<close> reads only inside the buffer, and every pointer it
  records, with the length that belongs to it, lies inside the buffer: the elements and keys the handshake
  copies, sixteen bytes for a PMKID, and a GTK with its two header bytes and at least one key byte.
\<close>

theorem key_data_in_bounds:
  "\<exists>ret ie. wpa_supplicant_parse_ies buf = Some (ret, ie) \<and> kde_keys_in buf ie \<and> kde_caps_in buf ie"
proof -
  have "kde_step buf (kde_loop buf 0 no_kde)" by (rule kde_loop_step) simp
  then show ?thesis by (auto simp: wpa_supplicant_parse_ies_def kde_step_def kde_in_def split: option.splits)
qed

end
