(* ===== verification/Pmksa.thy ===== *)
theory Pmksa
  imports RsnKde
begin

text \<open>
  The state of the RSN supplicant (\<^verbatim>\<open>rsn_supp/wpa_i.h\<close>) and its cache of pairwise master keys
  (\<^verbatim>\<open>rsn_supp/pmksa_cache.c\<close>). Callbacks into the rest of \<^verbatim>\<open>wpa_supplicant\<close>, the driver and the EAPOL machine are
  recorded in \<open>sm_trace\<close>, in order; what they answer is in the environment record of a call. A pointer to a cache
  entry is the identity \<open>e_id\<close> of the entry; \<open>sm_next_id\<close> counts the entries allocated so far.
\<close>

section \<open>State\<close>

datatype wpa_states = WPA_DISCONNECTED | WPA_INTERFACE_DISABLED | WPA_INACTIVE | WPA_SCANNING | WPA_AUTHENTICATING |
  WPA_ASSOCIATING | WPA_ASSOCIATED | WPA_4WAY_HANDSHAKE | WPA_GROUP_HANDSHAKE | WPA_COMPLETED

datatype wpa_alg = WPA_ALG_NONE | WPA_ALG_TKIP | WPA_ALG_CCMP | WPA_ALG_IGTK | WPA_ALG_GCMP | WPA_ALG_GCMP_256 | WPA_ALG_CCMP_256 |
  WPA_ALG_BIP_GMAC_128 | WPA_ALG_BIP_GMAC_256 | WPA_ALG_BIP_CMAC_256

text \<open>
  \<open>Set_key\<close> carries algorithm, address (\<open>None\<close> for NULL), index, transmit flag, receive counter, key, and whether the
  driver accepted it; \<open>Draw_snonce\<close> is a successful \<^verbatim>\<open>random_get_bytes\<close>.
\<close>

datatype sm_effect =
    Set_state wpa_states
  | Deauthenticate u16
  | Set_key wpa_alg "bytes option" nat bool bytes bytes bool
  | Ether_send bytes bytes
  | Tx_eapol_key
  | Add_pmkid nat bytes bytes bytes
  | Remove_pmkid nat bytes bytes
  | Mlme_setprotection bytes bool
  | Port_valid
  | Eap_success
  | Eapol_cached
  | Request_reauth
  | Lower_layer_success
  | Cancel_auth_timeout
  | Rekey_offload bytes bytes bytes
  | Key_mgmt_set_pmk bytes
  | Preauth_deinit
  | Draw_snonce bytes

text \<open>A \<open>network_ctx\<close> is an opaque pointer; 0 is NULL.\<close>

record rsn_pmksa_cache_entry =
  e_id :: nat
  e_pmkid :: bytes
  e_pmk :: bytes
  e_expiration :: int
  e_akmp :: u32
  e_aa :: bytes
  e_fils_cache_id :: "bytes option"
  e_reauth_time :: int
  e_network_ctx :: nat
  e_opportunistic :: bool

record rsn_supp_config =
  c_network_ctx :: nat
  c_allowed_pairwise_cipher :: u32
  c_proactive_key_caching :: bool
  c_eap_workaround :: bool
  c_eap_conf_ctx :: nat
  c_ssid :: bytes
  c_wpa_ptk_rekey :: int
  c_p2p :: bool
  c_wpa_rsc_relaxation :: bool

text \<open>
  \<open>sm_pmk\<close>, \<open>sm_gtk\<close> and \<open>sm_gtk_wnm_sleep\<close> are the valid bytes of their buffers. \<open>sm_state\<close> is what \<^verbatim>\<open>wpa_sm_get_state\<close>
  answers. Timers are the second at which they fire. \<open>sm_config\<close> has the fields \<^verbatim>\<open>wpa_sm_set_config\<close> copies.
\<close>

record wpa_sm =
  sm_pmk :: bytes
  sm_ptk :: wpa_ptk
  sm_tptk :: wpa_ptk
  sm_ptk_set :: bool
  sm_tptk_set :: bool
  sm_msg_3_of_4_ok :: bool
  sm_snonce :: bytes
  sm_anonce :: bytes
  sm_renew_snonce :: bool
  sm_rx_replay_counter :: bytes
  sm_rx_replay_counter_set :: bool
  sm_request_counter :: bytes
  sm_gtk :: bytes
  sm_gtk_wnm_sleep :: bytes
  sm_eapol :: bool
  sm_pmksa :: "rsn_pmksa_cache_entry list"
  sm_pmksa_count :: int
  sm_next_id :: nat
  sm_cur_pmksa :: "nat option"
  sm_candidates :: bool
  sm_preauth_bssid :: bytes
  sm_config :: rsn_supp_config
  sm_own_addr :: bytes
  sm_bssid :: bytes
  sm_PMKLifetime :: u32
  sm_PMKReauthThreshold :: u32
  sm_SATimeout :: u32
  sm_4WayHandshakeFailures :: u32
  sm_proto :: u32
  sm_pairwise_cipher :: u32
  sm_group_cipher :: u32
  sm_key_mgmt :: u32
  sm_rsn_enabled :: bool
  sm_mfp :: u32
  sm_ocv :: u32
  sm_assoc_wpa_ie :: "bytes option"
  sm_ap_wpa_ie :: "bytes option"
  sm_ap_rsn_ie :: "bytes option"
  sm_state :: wpa_states
  sm_expire_timer :: "int option"
  sm_reauth_timer :: "int option"
  sm_rekey_timer :: "int option"
  sm_preauth_timer :: "int option"
  sm_trace :: "sm_effect list"

definition sm_emit :: "sm_effect \<Rightarrow> wpa_sm \<Rightarrow> wpa_sm" where
  "sm_emit e sm = sm\<lparr>sm_trace := sm_trace sm @ [e]\<rparr>"

definition wpa_sm_set_state :: "wpa_states \<Rightarrow> wpa_sm \<Rightarrow> wpa_sm" where
  "wpa_sm_set_state s sm = sm_emit (Set_state s) (sm\<lparr>sm_state := s\<rparr>)"

definition WLAN_REASON_UNSPECIFIED :: u16 where "WLAN_REASON_UNSPECIFIED = 1"
definition WLAN_REASON_IE_IN_4WAY_DIFFERS :: u16 where "WLAN_REASON_IE_IN_4WAY_DIFFERS = 17"

definition wpa_sm_deauthenticate :: "u16 \<Rightarrow> wpa_sm \<Rightarrow> wpa_sm" where
  "wpa_sm_deauthenticate reason sm = sm_emit (Deauthenticate reason) sm"

section \<open>Freeing entries\<close>

datatype pmksa_free_reason = PMKSA_FREE | PMKSA_REPLACE | PMKSA_EXPIRE

definition pmksa_cache_clear_current :: "wpa_sm \<Rightarrow> wpa_sm" where
  "pmksa_cache_clear_current sm = sm\<lparr>sm_cur_pmksa := None\<rparr>"

definition wpa_sm_pmksa_free_cb :: "rsn_pmksa_cache_entry \<Rightarrow> pmksa_free_reason \<Rightarrow> wpa_sm \<Rightarrow> wpa_sm" where
  "wpa_sm_pmksa_free_cb e reason sm =
     (let current = (sm_cur_pmksa sm = Some (e_id e));
          expired = (reason = PMKSA_EXPIRE \<and> sm_pmk sm = e_pmk e);
          sm' = (if current \<or> expired then pmksa_cache_clear_current sm else sm)
      in if current \<and> reason \<noteq> PMKSA_REPLACE \<or> expired
         then wpa_sm_deauthenticate WLAN_REASON_UNSPECIFIED (sm'\<lparr>sm_pmk := []\<rparr>) else sm')"

definition pmksa_cache_free_entry :: "rsn_pmksa_cache_entry \<Rightarrow> pmksa_free_reason \<Rightarrow> wpa_sm \<Rightarrow> wpa_sm" where
  "pmksa_cache_free_entry e reason sm =
     (let sm = sm_emit (Remove_pmkid (e_network_ctx e) (e_aa e) (e_pmkid e)) sm;
          sm = sm\<lparr>sm_pmksa_count := sm_pmksa_count sm - 1\<rparr>
      in wpa_sm_pmksa_free_cb e reason sm)"

section \<open>Lookup and timers\<close>

definition pmksa_cache_get :: "wpa_sm \<Rightarrow> bytes option \<Rightarrow> bytes option \<Rightarrow> nat \<Rightarrow> u32 \<Rightarrow> rsn_pmksa_cache_entry option" where
  "pmksa_cache_get sm aa pmkid0 network_ctx akmp =
     find (\<lambda>e. (aa = None \<or> aa = Some (e_aa e)) \<and> (pmkid0 = None \<or> pmkid0 = Some (e_pmkid e)) \<and>
               (akmp = 0 \<or> akmp = e_akmp e) \<and> (network_ctx = 0 \<or> network_ctx = e_network_ctx e)) (sm_pmksa sm)"

text \<open>The reauthentication timer uses the time of the head of the list, whichever entry is current.\<close>

definition pmksa_cache_set_expiration :: "int \<Rightarrow> wpa_sm \<Rightarrow> wpa_sm" where
  "pmksa_cache_set_expiration now sm =
     (let sm = sm\<lparr>sm_expire_timer := None, sm_reauth_timer := None\<rparr> in
      case sm_pmksa sm of
        [] \<Rightarrow> sm
      | head # _ \<Rightarrow>
          let sm = sm\<lparr>sm_expire_timer := Some (now + (max 0 (e_expiration head - now) + 1))\<rparr> in
          if sm_cur_pmksa sm \<noteq> None \<or> pmksa_cache_get sm (Some (sm_bssid sm)) None 0 0 \<noteq> None
          then sm\<lparr>sm_reauth_timer := Some (now + max 0 (e_reauth_time head - now))\<rparr> else sm)"

definition pmksa_cache_reauth :: "wpa_sm \<Rightarrow> wpa_sm" where
  "pmksa_cache_reauth sm = sm_emit Request_reauth (sm\<lparr>sm_reauth_timer := None, sm_cur_pmksa := None\<rparr>)"

lemma free_entry_list [simp]: "sm_pmksa (pmksa_cache_free_entry e r sm) = sm_pmksa sm"
  by (simp add: pmksa_cache_free_entry_def wpa_sm_pmksa_free_cb_def sm_emit_def pmksa_cache_clear_current_def
      wpa_sm_deauthenticate_def Let_def)

function pmksa_expire_loop :: "int \<Rightarrow> wpa_sm \<Rightarrow> wpa_sm" where
  "pmksa_expire_loop now sm =
     (case sm_pmksa sm of
        [] \<Rightarrow> sm
      | e # es \<Rightarrow>
          if e_expiration e \<le> now then pmksa_expire_loop now (pmksa_cache_free_entry e PMKSA_EXPIRE (sm\<lparr>sm_pmksa := es\<rparr>)) else sm)"
  by pat_completeness auto
termination by (relation "measure (\<lambda>(now, sm). length (sm_pmksa sm))") simp_all

declare pmksa_expire_loop.simps [simp del]

definition pmksa_cache_expire :: "int \<Rightarrow> wpa_sm \<Rightarrow> wpa_sm" where
  "pmksa_cache_expire now sm = pmksa_cache_set_expiration now (pmksa_expire_loop now (sm\<lparr>sm_expire_timer := None\<rparr>))"

section \<open>Flushing\<close>

definition flush_match :: "nat \<Rightarrow> bytes option \<Rightarrow> rsn_pmksa_cache_entry \<Rightarrow> bool" where
  "flush_match network_ctx pmk e \<longleftrightarrow> (e_network_ctx e = network_ctx \<or> network_ctx = 0) \<and> (pmk = None \<or> pmk = Some (e_pmk e))"

text \<open>\<open>kept\<close>: the entries passed so far, in reverse; the flag is \<open>removed\<close>.\<close>

fun pmksa_flush_loop :: "(rsn_pmksa_cache_entry \<Rightarrow> bool) \<Rightarrow> rsn_pmksa_cache_entry list \<Rightarrow> rsn_pmksa_cache_entry list \<Rightarrow> wpa_sm \<Rightarrow> bool \<Rightarrow>
    wpa_sm \<times> bool" where
  "pmksa_flush_loop m kept [] sm removed = (sm, removed)"
| "pmksa_flush_loop m kept (e # es) sm removed =
     (if m e then pmksa_flush_loop m kept es (pmksa_cache_free_entry e PMKSA_FREE (sm\<lparr>sm_pmksa := rev kept @ es\<rparr>)) True
      else pmksa_flush_loop m (e # kept) es sm removed)"

definition pmksa_cache_flush :: "int \<Rightarrow> nat \<Rightarrow> bytes option \<Rightarrow> wpa_sm \<Rightarrow> wpa_sm" where
  "pmksa_cache_flush now network_ctx pmk sm =
     (case pmksa_flush_loop (flush_match network_ctx pmk) [] (sm_pmksa sm) sm False of
        (sm, removed) \<Rightarrow> if removed then pmksa_cache_set_expiration now sm else sm)"

section \<open>Adding entries\<close>

definition pmksa_cache_max_entries :: int where "pmksa_cache_max_entries = 32"

text \<open>The old entry for the authenticator is unlinked, entries made from its key are flushed, then it is freed.\<close>

definition pmksa_replace :: "int \<Rightarrow> rsn_pmksa_cache_entry \<Rightarrow> rsn_pmksa_cache_entry \<Rightarrow> rsn_pmksa_cache_entry list \<Rightarrow> wpa_sm \<Rightarrow> wpa_sm" where
  "pmksa_replace now entry pos rest sm =
     (let sm = sm\<lparr>sm_pmksa := rest\<rparr>;
          sm = (if e_opportunistic pos then sm else pmksa_cache_flush now (e_network_ctx entry) (Some (e_pmk pos)) sm)
      in pmksa_cache_free_entry pos PMKSA_REPLACE sm)"

definition pmksa_make_room :: "wpa_sm \<Rightarrow> wpa_sm" where
  "pmksa_make_room sm =
     (if pmksa_cache_max_entries \<le> sm_pmksa_count sm then
        case sm_pmksa sm of
          [] \<Rightarrow> sm
        | pos # es \<Rightarrow>
            if sm_cur_pmksa sm = Some (e_id pos) then
              case es of
                [] \<Rightarrow> sm
              | next # es \<Rightarrow> pmksa_cache_free_entry next PMKSA_FREE (sm\<lparr>sm_pmksa := pos # es\<rparr>)
            else pmksa_cache_free_entry pos PMKSA_FREE (sm\<lparr>sm_pmksa := es\<rparr>)
      else sm)"

definition pmksa_insert :: "int \<Rightarrow> rsn_pmksa_cache_entry \<Rightarrow> wpa_sm \<Rightarrow> wpa_sm" where
  "pmksa_insert now entry sm =
     (let before = takeWhile (\<lambda>p. \<not> e_expiration entry < e_expiration p) (sm_pmksa sm);
          after = dropWhile (\<lambda>p. \<not> e_expiration entry < e_expiration p) (sm_pmksa sm);
          sm = sm\<lparr>sm_pmksa := before @ entry # after\<rparr>;
          sm = (if before = [] then pmksa_cache_set_expiration now sm else sm);
          sm = sm\<lparr>sm_pmksa_count := sm_pmksa_count sm + 1\<rparr>
      in sm_emit (Add_pmkid (e_network_ctx entry) (e_aa entry) (e_pmkid entry) (e_pmk entry)) sm)"

definition pmksa_cache_add_entry :: "int \<Rightarrow> rsn_pmksa_cache_entry \<Rightarrow> wpa_sm \<Rightarrow> nat \<times> wpa_sm" where
  "pmksa_cache_add_entry now entry sm =
     (let same = (\<lambda>p. e_aa p = e_aa entry);
          before = takeWhile (\<lambda>p. \<not> same p) (sm_pmksa sm)
      in case dropWhile (\<lambda>p. \<not> same p) (sm_pmksa sm) of
           [] \<Rightarrow> (e_id entry, pmksa_insert now entry (pmksa_make_room sm))
         | pos # after \<Rightarrow>
             if e_pmk pos = e_pmk entry \<and> e_pmkid pos = e_pmkid entry then (e_id pos, sm)
             else (e_id entry, pmksa_insert now entry (pmksa_make_room (pmksa_replace now entry pos (before @ after) sm))))"

text \<open>
  \<open>os_time_t\<close> has 32 bits: both times are computed in unsigned words. Without Suite B in the build its PMKID functions leave the
  PMKID zero. The HMAC behind \<open>rsn_pmkid\<close> does not fail.
\<close>

definition os_time :: "u32 \<Rightarrow> int" where "os_time w = sint w"

definition pmksa_new_entry ::
    "int \<Rightarrow> bytes \<Rightarrow> bytes option \<Rightarrow> bytes \<Rightarrow> bytes \<Rightarrow> nat \<Rightarrow> u32 \<Rightarrow> bytes option \<Rightarrow> wpa_sm \<Rightarrow> rsn_pmksa_cache_entry" where
  "pmksa_new_entry now pmk pmkid0 aa spa network_ctx akmp cache_id sm =
     \<lparr>e_id = sm_next_id sm,
      e_pmkid = (case pmkid0 of
                   Some p \<Rightarrow> p
                 | None \<Rightarrow> if wpa_key_mgmt_suite_b akmp then replicate 16 0
                           else (case rsn_pmkid pmk aa spa of None \<Rightarrow> replicate 16 0 | Some p \<Rightarrow> p)),
      e_pmk = pmk,
      e_expiration = os_time (word_of_int now + sm_PMKLifetime sm),
      e_akmp = akmp,
      e_aa = take 6 aa,
      e_fils_cache_id = cache_id,
      e_reauth_time = os_time (word_of_int now + sm_PMKLifetime sm * sm_PMKReauthThreshold sm div 100),
      e_network_ctx = network_ctx,
      e_opportunistic = False\<rparr>"

definition pmksa_cache_add ::
    "int \<Rightarrow> bool \<Rightarrow> bytes \<Rightarrow> bytes option \<Rightarrow> bytes option \<Rightarrow> bytes \<Rightarrow> bytes \<Rightarrow> nat \<Rightarrow> u32 \<Rightarrow> bytes option \<Rightarrow> wpa_sm \<Rightarrow> nat option \<times> wpa_sm" where
  "pmksa_cache_add now mem pmk pmkid0 kck0 aa spa network_ctx akmp cache_id sm =
     (if 64 < length pmk then (None, sm)
      else if wpa_key_mgmt_suite_b akmp \<and> kck0 = None then (None, sm)
      else if \<not> mem then (None, sm)
      else map_prod Some (\<lambda>sm. sm)
        (pmksa_cache_add_entry now (pmksa_new_entry now pmk pmkid0 aa spa network_ctx akmp cache_id sm)
           (sm\<lparr>sm_next_id := sm_next_id sm + 1\<rparr>)))"

section \<open>Opportunistic entries and the current entry\<close>

definition update_entry :: "nat \<Rightarrow> (rsn_pmksa_cache_entry \<Rightarrow> rsn_pmksa_cache_entry) \<Rightarrow> wpa_sm \<Rightarrow> wpa_sm" where
  "update_entry i f sm = sm\<lparr>sm_pmksa := map (\<lambda>e. if e_id e = i then f e else e) (sm_pmksa sm)\<rparr>"

text \<open>The expiration of the new entry is overwritten where it was inserted.\<close>

definition pmksa_cache_clone_entry :: "int \<Rightarrow> bool \<Rightarrow> rsn_pmksa_cache_entry \<Rightarrow> bytes \<Rightarrow> wpa_sm \<Rightarrow> nat option \<times> wpa_sm" where
  "pmksa_cache_clone_entry now mem old aa sm =
     (case pmksa_cache_add now mem (e_pmk old) None None aa (sm_own_addr sm) (e_network_ctx old) (e_akmp old)
             (e_fils_cache_id old) sm of
        (None, sm) \<Rightarrow> (None, sm)
      | (Some i, sm) \<Rightarrow> (Some i, update_entry i (\<lambda>e. e\<lparr>e_expiration := e_expiration old, e_opportunistic := True\<rparr>) sm))"

definition pmksa_cache_get_opportunistic :: "int \<Rightarrow> bool \<Rightarrow> nat \<Rightarrow> bytes \<Rightarrow> u32 \<Rightarrow> wpa_sm \<Rightarrow> nat option \<times> wpa_sm" where
  "pmksa_cache_get_opportunistic now mem network_ctx aa akmp sm =
     (if network_ctx = 0 then (None, sm)
      else case find (\<lambda>e. e_network_ctx e = network_ctx \<and> (akmp = 0 \<or> e_akmp e = akmp)) (sm_pmksa sm) of
        None \<Rightarrow> (None, sm)
      | Some e \<Rightarrow> pmksa_cache_clone_entry now mem e aa sm)"

definition pmksa_cache_get_fils_cache_id :: "wpa_sm \<Rightarrow> nat \<Rightarrow> bytes \<Rightarrow> rsn_pmksa_cache_entry option" where
  "pmksa_cache_get_fils_cache_id sm network_ctx cache_id =
     find (\<lambda>e. network_ctx = e_network_ctx e \<and> e_fils_cache_id e = Some cache_id) (sm_pmksa sm)"

definition pmksa_cache_set_current ::
    "int \<Rightarrow> bool \<Rightarrow> bytes option \<Rightarrow> bytes option \<Rightarrow> nat \<Rightarrow> bool \<Rightarrow> bytes option \<Rightarrow> u32 \<Rightarrow> wpa_sm \<Rightarrow> bool \<times> wpa_sm" where
  "pmksa_cache_set_current now mem pmkid0 bssid network_ctx try_opportunistic fils_cache_id akmp sm =
     (let sm = sm\<lparr>sm_cur_pmksa := None\<rparr>;
          sm = (if pmkid0 \<noteq> None then sm\<lparr>sm_cur_pmksa := map_option e_id (pmksa_cache_get sm None pmkid0 network_ctx akmp)\<rparr> else sm);
          sm = (if sm_cur_pmksa sm = None \<and> bssid \<noteq> None
                then sm\<lparr>sm_cur_pmksa := map_option e_id (pmksa_cache_get sm bssid None network_ctx akmp)\<rparr> else sm);
          sm = (if sm_cur_pmksa sm = None \<and> try_opportunistic \<and> bssid \<noteq> None
                then (case pmksa_cache_get_opportunistic now mem network_ctx (the bssid) akmp sm of (i, sm) \<Rightarrow> sm\<lparr>sm_cur_pmksa := i\<rparr>)
                else sm);
          sm = (if sm_cur_pmksa sm = None \<and> fils_cache_id \<noteq> None
                then sm\<lparr>sm_cur_pmksa := map_option e_id (pmksa_cache_get_fils_cache_id sm network_ctx (the fils_cache_id))\<rparr> else sm)
      in (sm_cur_pmksa sm \<noteq> None, sm))"

definition pmksa_cache_deinit :: "wpa_sm \<Rightarrow> wpa_sm" where
  "pmksa_cache_deinit sm = sm\<lparr>sm_pmksa := [], sm_expire_timer := None, sm_reauth_timer := None\<rparr>"

end
