(* ===== verification/PmksaProofs.thy ===== *)
theory PmksaProofs
  imports Pmksa
begin

text \<open>
  Invariant of the PMKSA cache: the counter is the number of entries, at most 32 of them, one per authenticator, and the current
  entry is one of them, so it never dangles. Entries that are unlinked but not yet freed are tracked as \<open>detached\<close>.
\<close>

section \<open>The invariant with detached entries\<close>

definition cache_ok :: "rsn_pmksa_cache_entry list \<Rightarrow> wpa_sm \<Rightarrow> bool" where
  "cache_ok detached sm \<longleftrightarrow>
     (let all = sm_pmksa sm @ detached in
      sm_pmksa_count sm = int (length all) \<and> length all \<le> 32 \<and> distinct (map e_id all) \<and> distinct (map e_aa all) \<and>
      (\<forall>e\<in>set all. e_id e < sm_next_id sm) \<and> (\<forall>i. sm_cur_pmksa sm = Some i \<longrightarrow> i \<in> e_id ` set all))"

definition pmksa_inv :: "wpa_sm \<Rightarrow> bool" where
  "pmksa_inv sm \<longleftrightarrow> cache_ok [] sm"

lemma free_entry_fields [simp]:
  "sm_next_id (pmksa_cache_free_entry e r sm) = sm_next_id sm"
  "sm_pmksa_count (pmksa_cache_free_entry e r sm) = sm_pmksa_count sm - 1"
  "sm_cur_pmksa (pmksa_cache_free_entry e r sm) =
     (if sm_cur_pmksa sm = Some (e_id e) \<or> r = PMKSA_EXPIRE \<and> sm_pmk sm = e_pmk e then None else sm_cur_pmksa sm)"
  by (simp_all add: pmksa_cache_free_entry_def wpa_sm_pmksa_free_cb_def sm_emit_def pmksa_cache_clear_current_def
      wpa_sm_deauthenticate_def Let_def)

lemma set_expiration_fields [simp]:
  "sm_pmksa (pmksa_cache_set_expiration now sm) = sm_pmksa sm"
  "sm_next_id (pmksa_cache_set_expiration now sm) = sm_next_id sm"
  "sm_pmksa_count (pmksa_cache_set_expiration now sm) = sm_pmksa_count sm"
  "sm_cur_pmksa (pmksa_cache_set_expiration now sm) = sm_cur_pmksa sm"
  by (simp_all add: pmksa_cache_set_expiration_def Let_def split: list.splits)

lemma cache_ok_cong:
  "sm_pmksa sm' = sm_pmksa sm \<Longrightarrow> sm_next_id sm' = sm_next_id sm \<Longrightarrow> sm_pmksa_count sm' = sm_pmksa_count sm \<Longrightarrow>
   sm_cur_pmksa sm' = sm_cur_pmksa sm \<Longrightarrow> cache_ok d sm' = cache_ok d sm"
  by (simp add: cache_ok_def)

lemma cache_ok_expiration [simp]: "cache_ok d (pmksa_cache_set_expiration now sm) = cache_ok d sm"
  by (rule cache_ok_cong) simp_all

lemma cache_ok_emit [simp]: "cache_ok d (sm_emit e sm) = cache_ok d sm"
  by (rule cache_ok_cong) (simp_all add: sm_emit_def)

lemma cache_ok_unlink: "cache_ok d sm \<Longrightarrow> sm_pmksa sm = a @ e # b \<Longrightarrow> cache_ok (e # d) (sm\<lparr>sm_pmksa := a @ b\<rparr>)"
  by (auto simp: cache_ok_def Let_def)

lemma cache_ok_free: "cache_ok (e # d) sm \<Longrightarrow> cache_ok d (pmksa_cache_free_entry e r sm)"
  by (auto simp: cache_ok_def Let_def)

lemma cache_ok_remove:
  "cache_ok d sm \<Longrightarrow> sm_pmksa sm = a @ e # b \<Longrightarrow> cache_ok d (pmksa_cache_free_entry e r (sm\<lparr>sm_pmksa := a @ b\<rparr>))"
  by (intro cache_ok_free cache_ok_unlink)

lemma cache_ok_clear [simp]: "cache_ok d sm \<Longrightarrow> cache_ok d (sm\<lparr>sm_cur_pmksa := None\<rparr>)"
  by (simp add: cache_ok_def Let_def)

section \<open>Expiry and flushing\<close>

lemma expire_loop_ok: "cache_ok d sm \<Longrightarrow> cache_ok d (pmksa_expire_loop now sm)"
proof (induction now sm rule: pmksa_expire_loop.induct)
  case (1 now sm)
  show ?case
  proof (cases "sm_pmksa sm")
    case Nil
    then show ?thesis using 1(2) by (subst pmksa_expire_loop.simps) simp
  next
    case (Cons e es)
    then show ?thesis using 1(1) [OF Cons] 1(2) cache_ok_remove [OF 1(2), of "[]" e es PMKSA_EXPIRE]
      by (subst pmksa_expire_loop.simps) simp
  qed
qed

lemma expire_loop_list: "sm_pmksa (pmksa_expire_loop now sm) = dropWhile (\<lambda>e. e_expiration e \<le> now) (sm_pmksa sm)"
proof (induction now sm rule: pmksa_expire_loop.induct)
  case (1 now sm)
  then show ?case by (subst pmksa_expire_loop.simps) (auto split: list.splits)
qed

lemma flush_loop_list:
  "sm_pmksa sm = rev kept @ es \<Longrightarrow>
   sm_pmksa (fst (pmksa_flush_loop m kept es sm r)) = rev kept @ filter (\<lambda>e. \<not> m e) es"
  by (induction m kept es sm r rule: pmksa_flush_loop.induct) simp_all

lemma flush_loop_ok:
  "cache_ok d sm \<Longrightarrow> sm_pmksa sm = rev kept @ es \<Longrightarrow> cache_ok d (fst (pmksa_flush_loop m kept es sm r))"
proof (induction m kept es sm r rule: pmksa_flush_loop.induct)
  case (2 m kept e es sm removed)
  then show ?case using cache_ok_remove [OF 2(3), of "rev kept" e es PMKSA_FREE] by auto
qed simp

lemma flush_ok: "cache_ok d sm \<Longrightarrow> cache_ok d (pmksa_cache_flush now ctx pmk sm)"
  using flush_loop_ok [of d sm "[]" "sm_pmksa sm" "flush_match ctx pmk" False]
  by (auto simp: pmksa_cache_flush_def split: prod.splits)

lemma flush_list: "sm_pmksa (pmksa_cache_flush now ctx pmk sm) = filter (\<lambda>e. \<not> flush_match ctx pmk e) (sm_pmksa sm)"
  using flush_loop_list [of sm "[]" "sm_pmksa sm" "flush_match ctx pmk" False]
  by (auto simp: pmksa_cache_flush_def split: prod.splits)

lemma flush_next [simp]: "sm_next_id (pmksa_cache_flush now ctx pmk sm) = sm_next_id sm"
proof -
  have "sm_next_id (fst (pmksa_flush_loop m kept es sm r)) = sm_next_id sm" for m kept es sm r
    by (induction m kept es sm r rule: pmksa_flush_loop.induct) simp_all
  from this [of "flush_match ctx pmk" "[]" "sm_pmksa sm" sm False] show ?thesis
    by (auto simp: pmksa_cache_flush_def split: prod.splits)
qed

section \<open>Adding\<close>

lemma replace_ok:
  assumes "cache_ok [] sm" "sm_pmksa sm = a @ pos # b"
  shows "cache_ok [] (pmksa_replace now entry pos (a @ b) sm)"
  using cache_ok_unlink [OF assms] by (auto simp: pmksa_replace_def Let_def intro!: cache_ok_free flush_ok)

lemma replace_fields:
  "sm_next_id (pmksa_replace now entry pos rest sm) = sm_next_id sm"
  "set (sm_pmksa (pmksa_replace now entry pos rest sm)) \<subseteq> set rest"
  by (auto simp: pmksa_replace_def Let_def flush_list)

lemma make_room_ok: "cache_ok [] sm \<Longrightarrow> cache_ok [] (pmksa_make_room sm)"
  using cache_ok_remove [of "[]" sm "[]"] cache_ok_remove [of "[]" sm "[hd (sm_pmksa sm)]"]
  by (auto simp: pmksa_make_room_def split: list.splits)

lemma make_room_fields:
  "sm_next_id (pmksa_make_room sm) = sm_next_id sm"
  "set (sm_pmksa (pmksa_make_room sm)) \<subseteq> set (sm_pmksa sm)"
  by (auto simp: pmksa_make_room_def split: list.splits)

lemma make_room_less: "cache_ok [] sm \<Longrightarrow> length (sm_pmksa (pmksa_make_room sm)) < 32"
  by (auto simp: pmksa_make_room_def cache_ok_def pmksa_cache_max_entries_def split: list.splits)

text \<open>Room is made by dropping the first entry that is not the current one; the current entry stays.\<close>

lemma make_room_current: "cache_ok [] sm \<Longrightarrow> sm_cur_pmksa (pmksa_make_room sm) = sm_cur_pmksa sm"
  by (auto simp: pmksa_make_room_def cache_ok_def split: list.splits)

lemma insert_ok:
  assumes "cache_ok [] sm" "length (sm_pmksa sm) < 32" "e_id entry < sm_next_id sm"
    "e_id entry \<notin> e_id ` set (sm_pmksa sm)" "e_aa entry \<notin> e_aa ` set (sm_pmksa sm)"
  shows "cache_ok [] (pmksa_insert now entry sm)"
proof -
  let ?P = "\<lambda>p. \<not> e_expiration entry < e_expiration p"
  obtain a b where split: "takeWhile ?P (sm_pmksa sm) = a" "dropWhile ?P (sm_pmksa sm) = b" "sm_pmksa sm = a @ b"
    using takeWhile_dropWhile_id [of ?P "sm_pmksa sm"] by metis
  have "cache_ok [] (sm\<lparr>sm_pmksa := a @ entry # b, sm_pmksa_count := sm_pmksa_count sm + 1\<rparr>)"
    using assms by (auto simp: cache_ok_def Let_def split(3))
  then show ?thesis
    by (rule cache_ok_cong [THEN iffD1, rotated 4]) (simp_all add: pmksa_insert_def Let_def split(1,2) sm_emit_def)
qed

lemma insert_set: "set (sm_pmksa (pmksa_insert now entry sm)) = insert entry (set (sm_pmksa sm))"
proof -
  let ?P = "\<lambda>p. \<not> e_expiration entry < e_expiration p"
  have "set (takeWhile ?P (sm_pmksa sm)) \<union> set (dropWhile ?P (sm_pmksa sm)) = set (sm_pmksa sm)"
    using takeWhile_dropWhile_id [of ?P "sm_pmksa sm"] by (metis set_append)
  then show ?thesis by (auto simp: pmksa_insert_def Let_def sm_emit_def)
qed

lemma add_entry_ok:
  assumes "pmksa_inv sm" "e_id entry < sm_next_id sm" "e_id entry \<notin> e_id ` set (sm_pmksa sm)"
  shows "pmksa_inv (snd (pmksa_cache_add_entry now entry sm)) \<and>
         fst (pmksa_cache_add_entry now entry sm) \<in> e_id ` set (sm_pmksa (snd (pmksa_cache_add_entry now entry sm)))"
proof -
  let ?S = "\<lambda>p. e_aa p \<noteq> e_aa entry"
  have ins: "cache_ok [] (pmksa_insert now entry (pmksa_make_room s)) \<and>
      e_id entry \<in> e_id ` set (sm_pmksa (pmksa_insert now entry (pmksa_make_room s)))"
    if s: "cache_ok [] s" "sm_next_id s = sm_next_id sm" "set (sm_pmksa s) \<subseteq> set (sm_pmksa sm)" "e_aa entry \<notin> e_aa ` set (sm_pmksa s)" for s
    using insert_ok [OF make_room_ok [OF s(1)] make_room_less [OF s(1)], of entry now] make_room_fields [of s] s assms
    by (auto simp: insert_set)
  have ok: "cache_ok [] sm" using assms(1) by (simp add: pmksa_inv_def)
  show ?thesis
  proof (cases "dropWhile ?S (sm_pmksa sm)")
    case Nil
    then have "e_aa entry \<notin> e_aa ` set (sm_pmksa sm)" by (auto simp: dropWhile_eq_Nil_conv)
    then show ?thesis using ins [OF ok] by (simp add: pmksa_cache_add_entry_def pmksa_inv_def Let_def Nil del: dropWhile_eq_Nil_conv)
  next
    case (Cons pos after)
    define a where "a = takeWhile ?S (sm_pmksa sm)"
    have l: "sm_pmksa sm = a @ pos # after" using takeWhile_dropWhile_id [of ?S "sm_pmksa sm"] Cons by (simp add: a_def)
    have pos: "e_aa pos = e_aa entry" using hd_dropWhile [of ?S "sm_pmksa sm"] Cons by simp
    have "distinct (map e_aa (a @ pos # after))" using ok l by (simp add: cache_ok_def Let_def)
    then have fresh: "e_aa entry \<notin> e_aa ` set (a @ after)" using pos by auto
    let ?r = "pmksa_replace now entry pos (a @ after) sm"
    have r: "cache_ok [] ?r" by (rule replace_ok [OF ok l])
    have "set (sm_pmksa ?r) \<subseteq> set (a @ after)" by (rule replace_fields)
    then have "set (sm_pmksa ?r) \<subseteq> set (sm_pmksa sm)" "e_aa entry \<notin> e_aa ` set (sm_pmksa ?r)"
      using fresh by (auto simp: l)
    then have i: "cache_ok [] (pmksa_insert now entry (pmksa_make_room ?r)) \<and>
        e_id entry \<in> e_id ` set (sm_pmksa (pmksa_insert now entry (pmksa_make_room ?r)))"
      using ins [OF r replace_fields(1)] by blast
    have "pos \<in> set (sm_pmksa sm)" by (simp add: l)
    then show ?thesis using i ok by (simp add: pmksa_cache_add_entry_def pmksa_inv_def Let_def Cons flip: a_def)
  qed
qed

lemma add_ok:
  assumes "pmksa_inv sm" "pmksa_cache_add now mem pmk pmkid0 kck0 aa spa ctx akmp cache_id sm = (i, sm')"
  shows "pmksa_inv sm' \<and> (\<forall>n. i = Some n \<longrightarrow> n \<in> e_id ` set (sm_pmksa sm'))"
proof (cases "64 < length pmk \<or> (wpa_key_mgmt_suite_b akmp \<and> kck0 = None) \<or> \<not> mem")
  case True
  then show ?thesis using assms by (auto simp: pmksa_cache_add_def split: if_splits)
next
  case False
  let ?s = "sm\<lparr>sm_next_id := sm_next_id sm + 1\<rparr>"
  have s: "pmksa_inv ?s" "\<And>e. e_id e = sm_next_id sm \<Longrightarrow> e_id e < sm_next_id ?s \<and> e_id e \<notin> e_id ` set (sm_pmksa ?s)"
    using assms(1) by (auto simp: pmksa_inv_def cache_ok_def Let_def)
  let ?e = "pmksa_new_entry now pmk pmkid0 aa spa ctx akmp cache_id sm"
  have "e_id ?e = sm_next_id sm" by (simp add: pmksa_new_entry_def)
  moreover have "map_prod Some (\<lambda>sm. sm) (pmksa_cache_add_entry now ?e ?s) = (i, sm')"
    using assms(2) False by (auto simp: pmksa_cache_add_def)
  ultimately show ?thesis using add_entry_ok [OF s(1), of ?e now] s(2) [of ?e]
    by (cases "pmksa_cache_add_entry now ?e ?s") auto
qed

lemma update_entry_ids:
  assumes "\<And>e. e_id (f e) = e_id e"
  shows "e_id ` set (sm_pmksa (update_entry i f sm)) = e_id ` set (sm_pmksa sm)"
proof -
  have "map e_id (sm_pmksa (update_entry i f sm)) = map e_id (sm_pmksa sm)" using assms by (simp add: update_entry_def)
  then show ?thesis by (metis set_map)
qed

lemma update_entry_ok:
  assumes "cache_ok d sm" "\<And>e. e_id (f e) = e_id e \<and> e_aa (f e) = e_aa e"
  shows "cache_ok d (update_entry i f sm)"
proof -
  let ?g = "\<lambda>e. if e_id e = i then f e else e"
  have ids: "map e_id (map ?g l) = map e_id l" and aas: "map e_aa (map ?g l) = map e_aa l" for l
    using assms(2) by (induction l) auto
  have img: "e_id ` set (map ?g l) = e_id ` set l" for l using ids [of l] by (metis set_map)
  have ball_ids: "(\<forall>e\<in>A. e_id e < n) \<longleftrightarrow> (\<forall>j\<in>e_id ` A. j < n)" for A :: "rsn_pmksa_cache_entry set" and n by simp
  have bound: "(\<forall>e\<in>set (map ?g l) \<union> set d. e_id e < n) \<longleftrightarrow> (\<forall>e\<in>set l \<union> set d. e_id e < n)" for l n
    by (simp only: ball_ids image_Un img)
  show ?thesis using assms(1) unfolding cache_ok_def update_entry_def Let_def
    by (simp add: ids aas img bound image_Un del: map_map set_map image_image)
qed

lemma clone_ok:
  assumes "pmksa_inv sm" "pmksa_cache_clone_entry now mem old aa sm = (i, sm')"
  shows "pmksa_inv sm' \<and> (\<forall>n. i = Some n \<longrightarrow> n \<in> e_id ` set (sm_pmksa sm'))"
proof (cases "pmksa_cache_add now mem (e_pmk old) None None aa (sm_own_addr sm) (e_network_ctx old) (e_akmp old) (e_fils_cache_id old) sm")
  case (Pair j s)
  show ?thesis
  proof (cases j)
    case None
    then show ?thesis using add_ok [OF assms(1) Pair] assms(2) Pair by (simp add: pmksa_cache_clone_entry_def)
  next
    case (Some k)
    let ?f = "\<lambda>e. e\<lparr>e_expiration := e_expiration old, e_opportunistic := True\<rparr>"
    have s: "pmksa_inv s" "k \<in> e_id ` set (sm_pmksa s)" using add_ok [OF assms(1) Pair] Some by auto
    have eq: "i = Some k" "sm' = update_entry k ?f s" using assms(2) Pair Some by (simp_all add: pmksa_cache_clone_entry_def)
    have "pmksa_inv sm'" unfolding eq pmksa_inv_def by (rule update_entry_ok) (use s in \<open>simp_all add: pmksa_inv_def\<close>)
    moreover have "k \<in> e_id ` set (sm_pmksa sm')" using s(2) by (simp add: eq(2) update_entry_ids)
    ultimately show ?thesis by (simp add: eq)
  qed
qed

lemma opportunistic_ok:
  assumes "pmksa_inv sm" "pmksa_cache_get_opportunistic now mem ctx aa akmp sm = (i, sm')"
  shows "pmksa_inv sm' \<and> (\<forall>n. i = Some n \<longrightarrow> n \<in> e_id ` set (sm_pmksa sm'))"
  using assms clone_ok [OF assms(1)] by (auto simp: pmksa_cache_get_opportunistic_def split: if_splits option.splits)

lemma find_member: "find P xs = Some x \<Longrightarrow> x \<in> set xs \<and> P x"
  by (auto simp: find_Some_iff)

lemma set_cur_ok: "pmksa_inv sm \<Longrightarrow> (\<And>n. i = Some n \<Longrightarrow> n \<in> e_id ` set (sm_pmksa sm)) \<Longrightarrow> pmksa_inv (sm\<lparr>sm_cur_pmksa := i\<rparr>)"
  by (auto simp: pmksa_inv_def cache_ok_def Let_def)

lemma set_found_ok: "pmksa_inv sm \<Longrightarrow> pmksa_inv (sm\<lparr>sm_cur_pmksa := map_option e_id (find P (sm_pmksa sm))\<rparr>)"
  by (rule set_cur_ok) (auto dest: find_member)

lemma set_current_ok:
  assumes "pmksa_inv sm"
  shows "pmksa_inv (snd (pmksa_cache_set_current now mem pmkid0 bssid ctx try fils akmp sm))"
proof -
  define s1 where "s1 = sm\<lparr>sm_cur_pmksa := None\<rparr>"
  define s2 where "s2 = (if pmkid0 \<noteq> None then s1\<lparr>sm_cur_pmksa := map_option e_id (pmksa_cache_get s1 None pmkid0 ctx akmp)\<rparr> else s1)"
  define s3 where "s3 = (if sm_cur_pmksa s2 = None \<and> bssid \<noteq> None
      then s2\<lparr>sm_cur_pmksa := map_option e_id (pmksa_cache_get s2 bssid None ctx akmp)\<rparr> else s2)"
  define s4 where "s4 = (if sm_cur_pmksa s3 = None \<and> try \<and> bssid \<noteq> None
      then (case pmksa_cache_get_opportunistic now mem ctx (the bssid) akmp s3 of (i, sm) \<Rightarrow> sm\<lparr>sm_cur_pmksa := i\<rparr>) else s3)"
  have s1: "pmksa_inv s1" using assms by (simp add: s1_def pmksa_inv_def)
  have s2: "pmksa_inv s2" using set_found_ok [OF s1] s1 by (simp add: s2_def pmksa_cache_get_def)
  have s3: "pmksa_inv s3" using set_found_ok [OF s2] s2 by (simp add: s3_def pmksa_cache_get_def)
  have s4: "pmksa_inv s4" using opportunistic_ok [OF s3, of now mem ctx "the bssid" akmp] s3
    by (cases "pmksa_cache_get_opportunistic now mem ctx (the bssid) akmp s3") (auto simp: s4_def intro!: set_cur_ok)
  have "snd (pmksa_cache_set_current now mem pmkid0 bssid ctx try fils akmp sm) =
      (if sm_cur_pmksa s4 = None \<and> fils \<noteq> None
       then s4\<lparr>sm_cur_pmksa := map_option e_id (pmksa_cache_get_fils_cache_id s4 ctx (the fils))\<rparr> else s4)"
    unfolding pmksa_cache_set_current_def Let_def s4_def s3_def s2_def s1_def by simp
  then show ?thesis using set_found_ok [OF s4] s4 by (simp add: pmksa_cache_get_fils_cache_id_def)
qed

end
