(* ===== verification/WpaSm.thy ===== *)
theory WpaSm
  imports PmksaProofs AesAead Rc4 ByteOps
begin

text \<open>
  The RSN supplicant (\<^verbatim>\<open>rsn_supp/wpa.c\<close>): EAPOL-Key frames received and sent, the 4-way and the group key handshake, and the
  functions by which \<^verbatim>\<open>wpa_supplicant\<close> configures the machine. A frame is its bytes: the 4-byte 802.1X header, the 77 bytes of
  \<^verbatim>\<open>struct wpa_eapol_key\<close>, the MIC, the length of the key data, the key data. \<open>wpa_env\<close> has what the callbacks of one
  call answer.
\<close>

section \<open>Environment and frames\<close>

record wpa_env =
  env_now :: int
  env_alloc :: bool
  env_random :: "bytes option"
  env_set_key :: "wpa_alg \<Rightarrow> bytes option \<Rightarrow> nat \<Rightarrow> bool \<Rightarrow> bytes \<Rightarrow> bytes \<Rightarrow> bool"
  env_send :: "bytes \<Rightarrow> bytes \<Rightarrow> bool"
  env_bssid :: "bytes option"
  env_beacon_ie :: "(bytes option \<times> bytes option) option"
  env_eap_key :: "nat \<Rightarrow> bytes option"
  env_network_ctx :: nat
  env_eapol_version :: u8

definition WPA_KEY_INFO_TYPE_MASK :: u16 where "WPA_KEY_INFO_TYPE_MASK = 0x7"
definition WPA_KEY_INFO_KEY_TYPE :: u16 where "WPA_KEY_INFO_KEY_TYPE = 0x8"
definition WPA_KEY_INFO_KEY_INDEX_MASK :: u16 where "WPA_KEY_INFO_KEY_INDEX_MASK = 0x30"
definition WPA_KEY_INFO_INSTALL :: u16 where "WPA_KEY_INFO_INSTALL = 0x40"
definition WPA_KEY_INFO_TXRX :: u16 where "WPA_KEY_INFO_TXRX = 0x40"
definition WPA_KEY_INFO_ACK :: u16 where "WPA_KEY_INFO_ACK = 0x80"
definition WPA_KEY_INFO_MIC :: u16 where "WPA_KEY_INFO_MIC = 0x100"
definition WPA_KEY_INFO_SECURE :: u16 where "WPA_KEY_INFO_SECURE = 0x200"
definition WPA_KEY_INFO_ERROR :: u16 where "WPA_KEY_INFO_ERROR = 0x400"
definition WPA_KEY_INFO_REQUEST :: u16 where "WPA_KEY_INFO_REQUEST = 0x800"
definition WPA_KEY_INFO_ENCR_KEY_DATA :: u16 where "WPA_KEY_INFO_ENCR_KEY_DATA = 0x1000"
definition WPA_KEY_INFO_SMK_MESSAGE :: u16 where "WPA_KEY_INFO_SMK_MESSAGE = 0x2000"

lemmas key_info_bits = WPA_KEY_INFO_TYPE_MASK_def WPA_KEY_INFO_KEY_TYPE_def WPA_KEY_INFO_KEY_INDEX_MASK_def
  WPA_KEY_INFO_INSTALL_def WPA_KEY_INFO_TXRX_def WPA_KEY_INFO_ACK_def WPA_KEY_INFO_MIC_def WPA_KEY_INFO_SECURE_def WPA_KEY_INFO_ERROR_def
  WPA_KEY_INFO_REQUEST_def WPA_KEY_INFO_ENCR_KEY_DATA_def WPA_KEY_INFO_SMK_MESSAGE_def

definition has :: "u16 \<Rightarrow> u16 \<Rightarrow> bool" where
  "has info m \<longleftrightarrow> info AND m \<noteq> 0"

record wpa_eapol_key =
  k_type :: u8
  k_key_info :: u16
  k_key_length :: bytes
  k_replay_counter :: bytes
  k_key_nonce :: bytes
  k_key_iv :: bytes
  k_key_rsc :: bytes
  k_key_id :: bytes

definition be16 :: "bytes \<Rightarrow> u16" where
  "be16 b = push_bit 8 (ucast (b ! 0)) OR ucast (b ! 1)"

definition field :: "bytes \<Rightarrow> nat \<Rightarrow> nat \<Rightarrow> bytes" where
  "field f pos n = take n (drop pos f)"

definition key_of :: "bytes \<Rightarrow> wpa_eapol_key" where
  "key_of f = \<lparr>k_type = f ! 4, k_key_info = be16 (field f 5 2), k_key_length = field f 7 2, k_replay_counter = field f 9 8,
     k_key_nonce = field f 17 32, k_key_iv = field f 49 16, k_key_rsc = field f 65 8, k_key_id = field f 73 8\<rparr>"

definition put_key :: "wpa_eapol_key \<Rightarrow> bytes" where
  "put_key k = [k_type k] @ put_be16 (k_key_info k) @ k_key_length k @ k_replay_counter k @ k_key_nonce k @ k_key_iv k @
     k_key_rsc k @ k_key_id k"

text \<open>\<^verbatim>\<open>wpa_alloc_eapol\<close> of \<^verbatim>\<open>wpas_glue.c\<close>; the length is a 16-bit value.\<close>

definition wpa_alloc_eapol :: "wpa_env \<Rightarrow> u8 \<Rightarrow> bytes \<Rightarrow> bytes option" where
  "wpa_alloc_eapol env t data =
     (if env_alloc env then Some ([env_eapol_version env, t] @ put_be16 (of_nat (length data)) @ data) else None)"

text \<open>An EAPOL-Key frame with a MIC field of zeros.\<close>

definition key_frame :: "wpa_env \<Rightarrow> wpa_eapol_key \<Rightarrow> nat \<Rightarrow> bytes \<Rightarrow> bytes option" where
  "key_frame env k mic_len data =
     wpa_alloc_eapol env 3 (put_key k @ replicate mic_len 0 @ put_be16 (of_nat (length data)) @ data)"

definition is_rsn :: "wpa_sm \<Rightarrow> bool" where
  "is_rsn sm \<longleftrightarrow> sm_proto sm = WPA_PROTO_RSN \<or> sm_proto sm = WPA_PROTO_OSEN"

definition sm_mic_len :: "wpa_sm \<Rightarrow> nat" where
  "sm_mic_len sm = wpa_mic_len (sm_key_mgmt sm) (length (sm_pmk sm))"

section \<open>Sending\<close>

definition zero_addr :: "bytes \<Rightarrow> bool" where
  "zero_addr a \<longleftrightarrow> list_all (\<lambda>b. b = 0) (take 6 a)"

text \<open>The results are success and the new state; \<open>key_mic\<close> tells whether the frame is to carry a MIC.\<close>

definition wpa_eapol_key_send :: "wpa_env \<Rightarrow> wpa_ptk \<Rightarrow> u16 \<Rightarrow> bytes \<Rightarrow> bytes \<Rightarrow> bool \<Rightarrow> wpa_sm \<Rightarrow> bool \<times> wpa_sm" where
  "wpa_eapol_key_send env ptk ver dest msg key_mic sm =
     (let ask = zero_addr dest \<and> zero_addr (sm_bssid sm) \<and> env_bssid env \<noteq> None;
          sm = (if ask then sm\<lparr>sm_bssid := the (env_bssid env)\<rparr> else sm);
          dest = (if ask then sm_bssid sm else dest)
      in if sm_mic_len sm = 0 then (False, sm)
         else if key_mic \<and> kck_len ptk = 0 then (False, sm)
         else
           case (if key_mic then wpa_eapol_key_mic (take (kck_len ptk) (kck ptk)) (sm_key_mgmt sm) ver msg else Some []) of
             None \<Rightarrow> (False, sm)
           | Some mic \<Rightarrow>
               let msg = take 81 msg @ mic @ drop (81 + length mic) msg
               in (env_send env dest msg, sm_emit Tx_eapol_key (sm_emit (Ether_send dest msg) sm)))"

definition reply_type :: "wpa_sm \<Rightarrow> u8" where
  "reply_type sm = (if is_rsn sm then 2 else 254)"

definition reply_key_length :: "wpa_sm \<Rightarrow> wpa_eapol_key \<Rightarrow> bytes" where
  "reply_key_length sm k = (if is_rsn sm then [0, 0] else k_key_length k)"

definition reply :: "wpa_sm \<Rightarrow> u16 \<Rightarrow> bytes \<Rightarrow> bytes \<Rightarrow> bytes \<Rightarrow> wpa_eapol_key" where
  "reply sm info len counter nonce = \<lparr>k_type = reply_type sm, k_key_info = info, k_key_length = len, k_replay_counter = counter,
     k_key_nonce = nonce, k_key_iv = replicate 16 0, k_key_rsc = replicate 8 0, k_key_id = replicate 8 0\<rparr>"

definition mic_or_encr :: "nat \<Rightarrow> u16" where
  "mic_or_encr mic_len = (if mic_len \<noteq> 0 then WPA_KEY_INFO_MIC else WPA_KEY_INFO_ENCR_KEY_DATA)"

text \<open>Allocate and send; with no memory the call fails.\<close>

definition send_key :: "wpa_env \<Rightarrow> wpa_ptk \<Rightarrow> u16 \<Rightarrow> bytes \<Rightarrow> wpa_eapol_key \<Rightarrow> bytes \<Rightarrow> bool \<Rightarrow> wpa_sm \<Rightarrow> bool \<times> wpa_sm" where
  "send_key env ptk ver dest k data key_mic sm =
     (case key_frame env k (sm_mic_len sm) data of
        None \<Rightarrow> (False, sm)
      | Some msg \<Rightarrow> wpa_eapol_key_send env ptk ver dest msg key_mic sm)"

definition wpa_sm_key_request :: "wpa_env \<Rightarrow> bool \<Rightarrow> bool \<Rightarrow> wpa_sm \<Rightarrow> wpa_sm" where
  "wpa_sm_key_request env error pairwise0 sm =
     (let ver = (if wpa_use_akm_defined (sm_key_mgmt sm) then WPA_KEY_INFO_TYPE_AKM_DEFINED
                 else if wpa_key_mgmt_ft (sm_key_mgmt sm) \<or> wpa_key_mgmt_sha256 (sm_key_mgmt sm) then WPA_KEY_INFO_TYPE_AES_128_CMAC
                 else if sm_pairwise_cipher sm \<noteq> WPA_CIPHER_TKIP then WPA_KEY_INFO_TYPE_HMAC_SHA1_AES
                 else WPA_KEY_INFO_TYPE_HMAC_MD5_RC4)
      in case env_bssid env of
           None \<Rightarrow> sm
         | Some bssid \<Rightarrow>
             if \<not> env_alloc env then sm
             else
               let mic = sm_ptk_set sm \<and> sm_mic_len sm \<noteq> 0;
                   info = WPA_KEY_INFO_REQUEST OR ver OR (if sm_ptk_set sm then WPA_KEY_INFO_SECURE else 0) OR
                     (if mic then WPA_KEY_INFO_MIC else 0) OR (if error then WPA_KEY_INFO_ERROR else 0) OR
                     (if pairwise0 then WPA_KEY_INFO_KEY_TYPE else 0);
                   k = reply sm info [0, 0] (sm_request_counter sm) (replicate 32 0);
                   sm = sm\<lparr>sm_request_counter := inc_byte_array (sm_request_counter sm)\<rparr>
               in snd (send_key env (sm_ptk sm) ver bssid k [] mic sm))"

definition wpa_supplicant_send_2_of_4 ::
    "wpa_env \<Rightarrow> bytes \<Rightarrow> wpa_eapol_key \<Rightarrow> u16 \<Rightarrow> bytes \<Rightarrow> bytes option \<Rightarrow> wpa_ptk \<Rightarrow> wpa_sm \<Rightarrow> bool \<times> wpa_sm" where
  "wpa_supplicant_send_2_of_4 env dst k ver nonce wpa_ie ptk sm =
     (case wpa_ie of
        None \<Rightarrow> (False, sm)
      | Some ie \<Rightarrow>
          let info = ver OR WPA_KEY_INFO_KEY_TYPE OR mic_or_encr (sm_mic_len sm)
          in send_key env ptk ver dst (reply sm info (reply_key_length sm k) (k_replay_counter k) nonce) ie True sm)"

definition wpa_supplicant_send_4_of_4 :: "wpa_env \<Rightarrow> bytes \<Rightarrow> wpa_eapol_key \<Rightarrow> u16 \<Rightarrow> u16 \<Rightarrow> wpa_ptk \<Rightarrow> wpa_sm \<Rightarrow> bool \<times> wpa_sm" where
  "wpa_supplicant_send_4_of_4 env dst k ver key_info ptk sm =
     (let info = (key_info AND WPA_KEY_INFO_SECURE) OR ver OR WPA_KEY_INFO_KEY_TYPE OR mic_or_encr (sm_mic_len sm)
      in send_key env ptk ver dst (reply sm info (reply_key_length sm k) (k_replay_counter k) (replicate 32 0)) [] True sm)"

definition wpa_supplicant_send_2_of_2 :: "wpa_env \<Rightarrow> wpa_eapol_key \<Rightarrow> u16 \<Rightarrow> u16 \<Rightarrow> wpa_sm \<Rightarrow> bool \<times> wpa_sm" where
  "wpa_supplicant_send_2_of_2 env k ver key_info sm =
     (let info = (key_info AND WPA_KEY_INFO_KEY_INDEX_MASK) OR ver OR WPA_KEY_INFO_SECURE OR mic_or_encr (sm_mic_len sm)
      in send_key env (sm_ptk sm) ver (sm_bssid sm)
           (reply sm info (reply_key_length sm k) (k_replay_counter k) (replicate 32 0)) [] True sm)"

section \<open>The master key\<close>

definition cur_entry :: "wpa_sm \<Rightarrow> rsn_pmksa_cache_entry option" where
  "cur_entry sm = (case sm_cur_pmksa sm of None \<Rightarrow> None | Some i \<Rightarrow> find (\<lambda>e. e_id e = i) (sm_pmksa sm))"

definition wpa_sm_set_pmk_from_pmksa :: "wpa_sm \<Rightarrow> wpa_sm" where
  "wpa_sm_set_pmk_from_pmksa sm = sm\<lparr>sm_pmk := (case cur_entry sm of None \<Rightarrow> [] | Some e \<Rightarrow> e_pmk e)\<rparr>"

definition wpa_supplicant_key_mgmt_set_pmk :: "wpa_sm \<Rightarrow> wpa_sm" where
  "wpa_supplicant_key_mgmt_set_pmk sm = sm_emit (Key_mgmt_set_pmk (sm_pmk sm)) sm"

text \<open>The master session key: 32 bytes (48 with SHA-384), or the 16 bytes of LEAP.\<close>

definition eap_pmk :: "wpa_env \<Rightarrow> wpa_sm \<Rightarrow> bytes option" where
  "eap_pmk env sm =
     (if wpa_key_mgmt_sha384 (sm_key_mgmt sm) then env_eap_key env 48
      else case env_eap_key env 32 of None \<Rightarrow> env_eap_key env 16 | Some k \<Rightarrow> Some k)"

text \<open>Look for the PMKID of message 1/4 in the cache; the flag is \<open>abort_cached\<close>.\<close>

definition match_pmkid :: "bytes \<Rightarrow> bytes option \<Rightarrow> wpa_sm \<Rightarrow> bool \<times> wpa_sm" where
  "match_pmkid src_addr pmkid0 sm =
     (if pmkid0 \<noteq> None \<and> sm_cur_pmksa sm = None then
        case pmksa_cache_get sm (Some src_addr) pmkid0 0 0 of
          None \<Rightarrow> (True, sm)
        | Some e \<Rightarrow> (False, sm\<lparr>sm_cur_pmksa := Some (e_id e)\<rparr>)
      else (False, sm))"

text \<open>A new master key from EAP: cached, and compared with the PMKID. \<open>None\<close>: a mismatch.\<close>

definition cache_eap_pmk :: "wpa_env \<Rightarrow> bytes \<Rightarrow> bytes \<Rightarrow> wpa_sm \<Rightarrow> nat option \<times> wpa_sm" where
  "cache_eap_pmk env src_addr pmk sm =
     (if sm_proto sm = WPA_PROTO_RSN \<and> \<not> wpa_key_mgmt_suite_b (sm_key_mgmt sm) \<and> \<not> wpa_key_mgmt_ft (sm_key_mgmt sm)
      then pmksa_cache_add (env_now env) (env_alloc env) pmk None None src_addr (sm_own_addr sm)
             (c_network_ctx (sm_config sm)) (sm_key_mgmt sm) None sm
      else (None, sm))"

definition take_eap_pmk :: "wpa_env \<Rightarrow> bytes \<Rightarrow> bytes option \<Rightarrow> bytes \<Rightarrow> bool \<Rightarrow> wpa_sm \<Rightarrow> bool option \<times> wpa_sm" where
  "take_eap_pmk env src_addr pmkid0 pmk abort_cached sm =
     (case cache_eap_pmk env src_addr pmk (wpa_supplicant_key_mgmt_set_pmk (sm\<lparr>sm_pmk := pmk\<rparr>)) of
        (sa, sm) \<Rightarrow>
          let fresh = sm_cur_pmksa sm = None \<and> pmkid0 \<noteq> None;
              found = fresh \<and> pmksa_cache_get sm (Some src_addr) pmkid0 0 0 \<noteq> None
          in if \<not> found \<and> sa \<noteq> None \<and> fresh then (None, sm)
             else (Some (abort_cached \<and> \<not> found), if sm_cur_pmksa sm = None then sm\<lparr>sm_cur_pmksa := sa\<rparr> else sm))"

definition pmk_source :: "wpa_env \<Rightarrow> bytes \<Rightarrow> bytes option \<Rightarrow> bool \<Rightarrow> wpa_sm \<Rightarrow> bool option \<times> wpa_sm" where
  "pmk_source env src_addr pmkid0 abort_cached sm =
     (if pmkid0 \<noteq> None \<and> map_option e_pmkid (cur_entry sm) = pmkid0
      then (Some abort_cached, sm_emit Eapol_cached (wpa_sm_set_pmk_from_pmksa sm))
      else if wpa_key_mgmt_wpa_ieee8021x (sm_key_mgmt sm) \<and> sm_eapol sm then
        case eap_pmk env sm of
          Some pmk \<Rightarrow> take_eap_pmk env src_addr pmkid0 pmk abort_cached sm
        | None \<Rightarrow>
            if sm_cur_pmksa sm \<noteq> None then (Some True, sm\<lparr>sm_cur_pmksa := None\<rparr>)
            else if \<not> abort_cached then (None, sm) else (Some abort_cached, sm)
      else (Some abort_cached, sm))"

definition wpa_supplicant_get_pmk :: "wpa_env \<Rightarrow> bytes \<Rightarrow> bytes option \<Rightarrow> wpa_sm \<Rightarrow> int \<times> wpa_sm" where
  "wpa_supplicant_get_pmk env src_addr pmkid0 sm =
     (case match_pmkid src_addr pmkid0 sm of
        (abort_cached, sm) \<Rightarrow>
          case pmk_source env src_addr pmkid0 abort_cached sm of
            (None, sm) \<Rightarrow> (-1, sm)
          | (Some abort_cached, sm) \<Rightarrow>
              if abort_cached \<and> wpa_key_mgmt_wpa_ieee8021x (sm_key_mgmt sm) \<and> \<not> wpa_key_mgmt_suite_b (sm_key_mgmt sm) \<and>
                 \<not> wpa_key_mgmt_ft (sm_key_mgmt sm) \<and> sm_key_mgmt sm \<noteq> WPA_KEY_MGMT_OSEN
              then case wpa_alloc_eapol env 1 [] of
                     None \<Rightarrow> (-1, sm)
                   | Some buf \<Rightarrow> (-2, sm_emit (Ether_send (sm_bssid sm) buf) sm)
              else (0, sm))"

section \<open>Message 1/4\<close>

text \<open>\<^verbatim>\<open>Pairwise key expansion\<close>\<close>

definition ptk_label :: bytes where
  "ptk_label = [0x50, 0x61, 0x69, 0x72, 0x77, 0x69, 0x73, 0x65, 0x20, 0x6b, 0x65, 0x79, 0x20, 0x65, 0x78, 0x70, 0x61, 0x6e, 0x73,
     0x69, 0x6f, 0x6e]"

definition wpa_derive_ptk :: "wpa_eapol_key \<Rightarrow> wpa_ptk \<Rightarrow> wpa_sm \<Rightarrow> bool \<times> wpa_ptk" where
  "wpa_derive_ptk k ptk sm =
     wpa_pmk_to_ptk (sm_pmk sm) ptk_label (sm_own_addr sm) (sm_bssid sm) (sm_snonce sm) (k_key_nonce k) ptk (sm_key_mgmt sm)
       (sm_pairwise_cipher sm) None"

text \<open>Reads of the parser stay in the key data, so it always has a result.\<close>

definition parse_kdes :: "bytes \<Rightarrow> bool \<times> wpa_eapol_ie_parse" where
  "parse_kdes data = (case wpa_supplicant_parse_ies data of None \<Rightarrow> (False, no_kde) | Some r \<Rightarrow> r)"

definition at :: "bytes \<Rightarrow> nat option \<Rightarrow> nat \<Rightarrow> bytes option" where
  "at data p n = map_option (\<lambda>i. take n (drop i data)) p"

definition wpa_fail :: "wpa_sm \<Rightarrow> wpa_sm" where
  "wpa_fail sm = wpa_sm_deauthenticate WLAN_REASON_UNSPECIFIED sm"

text \<open>The supplicant's view of a TKIP key: the two Michael keys are swapped.\<close>

definition swap_mic_keys :: "bytes \<Rightarrow> bytes" where
  "swap_mic_keys b = take 16 b @ take 8 (drop 24 b) @ take 8 (drop 16 b) @ drop 32 b"

definition renew_snonce :: "wpa_env \<Rightarrow> wpa_sm \<Rightarrow> wpa_sm option" where
  "renew_snonce env sm =
     (if sm_renew_snonce sm then
        map_option (\<lambda>r. sm_emit (Draw_snonce r) (sm\<lparr>sm_snonce := r, sm_renew_snonce := False\<rparr>)) (env_random env)
      else Some sm)"

text \<open>The temporary PTK is derived and kept until message 3/4 proves it; then message 2/4 is sent.\<close>

definition answer_1_of_4 :: "wpa_env \<Rightarrow> wpa_eapol_key \<Rightarrow> u16 \<Rightarrow> wpa_sm \<Rightarrow> wpa_sm" where
  "answer_1_of_4 env k ver sm =
     (case wpa_derive_ptk k (sm_tptk sm) sm of
        (derived, ptk) \<Rightarrow>
          if \<not> derived then wpa_fail (sm\<lparr>sm_tptk := ptk\<rparr>)
          else
            let ptk = (if sm_pairwise_cipher sm = WPA_CIPHER_TKIP then ptk\<lparr>tk := swap_mic_keys (tk ptk)\<rparr> else ptk) in
            case wpa_supplicant_send_2_of_4 env (sm_bssid sm) k ver (sm_snonce sm) (sm_assoc_wpa_ie sm) ptk
                   (sm\<lparr>sm_tptk := ptk, sm_tptk_set := True\<rparr>) of
              (sent, sm) \<Rightarrow> if sent then sm\<lparr>sm_anonce := k_key_nonce k\<rparr> else wpa_fail sm)"

definition wpa_supplicant_process_1_of_4 :: "wpa_env \<Rightarrow> bytes \<Rightarrow> wpa_eapol_key \<Rightarrow> u16 \<Rightarrow> bytes \<Rightarrow> wpa_sm \<Rightarrow> wpa_sm" where
  "wpa_supplicant_process_1_of_4 env src_addr k ver key_data sm =
     (if env_network_ctx env = 0 then sm
      else
        let sm = wpa_sm_set_state WPA_4WAY_HANDSHAKE sm;
            (ok, ie) = (if is_rsn sm then parse_kdes key_data else (True, no_kde))
        in if \<not> ok then wpa_fail sm
           else case wpa_supplicant_get_pmk env src_addr (at key_data (kde_pmkid ie) 16) sm of
             (res, sm) \<Rightarrow>
               if res = -2 then sm
               else if res \<noteq> 0 then wpa_fail sm
               else case renew_snonce env sm of
                 None \<Rightarrow> wpa_fail sm
               | Some sm \<Rightarrow> answer_1_of_4 env k ver sm)"

section \<open>Installing keys\<close>

definition wpa_cipher_to_alg :: "u32 \<Rightarrow> wpa_alg" where
  "wpa_cipher_to_alg c =
     (if c = WPA_CIPHER_CCMP_256 then WPA_ALG_CCMP_256
      else if c = WPA_CIPHER_GCMP_256 then WPA_ALG_GCMP_256
      else if c = WPA_CIPHER_CCMP then WPA_ALG_CCMP
      else if c = WPA_CIPHER_GCMP then WPA_ALG_GCMP
      else if c = WPA_CIPHER_TKIP then WPA_ALG_TKIP
      else if c = WPA_CIPHER_AES_128_CMAC then WPA_ALG_IGTK
      else if c = WPA_CIPHER_BIP_GMAC_128 then WPA_ALG_BIP_GMAC_128
      else if c = WPA_CIPHER_BIP_GMAC_256 then WPA_ALG_BIP_GMAC_256
      else if c = WPA_CIPHER_BIP_CMAC_256 then WPA_ALG_BIP_CMAC_256
      else WPA_ALG_NONE)"

definition wpa_sm_set_key ::
    "wpa_env \<Rightarrow> wpa_alg \<Rightarrow> bytes option \<Rightarrow> nat \<Rightarrow> bool \<Rightarrow> bytes \<Rightarrow> bytes \<Rightarrow> wpa_sm \<Rightarrow> bool \<times> wpa_sm" where
  "wpa_sm_set_key env alg addr idx tx seq k sm =
     (let ok = env_set_key env alg addr idx tx seq k in (ok, sm_emit (Set_key alg addr idx tx seq k ok) sm))"

definition wpa_supplicant_install_ptk :: "wpa_env \<Rightarrow> wpa_eapol_key \<Rightarrow> wpa_sm \<Rightarrow> bool \<times> wpa_sm" where
  "wpa_supplicant_install_ptk env k sm =
     (let cipher = sm_pairwise_cipher sm; keylen = wpa_cipher_key_len cipher in
      if installed (sm_ptk sm) then (True, sm)
      else if cipher = WPA_CIPHER_NONE then (True, sm)
      else if \<not> wpa_cipher_valid_pairwise cipher then (False, sm)
      else if keylen = 0 \<or> keylen \<noteq> tk_len (sm_ptk sm) then (False, sm)
      else
        let key_rsc = (if is_rsn sm then replicate 8 0 else k_key_rsc k) in
        case wpa_sm_set_key env (wpa_cipher_to_alg cipher) (Some (sm_bssid sm)) 0 True (take (wpa_cipher_rsc_len cipher) key_rsc)
               (take keylen (tk (sm_ptk sm))) sm of
          (ok, sm) \<Rightarrow>
            if \<not> ok then (False, sm)
            else (True, sm\<lparr>sm_ptk := (sm_ptk sm)\<lparr>tk := replicate WPA_TK_MAX_LEN 0, tk_len := 0, installed := True\<rparr>,
                           sm_rekey_timer := (if c_wpa_ptk_rekey (sm_config sm) \<noteq> 0
                             then Some (env_now env + c_wpa_ptk_rekey (sm_config sm)) else sm_rekey_timer sm)\<rparr>))"

text \<open>The receive counter length and the algorithm of a usable group cipher.\<close>

definition wpa_supplicant_check_group_cipher :: "u32 \<Rightarrow> nat \<Rightarrow> nat \<Rightarrow> (nat \<times> wpa_alg) option" where
  "wpa_supplicant_check_group_cipher group_cipher0 keylen maxkeylen =
     (if wpa_cipher_to_alg group_cipher0 = WPA_ALG_NONE then None
      else if keylen \<noteq> wpa_cipher_key_len group_cipher0 \<or> maxkeylen < wpa_cipher_key_len group_cipher0 then None
      else Some (wpa_cipher_rsc_len group_cipher0, wpa_cipher_to_alg group_cipher0))"

record wpa_gtk_data =
  g_alg :: wpa_alg
  g_tx :: bool
  g_key_rsc_len :: nat
  g_keyidx :: nat
  g_gtk :: bytes

definition wpa_supplicant_install_gtk :: "wpa_env \<Rightarrow> wpa_gtk_data \<Rightarrow> bytes \<Rightarrow> bool \<Rightarrow> wpa_sm \<Rightarrow> bool \<times> wpa_sm" where
  "wpa_supplicant_install_gtk env gd key_rsc wnm_sleep sm =
     (if sm_gtk sm = g_gtk gd \<or> sm_gtk_wnm_sleep sm = g_gtk gd then (True, sm)
      else
        let gtk = (if sm_group_cipher sm = WPA_CIPHER_TKIP then swap_mic_keys (g_gtk gd) else g_gtk gd);
            seq = take (g_key_rsc_len gd) key_rsc
        in case (if sm_pairwise_cipher sm = WPA_CIPHER_NONE
                 then wpa_sm_set_key env (g_alg gd) None (g_keyidx gd) True seq gtk sm
                 else wpa_sm_set_key env (g_alg gd) (Some (replicate 6 0xff)) (g_keyidx gd) (g_tx gd) seq gtk sm) of
             (ok, sm) \<Rightarrow>
               if \<not> ok then (False, sm)
               else (True, if wnm_sleep then sm\<lparr>sm_gtk_wnm_sleep := g_gtk gd\<rparr> else sm\<lparr>sm_gtk := g_gtk gd\<rparr>))"

definition wpa_supplicant_gtk_tx_bit_workaround :: "wpa_sm \<Rightarrow> bool \<Rightarrow> bool" where
  "wpa_supplicant_gtk_tx_bit_workaround sm tx = (if tx \<and> sm_pairwise_cipher sm \<noteq> WPA_CIPHER_NONE then False else tx)"

definition wpa_supplicant_rsc_relaxation :: "wpa_sm \<Rightarrow> bytes \<Rightarrow> bool" where
  "wpa_supplicant_rsc_relaxation sm rsc \<longleftrightarrow>
     c_wpa_rsc_relaxation (sm_config sm) \<and> wpa_cipher_rsc_len (sm_group_cipher sm) = 6 \<and>
     (rsc ! 5 \<noteq> 0 \<and> rsc ! 0 = 0 \<or> rsc ! 6 \<noteq> 0 \<or> rsc ! 7 \<noteq> 0)"

definition relaxed_rsc :: "wpa_sm \<Rightarrow> wpa_eapol_key \<Rightarrow> bytes" where
  "relaxed_rsc sm k = (if wpa_supplicant_rsc_relaxation sm (k_key_rsc k) then replicate 8 0 else k_key_rsc k)"

definition wpa_supplicant_pairwise_gtk :: "wpa_env \<Rightarrow> wpa_eapol_key \<Rightarrow> bytes \<Rightarrow> wpa_sm \<Rightarrow> bool \<times> wpa_sm" where
  "wpa_supplicant_pairwise_gtk env k gtk sm =
     (if length gtk < 2 \<or> 32 < length gtk - 2 then (False, sm)
      else if sm_group_cipher sm = WPA_CIPHER_GTK_NOT_USED then (True, sm)
      else case wpa_supplicant_check_group_cipher (sm_group_cipher sm) (length gtk - 2) (length gtk - 2) of
        None \<Rightarrow> (False, sm)
      | Some (rsc_len, alg) \<Rightarrow>
          wpa_supplicant_install_gtk env
            \<lparr>g_alg = alg, g_tx = wpa_supplicant_gtk_tx_bit_workaround sm (gtk ! 0 AND 4 \<noteq> 0), g_key_rsc_len = rsc_len,
             g_keyidx = unat (gtk ! 0 AND 3), g_gtk = drop 2 gtk\<rparr> (relaxed_rsc sm k) False sm)"

section \<open>Message 3/4\<close>

definition wpa_report_ie_mismatch :: "wpa_sm \<Rightarrow> wpa_sm" where
  "wpa_report_ie_mismatch sm = wpa_sm_deauthenticate WLAN_REASON_IE_IN_4WAY_DIFFERS sm"

definition refresh_beacon_ie :: "wpa_env \<Rightarrow> wpa_sm \<Rightarrow> wpa_sm" where
  "refresh_beacon_ie env sm =
     (if sm_ap_wpa_ie sm = None \<and> sm_ap_rsn_ie sm = None
      then case env_beacon_ie env of None \<Rightarrow> sm | Some (w, r) \<Rightarrow> sm\<lparr>sm_ap_wpa_ie := w, sm_ap_rsn_ie := r\<rparr>
      else sm)"

definition wpa_supplicant_validate_ie :: "wpa_env \<Rightarrow> bytes option \<Rightarrow> bytes option \<Rightarrow> wpa_sm \<Rightarrow> bool \<times> wpa_sm" where
  "wpa_supplicant_validate_ie env wpa_ie rsn_ie sm =
     (let sm = refresh_beacon_ie env sm
      in if wpa_ie = None \<and> rsn_ie = None \<and> (sm_ap_wpa_ie sm \<noteq> None \<or> sm_ap_rsn_ie sm \<noteq> None)
         then (False, wpa_report_ie_mismatch sm)
         else if wpa_ie \<noteq> None \<and> sm_ap_wpa_ie sm \<noteq> None \<and> wpa_ie \<noteq> sm_ap_wpa_ie sm \<or>
                 rsn_ie \<noteq> None \<and> sm_ap_rsn_ie sm \<noteq> None \<and> wpa_compare_rsn_ie (sm_ap_rsn_ie sm) rsn_ie \<noteq> 0
         then (False, wpa_report_ie_mismatch sm)
         else if sm_proto sm = WPA_PROTO_WPA \<and> rsn_ie \<noteq> None \<and> sm_ap_rsn_ie sm = None \<and> sm_rsn_enabled sm
         then (False, wpa_report_ie_mismatch sm)
         else (True, sm))"

definition neg_secure :: "wpa_env \<Rightarrow> bytes \<Rightarrow> wpa_sm \<Rightarrow> wpa_sm" where
  "neg_secure env addr sm =
     (let sm = sm_emit Port_valid (sm_emit (Mlme_setprotection addr True) sm);
          sm = (if wpa_key_mgmt_wpa_psk (sm_key_mgmt sm) \<or> sm_key_mgmt sm = WPA_KEY_MGMT_DPP \<or> sm_key_mgmt sm = WPA_KEY_MGMT_OWE
                then sm_emit Eap_success sm else sm)
      in if sm_candidates sm then sm\<lparr>sm_preauth_timer := Some (env_now env + 1)\<rparr> else sm)"

definition wpa_supplicant_key_neg_complete :: "wpa_env \<Rightarrow> bytes \<Rightarrow> bool \<Rightarrow> wpa_sm \<Rightarrow> wpa_sm" where
  "wpa_supplicant_key_neg_complete env addr secure sm =
     (let sm = wpa_sm_set_state WPA_COMPLETED (sm_emit Cancel_auth_timeout sm);
          sm = (if secure then neg_secure env addr sm else sm)
      in case sm_cur_pmksa sm of
           None \<Rightarrow> sm
         | Some i \<Rightarrow> update_entry i (\<lambda>e. e\<lparr>e_opportunistic := False\<rparr>) sm)"

definition rekey_offload :: "wpa_sm \<Rightarrow> wpa_sm" where
  "rekey_offload sm =
     sm_emit (Rekey_offload (take (kek_len (sm_ptk sm)) (kek (sm_ptk sm))) (take (kck_len (sm_ptk sm)) (kck (sm_ptk sm)))
       (sm_rx_replay_counter sm)) sm"

text \<open>After message 4/4 and the pairwise key: the port, the group key (\<open>gtk\<close> is its encapsulation), completion.\<close>

definition open_port :: "u16 \<Rightarrow> wpa_sm \<Rightarrow> wpa_sm" where
  "open_port info sm = (if has info WPA_KEY_INFO_SECURE then sm_emit Port_valid (sm_emit (Mlme_setprotection (sm_bssid sm) False) sm) else sm)"

definition pairwise_group_key :: "wpa_env \<Rightarrow> wpa_eapol_key \<Rightarrow> bytes option \<Rightarrow> wpa_sm \<Rightarrow> bool \<times> wpa_sm" where
  "pairwise_group_key env k gtk sm =
     (if sm_group_cipher sm = WPA_CIPHER_GTK_NOT_USED then (True, sm)
      else case gtk of
        None \<Rightarrow> (sm_proto sm \<noteq> WPA_PROTO_RSN, sm)
      | Some g \<Rightarrow> wpa_supplicant_pairwise_gtk env k g sm)"

definition suite_b_cache :: "wpa_env \<Rightarrow> wpa_sm \<Rightarrow> wpa_sm" where
  "suite_b_cache env sm =
     (if sm_proto sm = WPA_PROTO_RSN \<and> wpa_key_mgmt_suite_b (sm_key_mgmt sm) \<and> sm_cur_pmksa sm = None
      then case pmksa_cache_add (env_now env) (env_alloc env) (sm_pmk sm) None
             (Some (take (kck_len (sm_ptk sm)) (kck (sm_ptk sm)))) (sm_bssid sm) (sm_own_addr sm)
             (c_network_ctx (sm_config sm)) (sm_key_mgmt sm) None sm of
           (sa, sm) \<Rightarrow> if sm_cur_pmksa sm = None then sm\<lparr>sm_cur_pmksa := sa\<rparr> else sm
      else sm)"

definition finish_3_of_4 :: "wpa_env \<Rightarrow> wpa_eapol_key \<Rightarrow> bytes option \<Rightarrow> wpa_sm \<Rightarrow> wpa_sm" where
  "finish_3_of_4 env k gtk sm =
     (case pairwise_group_key env k gtk (wpa_sm_set_state WPA_GROUP_HANDSHAKE (open_port (k_key_info k) sm)) of
        (ok, sm) \<Rightarrow>
          if \<not> ok then wpa_fail sm
          else
            let sm = (if sm_group_cipher sm = WPA_CIPHER_GTK_NOT_USED \<or> gtk \<noteq> None
                      then wpa_supplicant_key_neg_complete env (sm_bssid sm) (has (k_key_info k) WPA_KEY_INFO_SECURE) sm else sm);
                sm = (if gtk \<noteq> None then rekey_offload sm else sm)
            in (suite_b_cache env sm)\<lparr>sm_msg_3_of_4_ok := True\<rparr>)"

definition wpa_supplicant_process_3_of_4 :: "wpa_env \<Rightarrow> wpa_eapol_key \<Rightarrow> u16 \<Rightarrow> bytes \<Rightarrow> wpa_sm \<Rightarrow> wpa_sm" where
  "wpa_supplicant_process_3_of_4 env k ver key_data sm =
     (let sm = wpa_sm_set_state WPA_4WAY_HANDSHAKE sm;
          info = k_key_info k;
          (ok, ie) = parse_kdes key_data;
          gtk = at key_data (kde_gtk ie) (kde_gtk_len ie)
      in if \<not> ok then wpa_fail sm
         else if gtk \<noteq> None \<and> \<not> has info WPA_KEY_INFO_ENCR_KEY_DATA then wpa_fail sm
         else case wpa_supplicant_validate_ie env (at key_data (kde_wpa_ie ie) (kde_wpa_ie_len ie))
                     (at key_data (kde_rsn_ie ie) (kde_rsn_ie_len ie)) sm of
           (valid, sm) \<Rightarrow>
             if \<not> valid then wpa_fail sm
             else if sm_anonce sm \<noteq> k_key_nonce k then wpa_fail sm
             else if unat (be16 (k_key_length k)) \<noteq> wpa_cipher_key_len (sm_pairwise_cipher sm) then wpa_fail sm
             else case wpa_supplicant_send_4_of_4 env (sm_bssid sm) k ver info (sm_ptk sm) sm of
               (sent, sm) \<Rightarrow>
                 if \<not> sent then wpa_fail sm
                 else
                   let sm = sm\<lparr>sm_renew_snonce := True\<rparr> in
                   case (if has info WPA_KEY_INFO_INSTALL then wpa_supplicant_install_ptk env k sm else (True, sm)) of
                     (inst, sm) \<Rightarrow> if \<not> inst then wpa_fail sm else finish_3_of_4 env k gtk sm)"

section \<open>The group key handshake\<close>

definition wpa_supplicant_process_1_of_2_rsn :: "bytes \<Rightarrow> u16 \<Rightarrow> wpa_sm \<Rightarrow> wpa_gtk_data option" where
  "wpa_supplicant_process_1_of_2_rsn key_data info sm =
     (let (ok, ie) = parse_kdes key_data; gtk = at key_data (kde_gtk ie) (kde_gtk_len ie) in
      if \<not> ok then None
      else case gtk of
        None \<Rightarrow> None
      | Some g \<Rightarrow>
          if \<not> has info WPA_KEY_INFO_ENCR_KEY_DATA then None
          else case wpa_supplicant_check_group_cipher (sm_group_cipher sm) (length g - 2) (length g - 2) of
            None \<Rightarrow> None
          | Some (rsc_len, alg) \<Rightarrow>
              if 32 < length g - 2 then None
              else Some \<lparr>g_alg = alg, g_tx = wpa_supplicant_gtk_tx_bit_workaround sm (g ! 0 AND 4 \<noteq> 0), g_key_rsc_len = rsc_len,
                         g_keyidx = unat (g ! 0 AND 3), g_gtk = drop 2 g\<rparr>)"

definition kek_bytes :: "wpa_sm \<Rightarrow> bytes" where
  "kek_bytes sm = take (kek_len (sm_ptk sm)) (kek (sm_ptk sm))"

text \<open>The 32-byte buffer of the group key, decrypted.\<close>

definition wpa_gtk_buffer :: "wpa_env \<Rightarrow> wpa_eapol_key \<Rightarrow> bytes \<Rightarrow> u16 \<Rightarrow> nat \<Rightarrow> wpa_sm \<Rightarrow> bytes option" where
  "wpa_gtk_buffer env k key_data ver maxkeylen sm =
     (if ver = WPA_KEY_INFO_TYPE_HMAC_MD5_RC4 \<and> kek_len (sm_ptk sm) = 16 then
        if 32 < length key_data then None else rc4_skip (k_key_iv k @ kek_bytes sm) 256 key_data
      else if ver = WPA_KEY_INFO_TYPE_HMAC_SHA1_AES then
        if maxkeylen mod 8 \<noteq> 0 then None
        else if 32 < maxkeylen then None
        else case aes_unwrap (env_alloc env) (kek_bytes sm) (maxkeylen div 8) key_data of (r, b) \<Rightarrow> if r = 0 then Some b else None
      else None)"

definition wpa_supplicant_process_1_of_2_wpa :: "wpa_env \<Rightarrow> wpa_eapol_key \<Rightarrow> bytes \<Rightarrow> u16 \<Rightarrow> u16 \<Rightarrow> wpa_sm \<Rightarrow> wpa_gtk_data option" where
  "wpa_supplicant_process_1_of_2_wpa env k key_data info ver sm =
     (let gtk_len = unat (be16 (k_key_length k));
          aes = ver = WPA_KEY_INFO_TYPE_HMAC_SHA1_AES;
          maxkeylen = (if aes then length key_data - 8 else length key_data)
      in if aes \<and> length key_data < 8 then None
         else if maxkeylen < gtk_len then None
         else case wpa_supplicant_check_group_cipher (sm_group_cipher sm) gtk_len maxkeylen of
           None \<Rightarrow> None
         | Some (rsc_len, alg) \<Rightarrow>
             map_option (\<lambda>buf. \<lparr>g_alg = alg, g_tx = wpa_supplicant_gtk_tx_bit_workaround sm (has info WPA_KEY_INFO_TXRX),
                g_key_rsc_len = rsc_len, g_keyidx = unat (drop_bit 4 (info AND WPA_KEY_INFO_KEY_INDEX_MASK)),
                g_gtk = take gtk_len buf\<rparr>) (wpa_gtk_buffer env k key_data ver maxkeylen sm))"

definition wpa_supplicant_process_1_of_2 :: "wpa_env \<Rightarrow> wpa_eapol_key \<Rightarrow> bytes \<Rightarrow> u16 \<Rightarrow> wpa_sm \<Rightarrow> wpa_sm" where
  "wpa_supplicant_process_1_of_2 env k key_data ver sm =
     (if \<not> sm_msg_3_of_4_ok sm then wpa_fail sm
      else
        let rekey = sm_state sm = WPA_COMPLETED;
            info = k_key_info k;
            gd = (if is_rsn sm then wpa_supplicant_process_1_of_2_rsn key_data info sm
                  else wpa_supplicant_process_1_of_2_wpa env k key_data info ver sm);
            sm = wpa_sm_set_state WPA_GROUP_HANDSHAKE sm
        in case gd of
             None \<Rightarrow> wpa_fail sm
           | Some gd \<Rightarrow>
               (case wpa_supplicant_install_gtk env gd (relaxed_rsc sm k) False sm of
                  (ok, sm) \<Rightarrow>
                    if \<not> ok then wpa_fail sm
                    else case wpa_supplicant_send_2_of_2 env k ver info sm of
                      (sent, sm) \<Rightarrow>
                        if \<not> sent then wpa_fail sm
                        else rekey_offload
                          (if rekey then wpa_sm_set_state WPA_COMPLETED (sm_emit Cancel_auth_timeout sm)
                           else wpa_supplicant_key_neg_complete env (sm_bssid sm) (has info WPA_KEY_INFO_SECURE) sm)))"

section \<open>Received frames\<close>

definition zero_ptk :: wpa_ptk where
  "zero_ptk = \<lparr>kck = replicate WPA_KCK_MAX_LEN 0, kek = replicate WPA_KEK_MAX_LEN 0, tk = replicate WPA_TK_MAX_LEN 0,
     kck2 = replicate WPA_KCK_MAX_LEN 0, kek2 = replicate WPA_KEK_MAX_LEN 0, kck_len = 0, kek_len = 0, tk_len = 0, kck2_len = 0,
     kek2_len = 0, installed = False\<rparr>"

text \<open>The MIC is computed over the frame with a MIC field of zeros.\<close>

definition mic_matches :: "wpa_ptk \<Rightarrow> u32 \<Rightarrow> u16 \<Rightarrow> nat \<Rightarrow> bytes \<Rightarrow> bool" where
  "mic_matches ptk akmp ver mic_len frame =
     (case wpa_eapol_key_mic (take (kck_len ptk) (kck ptk)) akmp ver (take 81 frame @ replicate mic_len 0 @ drop (81 + mic_len) frame) of
        None \<Rightarrow> False
      | Some mic \<Rightarrow> take mic_len (fill (replicate mic_len 0) mic) = field frame 81 mic_len)"

definition wpa_supplicant_verify_eapol_key_mic :: "wpa_eapol_key \<Rightarrow> u16 \<Rightarrow> bytes \<Rightarrow> wpa_sm \<Rightarrow> bool \<times> wpa_sm" where
  "wpa_supplicant_verify_eapol_key_mic k ver frame sm =
     (let ok = sm_tptk_set sm \<and> mic_matches (sm_tptk sm) (sm_key_mgmt sm) ver (sm_mic_len sm) frame;
          sm = (if ok then sm\<lparr>sm_tptk_set := False, sm_ptk_set := True, sm_ptk := sm_tptk sm, sm_tptk := zero_ptk, sm_renew_snonce := True\<rparr>
                else sm)
      in if \<not> ok \<and> \<not> (sm_ptk_set sm \<and> mic_matches (sm_ptk sm) (sm_key_mgmt sm) ver (sm_mic_len sm) frame) then (False, sm)
         else (True, sm\<lparr>sm_rx_replay_counter := k_replay_counter k, sm_rx_replay_counter_set := True\<rparr>))"

definition wpa_supplicant_decrypt_key_data :: "wpa_env \<Rightarrow> wpa_eapol_key \<Rightarrow> u16 \<Rightarrow> bytes \<Rightarrow> wpa_sm \<Rightarrow> bytes option" where
  "wpa_supplicant_decrypt_key_data env k ver key_data sm =
     (if \<not> sm_ptk_set sm then None
      else if ver = WPA_KEY_INFO_TYPE_HMAC_MD5_RC4 \<and> kek_len (sm_ptk sm) = 16 then rc4_skip (k_key_iv k @ kek_bytes sm) 256 key_data
      else if ver = WPA_KEY_INFO_TYPE_HMAC_SHA1_AES \<or> ver = WPA_KEY_INFO_TYPE_AES_128_CMAC \<or> wpa_use_aes_key_wrap (sm_key_mgmt sm) then
        if length key_data < 8 \<or> length key_data mod 8 \<noteq> 0 then None
        else if \<not> env_alloc env then None
        else case aes_unwrap True (kek_bytes sm) ((length key_data - 8) div 8) key_data of (r, b) \<Rightarrow> if r = 0 then Some b else None
      else None)"

text \<open>The descriptor version fits the negotiated key management and ciphers.\<close>

definition version_ok :: "u16 \<Rightarrow> u16 \<Rightarrow> wpa_sm \<Rightarrow> bool" where
  "version_ok info ver sm \<longleftrightarrow>
     (ver = WPA_KEY_INFO_TYPE_HMAC_MD5_RC4 \<or> ver = WPA_KEY_INFO_TYPE_HMAC_SHA1_AES \<or> wpa_use_akm_defined (sm_key_mgmt sm)) \<and>
     (wpa_use_akm_defined (sm_key_mgmt sm) \<longrightarrow> ver = WPA_KEY_INFO_TYPE_AKM_DEFINED) \<and>
     (if sm_pairwise_cipher sm = WPA_CIPHER_CCMP \<and> \<not> wpa_use_akm_defined (sm_key_mgmt sm) \<and> ver \<noteq> WPA_KEY_INFO_TYPE_HMAC_SHA1_AES
      then sm_group_cipher sm \<noteq> WPA_CIPHER_CCMP \<and> \<not> has info WPA_KEY_INFO_KEY_TYPE \<or> ver = WPA_KEY_INFO_TYPE_AES_128_CMAC
      else \<not> (sm_pairwise_cipher sm = WPA_CIPHER_GCMP \<and> \<not> wpa_use_akm_defined (sm_key_mgmt sm) \<and> ver \<noteq> WPA_KEY_INFO_TYPE_HMAC_SHA1_AES))"

definition wpa_key_dispatch :: "wpa_env \<Rightarrow> bytes \<Rightarrow> wpa_eapol_key \<Rightarrow> u16 \<Rightarrow> bytes \<Rightarrow> wpa_sm \<Rightarrow> int \<times> wpa_sm" where
  "wpa_key_dispatch env src_addr k ver key_data sm =
     (let info = k_key_info k in
      if has info WPA_KEY_INFO_KEY_TYPE then
        if has info WPA_KEY_INFO_KEY_INDEX_MASK then (-1, sm)
        else if has info (WPA_KEY_INFO_MIC OR WPA_KEY_INFO_ENCR_KEY_DATA)
        then (1, wpa_supplicant_process_3_of_4 env k ver key_data sm)
        else (1, wpa_supplicant_process_1_of_4 env src_addr k ver key_data sm)
      else if sm_mic_len sm \<noteq> 0 \<and> has info WPA_KEY_INFO_MIC \<or> sm_mic_len sm = 0 \<and> has info WPA_KEY_INFO_ENCR_KEY_DATA
      then (1, wpa_supplicant_process_1_of_2 env k key_data ver sm)
      else (1, sm))"

text \<open>From the MIC on: authentic frames are decrypted and handed to their message.\<close>

definition wpa_key_process :: "wpa_env \<Rightarrow> bytes \<Rightarrow> wpa_eapol_key \<Rightarrow> u16 \<Rightarrow> bytes \<Rightarrow> bytes \<Rightarrow> wpa_sm \<Rightarrow> int \<times> wpa_sm" where
  "wpa_key_process env src_addr k ver frame key_data sm =
     (let info = k_key_info k;
          mic_len = sm_mic_len sm;
          (ok, sm) = (if has info WPA_KEY_INFO_MIC then wpa_supplicant_verify_eapol_key_mic k ver frame sm else (True, sm))
      in if \<not> ok then (-1, sm)
         else if is_rsn sm \<and> has info WPA_KEY_INFO_ENCR_KEY_DATA \<and> mic_len \<noteq> 0 then
           if \<not> has info WPA_KEY_INFO_MIC then (-1, sm)
           else case wpa_supplicant_decrypt_key_data env k ver key_data sm of
             None \<Rightarrow> (-1, sm)
           | Some key_data \<Rightarrow> wpa_key_dispatch env src_addr k ver key_data sm
         else wpa_key_dispatch env src_addr k ver key_data sm)"

definition wpa_sm_rx_eapol :: "wpa_env \<Rightarrow> bytes \<Rightarrow> bytes \<Rightarrow> wpa_sm \<Rightarrow> int \<times> wpa_sm" where
  "wpa_sm_rx_eapol env src_addr buf sm =
     (let mic_len = sm_mic_len sm; keyhdrlen = 77 + mic_len + 2 in
      if length buf < 4 + keyhdrlen then (0, sm)
      else
        let plen = unat (be16 (field buf 2 2)); data_len = plen + 4 in
        if buf ! 1 \<noteq> 3 then (0, sm)
        else if length buf - 4 < plen \<or> plen < keyhdrlen then (0, sm)
        else if \<not> env_alloc env then (-1, sm)
        else
          let tmp = take data_len buf; k = key_of tmp in
          if k_type k \<noteq> 254 \<and> k_type k \<noteq> 2 then (0, sm)
          else
            let key_data_len = unat (be16 (field tmp (81 + mic_len) 2)) in
            if plen - keyhdrlen < key_data_len then (-1, sm)
            else
              let sm = sm_emit Lower_layer_success sm;
                  info = k_key_info k;
                  ver = info AND WPA_KEY_INFO_TYPE_MASK
              in if \<not> version_ok info ver sm then (-1, sm)
                 else if sm_rx_replay_counter_set sm \<and> \<not> memcmp_less (sm_rx_replay_counter sm) (k_replay_counter k) then (-1, sm)
                 else if has info WPA_KEY_INFO_SMK_MESSAGE then (-1, sm)
                 else if \<not> has info WPA_KEY_INFO_ACK then (-1, sm)
                 else if has info WPA_KEY_INFO_REQUEST then (-1, sm)
                 else wpa_key_process env src_addr k ver tmp (field tmp (81 + mic_len + 2) key_data_len) sm)"

section \<open>Configuration and association\<close>

definition no_config :: rsn_supp_config where
  "no_config = \<lparr>c_network_ctx = 0, c_allowed_pairwise_cipher = 0, c_proactive_key_caching = False, c_eap_workaround = False,
     c_eap_conf_ctx = 0, c_ssid = [], c_wpa_ptk_rekey = 0, c_p2p = False, c_wpa_rsc_relaxation = False\<rparr>"

definition wpa_sm_init :: wpa_sm where
  "wpa_sm_init = \<lparr>sm_pmk = [], sm_ptk = zero_ptk, sm_tptk = zero_ptk, sm_ptk_set = False, sm_tptk_set = False,
     sm_msg_3_of_4_ok = False, sm_snonce = replicate 32 0, sm_anonce = replicate 32 0, sm_renew_snonce = True,
     sm_rx_replay_counter = replicate 8 0, sm_rx_replay_counter_set = False, sm_request_counter = replicate 8 0, sm_gtk = [],
     sm_gtk_wnm_sleep = [], sm_eapol = False, sm_pmksa = [], sm_pmksa_count = 0, sm_next_id = 0, sm_cur_pmksa = None,
     sm_candidates = False, sm_preauth_bssid = replicate 6 0, sm_config = no_config, sm_own_addr = replicate 6 0,
     sm_bssid = replicate 6 0, sm_PMKLifetime = 43200, sm_PMKReauthThreshold = 70, sm_SATimeout = 60, sm_4WayHandshakeFailures = 0,
     sm_proto = 0, sm_pairwise_cipher = 0, sm_group_cipher = 0, sm_key_mgmt = 0, sm_rsn_enabled = False, sm_mfp = 0, sm_ocv = 0,
     sm_assoc_wpa_ie = None, sm_ap_wpa_ie = None, sm_ap_rsn_ie = None, sm_state = WPA_DISCONNECTED, sm_expire_timer = None,
     sm_reauth_timer = None, sm_rekey_timer = None, sm_preauth_timer = None, sm_trace = []\<rparr>"

definition clear_keys :: "wpa_sm \<Rightarrow> wpa_sm" where
  "clear_keys sm = sm\<lparr>sm_ptk_set := False, sm_ptk := zero_ptk, sm_tptk_set := False, sm_tptk := zero_ptk, sm_gtk := [],
     sm_gtk_wnm_sleep := []\<rparr>"

definition wpa_sm_drop_sa :: "wpa_sm \<Rightarrow> wpa_sm" where
  "wpa_sm_drop_sa sm = (clear_keys sm)\<lparr>sm_pmk := []\<rparr>"

definition wpa_sm_notify_assoc :: "bytes \<Rightarrow> wpa_sm \<Rightarrow> wpa_sm" where
  "wpa_sm_notify_assoc bssid sm =
     (let sm = sm\<lparr>sm_bssid := take 6 bssid, sm_rx_replay_counter := replicate 8 0, sm_rx_replay_counter_set := False,
                  sm_renew_snonce := True\<rparr>;
          sm = (if sm_preauth_bssid sm = take 6 bssid then sm_emit Preauth_deinit sm else sm)
      in clear_keys sm)"

definition wpa_sm_notify_disassoc :: "wpa_sm \<Rightarrow> wpa_sm" where
  "wpa_sm_notify_disassoc sm =
     (let sm = sm_emit Preauth_deinit (sm\<lparr>sm_preauth_timer := None, sm_rekey_timer := None\<rparr>);
          sm = pmksa_cache_clear_current sm;
          sm = (if sm_state sm = WPA_4WAY_HANDSHAKE then sm\<lparr>sm_4WayHandshakeFailures := sm_4WayHandshakeFailures sm + 1\<rparr> else sm)
      in (wpa_sm_drop_sa sm)\<lparr>sm_msg_3_of_4_ok := False, sm_bssid := replicate 6 0\<rparr>)"

definition wpa_sm_set_pmk :: "int \<Rightarrow> bool \<Rightarrow> bytes \<Rightarrow> bytes option \<Rightarrow> bytes option \<Rightarrow> wpa_sm \<Rightarrow> wpa_sm" where
  "wpa_sm_set_pmk now mem pmk pmkid0 bssid sm =
     (let sm = sm\<lparr>sm_pmk := pmk\<rparr> in
      case bssid of
        None \<Rightarrow> sm
      | Some aa \<Rightarrow> snd (pmksa_cache_add now mem pmk pmkid0 None aa (sm_own_addr sm) (c_network_ctx (sm_config sm)) (sm_key_mgmt sm) None sm))"

definition wpa_sm_set_config :: "rsn_supp_config option \<Rightarrow> wpa_sm \<Rightarrow> wpa_sm" where
  "wpa_sm_set_config config sm = sm\<lparr>sm_config := (case config of None \<Rightarrow> no_config | Some c \<Rightarrow> c)\<rparr>"

definition wpa_sm_set_own_addr :: "bytes \<Rightarrow> wpa_sm \<Rightarrow> wpa_sm" where
  "wpa_sm_set_own_addr addr sm = sm\<lparr>sm_own_addr := take 6 addr\<rparr>"

definition wpa_sm_set_eapol :: "bool \<Rightarrow> wpa_sm \<Rightarrow> wpa_sm" where
  "wpa_sm_set_eapol eapol sm = sm\<lparr>sm_eapol := eapol\<rparr>"

datatype wpa_sm_conf_params = RSNA_PMK_LIFETIME | RSNA_PMK_REAUTH_THRESHOLD | RSNA_SA_TIMEOUT | WPA_PARAM_PROTO | WPA_PARAM_PAIRWISE |
  WPA_PARAM_GROUP | WPA_PARAM_KEY_MGMT | WPA_PARAM_MGMT_GROUP | WPA_PARAM_RSN_ENABLED | WPA_PARAM_MFP | WPA_PARAM_OCV

definition wpa_sm_set_param :: "wpa_sm_conf_params \<Rightarrow> u32 \<Rightarrow> wpa_sm \<Rightarrow> bool \<times> wpa_sm" where
  "wpa_sm_set_param param value sm =
     (case param of
        RSNA_PMK_LIFETIME \<Rightarrow> if 0 < value then (True, sm\<lparr>sm_PMKLifetime := value\<rparr>) else (False, sm)
      | RSNA_PMK_REAUTH_THRESHOLD \<Rightarrow>
          if 0 < value \<and> value \<le> 100 then (True, sm\<lparr>sm_PMKReauthThreshold := value\<rparr>) else (False, sm)
      | RSNA_SA_TIMEOUT \<Rightarrow> if 0 < value then (True, sm\<lparr>sm_SATimeout := value\<rparr>) else (False, sm)
      | WPA_PARAM_PROTO \<Rightarrow> (True, sm\<lparr>sm_proto := value\<rparr>)
      | WPA_PARAM_PAIRWISE \<Rightarrow> (True, sm\<lparr>sm_pairwise_cipher := value\<rparr>)
      | WPA_PARAM_GROUP \<Rightarrow> (True, sm\<lparr>sm_group_cipher := value\<rparr>)
      | WPA_PARAM_KEY_MGMT \<Rightarrow> (True, sm\<lparr>sm_key_mgmt := value\<rparr>)
      | WPA_PARAM_MGMT_GROUP \<Rightarrow> (True, sm)
      | WPA_PARAM_RSN_ENABLED \<Rightarrow> (True, sm\<lparr>sm_rsn_enabled := (value \<noteq> 0)\<rparr>)
      | WPA_PARAM_MFP \<Rightarrow> (True, sm\<lparr>sm_mfp := value\<rparr>)
      | WPA_PARAM_OCV \<Rightarrow> (True, sm\<lparr>sm_ocv := value\<rparr>))"

text \<open>An element of length 0 clears the stored one, as NULL does; without memory it is lost.\<close>

definition stored_ie :: "bool \<Rightarrow> bytes option \<Rightarrow> bool \<times> bytes option" where
  "stored_ie mem ie = (if ie = None \<or> ie = Some [] then (True, None) else if mem then (True, ie) else (False, None))"

definition wpa_sm_set_assoc_wpa_ie :: "bool \<Rightarrow> bytes option \<Rightarrow> wpa_sm \<Rightarrow> bool \<times> wpa_sm" where
  "wpa_sm_set_assoc_wpa_ie mem ie sm = (case stored_ie mem ie of (ok, ie) \<Rightarrow> (ok, sm\<lparr>sm_assoc_wpa_ie := ie\<rparr>))"

definition wpa_sm_set_ap_wpa_ie :: "bool \<Rightarrow> bytes option \<Rightarrow> wpa_sm \<Rightarrow> bool \<times> wpa_sm" where
  "wpa_sm_set_ap_wpa_ie mem ie sm = (case stored_ie mem ie of (ok, ie) \<Rightarrow> (ok, sm\<lparr>sm_ap_wpa_ie := ie\<rparr>))"

definition wpa_sm_set_ap_rsn_ie :: "bool \<Rightarrow> bytes option \<Rightarrow> wpa_sm \<Rightarrow> bool \<times> wpa_sm" where
  "wpa_sm_set_ap_rsn_ie mem ie sm = (case stored_ie mem ie of (ok, ie) \<Rightarrow> (ok, sm\<lparr>sm_ap_rsn_ie := ie\<rparr>))"

definition sm_ie_policy :: "wpa_sm \<Rightarrow> ie_policy" where
  "sm_ie_policy sm = \<lparr>ie_proto = sm_proto sm, ie_pairwise = sm_pairwise_cipher sm, ie_group = sm_group_cipher sm,
     ie_key_mgmt = sm_key_mgmt sm, ie_ocv = (sm_ocv sm \<noteq> 0), ie_pmkid = map_option e_pmkid (cur_entry sm)\<rparr>"

text \<open>The generated element, also the one of message 2/4 unless one was set before.\<close>

definition wpa_sm_set_assoc_wpa_ie_default :: "bool \<Rightarrow> nat \<Rightarrow> wpa_sm \<Rightarrow> bytes option \<times> wpa_sm" where
  "wpa_sm_set_assoc_wpa_ie_default mem ie_len sm =
     (case wpa_gen_wpa_ie ie_len (sm_ie_policy sm) of
        None \<Rightarrow> (None, sm)
      | Some ie \<Rightarrow>
          if sm_assoc_wpa_ie sm = None then if mem then (Some ie, sm\<lparr>sm_assoc_wpa_ie := Some ie\<rparr>) else (None, sm)
          else (Some ie, sm))"

definition wpa_sm_parse_own_wpa_ie :: "wpa_sm \<Rightarrow> wpa_ie_data parse" where
  "wpa_sm_parse_own_wpa_ie sm =
     (case sm_assoc_wpa_ie sm of
        None \<Rightarrow> Some (Inl (-1))
      | Some ie \<Rightarrow> map_option (\<lambda>r. case r of Inl _ \<Rightarrow> Inl (-2) | Inr d \<Rightarrow> Inr d) (wpa_parse_wpa_ie ie))"

definition ap_capabilities :: "wpa_sm \<Rightarrow> u16" where
  "ap_capabilities sm =
     (case sm_ap_rsn_ie sm of
        None \<Rightarrow> 0
      | Some ie \<Rightarrow> (case wpa_parse_wpa_ie_rsn ie of Some (Inr d) \<Rightarrow> capabilities d | _ \<Rightarrow> 0))"

definition wpa_sm_pmf_enabled :: "wpa_sm \<Rightarrow> bool" where
  "wpa_sm_pmf_enabled sm \<longleftrightarrow> sm_mfp sm \<noteq> 0 \<and> ap_capabilities sm AND (0x40 OR 0x80) \<noteq> 0"

definition wpa_sm_ocv_enabled :: "wpa_sm \<Rightarrow> bool" where
  "wpa_sm_ocv_enabled sm \<longleftrightarrow> sm_ocv sm \<noteq> 0 \<and> ap_capabilities sm AND WPA_CAPABILITY_OCVC \<noteq> 0"

definition wpa_sm_has_ptk :: "wpa_sm \<Rightarrow> bool" where
  "wpa_sm_has_ptk sm = sm_ptk_set sm"

definition wpa_sm_pmksa_exists :: "wpa_sm \<Rightarrow> bytes \<Rightarrow> nat \<Rightarrow> bool" where
  "wpa_sm_pmksa_exists sm bssid network_ctx \<longleftrightarrow> pmksa_cache_get sm (Some bssid) None network_ctx 0 \<noteq> None"

definition wpa_sm_aborted_cached :: "wpa_sm \<Rightarrow> wpa_sm" where
  "wpa_sm_aborted_cached sm = sm\<lparr>sm_cur_pmksa := None\<rparr>"

definition wpa_sm_pmksa_cache_add :: "int \<Rightarrow> bool \<Rightarrow> bytes \<Rightarrow> bytes option \<Rightarrow> bytes \<Rightarrow> bytes option \<Rightarrow> wpa_sm \<Rightarrow> wpa_sm" where
  "wpa_sm_pmksa_cache_add now mem pmk pmkid0 bssid cache_id sm =
     (case pmksa_cache_add now mem pmk pmkid0 None bssid (sm_own_addr sm) (c_network_ctx (sm_config sm)) (sm_key_mgmt sm) cache_id sm of
        (i, sm) \<Rightarrow> sm\<lparr>sm_cur_pmksa := i\<rparr>)"

definition wpa_sm_pmksa_cache_flush :: "int \<Rightarrow> nat \<Rightarrow> wpa_sm \<Rightarrow> wpa_sm" where
  "wpa_sm_pmksa_cache_flush now network_ctx sm = pmksa_cache_flush now network_ctx None sm"

definition wpa_sm_update_replay_ctr :: "bytes \<Rightarrow> wpa_sm \<Rightarrow> wpa_sm" where
  "wpa_sm_update_replay_ctr ctr sm = sm\<lparr>sm_rx_replay_counter := take 8 ctr\<rparr>"

definition wpa_sm_set_rx_replay_ctr :: "bytes option \<Rightarrow> wpa_sm \<Rightarrow> wpa_sm" where
  "wpa_sm_set_rx_replay_ctr ctr sm =
     (case ctr of None \<Rightarrow> sm | Some c \<Rightarrow> sm\<lparr>sm_rx_replay_counter := take 8 c, sm_rx_replay_counter_set := True\<rparr>)"

definition wpa_sm_set_ptk_kck_kek :: "bytes option \<Rightarrow> bytes option \<Rightarrow> wpa_sm \<Rightarrow> wpa_sm" where
  "wpa_sm_set_ptk_kck_kek ptk_kck ptk_kek sm =
     (let ptk = sm_ptk sm;
          ptk = (case ptk_kck of None \<Rightarrow> ptk
                 | Some v \<Rightarrow> if length v \<le> WPA_KCK_MAX_LEN then ptk\<lparr>kck := fill (kck ptk) v, kck_len := length v\<rparr> else ptk);
          ptk = (case ptk_kek of None \<Rightarrow> ptk
                 | Some v \<Rightarrow> if length v \<le> WPA_KEK_MAX_LEN then ptk\<lparr>kek := fill (kek ptk) v, kek_len := length v\<rparr> else ptk)
      in sm\<lparr>sm_ptk := ptk, sm_ptk_set := True\<rparr>)"

text \<open>The rekeying timer.\<close>

definition wpa_sm_rekey_ptk :: "wpa_env \<Rightarrow> wpa_sm \<Rightarrow> wpa_sm" where
  "wpa_sm_rekey_ptk env sm = wpa_sm_key_request env False True (sm\<lparr>sm_rekey_timer := None\<rparr>)"

end
