(* ===== verification/WpaSmProofs.thy ===== *)
theory WpaSmProofs
  imports WpaSm
begin

text \<open>
  What the handshake does with keys. \<open>key_view\<close> collects the pairwise keys, the flags and counters that protect them and the calls that
  install keys, draw nonces and open the port; every other step of the machine leaves it unchanged.
\<close>

section \<open>Steps that leave the keys alone\<close>

definition key_effect :: "sm_effect \<Rightarrow> bool" where
  "key_effect e \<longleftrightarrow> (case e of Set_key _ _ _ _ _ _ _ \<Rightarrow> True | Draw_snonce _ \<Rightarrow> True | Port_valid \<Rightarrow> True | _ \<Rightarrow> False)"

type_synonym key_view_t = "wpa_ptk \<times> wpa_ptk \<times> bool \<times> bool \<times> bool \<times> bytes \<times> bool \<times> sm_effect list"

definition key_view :: "wpa_sm \<Rightarrow> key_view_t" where
  "key_view sm = (sm_ptk sm, sm_tptk sm, sm_ptk_set sm, sm_tptk_set sm, sm_renew_snonce sm, sm_rx_replay_counter sm,
     sm_rx_replay_counter_set sm, filter key_effect (sm_trace sm))"

lemma key_view_emit [simp]: "\<not> key_effect e \<Longrightarrow> key_view (sm_emit e sm) = key_view sm"
  by (simp add: key_view_def sm_emit_def)

lemma key_effect_simps [simp]:
  "\<not> key_effect (Set_state s)" "\<not> key_effect (Deauthenticate r)" "\<not> key_effect (Ether_send d f)" "\<not> key_effect Tx_eapol_key"
  "\<not> key_effect (Add_pmkid n a b c)" "\<not> key_effect (Remove_pmkid n a b)" "\<not> key_effect (Mlme_setprotection a t)"
  "\<not> key_effect Eap_success" "\<not> key_effect Eapol_cached" "\<not> key_effect Request_reauth" "\<not> key_effect Lower_layer_success"
  "\<not> key_effect Cancel_auth_timeout" "\<not> key_effect (Rekey_offload a b c)" "\<not> key_effect (Key_mgmt_set_pmk a)"
  "\<not> key_effect Preauth_deinit" "key_effect (Set_key al ad i tx seq k ok)" "key_effect (Draw_snonce nonce)" "key_effect Port_valid"
  by (simp_all add: key_effect_def)

lemma key_view_update [simp]:
  "key_view (sm\<lparr>sm_state := x1\<rparr>) = key_view sm" "key_view (sm\<lparr>sm_bssid := x2\<rparr>) = key_view sm"
  "key_view (sm\<lparr>sm_pmk := x3\<rparr>) = key_view sm" "key_view (sm\<lparr>sm_cur_pmksa := x4\<rparr>) = key_view sm"
  "key_view (sm\<lparr>sm_pmksa := x5\<rparr>) = key_view sm" "key_view (sm\<lparr>sm_pmksa_count := x6\<rparr>) = key_view sm"
  "key_view (sm\<lparr>sm_next_id := x7\<rparr>) = key_view sm" "key_view (sm\<lparr>sm_expire_timer := x8\<rparr>) = key_view sm"
  "key_view (sm\<lparr>sm_reauth_timer := x9\<rparr>) = key_view sm" "key_view (sm\<lparr>sm_gtk := x10\<rparr>) = key_view sm"
  "key_view (sm\<lparr>sm_gtk_wnm_sleep := x11\<rparr>) = key_view sm" "key_view (sm\<lparr>sm_anonce := x12\<rparr>) = key_view sm"
  "key_view (sm\<lparr>sm_preauth_timer := x13\<rparr>) = key_view sm" "key_view (sm\<lparr>sm_msg_3_of_4_ok := x14\<rparr>) = key_view sm"
  "key_view (sm\<lparr>sm_ap_wpa_ie := x15\<rparr>) = key_view sm" "key_view (sm\<lparr>sm_ap_rsn_ie := x16\<rparr>) = key_view sm"
  "key_view (sm\<lparr>sm_request_counter := x17\<rparr>) = key_view sm" "key_view (sm\<lparr>sm_rekey_timer := x18\<rparr>) = key_view sm"
  by (simp_all add: key_view_def)

lemma key_view_calls [simp]:
  "key_view (wpa_sm_set_state s sm) = key_view sm" "key_view (wpa_sm_deauthenticate r sm) = key_view sm"
  "key_view (wpa_fail sm) = key_view sm" "key_view (wpa_report_ie_mismatch sm) = key_view sm"
  "key_view (rekey_offload sm) = key_view sm" "key_view (update_entry i f sm) = key_view sm"
  "key_view (wpa_sm_set_pmk_from_pmksa sm) = key_view sm" "key_view (wpa_supplicant_key_mgmt_set_pmk sm) = key_view sm"
  "key_view (pmksa_cache_clear_current sm) = key_view sm"
  by (simp_all add: wpa_sm_set_state_def wpa_sm_deauthenticate_def wpa_fail_def wpa_report_ie_mismatch_def rekey_offload_def
      update_entry_def wpa_sm_set_pmk_from_pmksa_def wpa_supplicant_key_mgmt_set_pmk_def pmksa_cache_clear_current_def)

lemma key_view_free [simp]: "key_view (pmksa_cache_free_entry e r sm) = key_view sm"
  by (simp add: pmksa_cache_free_entry_def wpa_sm_pmksa_free_cb_def Let_def)

lemma key_view_expiration [simp]: "key_view (pmksa_cache_set_expiration now sm) = key_view sm"
  by (simp add: pmksa_cache_set_expiration_def Let_def split: list.splits)

lemma key_view_expire_loop [simp]: "key_view (pmksa_expire_loop now sm) = key_view sm"
proof (induction now sm rule: pmksa_expire_loop.induct)
  case (1 now sm)
  then show ?case by (subst pmksa_expire_loop.simps) (simp split: list.splits)
qed

lemma key_view_flush [simp]: "key_view (pmksa_cache_flush now ctx pmk sm) = key_view sm"
proof -
  have "key_view (fst (pmksa_flush_loop m kept es sm r)) = key_view sm" for m kept es sm r
    by (induction m kept es sm r rule: pmksa_flush_loop.induct) simp_all
  from this [of "flush_match ctx pmk" "[]" "sm_pmksa sm" sm False] show ?thesis
    by (auto simp: pmksa_cache_flush_def split: prod.splits)
qed

lemma key_view_add_entry [simp]: "key_view (snd (pmksa_cache_add_entry now e sm)) = key_view sm"
proof -
  have room: "key_view (pmksa_make_room s) = key_view s" for s by (simp add: pmksa_make_room_def split: list.splits)
  have ins: "key_view (pmksa_insert now e s) = key_view s" for s by (simp add: pmksa_insert_def Let_def)
  show ?thesis
    by (simp add: pmksa_cache_add_entry_def Let_def room ins pmksa_replace_def split: list.splits)
qed

lemma key_view_add [simp]: "key_view (snd (pmksa_cache_add now mem pmk pmkid0 kck0 aa spa ctx akmp cid sm)) = key_view sm"
  by (simp add: pmksa_cache_add_def)

lemma key_view_send [simp]: "key_view (snd (wpa_eapol_key_send env ptk ver dest msg m sm)) = key_view sm"
  by (simp add: wpa_eapol_key_send_def Let_def split: option.splits)

lemma key_view_send_key [simp]: "key_view (snd (send_key env ptk ver dest k data m sm)) = key_view sm"
  by (simp add: send_key_def split: option.splits)

lemma key_view_messages [simp]:
  "key_view (snd (wpa_supplicant_send_2_of_4 env dst k ver nonce ie ptk sm)) = key_view sm"
  "key_view (snd (wpa_supplicant_send_4_of_4 env dst k ver info ptk sm)) = key_view sm"
  "key_view (snd (wpa_supplicant_send_2_of_2 env k ver info sm)) = key_view sm"
  by (simp_all add: wpa_supplicant_send_2_of_4_def wpa_supplicant_send_4_of_4_def wpa_supplicant_send_2_of_2_def Let_def
      split: option.splits)

lemma key_view_request [simp]: "key_view (wpa_sm_key_request env err pw sm) = key_view sm"
  by (simp add: wpa_sm_key_request_def Let_def split: option.splits)

lemma key_view_take_eap [simp]: "key_view (snd (take_eap_pmk env src p pmk ab sm)) = key_view sm"
proof -
  have "key_view (snd (cache_eap_pmk env src pmk s)) = key_view s" for s by (simp add: cache_eap_pmk_def)
  then show ?thesis by (simp add: take_eap_pmk_def Let_def case_prod_beta)
qed

lemma key_view_get_pmk [simp]: "key_view (snd (wpa_supplicant_get_pmk env src p sm)) = key_view sm"
proof -
  have "key_view (snd (match_pmkid src p s)) = key_view s" for s by (simp add: match_pmkid_def split: option.splits)
  moreover have "key_view (snd (pmk_source env src p ab s)) = key_view s" for ab s by (simp add: pmk_source_def split: option.splits)
  ultimately show ?thesis by (simp add: wpa_supplicant_get_pmk_def case_prod_beta split: option.splits)
qed

lemma key_view_validate [simp]: "key_view (snd (wpa_supplicant_validate_ie env w r sm)) = key_view sm"
proof -
  have "key_view (refresh_beacon_ie env sm) = key_view sm" by (simp add: refresh_beacon_ie_def split: option.splits prod.splits)
  then show ?thesis by (simp add: wpa_supplicant_validate_ie_def Let_def)
qed

section \<open>One installation per nonce\<close>

text \<open>
  A pairwise key installation is an accepted \<open>Set_key\<close> for a station address with the transmit flag; group keys never have both. The
  credit of a state: every nonce drawn pays for one installation, also while it is still to come (a PTK not yet installed, a temporary
  PTK, a nonce not yet used up).
\<close>

definition ptk_install :: "sm_effect \<Rightarrow> bool" where
  "ptk_install e \<longleftrightarrow> (case e of Set_key _ (Some _) _ True _ _ True \<Rightarrow> True | _ \<Rightarrow> False)"

definition snonce_draw :: "sm_effect \<Rightarrow> bool" where
  "snonce_draw e \<longleftrightarrow> (case e of Draw_snonce _ \<Rightarrow> True | _ \<Rightarrow> False)"

definition occurrences :: "('a \<Rightarrow> bool) \<Rightarrow> 'a list \<Rightarrow> nat" where
  "occurrences P xs = length (filter P xs)"

definition pending :: "wpa_ptk \<Rightarrow> nat" where
  "pending p = (if \<not> installed p \<and> tk_len p \<noteq> 0 then 1 else 0)"

definition credit :: "key_view_t \<Rightarrow> bool" where
  "credit v = (case v of (ptk, tptk, ptk_set, tptk_set, renew, counter, counter_set, effects) \<Rightarrow>
     occurrences ptk_install effects + pending ptk + (if tptk_set \<or> \<not> renew then 1 else 0) \<le> occurrences snonce_draw effects)"

abbreviation credit_ok :: "wpa_sm \<Rightarrow> bool" where
  "credit_ok sm \<equiv> credit (key_view sm)"

lemma occurrences_simps [simp]:
  "occurrences P [] = 0" "occurrences P (xs @ ys) = occurrences P xs + occurrences P ys"
  "occurrences P [x] = (if P x then 1 else 0)"
  by (simp_all add: occurrences_def)

lemma install_simps [simp]:
  "ptk_install (Set_key al ad i tx seq k ok) \<longleftrightarrow> ad \<noteq> None \<and> tx \<and> ok" "\<not> ptk_install Port_valid" "\<not> ptk_install (Draw_snonce r)"
  "\<not> snonce_draw (Set_key al ad i tx seq k ok)" "\<not> snonce_draw Port_valid" "snonce_draw (Draw_snonce r)"
  by (auto simp: ptk_install_def snonce_draw_def split: option.splits bool.splits)

lemma pending_le: "pending p \<le> 1"
  by (simp add: pending_def)

lemma credit_port [simp]: "credit_ok (sm_emit Port_valid sm) = credit_ok sm"
  by (simp add: credit_def key_view_def sm_emit_def)

lemma credit_group_key [simp]: "\<not> (ad \<noteq> None \<and> tx \<and> ok) \<Longrightarrow> credit_ok (sm_emit (Set_key al ad i tx seq k ok) sm) = credit_ok sm"
  by (auto simp: credit_def key_view_def sm_emit_def)

lemma credit_renew: "credit_ok sm \<Longrightarrow> credit_ok (sm\<lparr>sm_renew_snonce := True\<rparr>)"
  by (auto simp: credit_def key_view_def)

lemma credit_install_ptk: "credit_ok sm \<Longrightarrow> credit_ok (snd (wpa_supplicant_install_ptk env k sm))"
  by (auto simp: wpa_supplicant_install_ptk_def wpa_sm_set_key_def Let_def credit_def key_view_def sm_emit_def pending_def
      split: if_splits)

lemma credit_install_gtk:
  assumes "credit_ok sm" "sm_pairwise_cipher sm \<noteq> WPA_CIPHER_NONE \<longrightarrow> \<not> g_tx gd"
  shows "credit_ok (snd (wpa_supplicant_install_gtk env gd rsc wnm sm))"
  using assms by (simp add: wpa_supplicant_install_gtk_def wpa_sm_set_key_def Let_def)

lemma workaround_tx: "sm_pairwise_cipher sm \<noteq> WPA_CIPHER_NONE \<longrightarrow> \<not> wpa_supplicant_gtk_tx_bit_workaround sm tx"
  by (simp add: wpa_supplicant_gtk_tx_bit_workaround_def)

lemma credit_pairwise_gtk: "credit_ok sm \<Longrightarrow> credit_ok (snd (wpa_supplicant_pairwise_gtk env k g sm))"
  using workaround_tx [of sm] by (auto simp: wpa_supplicant_pairwise_gtk_def intro!: credit_install_gtk split: option.splits)

lemma credit_neg_complete [simp]: "credit_ok (wpa_supplicant_key_neg_complete env addr secure sm) = credit_ok sm"
proof -
  have "credit_ok (neg_secure env addr s) = credit_ok s" for s by (simp add: neg_secure_def Let_def)
  then show ?thesis by (simp add: wpa_supplicant_key_neg_complete_def Let_def split: option.splits)
qed

lemma credit_open_port [simp]: "credit_ok (open_port info sm) = credit_ok sm"
  by (simp add: open_port_def)

lemma credit_suite_b [simp]: "credit_ok (suite_b_cache env sm) = credit_ok sm"
  by (simp add: suite_b_cache_def case_prod_beta)

lemma credit_finish: 
  assumes "credit_ok sm"
  shows "credit_ok (finish_3_of_4 env k gtk sm)"
proof -
  have g: "credit_ok (snd (pairwise_group_key env k gtk s))" if "credit_ok s" for s
    using that credit_pairwise_gtk by (simp add: pairwise_group_key_def split: option.splits)
  have "credit_ok (wpa_sm_set_state WPA_GROUP_HANDSHAKE (open_port (k_key_info k) sm))" using assms by simp
  from g [OF this] show ?thesis by (auto simp: finish_3_of_4_def case_prod_beta Let_def)
qed

lemma credit_3_of_4:
  assumes "credit_ok sm"
  shows "credit_ok (wpa_supplicant_process_3_of_4 env k ver kd sm)"
proof -
  have "credit_ok (snd (if b then wpa_supplicant_install_ptk env k (s\<lparr>sm_renew_snonce := True\<rparr>) else (True, s\<lparr>sm_renew_snonce := True\<rparr>)))"
    if "credit_ok s" for s b using credit_install_ptk credit_renew [OF that] by simp
  then show ?thesis using assms
    by (simp add: wpa_supplicant_process_3_of_4_def case_prod_beta Let_def credit_finish)
qed

lemma credit_verify: "credit_ok sm \<Longrightarrow> credit_ok (snd (wpa_supplicant_verify_eapol_key_mic k ver frame sm))"
  using pending_le [of "sm_tptk sm"] by (auto simp: wpa_supplicant_verify_eapol_key_mic_def Let_def credit_def key_view_def)

lemma credit_renew_snonce:
  assumes "renew_snonce env sm = Some s" "credit_ok sm"
  shows "credit_ok s \<and> \<not> sm_renew_snonce s"
  using assms by (auto simp: renew_snonce_def credit_def key_view_def sm_emit_def split: if_splits)

lemma credit_tptk: "credit_ok sm \<Longrightarrow> \<not> sm_renew_snonce sm \<Longrightarrow> credit_ok (sm\<lparr>sm_tptk := p, sm_tptk_set := True\<rparr>)"
  by (simp add: credit_def key_view_def)

lemma credit_answer: "credit_ok sm \<Longrightarrow> \<not> sm_renew_snonce sm \<Longrightarrow> credit_ok (answer_1_of_4 env k ver sm)"
proof -
  assume *: "credit_ok sm" "\<not> sm_renew_snonce sm"
  have "credit_ok (sm\<lparr>sm_tptk := p\<rparr>)" for p using *(1) by (simp add: credit_def key_view_def)
  then show ?thesis using credit_tptk [OF *] by (simp add: answer_1_of_4_def case_prod_beta Let_def)
qed

lemma credit_1_of_4: "credit_ok sm \<Longrightarrow> credit_ok (wpa_supplicant_process_1_of_4 env src k ver kd sm)"
  using credit_renew_snonce by (auto simp: wpa_supplicant_process_1_of_4_def case_prod_beta Let_def intro!: credit_answer split: option.splits)

lemma credit_1_of_2: "credit_ok sm \<Longrightarrow> credit_ok (wpa_supplicant_process_1_of_2 env k kd ver sm)"
proof -
  assume *: "credit_ok sm"
  let ?sm = "wpa_sm_set_state WPA_GROUP_HANDSHAKE sm"
  have tx: "sm_pairwise_cipher ?sm \<noteq> WPA_CIPHER_NONE \<longrightarrow> \<not> g_tx gd"
    if "(if is_rsn sm then wpa_supplicant_process_1_of_2_rsn kd info sm else wpa_supplicant_process_1_of_2_wpa env k kd info ver sm) = Some gd"
    for gd info
    using that workaround_tx [of sm]
    by (auto simp: wpa_supplicant_process_1_of_2_rsn_def wpa_supplicant_process_1_of_2_wpa_def Let_def wpa_sm_set_state_def sm_emit_def
        split: if_splits option.splits prod.splits)
  have "credit_ok ?sm" using * by simp
  from credit_install_gtk [OF this tx] * show ?thesis
    by (simp add: wpa_supplicant_process_1_of_2_def case_prod_beta Let_def split: option.split)
qed

lemma credit_dispatch: "credit_ok sm \<Longrightarrow> credit_ok (snd (wpa_key_dispatch env src k ver kd sm))"
  by (simp add: wpa_key_dispatch_def Let_def credit_3_of_4 credit_1_of_4 credit_1_of_2)

lemma credit_process: "credit_ok sm \<Longrightarrow> credit_ok (snd (wpa_key_process env src k ver frame kd sm))"
  using credit_verify [of sm k ver frame]
  by (simp add: wpa_key_process_def case_prod_beta Let_def credit_dispatch split: option.split)

lemma credit_rx: "credit_ok sm \<Longrightarrow> credit_ok (snd (wpa_sm_rx_eapol env src buf sm))"
  by (simp add: wpa_sm_rx_eapol_def Let_def credit_process)

end
