(* ===== verification/WpaSmRun.thy ===== *)
theory WpaSmRun
  imports WpaSmProofs
begin

text \<open>
  Runs of the supplicant: any sequence of received frames, association events, timers and configuration calls. Invariants of one step
  hold in every run.
\<close>

section \<open>The cache in every step\<close>

lemma pmksa_inv_cong:
  "sm_pmksa sm' = sm_pmksa sm \<Longrightarrow> sm_next_id sm' = sm_next_id sm \<Longrightarrow> sm_pmksa_count sm' = sm_pmksa_count sm \<Longrightarrow>
   sm_cur_pmksa sm' = sm_cur_pmksa sm \<Longrightarrow> pmksa_inv sm' = pmksa_inv sm"
  by (simp add: pmksa_inv_def cache_ok_def)

lemma pmksa_inv_update [simp]:
  "pmksa_inv (sm\<lparr>sm_state := x1\<rparr>) = pmksa_inv sm" "pmksa_inv (sm\<lparr>sm_bssid := x2\<rparr>) = pmksa_inv sm"
  "pmksa_inv (sm\<lparr>sm_pmk := x3\<rparr>) = pmksa_inv sm" "pmksa_inv (sm\<lparr>sm_ptk := x4\<rparr>) = pmksa_inv sm"
  "pmksa_inv (sm\<lparr>sm_tptk := x5\<rparr>) = pmksa_inv sm" "pmksa_inv (sm\<lparr>sm_tptk_set := x6\<rparr>) = pmksa_inv sm"
  "pmksa_inv (sm\<lparr>sm_ptk_set := x7\<rparr>) = pmksa_inv sm" "pmksa_inv (sm\<lparr>sm_expire_timer := x8\<rparr>) = pmksa_inv sm"
  "pmksa_inv (sm\<lparr>sm_reauth_timer := x9\<rparr>) = pmksa_inv sm" "pmksa_inv (sm\<lparr>sm_gtk := x10\<rparr>) = pmksa_inv sm"
  "pmksa_inv (sm\<lparr>sm_gtk_wnm_sleep := x11\<rparr>) = pmksa_inv sm" "pmksa_inv (sm\<lparr>sm_anonce := x12\<rparr>) = pmksa_inv sm"
  "pmksa_inv (sm\<lparr>sm_preauth_timer := x13\<rparr>) = pmksa_inv sm" "pmksa_inv (sm\<lparr>sm_msg_3_of_4_ok := x14\<rparr>) = pmksa_inv sm"
  "pmksa_inv (sm\<lparr>sm_ap_wpa_ie := x15\<rparr>) = pmksa_inv sm" "pmksa_inv (sm\<lparr>sm_ap_rsn_ie := x16\<rparr>) = pmksa_inv sm"
  "pmksa_inv (sm\<lparr>sm_request_counter := x17\<rparr>) = pmksa_inv sm" "pmksa_inv (sm\<lparr>sm_rekey_timer := x18\<rparr>) = pmksa_inv sm"
  "pmksa_inv (sm\<lparr>sm_renew_snonce := x19\<rparr>) = pmksa_inv sm" "pmksa_inv (sm\<lparr>sm_snonce := x20\<rparr>) = pmksa_inv sm"
  "pmksa_inv (sm\<lparr>sm_rx_replay_counter := x21\<rparr>) = pmksa_inv sm" "pmksa_inv (sm\<lparr>sm_rx_replay_counter_set := x22\<rparr>) = pmksa_inv sm"
  "pmksa_inv (sm\<lparr>sm_4WayHandshakeFailures := x23\<rparr>) = pmksa_inv sm" "pmksa_inv (sm\<lparr>sm_trace := x24\<rparr>) = pmksa_inv sm"
  by (simp_all add: pmksa_inv_def cache_ok_def)

lemma pmksa_inv_calls [simp]:
  "pmksa_inv (sm_emit e sm) = pmksa_inv sm"
  "pmksa_inv (wpa_sm_set_state s sm) = pmksa_inv sm" "pmksa_inv (wpa_sm_deauthenticate r sm) = pmksa_inv sm"
  "pmksa_inv (wpa_fail sm) = pmksa_inv sm" "pmksa_inv (wpa_report_ie_mismatch sm) = pmksa_inv sm"
  "pmksa_inv (rekey_offload sm) = pmksa_inv sm" "pmksa_inv (open_port info sm) = pmksa_inv sm"
  "pmksa_inv (neg_secure env addr sm) = pmksa_inv sm"
  "pmksa_inv (wpa_sm_set_pmk_from_pmksa sm) = pmksa_inv sm" "pmksa_inv (wpa_supplicant_key_mgmt_set_pmk sm) = pmksa_inv sm"
  by (simp_all add: sm_emit_def wpa_sm_set_state_def wpa_sm_deauthenticate_def wpa_fail_def wpa_report_ie_mismatch_def rekey_offload_def
      open_port_def neg_secure_def Let_def wpa_sm_set_pmk_from_pmksa_def wpa_supplicant_key_mgmt_set_pmk_def)

lemma pmksa_inv_clear [simp]: "pmksa_inv sm \<Longrightarrow> pmksa_inv (sm\<lparr>sm_cur_pmksa := None\<rparr>)"
  by (simp add: pmksa_inv_def)

lemma pmksa_inv_send [simp]: "pmksa_inv (snd (wpa_eapol_key_send env ptk ver dest msg m sm)) = pmksa_inv sm"
  by (simp add: wpa_eapol_key_send_def Let_def split: option.splits)

lemma pmksa_inv_messages [simp]:
  "pmksa_inv (snd (send_key env ptk ver dest k data m sm)) = pmksa_inv sm"
  "pmksa_inv (snd (wpa_supplicant_send_2_of_4 env dst k ver nonce ie ptk sm)) = pmksa_inv sm"
  "pmksa_inv (snd (wpa_supplicant_send_4_of_4 env dst k ver info ptk sm)) = pmksa_inv sm"
  "pmksa_inv (snd (wpa_supplicant_send_2_of_2 env k ver info sm)) = pmksa_inv sm"
  by (simp_all add: send_key_def wpa_supplicant_send_2_of_4_def wpa_supplicant_send_4_of_4_def wpa_supplicant_send_2_of_2_def Let_def
      split: option.splits)

lemma pmksa_inv_request [simp]: "pmksa_inv (wpa_sm_key_request env err pw sm) = pmksa_inv sm"
  by (simp add: wpa_sm_key_request_def Let_def split: option.splits)

lemma pmksa_inv_add: "pmksa_inv sm \<Longrightarrow> pmksa_inv (snd (pmksa_cache_add now mem pmk p kc aa spa ctx akmp cid sm))"
  using add_ok [of sm now mem pmk p kc aa spa ctx akmp cid] by (metis prod.collapse)

lemma pmksa_inv_add_cur:
  assumes "pmksa_inv sm" "pmksa_cache_add now mem pmk p kc aa spa ctx akmp cid sm = (i, s)"
  shows "pmksa_inv (s\<lparr>sm_cur_pmksa := i\<rparr>)"
  using add_ok [OF assms] by (intro set_cur_ok) auto

lemma pmksa_inv_take_eap: 
  assumes "pmksa_inv sm"
  shows "pmksa_inv (snd (take_eap_pmk env src p pmk ab sm))"
proof -
  let ?s = "wpa_supplicant_key_mgmt_set_pmk (sm\<lparr>sm_pmk := pmk\<rparr>)"
  obtain i s where e: "cache_eap_pmk env src pmk ?s = (i, s)" by (cases "cache_eap_pmk env src pmk ?s") auto
  have "pmksa_inv ?s" using assms by simp
  then have "pmksa_inv s \<and> pmksa_inv (s\<lparr>sm_cur_pmksa := i\<rparr>)"
    using e pmksa_inv_add_cur [of ?s] pmksa_inv_add [of ?s] by (auto simp: cache_eap_pmk_def split: if_splits) (metis snd_conv)
  then show ?thesis by (simp add: take_eap_pmk_def e Let_def)
qed

lemma pmksa_inv_get_pmk: "pmksa_inv sm \<Longrightarrow> pmksa_inv (snd (wpa_supplicant_get_pmk env src p sm))"
proof -
  assume *: "pmksa_inv sm"
  have m: "pmksa_inv (snd (match_pmkid src p sm))"
    using * by (auto simp: match_pmkid_def pmksa_cache_get_def intro!: set_cur_ok dest: find_member split: option.splits)
  have "pmksa_inv (snd (pmk_source env src p ab s))" if "pmksa_inv s" for ab s
    using that pmksa_inv_take_eap by (simp add: pmk_source_def split: option.splits)
  from this [OF m] show ?thesis by (auto simp: wpa_supplicant_get_pmk_def case_prod_beta split: option.splits)
qed

lemma pmksa_inv_neg_complete: "pmksa_inv sm \<Longrightarrow> pmksa_inv (wpa_supplicant_key_neg_complete env addr secure sm)"
  using update_entry_ok [of "[]"]
  by (auto simp: wpa_supplicant_key_neg_complete_def Let_def simp flip: pmksa_inv_def split: option.splits)

lemma pmksa_inv_suite_b: "pmksa_inv sm \<Longrightarrow> pmksa_inv (suite_b_cache env sm)"
  using pmksa_inv_add_cur [of sm] pmksa_inv_add [of sm] by (auto simp: suite_b_cache_def split: prod.splits) (metis snd_conv)

lemma pmksa_inv_validate [simp]: "pmksa_inv (snd (wpa_supplicant_validate_ie env w r sm)) = pmksa_inv sm"
proof -
  have "pmksa_inv (refresh_beacon_ie env sm) = pmksa_inv sm" by (simp add: refresh_beacon_ie_def split: option.splits prod.splits)
  then show ?thesis by (simp add: wpa_supplicant_validate_ie_def Let_def)
qed

lemma pmksa_inv_install [simp]:
  "pmksa_inv (snd (wpa_supplicant_install_ptk env k sm)) = pmksa_inv sm"
  "pmksa_inv (snd (wpa_supplicant_install_gtk env gd rsc wnm sm)) = pmksa_inv sm"
  by (simp_all add: wpa_supplicant_install_ptk_def wpa_supplicant_install_gtk_def wpa_sm_set_key_def Let_def)

lemma pmksa_inv_group_key [simp]: "pmksa_inv (snd (pairwise_group_key env k gtk sm)) = pmksa_inv sm"
  by (simp add: pairwise_group_key_def wpa_supplicant_pairwise_gtk_def split: option.splits)

lemma pmksa_inv_finish: "pmksa_inv sm \<Longrightarrow> pmksa_inv (finish_3_of_4 env k gtk sm)"
  by (auto simp: finish_3_of_4_def case_prod_beta Let_def intro!: pmksa_inv_suite_b pmksa_inv_neg_complete)

lemma pmksa_inv_3_of_4: "pmksa_inv sm \<Longrightarrow> pmksa_inv (wpa_supplicant_process_3_of_4 env k ver kd sm)"
  by (simp add: wpa_supplicant_process_3_of_4_def case_prod_beta Let_def pmksa_inv_finish)

lemma pmksa_inv_1_of_4: "pmksa_inv sm \<Longrightarrow> pmksa_inv (wpa_supplicant_process_1_of_4 env src k ver kd sm)"
proof -
  have "pmksa_inv (answer_1_of_4 env k ver s) = pmksa_inv s" for s by (simp add: answer_1_of_4_def case_prod_beta Let_def)
  moreover have "renew_snonce env s = Some s' \<Longrightarrow> pmksa_inv s' = pmksa_inv s" for s s'
    by (auto simp: renew_snonce_def split: if_splits)
  ultimately show "pmksa_inv sm \<Longrightarrow> ?thesis"
    using pmksa_inv_get_pmk [of "wpa_sm_set_state WPA_4WAY_HANDSHAKE sm"]
    by (auto simp: wpa_supplicant_process_1_of_4_def case_prod_beta Let_def split: option.splits)
qed

lemma pmksa_inv_1_of_2: "pmksa_inv sm \<Longrightarrow> pmksa_inv (wpa_supplicant_process_1_of_2 env k kd ver sm)"
  by (simp add: wpa_supplicant_process_1_of_2_def case_prod_beta Let_def pmksa_inv_neg_complete split: option.split)

lemma pmksa_inv_rx: "pmksa_inv sm \<Longrightarrow> pmksa_inv (snd (wpa_sm_rx_eapol env src buf sm))"
proof -
  have v: "pmksa_inv (snd (wpa_supplicant_verify_eapol_key_mic k ver frame s)) = pmksa_inv s" for k ver frame s
    by (simp add: wpa_supplicant_verify_eapol_key_mic_def Let_def)
  have d: "pmksa_inv s \<Longrightarrow> pmksa_inv (snd (wpa_key_dispatch env src k ver kd s))" for k ver kd s
    by (simp add: wpa_key_dispatch_def Let_def pmksa_inv_3_of_4 pmksa_inv_1_of_4 pmksa_inv_1_of_2)
  have "pmksa_inv s \<Longrightarrow> pmksa_inv (snd (wpa_key_process env src k ver frame kd s))" for k ver frame kd s
    by (simp add: wpa_key_process_def case_prod_beta Let_def v d split: option.split)
  then show "pmksa_inv sm \<Longrightarrow> ?thesis" by (simp add: wpa_sm_rx_eapol_def Let_def)
qed

section \<open>Runs\<close>

text \<open>\<open>Link_state\<close> is a state change by \<^verbatim>\<open>wpa_supplicant\<close> itself, \<open>Candidates\<close> one of the preauthentication candidate list.\<close>

datatype sm_op =
    Rx_eapol wpa_env bytes bytes
  | Notify_assoc bytes
  | Notify_disassoc
  | Set_pmk int bool bytes "bytes option" "bytes option"
  | Set_pmk_from_pmksa
  | Set_config "rsn_supp_config option"
  | Set_own_addr bytes
  | Set_eapol bool
  | Set_param wpa_sm_conf_params u32
  | Set_assoc_wpa_ie bool "bytes option"
  | Set_assoc_wpa_ie_default bool nat
  | Set_ap_wpa_ie bool "bytes option"
  | Set_ap_rsn_ie bool "bytes option"
  | Drop_sa
  | Aborted_cached
  | Cache_add int bool bytes "bytes option" bytes "bytes option"
  | Cache_flush int nat
  | Cache_set_current int bool "bytes option" "bytes option" nat bool "bytes option" u32
  | Cache_expire int
  | Cache_reauth
  | Update_replay_ctr bytes
  | Set_rx_replay_ctr "bytes option"
  | Set_ptk_kck_kek "bytes option" "bytes option"
  | Key_request wpa_env bool bool
  | Rekey_ptk wpa_env
  | Link_state wpa_states
  | Candidates bool

fun sm_step :: "wpa_sm \<Rightarrow> sm_op \<Rightarrow> wpa_sm" where
  "sm_step sm (Rx_eapol env src buf) = snd (wpa_sm_rx_eapol env src buf sm)"
| "sm_step sm (Notify_assoc bssid) = wpa_sm_notify_assoc bssid sm"
| "sm_step sm Notify_disassoc = wpa_sm_notify_disassoc sm"
| "sm_step sm (Set_pmk now mem pmk p bssid) = wpa_sm_set_pmk now mem pmk p bssid sm"
| "sm_step sm Set_pmk_from_pmksa = wpa_sm_set_pmk_from_pmksa sm"
| "sm_step sm (Set_config c) = wpa_sm_set_config c sm"
| "sm_step sm (Set_own_addr a) = wpa_sm_set_own_addr a sm"
| "sm_step sm (Set_eapol e) = wpa_sm_set_eapol e sm"
| "sm_step sm (Set_param p v) = snd (wpa_sm_set_param p v sm)"
| "sm_step sm (Set_assoc_wpa_ie mem ie) = snd (wpa_sm_set_assoc_wpa_ie mem ie sm)"
| "sm_step sm (Set_assoc_wpa_ie_default mem n) = snd (wpa_sm_set_assoc_wpa_ie_default mem n sm)"
| "sm_step sm (Set_ap_wpa_ie mem ie) = snd (wpa_sm_set_ap_wpa_ie mem ie sm)"
| "sm_step sm (Set_ap_rsn_ie mem ie) = snd (wpa_sm_set_ap_rsn_ie mem ie sm)"
| "sm_step sm Drop_sa = wpa_sm_drop_sa sm"
| "sm_step sm Aborted_cached = wpa_sm_aborted_cached sm"
| "sm_step sm (Cache_add now mem pmk p bssid cid) = wpa_sm_pmksa_cache_add now mem pmk p bssid cid sm"
| "sm_step sm (Cache_flush now ctx) = wpa_sm_pmksa_cache_flush now ctx sm"
| "sm_step sm (Cache_set_current now mem p bssid ctx opp cid akmp) = snd (pmksa_cache_set_current now mem p bssid ctx opp cid akmp sm)"
| "sm_step sm (Cache_expire now) = pmksa_cache_expire now sm"
| "sm_step sm Cache_reauth = pmksa_cache_reauth sm"
| "sm_step sm (Update_replay_ctr c) = wpa_sm_update_replay_ctr c sm"
| "sm_step sm (Set_rx_replay_ctr c) = wpa_sm_set_rx_replay_ctr c sm"
| "sm_step sm (Set_ptk_kck_kek k e) = wpa_sm_set_ptk_kck_kek k e sm"
| "sm_step sm (Key_request env err pw) = wpa_sm_key_request env err pw sm"
| "sm_step sm (Rekey_ptk env) = wpa_sm_rekey_ptk env sm"
| "sm_step sm (Link_state s) = sm\<lparr>sm_state := s\<rparr>"
| "sm_step sm (Candidates c) = sm\<lparr>sm_candidates := c\<rparr>"

definition sm_run :: "sm_op list \<Rightarrow> wpa_sm" where
  "sm_run ops = foldl sm_step wpa_sm_init ops"

locale machine_invariant =
  fixes init :: 's and step :: "'s \<Rightarrow> 'o \<Rightarrow> 's" and I :: "'s \<Rightarrow> bool"
  assumes at_init: "I init"
    and kept: "I s \<Longrightarrow> I (step s a)"
begin

lemma run_kept: "I s \<Longrightarrow> I (foldl step s as)"
  by (induction as arbitrary: s) (simp_all add: kept)

lemma every_run: "I (foldl step init as)"
  by (rule run_kept [OF at_init])

end

text \<open>Credit: the keys are cleared, never revived, by association and configuration.\<close>

lemma credit_clear: "credit_ok sm \<Longrightarrow> credit_ok (clear_keys sm)"
  by (auto simp: credit_def key_view_def clear_keys_def pending_def zero_ptk_def split: if_splits)

lemma key_view_opportunistic [simp]: "key_view (snd (pmksa_cache_get_opportunistic now mem ctx aa akmp sm)) = key_view sm"
proof -
  have "key_view (snd (pmksa_cache_clone_entry now mem old aa s)) = key_view s" for old s
  proof (cases "pmksa_cache_add now mem (e_pmk old) None None aa (sm_own_addr s) (e_network_ctx old) (e_akmp old) (e_fils_cache_id old) s")
    case (Pair i s')
    then have "key_view s' = key_view s" using key_view_add by (metis snd_conv)
    then show ?thesis by (simp add: pmksa_cache_clone_entry_def Pair split: option.splits)
  qed
  then show ?thesis by (simp add: pmksa_cache_get_opportunistic_def split: option.splits)
qed

lemma key_view_set_current [simp]: "key_view (snd (pmksa_cache_set_current now mem p bssid ctx opp cid akmp sm)) = key_view sm"
proof -
  have u: "key_view (if b then s\<lparr>sm_cur_pmksa := x\<rparr> else s) = key_view s" for b s x by simp
  have o: "key_view (if b then (case pmksa_cache_get_opportunistic now mem ctx aa akmp s of (i, s') \<Rightarrow> s'\<lparr>sm_cur_pmksa := i\<rparr>) else s) = key_view s"
    for b aa s by (simp add: case_prod_beta)
  show ?thesis by (simp only: pmksa_cache_set_current_def Let_def snd_conv u o key_view_update)
qed

lemma key_view_config [simp]:
  "key_view (wpa_sm_set_pmk now mem pmk p bssid sm) = key_view sm" "key_view (wpa_sm_set_config c sm) = key_view sm"
  "key_view (wpa_sm_set_own_addr a sm) = key_view sm" "key_view (wpa_sm_set_eapol e sm) = key_view sm"
  "key_view (snd (wpa_sm_set_param par v sm)) = key_view sm" "key_view (snd (wpa_sm_set_assoc_wpa_ie mem ie sm)) = key_view sm"
  "key_view (snd (wpa_sm_set_ap_wpa_ie mem ie sm)) = key_view sm" "key_view (snd (wpa_sm_set_ap_rsn_ie mem ie sm)) = key_view sm"
  "key_view (wpa_sm_aborted_cached sm) = key_view sm" "key_view (wpa_sm_pmksa_cache_flush now ctx sm) = key_view sm"
  "key_view (pmksa_cache_expire now sm) = key_view sm" "key_view (pmksa_cache_reauth sm) = key_view sm"
  "key_view (wpa_sm_rekey_ptk env sm) = key_view sm" "key_view (sm\<lparr>sm_candidates := cand\<rparr>) = key_view sm"
  "key_view (wpa_sm_pmksa_cache_add now mem pmk p aa cid sm) = key_view sm"
  "key_view (snd (wpa_sm_set_assoc_wpa_ie_default mem n sm)) = key_view sm"
  by (simp_all add: wpa_sm_set_pmk_def wpa_sm_aborted_cached_def wpa_sm_pmksa_cache_flush_def pmksa_cache_expire_def
      pmksa_cache_reauth_def wpa_sm_rekey_ptk_def wpa_sm_pmksa_cache_add_def case_prod_beta Let_def
      wpa_sm_set_assoc_wpa_ie_def wpa_sm_set_ap_wpa_ie_def wpa_sm_set_ap_rsn_ie_def wpa_sm_set_assoc_wpa_ie_default_def split: option.splits)
    (simp_all add: key_view_def wpa_sm_set_config_def wpa_sm_set_own_addr_def wpa_sm_set_eapol_def wpa_sm_set_param_def
      split: wpa_sm_conf_params.splits)

lemma credit_set_keys:
  assumes "credit_ok sm"
  shows "credit_ok (wpa_sm_update_replay_ctr c sm)" "credit_ok (wpa_sm_set_rx_replay_ctr cc sm)"
    "credit_ok (wpa_sm_set_ptk_kck_kek k e sm)"
proof -
  show "credit_ok (wpa_sm_update_replay_ctr c sm)" "credit_ok (wpa_sm_set_rx_replay_ctr cc sm)"
    using assms by (auto simp: wpa_sm_update_replay_ctr_def wpa_sm_set_rx_replay_ctr_def credit_def key_view_def split: option.splits)
  have "credit_ok (sm\<lparr>sm_ptk := p, sm_ptk_set := True\<rparr>)" if "pending p = pending (sm_ptk sm)" for p
    using assms that by (simp add: credit_def key_view_def)
  then show "credit_ok (wpa_sm_set_ptk_kck_kek k e sm)"
    by (simp add: wpa_sm_set_ptk_kck_kek_def Let_def pending_def split: option.split)
qed

lemma credit_step: "credit_ok sm \<Longrightarrow> credit_ok (sm_step sm a)"
proof (cases a)
  case (Notify_assoc bssid)
  assume *: "credit_ok sm"
  then have "credit_ok (sm\<lparr>sm_bssid := b, sm_rx_replay_counter := c, sm_rx_replay_counter_set := d, sm_renew_snonce := True\<rparr>)" for b c d
    by (auto simp: credit_def key_view_def)
  then show ?thesis using Notify_assoc by (simp add: wpa_sm_notify_assoc_def Let_def credit_clear)
next
  case Notify_disassoc
  assume *: "credit_ok sm"
  have f: "key_view (s\<lparr>sm_4WayHandshakeFailures := x\<rparr>) = key_view s" for s x by (simp add: key_view_def)
  have "credit_ok (wpa_sm_drop_sa s)" if "credit_ok s" for s using credit_clear [OF that] by (simp add: wpa_sm_drop_sa_def)
  then show ?thesis using * Notify_disassoc by (simp add: wpa_sm_notify_disassoc_def Let_def f)
qed (simp_all add: credit_rx wpa_sm_drop_sa_def credit_clear credit_set_keys)

interpretation credit_run: machine_invariant wpa_sm_init sm_step credit_ok
  by unfold_locales (simp_all add: credit_step, simp add: credit_def key_view_def wpa_sm_init_def pending_def zero_ptk_def)

lemma pmksa_inv_config [simp]:
  "pmksa_inv (wpa_sm_set_config c sm) = pmksa_inv sm" "pmksa_inv (wpa_sm_set_own_addr a sm) = pmksa_inv sm"
  "pmksa_inv (wpa_sm_set_eapol e sm) = pmksa_inv sm" "pmksa_inv (snd (wpa_sm_set_param par v sm)) = pmksa_inv sm"
  "pmksa_inv (snd (wpa_sm_set_assoc_wpa_ie mem ie sm)) = pmksa_inv sm" "pmksa_inv (snd (wpa_sm_set_ap_wpa_ie mem ie sm)) = pmksa_inv sm"
  "pmksa_inv (snd (wpa_sm_set_ap_rsn_ie mem ie sm)) = pmksa_inv sm" "pmksa_inv (clear_keys sm) = pmksa_inv sm"
  "pmksa_inv (wpa_sm_update_replay_ctr b sm) = pmksa_inv sm" "pmksa_inv (wpa_sm_set_rx_replay_ctr bo sm) = pmksa_inv sm"
  "pmksa_inv (wpa_sm_set_ptk_kck_kek k ke sm) = pmksa_inv sm" "pmksa_inv (wpa_sm_rekey_ptk env sm) = pmksa_inv sm"
  "pmksa_inv (sm\<lparr>sm_candidates := cand\<rparr>) = pmksa_inv sm" "pmksa_inv (wpa_sm_notify_assoc b sm) = pmksa_inv sm"
  "pmksa_inv (snd (wpa_sm_set_assoc_wpa_ie_default mem n sm)) = pmksa_inv sm"
  by (simp_all add: wpa_sm_set_assoc_wpa_ie_def wpa_sm_set_ap_wpa_ie_def wpa_sm_set_ap_rsn_ie_def wpa_sm_rekey_ptk_def case_prod_beta)
    (rule pmksa_inv_cong; simp add: wpa_sm_set_config_def wpa_sm_set_own_addr_def wpa_sm_set_eapol_def wpa_sm_set_param_def
      clear_keys_def wpa_sm_update_replay_ctr_def wpa_sm_set_rx_replay_ctr_def wpa_sm_set_ptk_kck_kek_def Let_def
      wpa_sm_notify_assoc_def sm_emit_def wpa_sm_set_assoc_wpa_ie_default_def split: wpa_sm_conf_params.splits option.splits)+

lemma pmksa_inv_step: "pmksa_inv sm \<Longrightarrow> pmksa_inv (sm_step sm a)"
proof (cases a)
  case (Cache_add now mem pmk p bssid cid)
  then show "pmksa_inv sm \<Longrightarrow> ?thesis" using pmksa_inv_add_cur by (auto simp: wpa_sm_pmksa_cache_add_def split: prod.splits)
next
  case (Cache_expire now)
  have "pmksa_inv (pmksa_cache_set_expiration now s) = pmksa_inv s" "pmksa_inv s \<Longrightarrow> pmksa_inv (pmksa_expire_loop now s)" for s
    by (simp_all add: pmksa_inv_def expire_loop_ok)
  then show "pmksa_inv sm \<Longrightarrow> ?thesis" using Cache_expire by (simp add: pmksa_cache_expire_def)
next
  case (Cache_flush now ctx)
  then show "pmksa_inv sm \<Longrightarrow> ?thesis" using flush_ok [of "[]"] by (simp add: wpa_sm_pmksa_cache_flush_def flip: pmksa_inv_def)
next
  case Notify_disassoc
  have "pmksa_inv (wpa_sm_drop_sa s) = pmksa_inv s" for s by (simp add: wpa_sm_drop_sa_def)
  then show "pmksa_inv sm \<Longrightarrow> ?thesis" using Notify_disassoc
    by (simp add: wpa_sm_notify_disassoc_def Let_def pmksa_cache_clear_current_def)
qed (simp_all add: pmksa_inv_rx wpa_sm_drop_sa_def wpa_sm_set_pmk_def Let_def pmksa_inv_add set_current_ok pmksa_cache_reauth_def
    wpa_sm_aborted_cached_def split: option.split)

interpretation cache_run: machine_invariant wpa_sm_init sm_step pmksa_inv
  by unfold_locales (simp_all add: pmksa_inv_step, simp add: pmksa_inv_def cache_ok_def wpa_sm_init_def)

section \<open>Properties of runs\<close>

lemma key_events_kept:
  "occurrences ptk_install (filter key_effect tr) = occurrences ptk_install tr"
  "occurrences snonce_draw (filter key_effect tr) = occurrences snonce_draw tr"
proof (induction tr)
  case (Cons e tr)
  have "\<not> key_effect e \<Longrightarrow> \<not> ptk_install e \<and> \<not> snonce_draw e"
    by (cases e) (simp_all add: ptk_install_def snonce_draw_def)
  then show "occurrences ptk_install (filter key_effect (e # tr)) = occurrences ptk_install (e # tr)"
    "occurrences snonce_draw (filter key_effect (e # tr)) = occurrences snonce_draw (e # tr)"
    using Cons by (auto simp: occurrences_def)
qed (simp_all add: occurrences_def)

text \<open>
  C3: in every run, however frames are lost, repeated or forged and whatever the driver answers, the supplicant installs at most as
  many pairwise keys as it has drawn nonces: every installation belongs to a temporary PTK with a nonce of its own, and a
  retransmitted message 3/4 does not install the same key again.
\<close>

theorem ptk_installed_once:
  "occurrences ptk_install (sm_trace (sm_run ops)) \<le> occurrences snonce_draw (sm_trace (sm_run ops))"
proof -
  have "credit_ok (sm_run ops)" unfolding sm_run_def by (rule credit_run.every_run)
  then show ?thesis by (simp add: credit_def key_view_def key_events_kept)
qed

text \<open>
  C4: in every run the PMKSA cache has at most 32 entries, one per authenticator, the counter is their number, and the current entry,
  which the handshake dereferences, is one of them: freeing, replacing, evicting, flushing or expiring entries never leaves it
  dangling.
\<close>

theorem pmksa_cache_sound:
  "length (sm_pmksa (sm_run ops)) \<le> 32 \<and> sm_pmksa_count (sm_run ops) = int (length (sm_pmksa (sm_run ops))) \<and>
   distinct (map e_aa (sm_pmksa (sm_run ops))) \<and> distinct (map e_id (sm_pmksa (sm_run ops))) \<and>
   (sm_cur_pmksa (sm_run ops) = None \<or> (\<exists>e. cur_entry (sm_run ops) = Some e \<and> e \<in> set (sm_pmksa (sm_run ops))))"
proof -
  have inv: "pmksa_inv (sm_run ops)" unfolding sm_run_def by (rule cache_run.every_run)
  have found: "\<exists>e. find (\<lambda>e. e_id e = i) es = Some e \<and> e \<in> set es" if "i \<in> e_id ` set es" for i es
    using that by (metis (mono_tags, lifting) find_None_iff find_member imageE option.exhaust)
  then show ?thesis using inv by (cases "sm_cur_pmksa (sm_run ops)") (simp_all add: pmksa_inv_def cache_ok_def cur_entry_def Let_def found)
qed

end
