(* ===== verification/WpaSmAuth.thy ===== *)
theory WpaSmAuth
  imports WpaSmProofs
begin

text \<open>
  Which frames may install keys. \<open>grant\<close>s are the calls that give an attacker something: keys in the driver and the opened port.
\<close>

section \<open>Grants and counters\<close>

definition grant :: "sm_effect \<Rightarrow> bool" where
  "grant e \<longleftrightarrow> (case e of Set_key _ _ _ _ _ _ _ \<Rightarrow> True | Port_valid \<Rightarrow> True | _ \<Rightarrow> False)"

definition grants :: "wpa_sm \<Rightarrow> sm_effect list" where
  "grants sm = filter grant (sm_trace sm)"

text \<open>The parts of the view the claims compare.\<close>

definition guard_view :: "key_view_t \<Rightarrow> wpa_ptk \<times> sm_effect list" where
  "guard_view v = (case v of (ptk, _, _, _, _, _, _, effects) \<Rightarrow> (ptk, filter grant effects))"

definition counter_view :: "key_view_t \<Rightarrow> bytes \<times> bool" where
  "counter_view v = (case v of (_, _, _, _, _, counter, counter_set, _) \<Rightarrow> (counter, counter_set))"

lemma guard_view_eq: "guard_view (key_view sm) = (sm_ptk sm, grants sm)"
proof -
  have "filter grant (filter key_effect tr) = filter grant tr" for tr
    by (induction tr) (auto simp: grant_def key_effect_def split: sm_effect.splits)
  then show ?thesis by (simp add: guard_view_def key_view_def grants_def)
qed

lemma counter_view_eq: "counter_view (key_view sm) = (sm_rx_replay_counter sm, sm_rx_replay_counter_set sm)"
  by (simp add: counter_view_def key_view_def)

lemma counter_emit [simp]: "counter_view (key_view (sm_emit e sm)) = counter_view (key_view sm)"
  by (simp add: counter_view_def key_view_def sm_emit_def)

lemma counter_keys [simp]:
  "counter_view (key_view (sm\<lparr>sm_ptk := p\<rparr>)) = counter_view (key_view sm)"
  "counter_view (key_view (sm\<lparr>sm_renew_snonce := b\<rparr>)) = counter_view (key_view sm)"
  by (simp_all add: counter_view_def key_view_def)

lemma counter_install [simp]:
  "counter_view (key_view (snd (wpa_supplicant_install_ptk env k sm))) = counter_view (key_view sm)"
  "counter_view (key_view (snd (wpa_supplicant_install_gtk env gd rsc wnm sm))) = counter_view (key_view sm)"
  by (simp_all add: wpa_supplicant_install_ptk_def wpa_supplicant_install_gtk_def wpa_sm_set_key_def Let_def)

lemma counter_group_key [simp]: "counter_view (key_view (snd (pairwise_group_key env k gtk sm))) = counter_view (key_view sm)"
  by (simp add: pairwise_group_key_def wpa_supplicant_pairwise_gtk_def split: option.splits)

lemma counter_neg_complete [simp]:
  "counter_view (key_view (wpa_supplicant_key_neg_complete env addr secure sm)) = counter_view (key_view sm)"
  by (simp add: wpa_supplicant_key_neg_complete_def neg_secure_def Let_def split: option.splits)

lemma counter_finish [simp]: "counter_view (key_view (finish_3_of_4 env k gtk sm)) = counter_view (key_view sm)"
proof -
  have "counter_view (key_view (suite_b_cache env s)) = counter_view (key_view s)" for s
    by (simp add: suite_b_cache_def case_prod_beta)
  moreover have "counter_view (key_view (open_port info s)) = counter_view (key_view s)" for info s by (simp add: open_port_def)
  ultimately show ?thesis by (simp add: finish_3_of_4_def case_prod_beta Let_def)
qed

lemma counter_3_of_4 [simp]: "counter_view (key_view (wpa_supplicant_process_3_of_4 env k ver kd sm)) = counter_view (key_view sm)"
  by (simp add: wpa_supplicant_process_3_of_4_def case_prod_beta Let_def)

lemma counter_1_of_2 [simp]: "counter_view (key_view (wpa_supplicant_process_1_of_2 env k kd ver sm)) = counter_view (key_view sm)"
  by (simp add: wpa_supplicant_process_1_of_2_def case_prod_beta Let_def split: option.split)

text \<open>Message 1/4 grants nothing: it only prepares the temporary PTK.\<close>

lemma renew_views:
  assumes "renew_snonce env sm = Some s"
  shows "guard_view (key_view s) = guard_view (key_view sm)" "counter_view (key_view s) = counter_view (key_view sm)"
  using assms by (auto simp: renew_snonce_def guard_view_def counter_view_def key_view_def sm_emit_def grant_def split: if_splits)

lemma answer_views:
  "guard_view (key_view (answer_1_of_4 env k ver sm)) = guard_view (key_view sm)"
  "counter_view (key_view (answer_1_of_4 env k ver sm)) = counter_view (key_view sm)"
proof -
  have "guard_view (key_view (sm\<lparr>sm_tptk := p\<rparr>)) = guard_view (key_view sm)"
    "guard_view (key_view (sm\<lparr>sm_tptk := p, sm_tptk_set := True\<rparr>)) = guard_view (key_view sm)"
    "counter_view (key_view (sm\<lparr>sm_tptk := p\<rparr>)) = counter_view (key_view sm)"
    "counter_view (key_view (sm\<lparr>sm_tptk := p, sm_tptk_set := True\<rparr>)) = counter_view (key_view sm)" for p
    by (simp_all add: guard_view_def counter_view_def key_view_def)
  then show "guard_view (key_view (answer_1_of_4 env k ver sm)) = guard_view (key_view sm)"
    "counter_view (key_view (answer_1_of_4 env k ver sm)) = counter_view (key_view sm)"
    by (simp_all add: answer_1_of_4_def case_prod_beta Let_def)
qed

lemma message_1_views:
  "guard_view (key_view (wpa_supplicant_process_1_of_4 env src k ver kd sm)) = guard_view (key_view sm)"
  "counter_view (key_view (wpa_supplicant_process_1_of_4 env src k ver kd sm)) = counter_view (key_view sm)"
  by (auto simp: wpa_supplicant_process_1_of_4_def case_prod_beta Let_def answer_views renew_views split: option.splits)

section \<open>Authentic frames\<close>

text \<open>The MIC of the frame is right under the temporary or the current PTK of the state.\<close>

definition authentic :: "wpa_sm \<Rightarrow> u16 \<Rightarrow> bytes \<Rightarrow> bool" where
  "authentic sm ver frame \<longleftrightarrow>
     sm_tptk_set sm \<and> mic_matches (sm_tptk sm) (sm_key_mgmt sm) ver (sm_mic_len sm) frame \<or>
     sm_ptk_set sm \<and> mic_matches (sm_ptk sm) (sm_key_mgmt sm) ver (sm_mic_len sm) frame"

lemma verify_authentic: "fst (wpa_supplicant_verify_eapol_key_mic k ver frame sm) \<longleftrightarrow> authentic sm ver frame"
  by (auto simp: wpa_supplicant_verify_eapol_key_mic_def authentic_def Let_def)

lemma verify_rejected: "\<not> authentic sm ver frame \<Longrightarrow> snd (wpa_supplicant_verify_eapol_key_mic k ver frame sm) = sm"
  by (auto simp: wpa_supplicant_verify_eapol_key_mic_def authentic_def Let_def)

lemma verify_counter:
  "authentic sm ver frame \<Longrightarrow>
   counter_view (key_view (snd (wpa_supplicant_verify_eapol_key_mic k ver frame sm))) = (k_replay_counter k, True)"
  by (auto simp: wpa_supplicant_verify_eapol_key_mic_def authentic_def Let_def counter_view_eq)

lemma verify_policy [simp]:
  "is_rsn (snd (wpa_supplicant_verify_eapol_key_mic k ver frame sm)) = is_rsn sm"
  "sm_mic_len (snd (wpa_supplicant_verify_eapol_key_mic k ver frame sm)) = sm_mic_len sm"
  by (simp_all add: wpa_supplicant_verify_eapol_key_mic_def Let_def is_rsn_def sm_mic_len_def)

lemma dispatch_counter:
  "counter_view (key_view (snd (wpa_key_dispatch env src k ver kd sm))) = counter_view (key_view sm)"
  by (simp add: wpa_key_dispatch_def Let_def message_1_views)

lemma has_or: "has info (a OR b) \<longleftrightarrow> has info a \<or> has info b"
  by (simp add: has_def bit.conj_disj_distrib or_eq_0_iff)

text \<open>Without MIC and encryption only message 1/4 is left.\<close>

lemma dispatch_unauthentic:
  assumes "\<not> has (k_key_info k) WPA_KEY_INFO_MIC" "\<not> has (k_key_info k) WPA_KEY_INFO_ENCR_KEY_DATA"
  shows "guard_view (key_view (snd (wpa_key_dispatch env src k ver kd sm))) = guard_view (key_view sm)"
  using assms by (simp add: wpa_key_dispatch_def Let_def has_or message_1_views)

lemma process_authentic:
  assumes "is_rsn sm" "sm_mic_len sm \<noteq> 0"
    "guard_view (key_view (snd (wpa_key_process env src k ver frame kd sm))) \<noteq> guard_view (key_view sm)"
  shows "has (k_key_info k) WPA_KEY_INFO_MIC \<and> authentic sm ver frame \<and>
         counter_view (key_view (snd (wpa_key_process env src k ver frame kd sm))) = (k_replay_counter k, True)"
proof (cases "has (k_key_info k) WPA_KEY_INFO_MIC")
  case False
  then show ?thesis using assms dispatch_unauthentic [OF False]
    by (simp add: wpa_key_process_def Let_def split: if_splits)
next
  case True
  have auth: "authentic sm ver frame"
    using assms(3) True verify_authentic [of k ver frame sm] verify_rejected [of sm ver frame k]
    by (auto simp: wpa_key_process_def case_prod_beta Let_def)
  let ?s = "snd (wpa_supplicant_verify_eapol_key_mic k ver frame sm)"
  have "counter_view (key_view (snd (wpa_key_process env src k ver frame kd sm))) = counter_view (key_view ?s)"
    using True auth verify_authentic [of k ver frame sm]
    by (simp add: wpa_key_process_def case_prod_beta Let_def dispatch_counter split: option.split)
  then show ?thesis using True auth verify_counter by simp
qed

definition rx_frame :: "bytes \<Rightarrow> bytes" where
  "rx_frame buf = take (unat (be16 (field buf 2 2)) + 4) buf"

definition rx_version :: "bytes \<Rightarrow> u16" where
  "rx_version buf = k_key_info (key_of (rx_frame buf)) AND WPA_KEY_INFO_TYPE_MASK"

lemma emit_policy [simp]:
  "is_rsn (sm_emit e sm) = is_rsn sm" "sm_mic_len (sm_emit e sm) = sm_mic_len sm" "authentic (sm_emit e sm) ver frame = authentic sm ver frame"
  by (simp_all add: sm_emit_def is_rsn_def sm_mic_len_def authentic_def)

text \<open>A frame that changes the guarded state passed the replay check and was processed.\<close>

lemma rx_processed:
  assumes "guard_view (key_view (snd (wpa_sm_rx_eapol env src buf sm))) \<noteq> guard_view (key_view sm)"
  shows "(sm_rx_replay_counter_set sm \<longrightarrow> memcmp_less (sm_rx_replay_counter sm) (k_replay_counter (key_of (rx_frame buf)))) \<and>
         (\<exists>kd. wpa_sm_rx_eapol env src buf sm =
            wpa_key_process env src (key_of (rx_frame buf)) (rx_version buf) (rx_frame buf) kd (sm_emit Lower_layer_success sm))"
proof -
  have view: "key_view (sm_emit Lower_layer_success sm) = key_view sm" by simp
  have fields: "sm_rx_replay_counter (sm_emit Lower_layer_success sm) = sm_rx_replay_counter sm"
    "sm_rx_replay_counter_set (sm_emit Lower_layer_success sm) = sm_rx_replay_counter_set sm" by (simp_all add: sm_emit_def)
  show ?thesis using assms unfolding wpa_sm_rx_eapol_def Let_def rx_frame_def [symmetric] rx_version_def [symmetric] fields
    by (auto split: if_splits simp: view)
qed

end
