(* ===== verification/Handshake.thy ===== *)
theory Handshake
  imports WpaSmAuth
begin

text \<open>
  A whole 4-way handshake: an authenticator with the same master key sends messages 1/4 and 3/4, and the supplicant ends with the
  same pairwise key and the group key in the driver. At the end, what only an authenticated frame can do in a network with RSN.
\<close>

section \<open>Frames\<close>

definition eapol_frame :: "u8 \<Rightarrow> wpa_eapol_key \<Rightarrow> bytes \<Rightarrow> bytes \<Rightarrow> bytes" where
  "eapol_frame v k mic d =
     [v, 3] @ put_be16 (of_nat (79 + length mic + length d)) @ put_key k @ mic @ put_be16 (of_nat (length d)) @ d"

definition key_wf :: "wpa_eapol_key \<Rightarrow> bool" where
  "key_wf k \<longleftrightarrow> length (k_key_length k) = 2 \<and> length (k_replay_counter k) = 8 \<and> length (k_key_nonce k) = 32 \<and>
     length (k_key_iv k) = 16 \<and> length (k_key_rsc k) = 8 \<and> length (k_key_id k) = 8"

lemma length_put_be16' [simp]: "length (put_be16 w) = 2"
  by (simp add: put_be16_def)

lemma length_put_key [simp]: "key_wf k \<Longrightarrow> length (put_key k) = 77"
  by (simp add: put_key_def key_wf_def)

lemma be16_put [simp]: "be16 (put_be16 w) = w"
proof -
  have "push_bit 8 (ucast (ucast (drop_bit 8 w) :: u8)) OR ucast (ucast w :: u8) = (w :: u16)"
    by (rule bit_word_eqI) (auto simp: bit_simps)
  then show ?thesis by (simp add: be16_def put_be16_def)
qed

lemma field_skip: "length a \<le> pos \<Longrightarrow> field (a @ b) pos n = field b (pos - length a) n"
  by (simp add: field_def)

lemma field_here: "length a = n \<Longrightarrow> field (a @ b) 0 n = a"
  by (simp add: field_def)

lemma frame_fields:
  assumes "key_wf k" "length mic = 16" "length d < 60000"
  shows "length (eapol_frame v k mic d) = 99 + length d"
    and "unat (be16 (field (eapol_frame v k mic d) 2 2)) = 95 + length d"
    and "field (eapol_frame v k mic d) 81 16 = mic"
    and "unat (be16 (field (eapol_frame v k mic d) 97 2)) = length d"
    and "field (eapol_frame v k mic d) 99 (length d) = d"
    and "eapol_frame v k mic d ! 1 = 3"
proof -
  have small: "unat (of_nat n :: u16) = n" if "n < 65536" for n using that by (simp add: unat_of_nat)
  show "length (eapol_frame v k mic d) = 99 + length d" using assms by (simp add: eapol_frame_def)
  have a: "field (eapol_frame v k mic d) 2 2 = put_be16 (of_nat (79 + length mic + length d))"
    by (simp add: eapol_frame_def field_def put_be16_def)
  have b: "eapol_frame v k mic d = ([v, 3] @ put_be16 (of_nat (79 + length mic + length d)) @ put_key k) @ (mic @ put_be16 (of_nat (length d)) @ d)"
    by (simp add: eapol_frame_def)
  have l: "length ([v, 3] @ put_be16 (of_nat (79 + length mic + length d)) @ put_key k) = 81" using assms(1) by simp
  show "unat (be16 (field (eapol_frame v k mic d) 2 2)) = 95 + length d"
    unfolding a be16_put using assms small [of "95 + length d"] by simp
  show "field (eapol_frame v k mic d) 81 16 = mic" unfolding b using l assms(2) by (simp add: field_def)
  have "field (eapol_frame v k mic d) 97 2 = put_be16 (of_nat (length d))" unfolding b using l assms(2) by (simp add: field_def)
  then show "unat (be16 (field (eapol_frame v k mic d) 97 2)) = length d" using small assms(3) by simp
  show "field (eapol_frame v k mic d) 99 (length d) = d" unfolding b using l assms(2) by (simp add: field_def)
  show "eapol_frame v k mic d ! 1 = 3" by (simp add: eapol_frame_def)
qed

lemma key_of_frame: "key_wf k \<Longrightarrow> key_of (eapol_frame v k mic d) = k"
proof -
  assume "key_wf k"
  moreover have "field (put_be16 w @ t) 0 2 = put_be16 w" "drop (Suc (Suc 0)) (put_be16 w @ t) = t" for w t
    by (simp_all add: field_def put_be16_def)
  ultimately show ?thesis
    by (cases k) (simp add: key_of_def eapol_frame_def put_key_def key_wf_def field_def nth_append numeral_2_eq_2 [symmetric])
qed

text \<open>Zeroing the MIC field of a frame.\<close>

lemma frame_zero_mic:
  assumes "key_wf k" "length mic = 16"
  shows "take 81 (eapol_frame v k mic d) @ replicate 16 0 @ drop (81 + 16) (eapol_frame v k mic d) = eapol_frame v k (replicate 16 0) d"
proof -
  have b: "eapol_frame v k m d = ([v, 3] @ put_be16 (of_nat (79 + length m + length d)) @ put_key k) @ (m @ put_be16 (of_nat (length d)) @ d)" for m
    by (simp add: eapol_frame_def)
  have l: "length ([v, 3] @ put_be16 (of_nat (79 + length mic + length d)) @ put_key k) = 81" using assms(1) by simp
  show ?thesis unfolding b using l assms(2) by simp
qed

section \<open>The authenticator\<close>

text \<open>
  The peer of the handshake, as IEEE 802.11 describes it: it has the same PMK, derives the PTK with the arguments in its own order, wraps
  the key data with the KEK and signs the frame with the KCK.
\<close>

definition ap_ptk :: "bytes \<Rightarrow> bytes \<Rightarrow> bytes \<Rightarrow> bytes \<Rightarrow> bytes \<Rightarrow> wpa_ptk" where
  "ap_ptk pmk aa spa anonce snonce =
     snd (wpa_pmk_to_ptk pmk ptk_label aa spa anonce snonce zero_ptk WPA_KEY_MGMT_PSK WPA_CIPHER_CCMP None)"

definition ap_key :: "u16 \<Rightarrow> bytes \<Rightarrow> bytes \<Rightarrow> wpa_eapol_key" where
  "ap_key info counter anonce = \<lparr>k_type = 2, k_key_info = info, k_key_length = [0, 16], k_replay_counter = counter,
     k_key_nonce = anonce, k_key_iv = replicate 16 0, k_key_rsc = replicate 8 0, k_key_id = replicate 8 0\<rparr>"

definition message_1 :: "bytes \<Rightarrow> bytes \<Rightarrow> bytes" where
  "message_1 counter anonce = eapol_frame 2 (ap_key 0x8a counter anonce) (replicate 16 0) []"

definition gtk_kde :: "u8 \<Rightarrow> bytes \<Rightarrow> bytes" where
  "gtk_kde idx gtk = [0xdd, 22, 0x00, 0x0f, 0xac, 1, idx, 0] @ gtk"

definition kde_padding :: "nat \<Rightarrow> bytes" where
  "kde_padding n = (if n mod 8 = 0 then [] else 0xdd # replicate (7 - n mod 8) 0)"

definition key_data_3 :: "bytes \<Rightarrow> u8 \<Rightarrow> bytes \<Rightarrow> bytes" where
  "key_data_3 rsn idx gtk = rsn @ gtk_kde idx gtk @ kde_padding (length rsn + 24)"

definition signed_frame :: "u8 \<Rightarrow> wpa_ptk \<Rightarrow> wpa_eapol_key \<Rightarrow> bytes \<Rightarrow> bytes" where
  "signed_frame v ptk k d =
     eapol_frame v k (the (wpa_eapol_key_mic (take 16 (kck ptk)) WPA_KEY_MGMT_PSK WPA_KEY_INFO_TYPE_HMAC_SHA1_AES
       (eapol_frame v k (replicate 16 0) d))) d"

definition message_3 :: "wpa_ptk \<Rightarrow> bytes \<Rightarrow> bytes \<Rightarrow> bytes \<Rightarrow> u8 \<Rightarrow> bytes \<Rightarrow> bytes" where
  "message_3 ptk counter anonce rsn idx gtk =
     (let d = key_data_3 rsn idx gtk
      in signed_frame 2 ptk (ap_key 0x13ca counter anonce) (snd (aes_wrap True (take 16 (kek ptk)) (length d div 8) d)))"

lemma length_gtk_kde [simp]: "length (gtk_kde idx gtk) = 8 + length gtk"
  by (simp add: gtk_kde_def)

lemma key_data_blocks: "length gtk = 16 \<Longrightarrow> length (key_data_3 rsn idx gtk) mod 8 = 0 \<and> length (key_data_3 rsn idx gtk) \<le> length rsn + 31"
  by (simp add: key_data_3_def kde_padding_def) presburger

lemma ap_key_wf: "length counter = 8 \<Longrightarrow> length anonce = 32 \<Longrightarrow> key_wf (ap_key info counter anonce)"
  by (simp add: key_wf_def ap_key_def)

section \<open>MICs\<close>

lemma hmac_mic:
  assumes "length key = 16" "length buf < 100000"
  shows "\<exists>mic. wpa_eapol_key_mic key akmp WPA_KEY_INFO_TYPE_HMAC_SHA1_AES buf = Some mic \<and> length mic = 16"
  using assms hmac_sha1_ref [of "[buf]" key]
  by (simp add: wpa_eapol_key_mic_def descriptor_versions hmac_sha1_def hmac_ref_def) 

lemma signed_mic:
  assumes "16 \<le> length (kck ptk)" "key_wf k" "length d < 60000"
  obtains mic where "length mic = 16" "signed_frame v ptk k d = eapol_frame v k mic d"
    "wpa_eapol_key_mic (take 16 (kck ptk)) WPA_KEY_MGMT_PSK WPA_KEY_INFO_TYPE_HMAC_SHA1_AES (eapol_frame v k (replicate 16 0) d) = Some mic"
proof -
  have "length (eapol_frame v k (replicate 16 0) d) < 100000" using frame_fields(1) [OF assms(2) _ assms(3)] assms(3) by simp
  from hmac_mic [OF _ this, of "take 16 (kck ptk)" WPA_KEY_MGMT_PSK] assms(1) that show ?thesis by (auto simp: signed_frame_def)
qed

text \<open>A frame signed with a KCK passes the check with the same KCK.\<close>

lemma signed_matches:
  assumes "16 \<le> length (kck ptk)" "key_wf k" "length d < 60000" "kck_len p = 16" "take 16 (kck p) = take 16 (kck ptk)"
  shows "mic_matches p WPA_KEY_MGMT_PSK WPA_KEY_INFO_TYPE_HMAC_SHA1_AES 16 (signed_frame v ptk k d)"
proof -
  obtain mic where m: "length mic = 16" "signed_frame v ptk k d = eapol_frame v k mic d"
    "wpa_eapol_key_mic (take 16 (kck ptk)) WPA_KEY_MGMT_PSK WPA_KEY_INFO_TYPE_HMAC_SHA1_AES (eapol_frame v k (replicate 16 0) d) = Some mic"
    using signed_mic [OF assms(1-3)] by blast
  have "take 16 (fill (replicate 16 0) mic) = mic" using take_fill [of mic] m(1) by metis
  then show ?thesis
    using frame_zero_mic [OF assms(2) m(1), of v d] frame_fields(3) [OF assms(2) m(1) assms(3), of v]
    by (simp add: mic_matches_def m(2,3) assms(4,5))
qed

section \<open>Key wrap\<close>

lemma wrap_some:
  assumes "length kek0 = 16" "length plain = 8 * n"
  shows "fst (aes_wrap True kek0 n plain) = 0 \<and> length (snd (aes_wrap True kek0 n plain)) = 8 * (n + 1)"
proof -
  obtain e where e: "aes_encrypt_init True kek0 = Some e"
    using assms(1) by (simp add: aes_encrypt_init_def rijndaelKeySetupEnc_def)
  obtain d where d: "aes_decrypt_init True kek0 = Some d" using e aes.init_together [of True kek0] by auto
  have "wrap_wf n (replicate 8 0xa6, plain)" using assms(2) by (simp add: wrap_wf_def)
  from aes.wrap_undo(3) [OF e d this] show ?thesis
    using assms(2) by (simp add: aes_wrap_def e Let_def wrap_wf_def case_prod_beta)
qed

section \<open>Key data of message 3/4\<close>

lemma parse_padding:
  assumes "pos + length (kde_padding n) = length buf" "drop pos buf = kde_padding n"
  shows "kde_loop buf pos ie = Some (True, ie)"
proof (cases "length (kde_padding n) \<le> 1")
  case True
  then have "length buf - pos \<le> 1" using assms(1) by linarith
  then show ?thesis by (subst kde_loop.simps) simp
next
  case False
  then obtain m where p: "kde_padding n = 0xdd # 0 # replicate m 0"
    by (cases "7 - n mod 8") (auto simp: kde_padding_def split: if_splits)
  have "buf ! (pos + i) = kde_padding n ! i" if "i < length (kde_padding n)" for i
    using nth_drop [of pos buf i] that assms by simp
  from this [of 0] this [of 1] have "buf ! pos = 0xdd" "buf ! (pos + 1) = 0" by (simp_all add: p)
  then show ?thesis using False assms(1) by (subst kde_loop.simps) (simp add: rdb_def)
qed

text \<open>The RSN element of the beacon: the element number, its length, its body.\<close>

definition rsn_element :: "bytes \<Rightarrow> bool" where
  "rsn_element rsn \<longleftrightarrow> 2 \<le> length rsn \<and> rsn ! 0 = WLAN_EID_RSN \<and> unat (rsn ! 1) + 2 = length rsn"

lemma rsn_element_length: "rsn_element rsn \<Longrightarrow> length rsn \<le> 257"
  using unsigned_less [of "rsn ! 1", where 'a = nat] by (simp add: rsn_element_def)

lemma group_selector:
  "RSN_KEY_DATA_GROUPKEY \<noteq> WPA_OUI_TYPE" "RSN_KEY_DATA_GROUPKEY \<noteq> RSN_KEY_DATA_PMKID"
  "get_be32 [0, 0x0f, 0xac, 1] = RSN_KEY_DATA_GROUPKEY" "get_be24 [0, 0x0f, 0xac] \<noteq> OUI_MICROSOFT"
  by code_simp+

lemma parse_gtk_kde:
  assumes "buf = pre @ gtk_kde idx gtk @ post" "length gtk = 16"
  shows "kde_loop buf (length pre) ie = kde_loop buf (length pre + 24) (ie\<lparr>kde_gtk := Some (length pre + 6), kde_gtk_len := 18\<rparr>)"
proof -
  let ?p = "length pre"
  have "buf ! (?p + i) = gtk_kde idx gtk ! i" if "i < 8" for i using that assms by (simp add: nth_append)
  from this [of 0] this [of 1] have b: "buf ! ?p = 0xdd" "buf ! (?p + 1) = 22" by (simp_all add: gtk_kde_def)
  have len: "?p + 24 \<le> length buf" "5 < length buf - ?p" "24 \<le> length buf - ?p" using assms by simp_all
  have sel: "take 4 (drop (?p + 2) buf) = [0, 0x0f, 0xac, 1]" "take 3 (drop (?p + 2) buf) = [0, 0x0f, 0xac]"
    using assms by (simp_all add: gtk_kde_def)
  have r: "rdb buf ?p = Some 0xdd" "rdb buf (?p + 1) = Some 22" using len b by simp_all
  have "wpa_parse_generic buf ?p ie = Some (False, ie\<lparr>kde_gtk := Some (?p + 6), kde_gtk_len := 18\<rparr>)"
    using len by (simp add: wpa_parse_generic_def r wpa_oui_kde_def andalso_def sel_is_Some sel group_selector
      del: add_2_eq_Suc' One_nat_def rdb_Some)
  moreover have "wpa_parse_vendor_specific buf ?p ie' = Some (False, ie')" for ie'
    using len by (simp add: wpa_parse_vendor_specific_def r andalso_def rd_Some sel group_selector
      del: add_2_eq_Suc' One_nat_def rdb_Some)
  ultimately have "kde_vendor buf ?p ie = Some (False, ie\<lparr>kde_gtk := Some (?p + 6), kde_gtk_len := 18\<rparr>)"
    by (simp add: kde_vendor_def)
  then show ?thesis using len
    by (subst kde_loop.simps) (simp add: r WLAN_EID_VENDOR_SPECIFIC_def del: add_2_eq_Suc' One_nat_def rdb_Some)
qed

lemma parse_key_data_3:
  assumes "rsn_element rsn" "length gtk = 16"
  shows "parse_kdes (key_data_3 rsn idx gtk) =
    (True, no_kde\<lparr>kde_rsn_ie := Some 0, kde_rsn_ie_len := length rsn, kde_gtk := Some (length rsn + 6), kde_gtk_len := 18\<rparr>)"
proof -
  let ?buf = "key_data_3 rsn idx gtk" and ?n = "length rsn"
  have len: "?n + 24 + length (kde_padding (?n + 24)) = length ?buf" using assms(2) by (simp add: key_data_3_def)
  have two: "2 \<le> ?n" using assms(1) by (simp add: rsn_element_def)
  have r: "rdb ?buf 0 = Some WLAN_EID_RSN" "rdb ?buf 1 = Some (rsn ! 1)"
    using assms(1) two len by (auto simp: rsn_element_def key_data_3_def nth_append)
  have u: "2 + unat (rsn ! 1) = ?n" using assms(1) by (simp add: rsn_element_def)
  have "kde_loop ?buf 0 no_kde = kde_loop ?buf ?n (no_kde\<lparr>kde_rsn_ie := Some 0, kde_rsn_ie_len := ?n\<rparr>)"
    using two len u by (subst kde_loop.simps)
      (simp add: r kde_element_def WLAN_EID_VENDOR_SPECIFIC_def WLAN_EID_RSN_def add.commute del: add_2_eq_Suc' One_nat_def rdb_Some)
  also have "\<dots> = kde_loop ?buf (?n + 24)
      (no_kde\<lparr>kde_rsn_ie := Some 0, kde_rsn_ie_len := ?n, kde_gtk := Some (?n + 6), kde_gtk_len := 18\<rparr>)"
    by (rule parse_gtk_kde [OF _ assms(2)]) (simp add: key_data_3_def)
  also have "\<dots> = Some (True, no_kde\<lparr>kde_rsn_ie := Some 0, kde_rsn_ie_len := ?n, kde_gtk := Some (?n + 6), kde_gtk_len := 18\<rparr>)"
    by (rule parse_padding [of _ "?n + 24"]) (use len assms(2) in \<open>simp_all add: key_data_3_def\<close>)
  finally show ?thesis by (simp add: parse_kdes_def wpa_supplicant_parse_ies_def)
qed

lemma key_data_3_parts:
  assumes "length gtk = 16"
  shows "at (key_data_3 rsn idx gtk) (Some 0) (length rsn) = Some rsn"
    "at (key_data_3 rsn idx gtk) (Some (length rsn + 6)) 18 = Some ([idx, 0] @ gtk)"
  using assms by (simp_all add: at_def key_data_3_def gtk_kde_def)

section \<open>Receiving\<close>

text \<open>A station configured for WPA2-PSK with CCMP, and calls that all succeed.\<close>

definition psk_link :: "wpa_sm \<Rightarrow> bytes \<Rightarrow> bool" where
  "psk_link sm rsn \<longleftrightarrow>
     sm_proto sm = WPA_PROTO_RSN \<and> sm_key_mgmt sm = WPA_KEY_MGMT_PSK \<and> sm_pairwise_cipher sm = WPA_CIPHER_CCMP \<and>
     sm_group_cipher sm = WPA_CIPHER_CCMP \<and> length (sm_pmk sm) = 32 \<and> length (sm_own_addr sm) = 6 \<and>
     (\<exists>ie. sm_assoc_wpa_ie sm = Some ie \<and> length ie \<le> 257) \<and> sm_ap_rsn_ie sm = Some rsn"

definition working :: "wpa_env \<Rightarrow> bool" where
  "working env \<longleftrightarrow> env_alloc env \<and> env_network_ctx env \<noteq> 0 \<and> env_send env = (\<lambda>_ _. True) \<and>
     env_set_key env = (\<lambda>_ _ _ _ _ _. True)"

lemma psk_facts:
  "wpa_mic_len WPA_KEY_MGMT_PSK n = 16" "wpa_kck_len WPA_KEY_MGMT_PSK n = 16" "wpa_kek_len WPA_KEY_MGMT_PSK n = 16"
  "\<not> wpa_use_akm_defined WPA_KEY_MGMT_PSK" "\<not> wpa_use_aes_key_wrap WPA_KEY_MGMT_PSK"
  "\<not> wpa_key_mgmt_wpa_ieee8021x WPA_KEY_MGMT_PSK" "wpa_key_mgmt_wpa_psk WPA_KEY_MGMT_PSK"
  "\<not> wpa_key_mgmt_suite_b WPA_KEY_MGMT_PSK" "\<not> wpa_key_mgmt_sha256 WPA_KEY_MGMT_PSK" "\<not> wpa_key_mgmt_sha384 WPA_KEY_MGMT_PSK"
  "WPA_KEY_MGMT_PSK \<noteq> WPA_KEY_MGMT_OWE"
  by (simp_all add: wpa_mic_len_def wpa_kck_len_def wpa_kek_len_def wpa_use_akm_defined_def wpa_use_aes_key_wrap_def
      wpa_key_mgmt_wpa_ieee8021x_def wpa_key_mgmt_wpa_psk_def wpa_key_mgmt_suite_b_def wpa_key_mgmt_sha256_def wpa_key_mgmt_sha384_def
      wpa_key_mgmt_ft_def wpa_key_mgmt_sae_def wpa_key_mgmt_fils_def more_key_mgmts key_mgmts)

lemma ccmp_facts:
  "wpa_cipher_key_len WPA_CIPHER_CCMP = 16" "wpa_cipher_rsc_len WPA_CIPHER_CCMP = 6" "wpa_cipher_to_alg WPA_CIPHER_CCMP = WPA_ALG_CCMP"
  "wpa_cipher_valid_pairwise WPA_CIPHER_CCMP" "WPA_CIPHER_CCMP \<noteq> WPA_CIPHER_NONE" "WPA_CIPHER_CCMP \<noteq> WPA_CIPHER_TKIP"
  "WPA_CIPHER_CCMP \<noteq> WPA_CIPHER_GTK_NOT_USED"
  by code_simp+

text \<open>The frames of the authenticator pass the checks before the MIC.\<close>

lemma rx_accepted:
  assumes "sm_key_mgmt sm = WPA_KEY_MGMT_PSK" "env_alloc env" "key_wf k" "length mic = 16" "length d < 60000"
    "k_type k = 2" "k_key_info k AND WPA_KEY_INFO_TYPE_MASK = WPA_KEY_INFO_TYPE_HMAC_SHA1_AES"
    "has (k_key_info k) WPA_KEY_INFO_ACK" "\<not> has (k_key_info k) WPA_KEY_INFO_SMK_MESSAGE" "\<not> has (k_key_info k) WPA_KEY_INFO_REQUEST"
    "sm_rx_replay_counter_set sm \<longrightarrow> memcmp_less (sm_rx_replay_counter sm) (k_replay_counter k)"
  shows "wpa_sm_rx_eapol env src (eapol_frame v k mic d) sm =
    wpa_key_process env src k WPA_KEY_INFO_TYPE_HMAC_SHA1_AES (eapol_frame v k mic d) d (sm_emit Lower_layer_success sm)"
proof -
  let ?f = "eapol_frame v k mic d" and ?s = "sm_emit Lower_layer_success sm"
  note f = frame_fields [OF assms(3-5), of v]
  have link: "sm_mic_len sm = 16" "version_ok (k_key_info k) WPA_KEY_INFO_TYPE_HMAC_SHA1_AES ?s"
    using assms(1) by (simp_all add: sm_mic_len_def version_ok_def psk_facts sm_emit_def)
  have counter: "sm_rx_replay_counter_set ?s \<longrightarrow> memcmp_less (sm_rx_replay_counter ?s) (k_replay_counter k)"
    using assms(11) by (simp add: sm_emit_def)
  have whole: "take (unat (be16 (field ?f 2 2)) + 4) ?f = ?f" using f(1,2) by simp
  show ?thesis
    using assms(2,6-10) f link(2) counter
    by (auto simp: wpa_sm_rx_eapol_def Let_def link(1) whole key_of_frame [OF assms(3)])
qed

text \<open>The supplicant's own frames are frames of the same form, signed with the KCK it is given.\<close>

lemma key_frame_form:
  assumes "env_alloc env" "key_wf k"
  shows "key_frame env k 16 d = Some (eapol_frame (env_eapol_version env) k (replicate 16 0) d)"
  using assms by (simp add: key_frame_def wpa_alloc_eapol_def eapol_frame_def)

lemma send_signed:
  assumes "sm_key_mgmt sm = WPA_KEY_MGMT_PSK" "working env" "key_wf k" "length d \<le> 257" "kck_len p = 16" "16 \<le> length (kck p)"
    "\<not> zero_addr dest"
  shows "send_key env p WPA_KEY_INFO_TYPE_HMAC_SHA1_AES dest k d True sm =
    (True, sm_emit Tx_eapol_key (sm_emit (Ether_send dest (signed_frame (env_eapol_version env) p k d)) sm))"
proof -
  let ?v = "env_eapol_version env"
  obtain mic where m: "length mic = 16" "signed_frame ?v p k d = eapol_frame ?v k mic d"
    "wpa_eapol_key_mic (take 16 (kck p)) WPA_KEY_MGMT_PSK WPA_KEY_INFO_TYPE_HMAC_SHA1_AES (eapol_frame ?v k (replicate 16 0) d) = Some mic"
    using signed_mic [OF assms(6,3), of d ?v] assms(4) by auto
  have len: "sm_mic_len sm = 16" using assms(1) by (simp add: sm_mic_len_def psk_facts)
  have put: "take 81 (eapol_frame ?v k (replicate 16 0) d) @ mic @ drop 97 (eapol_frame ?v k (replicate 16 0) d) = eapol_frame ?v k mic d"
  proof -
    have "eapol_frame ?v k b d = ([?v, 3] @ put_be16 (of_nat (79 + length b + length d)) @ put_key k) @ b @ put_be16 (of_nat (length d)) @ d" for b
      by (simp add: eapol_frame_def)
    moreover have "length ([?v, 3] @ put_be16 (of_nat (79 + 16 + length d)) @ put_key k) = 81" using assms(3) by simp
    ultimately show ?thesis using m(1) by simp
  qed
  show ?thesis using assms(2,7) key_frame_form [OF _ assms(3), of env d]
    by (simp add: send_key_def len working_def wpa_eapol_key_send_def Let_def assms(1,5) m put)
qed

section \<open>Message 1/4\<close>

lemma ap_ptk_facts:
  assumes "length pmk = 32" "length aa = 6" "length spa = 6" "length anonce = 32" "length snonce = 32"
  shows "wpa_pmk_to_ptk pmk ptk_label spa aa snonce anonce zero_ptk WPA_KEY_MGMT_PSK WPA_CIPHER_CCMP None =
      (True, ap_ptk pmk aa spa anonce snonce)" (is ?same)
    and "ptk_ok (ap_ptk pmk aa spa anonce snonce)" (is ?ok)
    and "kck_len (ap_ptk pmk aa spa anonce snonce) = 16" "kek_len (ap_ptk pmk aa spa anonce snonce) = 16"
      "tk_len (ap_ptk pmk aa spa anonce snonce) = 16" "\<not> installed (ap_ptk pmk aa spa anonce snonce)"
proof -
  let ?data = "ptk_data aa spa anonce snonce None"
  let ?p = "zero_ptk\<lparr>kck_len := 16, kek_len := 16, tk_len := 16\<rparr>"
  have "ptk_data spa aa snonce anonce None = ptk_data aa spa snonce anonce None" by (rule ptk_data_sym(1)) (simp_all add: assms)
  also have "\<dots> = ?data" by (rule ptk_data_sym(2)) (simp_all add: assms)
  finally have sym: "ptk_data spa aa snonce anonce None = ?data" .
  have "length ptk_label + 1 < 2 ^ 32 - 64" by (simp add: ptk_label_def)
  from sha1_prf_some [OF _ this, of pmk ?data 48] obtain tmp where t: "sha1_prf pmk ptk_label ?data 48 = Some tmp" "length tmp = 48"
    using assms by (auto simp: ptk_data_def)
  have run: "wpa_pmk_to_ptk pmk ptk_label a b x y zero_ptk WPA_KEY_MGMT_PSK WPA_CIPHER_CCMP None = (True, ptk_split tmp ?p)"
    if "ptk_data a b x y None = ?data" for a b x y
    using assms(1) t by (auto simp: wpa_pmk_to_ptk_def Let_def that psk_facts ccmp_facts)
  from run [of aa spa anonce snonce] have p: "ap_ptk pmk aa spa anonce snonce = ptk_split tmp ?p" by (simp add: ap_ptk_def)
  show ?same using run [OF sym] by (simp add: p)
  show ?ok using t(2) unfolding p
    by (intro ptk_split_ok(1)) (simp_all add: ptk_ok_def zero_ptk_def WPA_KCK_MAX_LEN_def WPA_KEK_MAX_LEN_def WPA_TK_MAX_LEN_def)
  show "kck_len (ap_ptk pmk aa spa anonce snonce) = 16" "kek_len (ap_ptk pmk aa spa anonce snonce) = 16"
    "tk_len (ap_ptk pmk aa spa anonce snonce) = 16" "\<not> installed (ap_ptk pmk aa spa anonce snonce)"
    by (simp_all add: p ptk_split_def zero_ptk_def)
qed

text \<open>What the supplicant answers: message 2/4 with its nonce and its element, signed with the new KCK.\<close>

definition message_2 :: "wpa_env \<Rightarrow> wpa_ptk \<Rightarrow> bytes \<Rightarrow> bytes \<Rightarrow> bytes \<Rightarrow> bytes" where
  "message_2 env p counter snonce ie =
     signed_frame (env_eapol_version env) p
       \<lparr>k_type = 2, k_key_info = 0x10a, k_key_length = [0, 0], k_replay_counter = counter, k_key_nonce = snonce,
        k_key_iv = replicate 16 0, k_key_rsc = replicate 8 0, k_key_id = replicate 8 0\<rparr> ie"

definition after_1 :: "wpa_env \<Rightarrow> wpa_ptk \<Rightarrow> bytes \<Rightarrow> bytes \<Rightarrow> bytes \<Rightarrow> wpa_sm \<Rightarrow> wpa_sm" where
  "after_1 env p counter anonce snonce sm =
     sm\<lparr>sm_state := WPA_4WAY_HANDSHAKE, sm_snonce := snonce, sm_renew_snonce := False, sm_tptk := p, sm_tptk_set := True,
        sm_anonce := anonce, sm_trace := sm_trace sm @ [Lower_layer_success, Set_state WPA_4WAY_HANDSHAKE, Draw_snonce snonce,
          Ether_send (sm_bssid sm) (message_2 env p counter snonce (the (sm_assoc_wpa_ie sm))), Tx_eapol_key]\<rparr>"

lemma get_pmk_psk:
  "sm_key_mgmt sm = WPA_KEY_MGMT_PSK \<Longrightarrow> wpa_supplicant_get_pmk env src None sm = (0, sm)"
  by (simp add: wpa_supplicant_get_pmk_def match_pmkid_def pmk_source_def psk_facts)

lemma parse_no_kdes: "parse_kdes [] = (True, no_kde)"
  by (simp add: parse_kdes_def wpa_supplicant_parse_ies_def kde_loop.simps)

lemma info_2: "WPA_KEY_INFO_TYPE_HMAC_SHA1_AES OR WPA_KEY_INFO_KEY_TYPE OR mic_or_encr 16 = 0x10a"
  by (simp add: key_info_bits descriptor_versions mic_or_encr_def)

lemma message_1_effect:
  assumes "psk_link sm rsn" "working env" "env_random env = Some snonce" "length snonce = 32" "sm_renew_snonce sm" "sm_tptk sm = zero_ptk"
    "length counter = 8" "length anonce = 32" "length (sm_bssid sm) = 6" "\<not> zero_addr (sm_bssid sm)" "\<not> sm_rx_replay_counter_set sm"
  shows "wpa_sm_rx_eapol env src (message_1 counter anonce) sm =
    (1, after_1 env (ap_ptk (sm_pmk sm) (sm_bssid sm) (sm_own_addr sm) anonce snonce) counter anonce snonce sm)"
proof -
  let ?k = "ap_key 0x8a counter anonce" and ?p = "ap_ptk (sm_pmk sm) (sm_bssid sm) (sm_own_addr sm) anonce snonce"
  have link: "sm_proto sm = WPA_PROTO_RSN" "sm_key_mgmt sm = WPA_KEY_MGMT_PSK" "sm_pairwise_cipher sm = WPA_CIPHER_CCMP"
    "length (sm_pmk sm) = 32" "length (sm_own_addr sm) = 6" using assms(1) by (simp_all add: psk_link_def)
  obtain ie where ie: "sm_assoc_wpa_ie sm = Some ie" "length ie \<le> 257" using assms(1) by (auto simp: psk_link_def)
  have info: "k_key_info ?k = 0x8a" "k_type ?k = 2" "k_replay_counter ?k = counter" "k_key_nonce ?k = anonce" by (simp_all add: ap_key_def)
  have bits: "has 0x8a WPA_KEY_INFO_ACK" "\<not> has 0x8a WPA_KEY_INFO_SMK_MESSAGE" "\<not> has 0x8a WPA_KEY_INFO_REQUEST" "\<not> has 0x8a WPA_KEY_INFO_MIC"
    "\<not> has 0x8a WPA_KEY_INFO_ENCR_KEY_DATA" "has 0x8a WPA_KEY_INFO_KEY_TYPE" "\<not> has 0x8a WPA_KEY_INFO_KEY_INDEX_MASK"
    "\<not> has 0x8a (WPA_KEY_INFO_MIC OR WPA_KEY_INFO_ENCR_KEY_DATA)" "(0x8a :: u16) AND WPA_KEY_INFO_TYPE_MASK = WPA_KEY_INFO_TYPE_HMAC_SHA1_AES"
    by (simp_all add: has_def key_info_bits descriptor_versions)
  have wf: "key_wf ?k" using assms(7,8) by (simp add: ap_key_wf)
  let ?s = "sm_emit Lower_layer_success sm"
  have rx: "wpa_sm_rx_eapol env src (message_1 counter anonce) sm = (1, wpa_supplicant_process_1_of_4 env src ?k WPA_KEY_INFO_TYPE_HMAC_SHA1_AES [] ?s)"
    using rx_accepted [OF link(2) _ wf, of env "replicate 16 0" "[]" src 2] assms(2,11)
    by (simp add: message_1_def info bits working_def wpa_key_process_def wpa_key_dispatch_def Let_def)
  let ?b = "?s\<lparr>sm_state := WPA_4WAY_HANDSHAKE, sm_snonce := snonce, sm_renew_snonce := False, sm_trace := sm_trace ?s @ [Set_state WPA_4WAY_HANDSHAKE, Draw_snonce snonce]\<rparr>"
  have b: "sm_bssid ?b = sm_bssid sm" "sm_pmk ?b = sm_pmk sm" "sm_own_addr ?b = sm_own_addr sm" "sm_key_mgmt ?b = WPA_KEY_MGMT_PSK"
    "sm_pairwise_cipher ?b = WPA_CIPHER_CCMP" "sm_snonce ?b = snonce" "sm_tptk ?b = zero_ptk" "is_rsn ?b" "sm_mic_len ?b = 16"
    "sm_assoc_wpa_ie ?b = Some ie"
    using link ie assms(6) by (simp_all add: sm_emit_def is_rsn_def sm_mic_len_def psk_facts)
  have prepare: "wpa_supplicant_process_1_of_4 env src ?k WPA_KEY_INFO_TYPE_HMAC_SHA1_AES [] ?s = answer_1_of_4 env ?k WPA_KEY_INFO_TYPE_HMAC_SHA1_AES ?b"
    using assms(2,3,5) link
    by (simp add: wpa_supplicant_process_1_of_4_def working_def parse_no_kdes no_kde_def at_def get_pmk_psk wpa_sm_set_state_def
        sm_emit_def renew_snonce_def Let_def)
  note p = ap_ptk_facts [OF link(4) assms(9) link(5) assms(8,4)]
  have derived: "wpa_derive_ptk ?k (sm_tptk ?b) ?b = (True, ?p)" unfolding wpa_derive_ptk_def b info by (rule p(1))
  let ?c = "?b\<lparr>sm_tptk := ?p, sm_tptk_set := True\<rparr>"
  let ?r = "\<lparr>k_type = 2, k_key_info = 0x10a, k_key_length = [0, 0], k_replay_counter = counter, k_key_nonce = snonce,
        k_key_iv = replicate 16 0, k_key_rsc = replicate 8 0, k_key_id = replicate 8 0\<rparr>"
  have c: "is_rsn ?c" "sm_mic_len ?c = 16" using b by (simp_all add: is_rsn_def sm_mic_len_def)
  have r: "reply ?c 0x10a (reply_key_length ?c ?k) counter snonce = ?r"
    using c(1) by (simp add: reply_def reply_type_def reply_key_length_def)
  have "send_key env ?p WPA_KEY_INFO_TYPE_HMAC_SHA1_AES (sm_bssid sm) ?r ie True ?c =
      (True, sm_emit Tx_eapol_key (sm_emit (Ether_send (sm_bssid sm) (signed_frame (env_eapol_version env) ?p ?r ie)) ?c))"
    using p assms(2,4,7,10) ie b(4) by (intro send_signed) (simp_all add: key_wf_def ptk_ok_def WPA_KCK_MAX_LEN_def)
  then have "wpa_supplicant_send_2_of_4 env (sm_bssid sm) ?k WPA_KEY_INFO_TYPE_HMAC_SHA1_AES snonce (Some ie) ?p ?c =
      (True, sm_emit Tx_eapol_key (sm_emit (Ether_send (sm_bssid sm) (message_2 env ?p counter snonce ie)) ?c))"
    by (simp add: wpa_supplicant_send_2_of_4_def c(2) info_2 info r message_2_def)
  then have "answer_1_of_4 env ?k WPA_KEY_INFO_TYPE_HMAC_SHA1_AES ?b = after_1 env ?p counter anonce snonce sm"
    unfolding answer_1_of_4_def derived
    by (simp add: link ccmp_facts after_1_def info ie sm_emit_def Let_def)
  then show ?thesis using rx prepare by simp
qed

section \<open>Message 3/4\<close>

definition ccmp_psk :: "wpa_sm \<Rightarrow> bool" where
  "ccmp_psk sm \<longleftrightarrow> sm_key_mgmt sm = WPA_KEY_MGMT_PSK \<and> sm_pairwise_cipher sm = WPA_CIPHER_CCMP \<and> sm_group_cipher sm = WPA_CIPHER_CCMP"

text \<open>The end of message 3/4: the group key goes to the driver, the port opens, the link is complete.\<close>

lemma grants_emit: "grants (sm_emit e sm) = grants sm @ (if grant e then [e] else [])"
  by (simp add: grants_def sm_emit_def)

lemma suite_b_psk: "sm_key_mgmt sm = WPA_KEY_MGMT_PSK \<Longrightarrow> suite_b_cache env sm = sm"
  by (simp add: suite_b_cache_def psk_facts)

lemma offload_kept:
  "sm_key_mgmt (rekey_offload sm) = sm_key_mgmt sm" "sm_state (rekey_offload sm) = sm_state sm" "sm_gtk (rekey_offload sm) = sm_gtk sm"
  "sm_ptk (rekey_offload sm) = sm_ptk sm" "sm_ptk_set (rekey_offload sm) = sm_ptk_set sm" "grants (rekey_offload sm) = grants sm"
  by (simp_all add: rekey_offload_def sm_emit_def grants_def grant_def)

lemma finish_effect:
  assumes "ccmp_psk sm" "working env" "length gtk = 16" "sm_gtk sm \<noteq> gtk" "sm_gtk_wnm_sleep sm \<noteq> gtk"
    "has (k_key_info k) WPA_KEY_INFO_SECURE" "k_key_rsc k = replicate 8 0"
  shows "sm_state (finish_3_of_4 env k (Some ([idx, 0] @ gtk)) sm) = WPA_COMPLETED" (is ?st)
    and "sm_gtk (finish_3_of_4 env k (Some ([idx, 0] @ gtk)) sm) = gtk" (is ?gtk)
    and "sm_ptk (finish_3_of_4 env k (Some ([idx, 0] @ gtk)) sm) = sm_ptk sm" (is ?ptk)
    and "sm_ptk_set (finish_3_of_4 env k (Some ([idx, 0] @ gtk)) sm) = sm_ptk_set sm" (is ?set)
    and "grants (finish_3_of_4 env k (Some ([idx, 0] @ gtk)) sm) = grants sm @ [Port_valid,
      Set_key WPA_ALG_CCMP (Some (replicate 6 0xff)) (unat (idx AND 3)) False (replicate 6 0) gtk True, Port_valid]" (is ?gr)
proof -
  have link: "sm_key_mgmt sm = WPA_KEY_MGMT_PSK" "sm_pairwise_cipher sm = WPA_CIPHER_CCMP" "sm_group_cipher sm = WPA_CIPHER_CCMP"
    using assms(1) by (simp_all add: ccmp_psk_def)
  define s where "s = wpa_sm_set_state WPA_GROUP_HANDSHAKE (open_port (k_key_info k) sm)"
  have s: "sm_key_mgmt s = WPA_KEY_MGMT_PSK" "sm_pairwise_cipher s = WPA_CIPHER_CCMP" "sm_group_cipher s = WPA_CIPHER_CCMP"
    "sm_gtk s \<noteq> gtk" "sm_gtk_wnm_sleep s \<noteq> gtk" "grants s = grants sm @ [Port_valid]" "sm_ptk s = sm_ptk sm" "sm_ptk_set s = sm_ptk_set sm"
    using link assms(4-6) by (simp_all add: s_def wpa_sm_set_state_def open_port_def sm_emit_def grants_def grant_def)
  have rsc: "relaxed_rsc s k = replicate 8 0" by (simp add: relaxed_rsc_def assms(7))
  let ?g = "Set_key WPA_ALG_CCMP (Some (replicate 6 0xff)) (unat (idx AND 3)) False (replicate 6 0) gtk True"
  define u where "u = (sm_emit ?g s)\<lparr>sm_gtk := gtk\<rparr>"
  have group: "pairwise_group_key env k (Some ([idx, 0] @ gtk)) s = (True, u)"
    using assms(2,3)
    by (simp add: pairwise_group_key_def wpa_supplicant_pairwise_gtk_def s ccmp_facts wpa_supplicant_check_group_cipher_def rsc
        wpa_supplicant_gtk_tx_bit_workaround_def wpa_supplicant_install_gtk_def wpa_sm_set_key_def working_def Let_def u_def)
  have u: "sm_key_mgmt u = WPA_KEY_MGMT_PSK" "sm_gtk u = gtk" "grants u = grants sm @ [Port_valid, ?g]" "sm_ptk u = sm_ptk sm"
    "sm_ptk_set u = sm_ptk_set sm" "sm_group_cipher u = WPA_CIPHER_CCMP"
    using s by (simp_all add: u_def sm_emit_def grants_def grant_def)
  define v where "v = wpa_supplicant_key_neg_complete env (sm_bssid u) True u"
  have v: "sm_state v = WPA_COMPLETED" "sm_gtk v = gtk" "grants v = grants sm @ [Port_valid, ?g, Port_valid]" "sm_ptk v = sm_ptk sm"
    "sm_ptk_set v = sm_ptk_set sm" "sm_key_mgmt v = WPA_KEY_MGMT_PSK"
    using u by (simp_all add: v_def wpa_supplicant_key_neg_complete_def neg_secure_def Let_def psk_facts wpa_sm_set_state_def sm_emit_def
        update_entry_def grants_def grant_def split: option.split)
  have "finish_3_of_4 env k (Some ([idx, 0] @ gtk)) sm = (rekey_offload v)\<lparr>sm_msg_3_of_4_ok := True\<rparr>"
    using assms(6) v(6) unfolding finish_3_of_4_def s_def [symmetric] group
    by (simp add: v_def [symmetric] Let_def suite_b_psk offload_kept)
  then show ?st ?gtk ?ptk ?set ?gr
    using v offload_kept [of v] by (simp_all add: grants_def)
qed

text \<open>Key information of message 3/4: pairwise, install, acknowledge, MIC, secure, encrypted key data.\<close>

lemma bits_3:
  "has 0x13ca WPA_KEY_INFO_ACK" "\<not> has 0x13ca WPA_KEY_INFO_SMK_MESSAGE" "\<not> has 0x13ca WPA_KEY_INFO_REQUEST" "has 0x13ca WPA_KEY_INFO_MIC"
  "has 0x13ca WPA_KEY_INFO_ENCR_KEY_DATA" "has 0x13ca WPA_KEY_INFO_KEY_TYPE" "\<not> has 0x13ca WPA_KEY_INFO_KEY_INDEX_MASK"
  "has 0x13ca WPA_KEY_INFO_SECURE" "has 0x13ca WPA_KEY_INFO_INSTALL" "has 0x13ca (WPA_KEY_INFO_MIC OR WPA_KEY_INFO_ENCR_KEY_DATA)"
  "(0x13ca :: u16) AND WPA_KEY_INFO_TYPE_MASK = WPA_KEY_INFO_TYPE_HMAC_SHA1_AES"
  by (simp_all add: has_def key_info_bits descriptor_versions)

text \<open>The pairwise key of the state before it is installed, and what its installation leaves.\<close>

definition fresh_ptk :: "wpa_ptk \<Rightarrow> bool" where
  "fresh_ptk p \<longleftrightarrow> ptk_ok p \<and> kck_len p = 16 \<and> kek_len p = 16 \<and> tk_len p = 16 \<and> \<not> installed p"

lemma install_effect:
  assumes "psk_link sm rsn" "working env" "fresh_ptk (sm_ptk sm)" "wpa_supplicant_install_ptk env k sm = (inst, sm')"
  shows "inst" "psk_link sm' rsn" "sm_gtk sm' = sm_gtk sm" "sm_gtk_wnm_sleep sm' = sm_gtk_wnm_sleep sm" "sm_ptk_set sm' = sm_ptk_set sm"
    "installed (sm_ptk sm')"
    "grants sm' = grants sm @ [Set_key WPA_ALG_CCMP (Some (sm_bssid sm)) 0 True (replicate 6 0) (take 16 (tk (sm_ptk sm))) True]"
proof -
  have "sm_pairwise_cipher sm = WPA_CIPHER_CCMP" "is_rsn sm" using assms(1) by (simp_all add: psk_link_def is_rsn_def)
  then show "inst" "psk_link sm' rsn" "sm_gtk sm' = sm_gtk sm" "sm_gtk_wnm_sleep sm' = sm_gtk_wnm_sleep sm" "sm_ptk_set sm' = sm_ptk_set sm"
    "installed (sm_ptk sm')"
    "grants sm' = grants sm @ [Set_key WPA_ALG_CCMP (Some (sm_bssid sm)) 0 True (replicate 6 0) (take 16 (tk (sm_ptk sm))) True]"
    using assms by (auto simp: wpa_supplicant_install_ptk_def ccmp_facts fresh_ptk_def wpa_sm_set_key_def working_def Let_def psk_link_def
        sm_emit_def grants_def grant_def)
qed

text \<open>Message 3/4 with the key data decrypted.\<close>

lemma process_3_effect:
  assumes "psk_link sm rsn" "working env" "rsn_element rsn" "length gtk = 16" "sm_gtk sm = []" "sm_gtk_wnm_sleep sm = []"
    "fresh_ptk (sm_ptk sm)" "sm_anonce sm = anonce" "\<not> zero_addr (sm_bssid sm)" "length counter = 8" "length anonce = 32"
    "wpa_supplicant_process_3_of_4 env (ap_key 0x13ca counter anonce) WPA_KEY_INFO_TYPE_HMAC_SHA1_AES (key_data_3 rsn idx gtk) sm = sm'"
  shows "sm_state sm' = WPA_COMPLETED \<and> sm_gtk sm' = gtk \<and> installed (sm_ptk sm') \<and> sm_ptk_set sm' = sm_ptk_set sm \<and>
    grants sm' = grants sm @
      [Set_key WPA_ALG_CCMP (Some (sm_bssid sm)) 0 True (replicate 6 0) (take 16 (tk (sm_ptk sm))) True, Port_valid,
       Set_key WPA_ALG_CCMP (Some (replicate 6 0xff)) (unat (idx AND 3)) False (replicate 6 0) gtk True, Port_valid]"
proof -
  let ?k = "ap_key 0x13ca counter anonce"
  have info: "k_key_info ?k = 0x13ca" "k_key_nonce ?k = anonce" "k_replay_counter ?k = counter" "k_key_rsc ?k = replicate 8 0"
    "unat (be16 (k_key_length ?k)) = 16" by (simp_all add: ap_key_def be16_def)
  define s where "s = wpa_sm_set_state WPA_4WAY_HANDSHAKE sm"
  have s: "psk_link s rsn" "sm_gtk s = []" "sm_gtk_wnm_sleep s = []" "sm_ptk s = sm_ptk sm" "sm_anonce s = anonce" "sm_bssid s = sm_bssid sm"
    "grants s = grants sm" "sm_ptk_set s = sm_ptk_set sm"
    using assms(1,5,6,8) by (simp_all add: s_def wpa_sm_set_state_def sm_emit_def psk_link_def grants_def grant_def)
  have link: "sm_proto s = WPA_PROTO_RSN" "sm_key_mgmt s = WPA_KEY_MGMT_PSK" "sm_pairwise_cipher s = WPA_CIPHER_CCMP"
    "sm_ap_rsn_ie s = Some rsn" "sm_mic_len s = 16" using s(1) by (simp_all add: psk_link_def sm_mic_len_def psk_facts)
  have valid: "wpa_supplicant_validate_ie env None (Some rsn) s = (True, s)"
    using link by (simp add: wpa_supplicant_validate_ie_def refresh_beacon_ie_def wpa_compare_rsn_ie_def Let_def)
  let ?r = "reply s 0x30a (reply_key_length s ?k) counter (replicate 32 0)"
  define t where "t = (sm_emit Tx_eapol_key (sm_emit (Ether_send (sm_bssid s) (signed_frame (env_eapol_version env) (sm_ptk s) ?r [])) s))\<lparr>sm_renew_snonce := True\<rparr>"
  have r: "key_wf ?r" using assms(10) link(1) by (simp add: key_wf_def reply_def reply_key_length_def is_rsn_def)
  have "(0x13ca AND WPA_KEY_INFO_SECURE) OR WPA_KEY_INFO_TYPE_HMAC_SHA1_AES OR WPA_KEY_INFO_KEY_TYPE OR mic_or_encr 16 = 0x30a"
    by (simp add: key_info_bits descriptor_versions mic_or_encr_def)
  then have sent: "wpa_supplicant_send_4_of_4 env (sm_bssid s) ?k WPA_KEY_INFO_TYPE_HMAC_SHA1_AES 0x13ca (sm_ptk s) s =
      (True, sm_emit Tx_eapol_key (sm_emit (Ether_send (sm_bssid s) (signed_frame (env_eapol_version env) (sm_ptk s) ?r [])) s))"
    using send_signed [OF link(2) assms(2) r, of "[]" "sm_ptk s" "sm_bssid s"] assms(7,9)
    by (simp add: wpa_supplicant_send_4_of_4_def link(5) info s fresh_ptk_def ptk_ok_def WPA_KCK_MAX_LEN_def)
  have t: "psk_link t rsn" "sm_gtk t = []" "sm_gtk_wnm_sleep t = []" "sm_ptk t = sm_ptk sm" "sm_bssid t = sm_bssid sm"
    "grants t = grants sm" "sm_ptk_set t = sm_ptk_set sm"
    using s by (simp_all add: t_def sm_emit_def psk_link_def grants_def grant_def)
  obtain inst u where u0: "wpa_supplicant_install_ptk env ?k t = (inst, u)" by fastforce
  note u = install_effect [OF t(1) assms(2) _ u0]
  have fresh: "fresh_ptk (sm_ptk t)" using assms(7) t(4) by simp
  obtain ie where ie: "parse_kdes (key_data_3 rsn idx gtk) = (True, ie)"
    "at (key_data_3 rsn idx gtk) (kde_gtk ie) (kde_gtk_len ie) = Some ([idx, 0] @ gtk)"
    "at (key_data_3 rsn idx gtk) (kde_wpa_ie ie) (kde_wpa_ie_len ie) = None"
    "at (key_data_3 rsn idx gtk) (kde_rsn_ie ie) (kde_rsn_ie_len ie) = Some rsn"
    using parse_key_data_3 [OF assms(3,4), of idx] key_data_3_parts [OF assms(4), of rsn idx] by (simp add: no_kde_def at_def)
  have "sm' = finish_3_of_4 env ?k (Some ([idx, 0] @ gtk)) u"
    using assms(12) u(1) [OF fresh]
    unfolding wpa_supplicant_process_3_of_4_def s_def [symmetric] info
    by (simp add: ie bits_3 valid sent s(5) link ccmp_facts t_def [symmetric] u0 Let_def)
  moreover have "ccmp_psk u" using u(2) [OF fresh] by (simp add: ccmp_psk_def psk_link_def)
  moreover have "sm_gtk u \<noteq> gtk" "sm_gtk_wnm_sleep u \<noteq> gtk" using u [OF fresh] t assms(4) by auto
  ultimately show ?thesis
    using finish_effect [of u env gtk ?k idx] u [OF fresh] t info bits_3 assms(2,4) by simp
qed

lemma key_wrap_undone:
  assumes "length kek0 = 16" "length plain = 8 * n"
  shows "aes_unwrap True kek0 n (snd (aes_wrap True kek0 n plain)) = (0, plain)"
proof -
  have "aes_wrap True kek0 n plain = (0, snd (aes_wrap True kek0 n plain))" using wrap_some [OF assms] by (simp add: prod_eq_iff)
  then show ?thesis using key_wrap_inverse [of "snd (aes_wrap True kek0 n plain)" n plain True kek0] wrap_some [OF assms] assms(2) by simp
qed

lemma decrypt_3:
  assumes "env_alloc env" "sm_ptk_set sm" "kek_len (sm_ptk sm) = 16" "16 \<le> length (kek (sm_ptk sm))" "length d = 8 * n" "0 < n"
  shows "wpa_supplicant_decrypt_key_data env k WPA_KEY_INFO_TYPE_HMAC_SHA1_AES (snd (aes_wrap True (take 16 (kek (sm_ptk sm))) n d)) sm = Some d"
proof -
  have kek: "length (take 16 (kek (sm_ptk sm))) = 16" using assms(4) by simp
  show ?thesis using assms wrap_some [OF kek assms(5)] key_wrap_undone [OF kek assms(5)]
    by (simp add: wpa_supplicant_decrypt_key_data_def kek_bytes_def descriptor_versions)
qed

lemma message_3_effect:
  assumes "psk_link sm rsn" "working env" "rsn_element rsn" "length gtk = 16" "sm_gtk sm = []" "sm_gtk_wnm_sleep sm = []"
    "sm_tptk_set sm" "fresh_ptk (sm_tptk sm)" "sm_anonce sm = anonce" "\<not> zero_addr (sm_bssid sm)" "length counter = 8" "length anonce = 32"
    "\<not> sm_rx_replay_counter_set sm"
    "wpa_sm_rx_eapol env src (message_3 (sm_tptk sm) counter anonce rsn idx gtk) sm = (ret, sm')"
  shows "ret = 1 \<and> sm_state sm' = WPA_COMPLETED \<and> sm_gtk sm' = gtk \<and> installed (sm_ptk sm') \<and> sm_ptk_set sm' \<and>
    grants sm' = grants sm @
      [Set_key WPA_ALG_CCMP (Some (sm_bssid sm)) 0 True (replicate 6 0) (take 16 (tk (sm_tptk sm))) True, Port_valid,
       Set_key WPA_ALG_CCMP (Some (replicate 6 0xff)) (unat (idx AND 3)) False (replicate 6 0) gtk True, Port_valid]"
proof -
  let ?p = "sm_tptk sm" and ?k = "ap_key 0x13ca counter anonce" and ?d = "key_data_3 rsn idx gtk" and ?n = "length (key_data_3 rsn idx gtk) div 8"
  let ?c = "snd (aes_wrap True (take 16 (kek ?p)) ?n ?d)"
  have link: "sm_key_mgmt sm = WPA_KEY_MGMT_PSK" "is_rsn sm" "sm_mic_len sm = 16"
    using assms(1) by (simp_all add: psk_link_def is_rsn_def sm_mic_len_def psk_facts)
  have p: "16 \<le> length (kck ?p)" "16 \<le> length (kek ?p)" "kck_len ?p = 16" "kek_len ?p = 16"
    using assms(8) by (simp_all add: fresh_ptk_def ptk_ok_def WPA_KCK_MAX_LEN_def WPA_KEK_MAX_LEN_def)
  have info: "k_key_info ?k = 0x13ca" "k_type ?k = 2" "k_replay_counter ?k = counter" by (simp_all add: ap_key_def)
  have n: "length ?d = 8 * ?n" "0 < ?n" "?n < 1000"
    using key_data_blocks [OF assms(4), of rsn idx] rsn_element_length [OF assms(3)] by (auto simp: key_data_3_def assms(4))
  have clen: "length ?c < 60000" using wrap_some [OF _ n(1), of "take 16 (kek ?p)"] p(2) n(3) by simp
  have wf: "key_wf ?k" using assms(11,12) by (simp add: ap_key_wf)
  obtain mic where m: "length mic = 16" "signed_frame 2 ?p ?k ?c = eapol_frame 2 ?k mic ?c" using signed_mic [OF p(1) wf clen] by blast
  have frame: "message_3 ?p counter anonce rsn idx gtk = signed_frame 2 ?p ?k ?c" by (simp add: message_3_def Let_def)
  define s where "s = sm_emit Lower_layer_success sm"
  have rx: "(ret, sm') = wpa_key_process env src ?k WPA_KEY_INFO_TYPE_HMAC_SHA1_AES (signed_frame 2 ?p ?k ?c) ?c s"
    using rx_accepted [OF link(1) _ wf m(1) clen, of env src 2] assms(2,13,14) bits_3 unfolding frame m(2) s_def
    by (simp add: info working_def)
  define t where "t = s\<lparr>sm_tptk_set := False, sm_ptk_set := True, sm_ptk := ?p, sm_tptk := zero_ptk, sm_renew_snonce := True,
     sm_rx_replay_counter := counter, sm_rx_replay_counter_set := True\<rparr>"
  have verified: "wpa_supplicant_verify_eapol_key_mic ?k WPA_KEY_INFO_TYPE_HMAC_SHA1_AES (signed_frame 2 ?p ?k ?c) s = (True, t)"
    using signed_matches [OF p(1) wf clen p(3) refl, of 2] assms(7) link
    by (simp add: wpa_supplicant_verify_eapol_key_mic_def s_def t_def sm_emit_def info sm_mic_len_def Let_def)
  have t: "psk_link t rsn" "sm_gtk t = []" "sm_gtk_wnm_sleep t = []" "sm_ptk t = ?p" "sm_anonce t = anonce" "sm_bssid t = sm_bssid sm"
    "sm_ptk_set t" "grants t = grants sm" "is_rsn s" "sm_mic_len s = 16" "is_rsn t"
    using assms(1,5,6,9) link by (simp_all add: t_def s_def sm_emit_def psk_link_def grants_def grant_def is_rsn_def sm_mic_len_def)
  have plain: "wpa_supplicant_decrypt_key_data env ?k WPA_KEY_INFO_TYPE_HMAC_SHA1_AES ?c t = Some ?d"
    using decrypt_3 [of env t ?d ?n] assms(2) p n t by (simp add: working_def)
  have "(ret, sm') = (1, wpa_supplicant_process_3_of_4 env ?k WPA_KEY_INFO_TYPE_HMAC_SHA1_AES ?d t)"
    unfolding rx wpa_key_process_def by (simp add: info bits_3 verified t plain wpa_key_dispatch_def)
  then show ?thesis
    using process_3_effect [OF t(1) assms(2-4) t(2,3) _ t(5) _ assms(11,12) refl, of idx] assms(8,10) t by simp
qed

section \<open>The whole handshake\<close>

text \<open>
  C1: the 4-way handshake completes, and both ends have the same keys. Whatever happened before, let the station, configured for WPA2-PSK
  with CCMP, associate; an authenticator that holds the same PMK, advertises the RSN element and knows nothing but the nonce of
  message 2/4 then sends message 1/4 and message 3/4. The supplicant answers with a message 2/4 whose MIC the authenticator's PTK
  verifies, and ends in \<open>WPA_COMPLETED\<close>, having done exactly this: it gave the driver the temporal key the authenticator derived,
  opened the port, gave it the group key that was encrypted in message 3/4, and opened the port.
\<close>

theorem handshake_completes:
  assumes "psk_link sm rsn" "rsn_element rsn" "working env1" "working env2" "env_random env1 = Some snonce"
    "length snonce = 32" "length anonce = 32" "length c1 = 8" "length c2 = 8" "length gtk = 16" "length bssid = 6" "\<not> zero_addr bssid"
    "ptk = ap_ptk (sm_pmk sm) bssid (sm_own_addr sm) anonce snonce"
    "wpa_sm_rx_eapol env1 src (message_1 c1 anonce) (wpa_sm_notify_assoc bssid sm) = (ret1, sm1)"
    "wpa_sm_rx_eapol env2 src (message_3 ptk c2 anonce rsn idx gtk) sm1 = (ret2, sm2)"
  shows "ret1 = 1 \<and> Ether_send bssid (message_2 env1 ptk c1 snonce (the (sm_assoc_wpa_ie sm))) \<in> set (sm_trace sm1) \<and>
    mic_matches ptk WPA_KEY_MGMT_PSK WPA_KEY_INFO_TYPE_HMAC_SHA1_AES 16 (message_2 env1 ptk c1 snonce (the (sm_assoc_wpa_ie sm))) \<and>
    ret2 = 1 \<and> sm_state sm2 = WPA_COMPLETED \<and> sm_ptk_set sm2 \<and> installed (sm_ptk sm2) \<and> sm_gtk sm2 = gtk \<and>
    grants sm2 = grants sm @
      [Set_key WPA_ALG_CCMP (Some bssid) 0 True (replicate 6 0) (take 16 (tk ptk)) True, Port_valid,
       Set_key WPA_ALG_CCMP (Some (replicate 6 0xff)) (unat (idx AND 3)) False (replicate 6 0) gtk True, Port_valid]"
proof -
  define a where "a = wpa_sm_notify_assoc bssid sm"
  have a: "psk_link a rsn" "sm_renew_snonce a" "sm_tptk a = zero_ptk" "sm_bssid a = bssid" "\<not> sm_rx_replay_counter_set a" "sm_gtk a = []"
    "sm_gtk_wnm_sleep a = []" "grants a = grants sm" "sm_pmk a = sm_pmk sm" "sm_own_addr a = sm_own_addr sm"
    "sm_assoc_wpa_ie a = sm_assoc_wpa_ie sm"
    using assms(1,11) by (auto simp: a_def wpa_sm_notify_assoc_def clear_keys_def psk_link_def sm_emit_def grants_def grant_def Let_def)
  have one: "ret1 = 1" "sm1 = after_1 env1 ptk c1 anonce snonce a"
    using message_1_effect [OF a(1) assms(3,5,6) a(2,3) assms(8,7) _ _ a(5), of src] assms(11-14) a by (simp_all add: a_def [symmetric])
  have link: "length (sm_pmk sm) = 32" "length (sm_own_addr sm) = 6" using assms(1) by (simp_all add: psk_link_def)
  note p = ap_ptk_facts [OF link(1) assms(11) link(2) assms(7,6), folded assms(13)]
  have b: "psk_link sm1 rsn" "sm_gtk sm1 = []" "sm_gtk_wnm_sleep sm1 = []" "sm_tptk_set sm1" "sm_tptk sm1 = ptk" "sm_anonce sm1 = anonce"
    "sm_bssid sm1 = bssid" "\<not> sm_rx_replay_counter_set sm1" "grants sm1 = grants sm" "fresh_ptk ptk"
    using a p by (simp_all add: one(2) after_1_def psk_link_def grants_def grant_def fresh_ptk_def)
  obtain ie where ie: "sm_assoc_wpa_ie sm = Some ie" "length ie \<le> 257" using assms(1) by (auto simp: psk_link_def)
  have mic: "mic_matches ptk WPA_KEY_MGMT_PSK WPA_KEY_INFO_TYPE_HMAC_SHA1_AES 16 (message_2 env1 ptk c1 snonce ie)"
    unfolding message_2_def using p assms(6,8) ie(2)
    by (intro signed_matches) (simp_all add: key_wf_def ptk_ok_def WPA_KCK_MAX_LEN_def)
  have sent: "Ether_send bssid (message_2 env1 ptk c1 snonce ie) \<in> set (sm_trace sm1)"
    using a ie by (simp add: one(2) after_1_def)
  show ?thesis
    using message_3_effect [OF b(1) assms(4,2,10) b(2,3,4) _ b(6) _ assms(9,7) b(8), of src idx ret2 sm2] assms(12,15) b one(1) mic sent ie
    by simp
qed

text \<open>A concrete station and authenticator, in the middle of a handshake.\<close>

definition demo_env :: wpa_env where
  "demo_env = \<lparr>env_now = 0, env_alloc = True, env_random = Some (replicate 32 7), env_set_key = (\<lambda>_ _ _ _ _ _. True),
     env_send = (\<lambda>_ _. True), env_bssid = None, env_beacon_ie = None, env_eap_key = (\<lambda>_. None), env_network_ctx = 1,
     env_eapol_version = 1\<rparr>"

definition demo_rsn :: bytes where
  "demo_rsn = [48, 20, 1, 0, 0x00, 0x0f, 0xac, 4, 1, 0, 0x00, 0x0f, 0xac, 4, 1, 0, 0x00, 0x0f, 0xac, 2, 0, 0]"

definition demo_station :: wpa_sm where
  "demo_station = wpa_sm_init\<lparr>sm_proto := WPA_PROTO_RSN, sm_key_mgmt := WPA_KEY_MGMT_PSK, sm_pairwise_cipher := WPA_CIPHER_CCMP,
     sm_group_cipher := WPA_CIPHER_CCMP, sm_pmk := replicate 32 5, sm_own_addr := replicate 6 2, sm_bssid := replicate 6 1,
     sm_assoc_wpa_ie := Some demo_rsn, sm_ap_rsn_ie := Some demo_rsn, sm_anonce := replicate 32 9,
     sm_tptk := zero_ptk\<lparr>kck_len := 16, kek_len := 16, tk_len := 16\<rparr>, sm_tptk_set := True\<rparr>"

lemma demo_facts:
  "psk_link demo_station demo_rsn" "rsn_element demo_rsn" "working demo_env" "fresh_ptk (sm_tptk demo_station)" "\<not> zero_addr (replicate 6 1)"
  by (simp_all add: psk_link_def demo_station_def demo_rsn_def rsn_element_def working_def demo_env_def fresh_ptk_def ptk_ok_def zero_ptk_def
      WPA_KCK_MAX_LEN_def WPA_KEK_MAX_LEN_def WPA_TK_MAX_LEN_def WLAN_EID_RSN_def zero_addr_def list_all_length exI [of _ 0])

theorem handshake_completes_witness:
  "case wpa_sm_rx_eapol demo_env [] (message_1 (replicate 8 0) (replicate 32 9)) (wpa_sm_notify_assoc (replicate 6 1) demo_station) of
     (ret1, sm1) \<Rightarrow>
       case wpa_sm_rx_eapol demo_env [] (message_3 (ap_ptk (replicate 32 5) (replicate 6 1) (replicate 6 2) (replicate 32 9) (replicate 32 7))
              (replicate 8 1) (replicate 32 9) demo_rsn 1 (replicate 16 6)) sm1 of
         (ret2, sm2) \<Rightarrow> ret2 = 1 \<and> sm_state sm2 = WPA_COMPLETED \<and> sm_gtk sm2 = replicate 16 6"
proof -
  have "sm_pmk demo_station = replicate 32 5" "sm_own_addr demo_station = replicate 6 2" "env_random demo_env = Some (replicate 32 7)"
    by (simp_all add: demo_station_def demo_env_def)
  then show ?thesis
    using handshake_completes [OF demo_facts(1,2,3,3), of "replicate 32 7" "replicate 32 9" "replicate 8 0" "replicate 8 1"
        "replicate 16 6" "replicate 6 1"] demo_facts(5)
    by (auto split: prod.split)
qed

text \<open>
  C2: with RSN, only an authenticated frame installs keys, opens the port or replaces the PTK: its MIC verifies under a PTK the
  supplicant derived, its replay counter is greater than the last accepted one, and becomes the last accepted one, so no frame does
  so twice. Encrypted key data without a MIC changes nothing.
\<close>

theorem rsn_grants_authentic:
  assumes "is_rsn sm" "sm_mic_len sm \<noteq> 0" "wpa_sm_rx_eapol env src buf sm = (ret, sm')"
    "grants sm' \<noteq> grants sm \<or> sm_ptk sm' \<noteq> sm_ptk sm"
  shows "has (k_key_info (key_of (rx_frame buf))) WPA_KEY_INFO_MIC \<and> authentic sm (rx_version buf) (rx_frame buf) \<and>
         (sm_rx_replay_counter_set sm \<longrightarrow> memcmp_less (sm_rx_replay_counter sm) (k_replay_counter (key_of (rx_frame buf)))) \<and>
         sm_rx_replay_counter sm' = k_replay_counter (key_of (rx_frame buf)) \<and> sm_rx_replay_counter_set sm'"
proof -
  let ?k = "key_of (rx_frame buf)" and ?s = "sm_emit Lower_layer_success sm"
  have changed: "guard_view (key_view (snd (wpa_sm_rx_eapol env src buf sm))) \<noteq> guard_view (key_view sm)"
    using assms(3,4) by (auto simp: guard_view_eq)
  obtain kd where p: "wpa_sm_rx_eapol env src buf sm = wpa_key_process env src ?k (rx_version buf) (rx_frame buf) kd ?s"
    "sm_rx_replay_counter_set sm \<longrightarrow> memcmp_less (sm_rx_replay_counter sm) (k_replay_counter ?k)"
    using rx_processed [OF changed] by auto
  have "guard_view (key_view (snd (wpa_key_process env src ?k (rx_version buf) (rx_frame buf) kd ?s))) \<noteq> guard_view (key_view ?s)"
    using changed unfolding p(1) by simp
  from process_authentic [OF _ _ this] assms(1,2) have "has (k_key_info ?k) WPA_KEY_INFO_MIC \<and> authentic sm (rx_version buf) (rx_frame buf) \<and>
      counter_view (key_view sm') = (k_replay_counter ?k, True)"
    using p(1) assms(3) by (metis emit_policy snd_conv)
  then show ?thesis using p(2) by (simp add: counter_view_eq)
qed

theorem rsn_grants_authentic_witness:
  "case wpa_sm_rx_eapol demo_env [] (message_3 (sm_tptk demo_station) (replicate 8 1) (replicate 32 9) demo_rsn 1 (replicate 16 6)) demo_station of
     (ret, sm) \<Rightarrow> sm_rx_replay_counter_set sm"
proof -
  obtain ret sm where r: "wpa_sm_rx_eapol demo_env []
      (message_3 (sm_tptk demo_station) (replicate 8 1) (replicate 32 9) demo_rsn 1 (replicate 16 6)) demo_station = (ret, sm)" by fastforce
  have d: "is_rsn demo_station" "sm_mic_len demo_station \<noteq> 0" "sm_tptk_set demo_station" "sm_gtk demo_station = []"
    "sm_gtk_wnm_sleep demo_station = []" "sm_bssid demo_station = replicate 6 1" "sm_anonce demo_station = replicate 32 9"
    "\<not> sm_rx_replay_counter_set demo_station"
    by (simp_all add: demo_station_def is_rsn_def sm_mic_len_def psk_facts wpa_sm_init_def)
  have "grants sm \<noteq> grants demo_station"
    using message_3_effect [OF demo_facts(1,3,2) _ d(4,5,3) demo_facts(4) d(7) _ _ _ d(8) r] demo_facts(5) d(6) by simp
  then show ?thesis using rsn_grants_authentic [OF d(1,2) r] r by simp
qed

end
