(* ===== verification/LegacyWpa.thy ===== *)
theory LegacyWpa
  imports Handshake
begin

text \<open>
  A network that still uses version 1 of WPA: which frames the supplicant accepts as message 3/4 there.
\<close>

section \<open>The WPA element\<close>

definition wpa_element :: "bytes \<Rightarrow> bool" where
  "wpa_element ie \<longleftrightarrow> 8 \<le> length ie \<and> take 8 ie = [0xdd, of_nat (length ie - 2), 0x00, 0x50, 0xf2, 1, 1, 0] \<and> length ie \<le> 257"

definition key_data_wpa :: "bytes \<Rightarrow> u8 \<Rightarrow> bytes \<Rightarrow> bytes" where
  "key_data_wpa ie idx gtk = ie @ gtk_kde idx gtk @ kde_padding (length ie + 24)"

lemma wpa_selector: "get_be32 [0, 0x50, 0xf2, 1] = WPA_OUI_TYPE"
  by code_simp

lemma parse_wpa_element:
  assumes "wpa_element ie"
  shows "kde_loop (ie @ post) 0 d = kde_loop (ie @ post) (length ie) (d\<lparr>kde_wpa_ie := Some 0, kde_wpa_ie_len := length ie\<rparr>)"
proof -
  let ?buf = "ie @ post" and ?n = "length ie"
  have n: "8 \<le> ?n" "?n \<le> 257" and t: "take 8 ie = [0xdd, of_nat (?n - 2), 0x00, 0x50, 0xf2, 1, 1, 0]" using assms by (simp_all add: wpa_element_def)
  have "take 8 ie ! i = ?buf ! i" if "i < 8" for i using n that by (simp add: nth_append)
  then have at: "?buf ! i = [0xdd, of_nat (?n - 2), 0x00, 0x50, 0xf2, 1, 1, 0] ! i" if "i < 8" for i using that unfolding t by metis
  have r: "rdb ?buf i = Some ([0xdd, of_nat (?n - 2), 0x00, 0x50, 0xf2, 1, 1, 0] ! i)" if "i < 8" for i
    using n that unfolding at [OF that, symmetric] by simp
  obtain m where m: "?n = m + 2" "6 \<le> m" "m \<le> 255" using n that [of "?n - 2"] by simp
  have len: "length ?buf = m + 2 + length post" using m(1) by simp
  have rs: "rdb ?buf 0 = Some 0xdd" "rdb ?buf 1 = Some (of_nat m)" "rdb ?buf 5 = Some 1" "rdb ?buf 6 = Some 1" "rdb ?buf 7 = Some 0"
    using r [of 0] r [of 1] r [of 5] r [of 6] r [of 7] by (simp_all add: m(1))
  have u: "unat (of_nat m :: u8) = m" using m by (subst unat_of_nat) simp
  have "take 8 ?buf = take 8 ie" using n by simp
  then have t8: "take 8 ?buf = [0xdd, of_nat (?n - 2), 0x00, 0x50, 0xf2, 1, 1, 0]" by (simp only: t)
  have "take 4 (drop 2 ?buf) = take 4 (drop 2 (take 8 ?buf))" by (simp add: drop_take del: take_append drop_append)
  then have sel4: "take 4 (drop 2 ?buf) = [0, 0x50, 0xf2, 1]" unfolding t8 by simp
  have generic: "wpa_parse_generic ?buf 0 d = Some (False, d\<lparr>kde_wpa_ie := Some 0, kde_wpa_ie_len := m + 2\<rparr>)"
    using m by (simp add: len wpa_parse_generic_def wpa_oui_kde_def andalso_def sel_is_Some rs u sel4 wpa_selector
      del: add_2_eq_Suc' One_nat_def rdb_Some take_append drop_append length_append)
  have vendor: "wpa_parse_vendor_specific ?buf 0 d' = Some (False, d')" for d'
    using m by (simp add: len wpa_parse_vendor_specific_def rs u andalso_def rd_Some
      split: bool.split del: add_2_eq_Suc' One_nat_def rdb_Some take_append drop_append length_append)
  have "kde_vendor ?buf 0 d = Some (False, d\<lparr>kde_wpa_ie := Some 0, kde_wpa_ie_len := m + 2\<rparr>)"
    by (simp add: kde_vendor_def generic vendor)
  then show ?thesis using m unfolding m(1)
    by (subst kde_loop.simps) (simp add: len rs u WLAN_EID_VENDOR_SPECIFIC_def add.commute
      del: add_2_eq_Suc' add_2_eq_Suc One_nat_def rdb_Some length_append)
qed

lemma parse_key_data_wpa:
  assumes "wpa_element ie" "length gtk = 16"
  shows "parse_kdes (key_data_wpa ie idx gtk) =
    (True, no_kde\<lparr>kde_wpa_ie := Some 0, kde_wpa_ie_len := length ie, kde_gtk := Some (length ie + 6), kde_gtk_len := 18\<rparr>)"
proof -
  let ?buf = "key_data_wpa ie idx gtk" and ?d = "no_kde\<lparr>kde_wpa_ie := Some 0, kde_wpa_ie_len := length ie\<rparr>"
  have "kde_loop ?buf 0 no_kde = kde_loop ?buf (length ie) ?d"
    unfolding key_data_wpa_def by (rule parse_wpa_element [OF assms(1)])
  also have "\<dots> = kde_loop ?buf (length ie + 24) (?d\<lparr>kde_gtk := Some (length ie + 6), kde_gtk_len := 18\<rparr>)"
    by (rule parse_gtk_kde [OF _ assms(2)]) (simp add: key_data_wpa_def)
  also have "\<dots> = Some (True, ?d\<lparr>kde_gtk := Some (length ie + 6), kde_gtk_len := 18\<rparr>)"
    by (rule parse_padding [of _ "length ie + 24"]) (use assms(2) in \<open>simp_all add: key_data_wpa_def\<close>)
  finally show ?thesis by (simp add: parse_kdes_def wpa_supplicant_parse_ies_def)
qed

section \<open>A forged message 3/4\<close>

text \<open>A frame without MIC, made of nothing but public values and a key of the sender's choice.\<close>

definition forged_3 :: "bytes \<Rightarrow> bytes \<Rightarrow> bytes \<Rightarrow> u8 \<Rightarrow> bytes \<Rightarrow> bytes" where
  "forged_3 counter anonce ie idx gtk = eapol_frame 2 (ap_key 0x128a counter anonce) (replicate 16 0) (key_data_wpa ie idx gtk)"

definition wpa1_link :: "wpa_sm \<Rightarrow> bytes \<Rightarrow> bool" where
  "wpa1_link sm ie \<longleftrightarrow> sm_proto sm = WPA_PROTO_WPA \<and> ccmp_psk sm \<and> sm_ap_wpa_ie sm = Some ie \<and>
     kck_len (sm_ptk sm) = 16 \<and> 16 \<le> length (kck (sm_ptk sm))"

lemma wpa1_not_rsn: "WPA_PROTO_WPA \<noteq> WPA_PROTO_RSN" "WPA_PROTO_WPA \<noteq> WPA_PROTO_OSEN"
  by (simp_all add: WPA_PROTO_RSN_def WPA_PROTO_WPA_def WPA_PROTO_OSEN_def)

lemma bits_forged:
  "has 0x128a WPA_KEY_INFO_ACK" "\<not> has 0x128a WPA_KEY_INFO_SMK_MESSAGE" "\<not> has 0x128a WPA_KEY_INFO_REQUEST" "\<not> has 0x128a WPA_KEY_INFO_MIC"
  "has 0x128a WPA_KEY_INFO_ENCR_KEY_DATA" "has 0x128a WPA_KEY_INFO_KEY_TYPE" "\<not> has 0x128a WPA_KEY_INFO_KEY_INDEX_MASK"
  "has 0x128a WPA_KEY_INFO_SECURE" "\<not> has 0x128a WPA_KEY_INFO_INSTALL" "has 0x128a (WPA_KEY_INFO_MIC OR WPA_KEY_INFO_ENCR_KEY_DATA)"
  "(0x128a :: u16) AND WPA_KEY_INFO_TYPE_MASK = WPA_KEY_INFO_TYPE_HMAC_SHA1_AES"
  by (simp_all add: has_def key_info_bits descriptor_versions)

lemma process_forged:
  assumes "wpa1_link sm ie" "working env" "wpa_element ie" "length gtk = 16" "sm_gtk sm \<noteq> gtk" "sm_gtk_wnm_sleep sm \<noteq> gtk"
    "sm_anonce sm = anonce" "\<not> zero_addr (sm_bssid sm)" "length counter = 8" "length anonce = 32"
    "wpa_supplicant_process_3_of_4 env (ap_key 0x128a counter anonce) WPA_KEY_INFO_TYPE_HMAC_SHA1_AES (key_data_wpa ie idx gtk) sm = sm'"
  shows "sm_state sm' = WPA_COMPLETED \<and> sm_gtk sm' = gtk \<and> sm_ptk sm' = sm_ptk sm \<and>
    grants sm' = grants sm @
      [Port_valid, Set_key WPA_ALG_CCMP (Some (replicate 6 0xff)) (unat (idx AND 3)) False (replicate 6 0) gtk True, Port_valid]"
proof -
  let ?k = "ap_key 0x128a counter anonce" and ?d = "key_data_wpa ie idx gtk"
  have info: "k_key_info ?k = 0x128a" "k_key_nonce ?k = anonce" "k_replay_counter ?k = counter" "k_key_rsc ?k = replicate 8 0"
    "unat (be16 (k_key_length ?k)) = 16" "k_key_length ?k = [0, 16]" by (simp_all add: ap_key_def be16_def)
  define s where "s = wpa_sm_set_state WPA_4WAY_HANDSHAKE sm"
  have s: "wpa1_link s ie" "sm_gtk s \<noteq> gtk" "sm_gtk_wnm_sleep s \<noteq> gtk" "sm_ptk s = sm_ptk sm" "sm_anonce s = anonce"
    "sm_bssid s = sm_bssid sm" "grants s = grants sm"
    using assms(1,5-7) by (simp_all add: s_def wpa_sm_set_state_def sm_emit_def wpa1_link_def ccmp_psk_def grants_def grant_def)
  have link: "\<not> is_rsn s" "sm_key_mgmt s = WPA_KEY_MGMT_PSK" "sm_pairwise_cipher s = WPA_CIPHER_CCMP"
    "sm_ap_wpa_ie s = Some ie" "sm_mic_len s = 16" "kck_len (sm_ptk s) = 16" "16 \<le> length (kck (sm_ptk s))"
    using s(1) by (simp_all add: wpa1_link_def ccmp_psk_def sm_mic_len_def psk_facts is_rsn_def wpa1_not_rsn)
  have parts: "at ?d (Some 0) (length ie) = Some ie" "at ?d (Some (length ie + 6)) 18 = Some ([idx, 0] @ gtk)"
    using assms(4) by (simp_all add: at_def key_data_wpa_def gtk_kde_def)
  have valid: "wpa_supplicant_validate_ie env (Some ie) None s = (True, s)"
    using link by (simp add: wpa_supplicant_validate_ie_def refresh_beacon_ie_def Let_def)
  let ?r = "reply s 0x30a (reply_key_length s ?k) counter (replicate 32 0)"
  have r: "key_wf ?r" using assms(9) link(1) info(6) by (simp add: key_wf_def reply_def reply_key_length_def)
  have "(0x128a AND WPA_KEY_INFO_SECURE) OR WPA_KEY_INFO_TYPE_HMAC_SHA1_AES OR WPA_KEY_INFO_KEY_TYPE OR mic_or_encr 16 = 0x30a"
    by (simp add: key_info_bits descriptor_versions mic_or_encr_def)
  then have sent: "wpa_supplicant_send_4_of_4 env (sm_bssid s) ?k WPA_KEY_INFO_TYPE_HMAC_SHA1_AES 0x128a (sm_ptk s) s =
      (True, sm_emit Tx_eapol_key (sm_emit (Ether_send (sm_bssid s) (signed_frame (env_eapol_version env) (sm_ptk s) ?r [])) s))"
    using send_signed [OF link(2) assms(2) r, of "[]" "sm_ptk s" "sm_bssid s"] assms(8) link
    by (simp add: wpa_supplicant_send_4_of_4_def info s)
  define t where "t = (sm_emit Tx_eapol_key (sm_emit (Ether_send (sm_bssid s) (signed_frame (env_eapol_version env) (sm_ptk s) ?r [])) s))\<lparr>sm_renew_snonce := True\<rparr>"
  have t: "ccmp_psk t" "sm_gtk t \<noteq> gtk" "sm_gtk_wnm_sleep t \<noteq> gtk" "sm_ptk t = sm_ptk sm" "grants t = grants sm"
    using s by (simp_all add: t_def sm_emit_def wpa1_link_def ccmp_psk_def grants_def grant_def)
  obtain e where e: "parse_kdes ?d = (True, e)" "at ?d (kde_gtk e) (kde_gtk_len e) = Some ([idx, 0] @ gtk)"
    "at ?d (kde_wpa_ie e) (kde_wpa_ie_len e) = Some ie" "at ?d (kde_rsn_ie e) (kde_rsn_ie_len e) = None"
    using parse_key_data_wpa [OF assms(3,4), of idx] parts by (simp add: no_kde_def at_def)
  have "sm' = finish_3_of_4 env ?k (Some ([idx, 0] @ gtk)) t"
    using assms(11)
    unfolding wpa_supplicant_process_3_of_4_def s_def [symmetric] info(1-5)
    by (simp add: e bits_forged valid sent s(5) link ccmp_facts t_def [symmetric] Let_def)
  then show ?thesis using finish_effect [OF t(1) assms(2,4) t(2,3) _ info(4), of idx] t bits_forged info by simp
qed

text \<open>
  C39: what the check for a MIC does not cover. In a network with WPA version 1, a station that has completed or started a handshake takes a
  group key from anyone: the frame has no MIC, its key data are flagged as encrypted but are in the clear, and it contains no
  secret. The key goes to the driver and the link is reported complete. The code demands a MIC for encrypted key data with RSN only.
\<close>

theorem wpa1_group_key_forged:
  assumes "wpa1_link sm ie" "working env" "wpa_element ie" "length gtk = 16" "sm_gtk sm \<noteq> gtk" "sm_gtk_wnm_sleep sm \<noteq> gtk"
    "\<not> zero_addr (sm_bssid sm)" "length counter = 8" "length (sm_anonce sm) = 32"
    "sm_rx_replay_counter_set sm \<longrightarrow> memcmp_less (sm_rx_replay_counter sm) counter"
    "wpa_sm_rx_eapol env src (forged_3 counter (sm_anonce sm) ie idx gtk) sm = (ret, sm')"
  shows "ret = 1 \<and> sm_state sm' = WPA_COMPLETED \<and> sm_gtk sm' = gtk \<and>
    grants sm' = grants sm @
      [Port_valid, Set_key WPA_ALG_CCMP (Some (replicate 6 0xff)) (unat (idx AND 3)) False (replicate 6 0) gtk True, Port_valid]"
proof -
  let ?k = "ap_key 0x128a counter (sm_anonce sm)" and ?d = "key_data_wpa ie idx gtk" and ?s = "sm_emit Lower_layer_success sm"
  have info: "k_key_info ?k = 0x128a" "k_type ?k = 2" "k_replay_counter ?k = counter" by (simp_all add: ap_key_def)
  have "length (kde_padding n) \<le> 8" for n by (simp add: kde_padding_def)
  from this [of "length ie + 24"] have "length ?d < 60000" using assms(3,4) by (simp add: key_data_wpa_def wpa_element_def)
  then have rx: "(ret, sm') = wpa_key_process env src ?k WPA_KEY_INFO_TYPE_HMAC_SHA1_AES (forged_3 counter (sm_anonce sm) ie idx gtk) ?d ?s"
    using rx_accepted [where sm = sm and env = env and k = ?k and mic = "replicate 16 0" and d = ?d and src = src and v = 2]
      assms(1,2,8-11) bits_forged ap_key_wf [OF assms(8,9)]
    by (simp add: forged_3_def info working_def wpa1_link_def ccmp_psk_def)
  have s: "wpa1_link ?s ie" "sm_gtk ?s \<noteq> gtk" "sm_gtk_wnm_sleep ?s \<noteq> gtk" "sm_anonce ?s = sm_anonce sm" "\<not> zero_addr (sm_bssid ?s)"
    "grants ?s = grants sm" "\<not> is_rsn sm" "sm_mic_len ?s = 16"
    using assms(1,5-7)
    by (simp_all add: sm_emit_def wpa1_link_def ccmp_psk_def grants_def grant_def is_rsn_def wpa1_not_rsn sm_mic_len_def psk_facts)
  have "(ret, sm') = (1, wpa_supplicant_process_3_of_4 env ?k WPA_KEY_INFO_TYPE_HMAC_SHA1_AES ?d ?s)"
    unfolding rx wpa_key_process_def by (simp add: info bits_forged s wpa_key_dispatch_def)
  then show ?thesis
    using process_forged [OF s(1) assms(2-4) s(2,3,4,5) assms(8,9) refl, of idx] s(6) by simp
qed

definition demo_wpa_ie :: bytes where
  "demo_wpa_ie = [0xdd, 22, 0x00, 0x50, 0xf2, 1, 1, 0, 0x00, 0x50, 0xf2, 4, 1, 0, 0x00, 0x50, 0xf2, 4, 1, 0, 0x00, 0x50, 0xf2, 2]"

theorem wpa1_group_key_forged_witness:
  "case wpa_sm_rx_eapol demo_env [] (forged_3 (replicate 8 1) (replicate 32 9) demo_wpa_ie 1 (replicate 16 6))
          (demo_station\<lparr>sm_proto := WPA_PROTO_WPA, sm_ptk := zero_ptk\<lparr>kck_len := 16\<rparr>, sm_ap_wpa_ie := Some demo_wpa_ie\<rparr>) of
     (ret, sm) \<Rightarrow> ret = 1 \<and> sm_gtk sm = replicate 16 6"
proof -
  let ?sm = "demo_station\<lparr>sm_proto := WPA_PROTO_WPA, sm_ptk := zero_ptk\<lparr>kck_len := 16\<rparr>, sm_ap_wpa_ie := Some demo_wpa_ie\<rparr>"
  have d: "wpa1_link ?sm demo_wpa_ie" "wpa_element demo_wpa_ie" "sm_gtk ?sm \<noteq> replicate 16 6" "sm_gtk_wnm_sleep ?sm \<noteq> replicate 16 6"
    "\<not> zero_addr (sm_bssid ?sm)" "sm_anonce ?sm = replicate 32 9" "\<not> sm_rx_replay_counter_set ?sm"
    using demo_facts(5)
    by (simp_all add: wpa1_link_def wpa_element_def demo_wpa_ie_def ccmp_psk_def demo_station_def zero_ptk_def WPA_KCK_MAX_LEN_def wpa_sm_init_def)
  show ?thesis
    using wpa1_group_key_forged [OF d(1) demo_facts(3) d(2) _ d(3,4,5), of "replicate 8 1"] d(6,7) by (auto split: prod.split)
qed

end
