(* ===== verification/CipherText.thy ===== *)
theory CipherText
  imports WpaSm HexText
begin

text \<open>
  Ciphers and key management as text (\<^verbatim>\<open>common/wpa_common.c\<close>): the lists of the configuration file, which are parsed and written, the
  names of status output, and the choices between several ciphers.
\<close>

definition lit :: "string \<Rightarrow> bytes" where
  "lit s = map of_char s"

section \<open>Cipher lists\<close>

definition WPA_CIPHER_WEP40 :: u32 where "WPA_CIPHER_WEP40 = 0x2"
definition WPA_CIPHER_WEP104 :: u32 where "WPA_CIPHER_WEP104 = 0x4"









section \<open>Names and choices\<close>

definition wpa_cipher_txt :: "u32 \<Rightarrow> bytes" where
  "wpa_cipher_txt cipher =
     (if cipher = WPA_CIPHER_NONE then lit ''NONE''
      else if cipher = WPA_CIPHER_WEP40 then lit ''WEP-40''
      else if cipher = WPA_CIPHER_WEP104 then lit ''WEP-104''
      else if cipher = WPA_CIPHER_TKIP then lit ''TKIP''
      else if cipher = WPA_CIPHER_CCMP then lit ''CCMP''
      else if cipher = WPA_CIPHER_CCMP OR WPA_CIPHER_TKIP then lit ''CCMP+TKIP''
      else if cipher = WPA_CIPHER_GCMP then lit ''GCMP''
      else if cipher = WPA_CIPHER_GCMP_256 then lit ''GCMP-256''
      else if cipher = WPA_CIPHER_CCMP_256 then lit ''CCMP-256''
      else if cipher = WPA_CIPHER_AES_128_CMAC then lit ''BIP''
      else if cipher = WPA_CIPHER_BIP_GMAC_128 then lit ''BIP-GMAC-128''
      else if cipher = WPA_CIPHER_BIP_GMAC_256 then lit ''BIP-GMAC-256''
      else if cipher = WPA_CIPHER_BIP_CMAC_256 then lit ''BIP-CMAC-256''
      else if cipher = WPA_CIPHER_GTK_NOT_USED then lit ''GTK_NOT_USED''
      else lit ''UNKNOWN'')"

definition WPA_KEY_MGMT_NONE :: u32 where "WPA_KEY_MGMT_NONE = 0x4"
definition WPA_KEY_MGMT_IEEE8021X_NO_WPA :: u32 where "WPA_KEY_MGMT_IEEE8021X_NO_WPA = 0x8"
definition WPA_KEY_MGMT_WPS :: u32 where "WPA_KEY_MGMT_WPS = 0x200"

text \<open>The names of the fast transition and SHA-256 suites belong to optional protocols.\<close>

definition wpa_key_mgmt_txt :: "u32 \<Rightarrow> u32 \<Rightarrow> bytes" where
  "wpa_key_mgmt_txt key_mgmt0 proto0 =
     (if key_mgmt0 = WPA_KEY_MGMT_IEEE8021X then
        if proto0 = WPA_PROTO_RSN OR WPA_PROTO_WPA then lit ''WPA2+WPA/IEEE 802.1X/EAP''
        else if proto0 = WPA_PROTO_RSN then lit ''WPA2/IEEE 802.1X/EAP'' else lit ''WPA/IEEE 802.1X/EAP''
      else if key_mgmt0 = WPA_KEY_MGMT_PSK then
        if proto0 = WPA_PROTO_RSN OR WPA_PROTO_WPA then lit ''WPA2-PSK+WPA-PSK''
        else if proto0 = WPA_PROTO_RSN then lit ''WPA2-PSK'' else lit ''WPA-PSK''
      else if key_mgmt0 = WPA_KEY_MGMT_NONE then lit ''NONE''
      else if key_mgmt0 = WPA_KEY_MGMT_WPA_NONE then lit ''WPA-NONE''
      else if key_mgmt0 = WPA_KEY_MGMT_IEEE8021X_NO_WPA then lit ''IEEE 802.1X (no WPA)''
      else if key_mgmt0 = WPA_KEY_MGMT_WPS then lit ''WPS''
      else if key_mgmt0 = WPA_KEY_MGMT_SAE then lit ''SAE''
      else if key_mgmt0 = WPA_KEY_MGMT_FT_SAE then lit ''FT-SAE''
      else if key_mgmt0 = WPA_KEY_MGMT_OSEN then lit ''OSEN''
      else if key_mgmt0 = WPA_KEY_MGMT_IEEE8021X_SUITE_B then lit ''WPA2-EAP-SUITE-B''
      else if key_mgmt0 = WPA_KEY_MGMT_IEEE8021X_SUITE_B_192 then lit ''WPA2-EAP-SUITE-B-192''
      else if key_mgmt0 = WPA_KEY_MGMT_FILS_SHA256 then lit ''FILS-SHA256''
      else if key_mgmt0 = WPA_KEY_MGMT_FILS_SHA384 then lit ''FILS-SHA384''
      else if key_mgmt0 = WPA_KEY_MGMT_FT_FILS_SHA256 then lit ''FT-FILS-SHA256''
      else if key_mgmt0 = WPA_KEY_MGMT_FT_FILS_SHA384 then lit ''FT-FILS-SHA384''
      else if key_mgmt0 = WPA_KEY_MGMT_OWE then lit ''OWE''
      else if key_mgmt0 = WPA_KEY_MGMT_DPP then lit ''DPP''
      else lit ''UNKNOWN'')"

definition RSN_AUTH_KEY_MGMT_DPP :: u32 where "RSN_AUTH_KEY_MGMT_DPP = RSN_SELECTOR 0x50 0x6f 0x9a 2"

definition wpa_akm_to_suite :: "u32 \<Rightarrow> u32" where
  "wpa_akm_to_suite akm =
     (if akm AND WPA_KEY_MGMT_FT_IEEE8021X_SHA384 \<noteq> 0 then rsn_suite 13
      else if akm AND WPA_KEY_MGMT_FT_IEEE8021X \<noteq> 0 then rsn_suite 3
      else if akm AND WPA_KEY_MGMT_FT_PSK \<noteq> 0 then rsn_suite 4
      else if akm AND WPA_KEY_MGMT_IEEE8021X_SHA256 \<noteq> 0 then rsn_suite 5
      else if akm AND WPA_KEY_MGMT_IEEE8021X \<noteq> 0 then rsn_suite 1
      else if akm AND WPA_KEY_MGMT_PSK_SHA256 \<noteq> 0 then rsn_suite 6
      else if akm AND WPA_KEY_MGMT_PSK \<noteq> 0 then rsn_suite 2
      else if akm AND WPA_KEY_MGMT_CCKM \<noteq> 0 then RSN_AUTH_KEY_MGMT_CCKM
      else if akm AND WPA_KEY_MGMT_OSEN \<noteq> 0 then RSN_AUTH_KEY_MGMT_OSEN
      else if akm AND WPA_KEY_MGMT_IEEE8021X_SUITE_B \<noteq> 0 then rsn_suite 11
      else if akm AND WPA_KEY_MGMT_IEEE8021X_SUITE_B_192 \<noteq> 0 then rsn_suite 12
      else if akm AND WPA_KEY_MGMT_FILS_SHA256 \<noteq> 0 then rsn_suite 14
      else if akm AND WPA_KEY_MGMT_FILS_SHA384 \<noteq> 0 then rsn_suite 15
      else if akm AND WPA_KEY_MGMT_FT_FILS_SHA256 \<noteq> 0 then rsn_suite 16
      else if akm AND WPA_KEY_MGMT_FT_FILS_SHA384 \<noteq> 0 then rsn_suite 17
      else if akm AND WPA_KEY_MGMT_SAE \<noteq> 0 then rsn_suite 8
      else if akm AND WPA_KEY_MGMT_FT_SAE \<noteq> 0 then rsn_suite 9
      else if akm AND WPA_KEY_MGMT_OWE \<noteq> 0 then rsn_suite 18
      else if akm AND WPA_KEY_MGMT_DPP \<noteq> 0 then RSN_AUTH_KEY_MGMT_DPP
      else if akm AND WPA_KEY_MGMT_OSEN \<noteq> 0 then RSN_AUTH_KEY_MGMT_OSEN
      else 0)"

definition wpa_default_rsn_cipher :: "int \<Rightarrow> u32" where
  "wpa_default_rsn_cipher freq = (if 56160 < freq then WPA_CIPHER_GCMP else WPA_CIPHER_CCMP)"

definition wpa_select_ap_group_cipher :: "u32 \<Rightarrow> u32 \<Rightarrow> u32 \<Rightarrow> u32" where
  "wpa_select_ap_group_cipher wpa wpa_pw rsn_pw =
     (let pairwise = (if wpa AND 1 \<noteq> 0 then wpa_pw else 0) OR (if wpa AND 2 \<noteq> 0 then rsn_pw else 0) in
      if pairwise AND WPA_CIPHER_TKIP \<noteq> 0 then WPA_CIPHER_TKIP
      else if pairwise AND (WPA_CIPHER_CCMP OR WPA_CIPHER_GCMP) = WPA_CIPHER_GCMP then WPA_CIPHER_GCMP
      else if pairwise AND (WPA_CIPHER_GCMP_256 OR WPA_CIPHER_CCMP OR WPA_CIPHER_GCMP) = WPA_CIPHER_GCMP_256 then WPA_CIPHER_GCMP_256
      else if pairwise AND (WPA_CIPHER_CCMP_256 OR WPA_CIPHER_CCMP OR WPA_CIPHER_GCMP) = WPA_CIPHER_CCMP_256 then WPA_CIPHER_CCMP_256
      else WPA_CIPHER_CCMP)"

definition wpa_key_mgmt_suite :: "wpa_sm \<Rightarrow> u32" where
  "wpa_key_mgmt_suite sm =
     (let mgmt = sm_key_mgmt sm; rsn = sm_proto sm = WPA_PROTO_RSN in
      if mgmt = WPA_KEY_MGMT_IEEE8021X then if is_rsn sm then rsn_suite 1 else wpa_suite 1
      else if mgmt = WPA_KEY_MGMT_PSK then if rsn then rsn_suite 2 else wpa_suite 2
      else if mgmt = WPA_KEY_MGMT_CCKM then RSN_AUTH_KEY_MGMT_CCKM
      else if mgmt = WPA_KEY_MGMT_WPA_NONE then wpa_suite 0
      else if mgmt = WPA_KEY_MGMT_IEEE8021X_SUITE_B then rsn_suite 11
      else if mgmt = WPA_KEY_MGMT_IEEE8021X_SUITE_B_192 then rsn_suite 12
      else 0)"

section \<open>Status text\<close>

text \<open>Texts printed one after the other; the first that does not fit with its terminator ends the output.\<close>

fun report :: "nat \<Rightarrow> bytes \<Rightarrow> bytes list \<Rightarrow> bytes" where
  "report room out [] = out"
| "report room out (t # ts) = (if room - length out \<le> length t then out else report room (out @ t) ts)"

definition line :: "string \<Rightarrow> bytes \<Rightarrow> bytes" where
  "line name v = lit name @ [0x3d] @ v @ [0x0a]"

definition int_text :: "u32 \<Rightarrow> bytes" where
  "int_text w = (if sint w < 0 then [0x2d] @ decimal (nat (- sint w)) else decimal (nat (sint w)))"

text \<open>Frames without management protection: the suite of the group management cipher is 0.\<close>

definition wpa_sm_get_status :: "wpa_sm \<Rightarrow> nat \<Rightarrow> bytes" where
  "wpa_sm_get_status sm buflen =
     report buflen []
       ([line ''pairwise_cipher'' (wpa_cipher_txt (sm_pairwise_cipher sm)) @ line ''group_cipher'' (wpa_cipher_txt (sm_group_cipher sm)) @
           line ''key_mgmt'' (wpa_key_mgmt_txt (sm_key_mgmt sm) (sm_proto sm))] @
        (if wpa_sm_pmf_enabled sm
         then [line ''pmf'' (decimal (if ap_capabilities sm AND 0x40 \<noteq> 0 then 2 else 1)) @ line ''mgmt_group_cipher'' (wpa_cipher_txt 0)]
         else []))"

definition suite_text :: "u32 \<Rightarrow> bytes" where
  "suite_text s =
     fmt_02x False (ucast (drop_bit 24 s)) @ [0x2d] @ fmt_02x False (ucast (drop_bit 16 s)) @ [0x2d] @
     fmt_02x False (ucast (drop_bit 8 s)) @ [0x2d] @ decimal (unat (s AND 0xff))"

definition mib_config :: "wpa_sm \<Rightarrow> bytes" where
  "mib_config sm =
     (let rsna = (wpa_key_mgmt_wpa_psk (sm_key_mgmt sm) \<or> wpa_key_mgmt_wpa_ieee8021x (sm_key_mgmt sm)) \<and> sm_proto sm = WPA_PROTO_RSN;
          t = (if rsna then lit ''TRUE'' else lit ''FALSE'')
      in line ''dot11RSNAOptionImplemented'' (lit ''TRUE'') @ line ''dot11RSNAPreauthenticationImplemented'' (lit ''TRUE'') @
         line ''dot11RSNAEnabled'' t @ line ''dot11RSNAPreauthenticationEnabled'' t @ line ''dot11RSNAConfigVersion'' (lit ''1'') @
         line ''dot11RSNAConfigPairwiseKeysSupported'' (lit ''5'') @
         line ''dot11RSNAConfigGroupCipherSize'' (decimal (wpa_cipher_key_len (sm_group_cipher sm) * 8)) @
         line ''dot11RSNAConfigPMKLifetime'' (int_text (sm_PMKLifetime sm)) @
         line ''dot11RSNAConfigPMKReauthThreshold'' (int_text (sm_PMKReauthThreshold sm)) @
         line ''dot11RSNAConfigNumberOfPTKSAReplayCounters'' (lit ''1'') @ line ''dot11RSNAConfigSATimeout'' (int_text (sm_SATimeout sm)))"

definition mib_suites :: "wpa_sm \<Rightarrow> bytes" where
  "mib_suites sm =
     (let akm = suite_text (wpa_key_mgmt_suite sm);
          pairwise = suite_text (wpa_cipher_to_suite (sm_proto sm) (sm_pairwise_cipher sm));
          group = suite_text (wpa_cipher_to_suite (sm_proto sm) (sm_group_cipher sm));
          pmkid_txt = (case cur_entry sm of None \<Rightarrow> [] | Some e \<Rightarrow> snd (wpa_snprintf_hex 33 (take 16 (e_pmkid e))))
      in line ''dot11RSNAAuthenticationSuiteSelected'' akm @ line ''dot11RSNAPairwiseCipherSelected'' pairwise @
         line ''dot11RSNAGroupCipherSelected'' group @ line ''dot11RSNAPMKIDUsed'' pmkid_txt @
         line ''dot11RSNAAuthenticationSuiteRequested'' akm @ line ''dot11RSNAPairwiseCipherRequested'' pairwise @
         line ''dot11RSNAGroupCipherRequested'' group @ line ''dot11RSNAConfigNumberOfGTKSAReplayCounters'' (lit ''0'') @
         line ''dot11RSNA4WayHandshakeFailures'' (decimal (unat (sm_4WayHandshakeFailures sm))))"

definition wpa_sm_get_mib :: "wpa_sm \<Rightarrow> nat \<Rightarrow> bytes" where
  "wpa_sm_get_mib sm buflen = report buflen [] [mib_config sm, mib_suites sm]"

definition cache_tail :: "int \<Rightarrow> rsn_pmksa_cache_entry \<Rightarrow> bytes list" where
  "cache_tail now e =
     [[0x20] @ int_text (word_of_int (e_expiration e - now)) @ [0x20] @ decimal (if e_opportunistic e then 1 else 0)] @
     (case e_fils_cache_id e of None \<Rightarrow> [] | Some c \<Rightarrow> [[0x20] @ fmt_02x False (c ! 0) @ fmt_02x False (c ! 1)]) @ [[0x0a]]"

text \<open>One line of the cache; the PMKID is cut, not refused, when it does not fit, and the line then goes on.\<close>

definition cache_line :: "int \<Rightarrow> nat \<Rightarrow> nat \<Rightarrow> rsn_pmksa_cache_entry \<Rightarrow> bytes \<Rightarrow> bytes \<times> bool" where
  "cache_line now room i e out =
     (let start = decimal i @ [0x20] @ macstr (e_aa e) @ [0x20] in
      if room - length out \<le> length start then (out, False)
      else
        let out = out @ start;
            (n, hex) = wpa_snprintf_hex (room - length out) (take 16 (e_pmkid e));
            out = out @ take n hex;
            res = report room out (cache_tail now e)
        in (res, length res = length out + length (concat (cache_tail now e))))"

fun cache_lines :: "int \<Rightarrow> nat \<Rightarrow> nat \<Rightarrow> rsn_pmksa_cache_entry list \<Rightarrow> bytes \<Rightarrow> bytes" where
  "cache_lines now room i [] out = out"
| "cache_lines now room i (e # es) out =
     (case cache_line now room i e out of (out, go) \<Rightarrow> if go then cache_lines now room (i + 1) es out else out)"

definition pmksa_cache_list :: "int \<Rightarrow> nat \<Rightarrow> wpa_sm \<Rightarrow> bytes" where
  "pmksa_cache_list now len sm =
     (let head = lit ''Index / AA / PMKID / expiration (in seconds) / opportunistic'' @
            (if list_ex (\<lambda>e. e_fils_cache_id e \<noteq> None) (sm_pmksa sm) then lit '' / FILS Cache Identifier'' else []) @ [0x0a]
      in if len \<le> length head then [] else cache_lines now len 1 (sm_pmksa sm) head)"

text \<open>What is reported, and its terminator, fit the buffer.\<close>

lemma report_fits: "length out < room \<Longrightarrow> length (report room out ts) < room"
  by (induction ts arbitrary: out) auto

lemma snprintf_hex_count: "fst (snprintf_hex_loop up room data) \<le> room - 1"
  by (induction up room data rule: snprintf_hex_loop.induct) (auto split: prod.splits)

lemma cache_line_fits: "length out < room \<Longrightarrow> length (fst (cache_line now room i e out)) < room"
proof (cases "room - length out \<le> length (decimal i @ [0x20] @ macstr (e_aa e) @ [0x20])")
  case False
  let ?out = "out @ decimal i @ [0x20] @ macstr (e_aa e) @ [0x20]"
  obtain n hex where h: "wpa_snprintf_hex (room - length ?out) (take 16 (e_pmkid e)) = (n, hex)" by fastforce
  have "n \<le> room - length ?out - 1"
    using snprintf_hex_count [of False "room - length ?out" "take 16 (e_pmkid e)"] h
    by (simp add: wpa_snprintf_hex_def wpa_snprintf_hex_gen_def split: if_splits)
  then have "length (?out @ take n hex) < room" using False by auto
  from report_fits [OF this] show ?thesis using False h by (simp add: cache_line_def Let_def)
qed (simp add: cache_line_def Let_def)

lemma cache_list_fits: "0 < len \<Longrightarrow> length (pmksa_cache_list now len sm) < len"
proof -
  have "length out < room \<Longrightarrow> length (cache_lines now room i es out) < room" for room i es out
  proof (induction now room i es out rule: cache_lines.induct)
    case (2 now room i e es out)
    then show ?case using cache_line_fits [of out room now i e] by (cases "cache_line now room i e out") simp
  qed simp
  then show "0 < len \<Longrightarrow> ?thesis" by (simp add: pmksa_cache_list_def Let_def)
qed

lemma status_fits: "0 < n \<Longrightarrow> length (wpa_sm_get_status sm n) < n \<and> length (wpa_sm_get_mib sm n) < n"
  by (simp add: wpa_sm_get_status_def wpa_sm_get_mib_def report_fits del: report.simps)

section \<open>Written lists are read back\<close>












end
