(* ===== verification/Scan.thy ===== *)
theory Scan
  imports Wpabuf OsUtil RsnIe
begin

text \<open>
  Scan results (\<^verbatim>\<open>wpa_supplicant/scan.c\<close>, \<^verbatim>\<open>common/ieee802_11_common.c\<close>): the elements of a frame, the lookups in a
  result, the estimate of signal and throughput, the order in which results are tried, the BSSID filter. An element is the list of
  its bytes, from the element number on; the difference of two \<^verbatim>\<open>int\<close> values is exact.
\<close>

section \<open>Elements\<close>

text \<open>The elements that \<^verbatim>\<open>for_each_element\<close> visits: it stops at the first one that does not fit.\<close>

fun elements :: "bytes \<Rightarrow> bytes list" where
  "elements (eid # len # rest) =
     (if unat len \<le> length rest then (eid # len # take (unat len) rest) # elements (drop (unat len) rest) else [])"
| "elements _ = []"

definition get_ie :: "bytes \<Rightarrow> u8 \<Rightarrow> bytes option" where
  "get_ie ies eid = find (\<lambda>e. e ! 0 = eid) (elements ies)"

definition vendor_match :: "u32 \<Rightarrow> bytes \<Rightarrow> bool" where
  "vendor_match vendor_type e \<longleftrightarrow> e ! 0 = WLAN_EID_VENDOR_SPECIFIC \<and> 4 \<le> unat (e ! 1) \<and> vendor_type = get_be32 (take 4 (drop 2 e))"

definition get_vendor_ie :: "bytes \<Rightarrow> u32 \<Rightarrow> bytes option" where
  "get_vendor_ie ies vendor_type = find (vendor_match vendor_type) (elements ies)"

text \<open>The payloads of all vendor elements of a type, in a buffer of the length of all elements. \<open>None\<close> is the abort of \<^verbatim>\<open>wpabuf_put\<close>.\<close>

fun put_payloads :: "bytes list \<Rightarrow> wpabuf \<Rightarrow> wpabuf option" where
  "put_payloads [] b = Some b"
| "put_payloads (e # es) b = do { b \<leftarrow> wpabuf_put_data b (drop 6 e); put_payloads es b }"

definition vendor_ie_multi :: "(nat \<Rightarrow> bool) \<Rightarrow> bytes \<Rightarrow> u32 \<Rightarrow> wpabuf option option" where
  "vendor_ie_multi mem ies vendor_type =
     (case wpabuf_alloc mem (length ies) of
        None \<Rightarrow> Some None
      | Some b \<Rightarrow>
          map_option (\<lambda>b. if wpabuf_len b = 0 then None else Some b)
            (put_payloads (List.filter (vendor_match vendor_type) (elements ies)) b))"

definition ieee802_11_ext_capab :: "bytes option \<Rightarrow> nat \<Rightarrow> bool" where
  "ieee802_11_ext_capab ie capab =
     (case ie of None \<Rightarrow> False | Some e \<Rightarrow> if unat (e ! 1) \<le> capab div 8 then False else bit (e ! (2 + capab div 8)) (capab mod 8))"

definition WLAN_EID_SSID :: u8 where "WLAN_EID_SSID = 0"
definition WLAN_EID_SUPP_RATES :: u8 where "WLAN_EID_SUPP_RATES = 1"
definition WLAN_EID_HT_CAP :: u8 where "WLAN_EID_HT_CAP = 45"
definition WLAN_EID_EXT_SUPP_RATES :: u8 where "WLAN_EID_EXT_SUPP_RATES = 50"
definition WLAN_EID_HT_OPERATION :: u8 where "WLAN_EID_HT_OPERATION = 61"
definition WLAN_EID_MESH_ID :: u8 where "WLAN_EID_MESH_ID = 114"
definition WLAN_EID_EXT_CAPAB :: u8 where "WLAN_EID_EXT_CAPAB = 127"
definition WLAN_EID_VHT_CAP :: u8 where "WLAN_EID_VHT_CAP = 191"
definition WLAN_EID_VHT_OPERATION :: u8 where "WLAN_EID_VHT_OPERATION = 192"
definition WPA_IE_VENDOR_TYPE :: u32 where "WPA_IE_VENDOR_TYPE = 0x0050f201"
definition WPS_IE_VENDOR_TYPE :: u32 where "WPS_IE_VENDOR_TYPE = 0x0050f204"
definition P2P_IE_VENDOR_TYPE :: u32 where "P2P_IE_VENDOR_TYPE = 0x506f9a09"
definition IEEE80211_CAP_IBSS :: u16 where "IEEE80211_CAP_IBSS = 0x0002"
definition IEEE80211_CAP_PRIVACY :: u16 where "IEEE80211_CAP_PRIVACY = 0x0010"
definition WPA_SCAN_NOISE_INVALID :: u32 where "WPA_SCAN_NOISE_INVALID = 2"
definition WPA_SCAN_LEVEL_DBM :: u32 where "WPA_SCAN_LEVEL_DBM = 8"
definition WPA_SCAN_ASSOCIATED :: u32 where "WPA_SCAN_ASSOCIATED = 32"

section \<open>Results\<close>

record wpa_scan_res =
  r_flags :: u32
  r_bssid :: bytes
  r_freq :: int
  r_beacon_int :: u16
  r_caps :: u16
  r_qual :: int
  r_noise :: int
  r_level :: int
  r_tsf :: u64
  r_age :: u32
  r_est_throughput :: u32
  r_snr :: int
  r_ies :: bytes
  r_beacon_ies :: bytes

definition wpa_scan_get_ie :: "wpa_scan_res \<Rightarrow> u8 \<Rightarrow> bytes option" where
  "wpa_scan_get_ie res eid = get_ie (if r_ies res = [] then r_beacon_ies res else r_ies res) eid"

definition wpa_scan_get_vendor_ie :: "wpa_scan_res \<Rightarrow> u32 \<Rightarrow> bytes option" where
  "wpa_scan_get_vendor_ie res vendor_type = get_vendor_ie (r_ies res) vendor_type"

definition wpa_scan_get_vendor_ie_beacon :: "wpa_scan_res \<Rightarrow> u32 \<Rightarrow> bytes option" where
  "wpa_scan_get_vendor_ie_beacon res vendor_type =
     (if r_beacon_ies res = [] then None else get_vendor_ie (r_beacon_ies res) vendor_type)"

definition wpa_scan_get_vendor_ie_multi :: "(nat \<Rightarrow> bool) \<Rightarrow> wpa_scan_res \<Rightarrow> u32 \<Rightarrow> wpabuf option option" where
  "wpa_scan_get_vendor_ie_multi mem res vendor_type = vendor_ie_multi mem (r_ies res) vendor_type"

text \<open>The highest rate of an element, without the bit that marks basic rates.\<close>

definition element_rates :: "bytes option \<Rightarrow> u8 list" where
  "element_rates ie = (case ie of None \<Rightarrow> [] | Some e \<Rightarrow> map (\<lambda>b. b AND 0x7f) (drop 2 e))"

definition max_rate :: "u8 list \<Rightarrow> nat" where
  "max_rate rates = fold (\<lambda>b rate. if rate < unat b then unat b else rate) rates 0"

definition wpa_scan_get_max_rate :: "wpa_scan_res \<Rightarrow> nat" where
  "wpa_scan_get_max_rate res =
     max_rate (element_rates (wpa_scan_get_ie res WLAN_EID_SUPP_RATES) @ element_rates (wpa_scan_get_ie res WLAN_EID_EXT_SUPP_RATES))"

section \<open>Signal and throughput\<close>

definition GREAT_SNR :: int where "GREAT_SNR = 25"
definition IS_5GHZ :: "int \<Rightarrow> bool" where "IS_5GHZ n \<longleftrightarrow> 4000 < n"
definition DEFAULT_NOISE_FLOOR_2GHZ :: int where "DEFAULT_NOISE_FLOOR_2GHZ = - 89"
definition DEFAULT_NOISE_FLOOR_5GHZ :: int where "DEFAULT_NOISE_FLOOR_5GHZ = - 92"

definition scan_snr :: "wpa_scan_res \<Rightarrow> wpa_scan_res" where
  "scan_snr res =
     (let res = (if r_flags res AND WPA_SCAN_NOISE_INVALID \<noteq> 0
                 then res\<lparr>r_noise := if IS_5GHZ (r_freq res) then DEFAULT_NOISE_FLOOR_5GHZ else DEFAULT_NOISE_FLOOR_2GHZ\<rparr> else res)
      in res\<lparr>r_snr := if r_flags res AND WPA_SCAN_LEVEL_DBM \<noteq> 0 then r_level res - r_noise res else r_level res\<rparr>)"

definition max_ht20_rate :: "int \<Rightarrow> nat" where
  "max_ht20_rate snr =
     (if snr < 6 then 6500 else if snr < 8 then 13000 else if snr < 13 then 19500 else if snr < 17 then 26000
      else if snr < 20 then 39000 else if snr < 23 then 52000 else if snr < 24 then 58500 else 65000)"

definition max_ht40_rate :: "int \<Rightarrow> nat" where
  "max_ht40_rate snr =
     (if snr < 3 then 13500 else if snr < 6 then 27000 else if snr < 10 then 40500 else if snr < 15 then 54000
      else if snr < 17 then 81000 else if snr < 22 then 108000 else if snr < 24 then 121500 else 135000)"

definition max_vht80_rate :: "int \<Rightarrow> nat" where
  "max_vht80_rate snr =
     (if snr < 1 then 0 else if snr < 2 then 29300 else if snr < 5 then 58500 else if snr < 9 then 87800
      else if snr < 11 then 117000 else if snr < 15 then 175500 else if snr < 16 then 234000 else if snr < 18 then 263300
      else if snr < 20 then 292500 else if snr < 22 then 351000 else 390000)"

definition legacy_rate :: "nat \<Rightarrow> int \<Rightarrow> nat" where
  "legacy_rate rate snr =
     (if 2 < rate \<and> snr < 1 then 2
      else if 4 < rate \<and> snr < 4 then 4
      else if 12 < rate \<and> snr < 5 then 12
      else if 18 < rate \<and> snr < 6 then 18
      else if 24 < rate \<and> snr < 7 then 24
      else if 36 < rate \<and> snr < 10 then 36
      else if 48 < rate \<and> snr < 11 then 48
      else if 72 < rate \<and> snr < 15 then 72
      else if 96 < rate \<and> snr < 19 then 96
      else if 108 < rate \<and> snr < 21 then 108
      else rate)"

datatype local_hw_capab = CAPAB_NO_HT_VHT | CAPAB_HT | CAPAB_HT40 | CAPAB_VHT

text \<open>The operation elements announce a wider channel.\<close>

definition ht40_operation :: "wpa_scan_res \<Rightarrow> bool" where
  "ht40_operation res =
     (case wpa_scan_get_ie res WLAN_EID_HT_OPERATION of None \<Rightarrow> False | Some e \<Rightarrow> 2 \<le> unat (e ! 1) \<and> e ! 3 AND 3 \<noteq> 0)"

definition vht80_operation :: "wpa_scan_res \<Rightarrow> bool" where
  "vht80_operation res =
     (case wpa_scan_get_ie res WLAN_EID_VHT_OPERATION of None \<Rightarrow> False | Some e \<Rightarrow> 1 \<le> unat (e ! 1) \<and> e ! 2 AND 3 \<noteq> 0)"

definition scan_est_throughput :: "local_hw_capab \<Rightarrow> wpa_scan_res \<Rightarrow> wpa_scan_res" where
  "scan_est_throughput capab res =
     (if r_est_throughput res \<noteq> 0 then res
      else
        let snr = r_snr res;
            est = legacy_rate (wpa_scan_get_max_rate res) snr * 500;
            est = (if capab \<noteq> CAPAB_NO_HT_VHT \<and> wpa_scan_get_ie res WLAN_EID_HT_CAP \<noteq> None then max est (max_ht20_rate snr) else est);
            est = (if (capab = CAPAB_HT40 \<or> capab = CAPAB_VHT) \<and> ht40_operation res then max est (max_ht40_rate snr) else est);
            est = (if capab = CAPAB_VHT \<and> wpa_scan_get_ie res WLAN_EID_VHT_CAP \<noteq> None then
                     let est = max est (max_ht20_rate snr + 1);
                         est = (if ht40_operation res then max est (max_ht40_rate snr + 1) else est)
                     in if vht80_operation res then max est (max_vht80_rate snr + 1) else est
                   else est)
        in res\<lparr>r_est_throughput := of_nat est\<rparr>)"

section \<open>Order\<close>

definition uses_wpa :: "wpa_scan_res \<Rightarrow> bool" where
  "uses_wpa res \<longleftrightarrow> wpa_scan_get_vendor_ie res WPA_IE_VENDOR_TYPE \<noteq> None \<or> wpa_scan_get_ie res WLAN_EID_RSN \<noteq> None"

definition has_privacy :: "wpa_scan_res \<Rightarrow> bool" where
  "has_privacy res \<longleftrightarrow> r_caps res AND IEEE80211_CAP_PRIVACY \<noteq> 0"

text \<open>Signal values of two results: capped and full.\<close>

definition signal_pair :: "wpa_scan_res \<Rightarrow> wpa_scan_res \<Rightarrow> int \<times> int" where
  "signal_pair res other =
     (if r_flags res AND r_flags other AND WPA_SCAN_LEVEL_DBM \<noteq> 0
      then (if r_snr res < GREAT_SNR then r_snr res else GREAT_SNR, r_snr res) else (r_level res, r_level res))"

definition wpa_scan_result_compar :: "wpa_scan_res \<Rightarrow> wpa_scan_res \<Rightarrow> int" where
  "wpa_scan_result_compar wa wb =
     (if uses_wpa wb \<and> \<not> uses_wpa wa then 1
      else if \<not> uses_wpa wb \<and> uses_wpa wa then - 1
      else if \<not> has_privacy wa \<and> has_privacy wb then 1
      else if has_privacy wa \<and> \<not> has_privacy wb then - 1
      else
        let (snr_a, snr_a_full) = signal_pair wa wb; (snr_b, snr_b_full) = signal_pair wb wa in
        if snr_a \<noteq> 0 \<and> snr_b \<noteq> 0 \<and> \<bar>snr_b - snr_a\<bar> < 7 \<and> r_est_throughput wa \<noteq> r_est_throughput wb
        then sint (r_est_throughput wb) - sint (r_est_throughput wa)
        else if (snr_a \<noteq> 0 \<and> snr_b \<noteq> 0 \<and> \<bar>snr_b - snr_a\<bar> < 5 \<or>
                 r_qual wa \<noteq> 0 \<and> r_qual wb \<noteq> 0 \<and> \<bar>r_qual wb - r_qual wa\<bar> < 10) \<and> IS_5GHZ (r_freq wa) \<noteq> IS_5GHZ (r_freq wb)
        then if IS_5GHZ (r_freq wa) then - 1 else 1
        else if snr_b_full = snr_a_full then r_qual wb - r_qual wa
        else snr_b_full - snr_a_full)"

section \<open>Filter\<close>

definition wpa_supplicant_filter_bssid_match :: "bytes list option \<Rightarrow> bytes \<Rightarrow> bool" where
  "wpa_supplicant_filter_bssid_match flt bssid = (case flt of None \<Rightarrow> True | Some allowed \<Rightarrow> list_ex (\<lambda>a. a = bssid) allowed)"

definition filter_scan_res :: "bytes list option \<Rightarrow> wpa_scan_res list \<Rightarrow> wpa_scan_res list" where
  "filter_scan_res flt res = (if flt = None then res else List.filter (\<lambda>r. wpa_supplicant_filter_bssid_match flt (r_bssid r)) res)"

section \<open>Facts\<close>

lemma elements_shape:
  "e \<in> set (elements ies) \<Longrightarrow> 2 \<le> length e \<and> length e = 2 + unat (e ! 1)"
  by (induction ies rule: elements.induct) (auto split: if_splits)

lemma elements_fit: "length (concat (elements ies)) \<le> length ies"
  by (induction ies rule: elements.induct) auto

lemma get_ie_shape: "get_ie ies eid = Some e \<Longrightarrow> 2 \<le> length e \<and> length e = 2 + unat (e ! 1) \<and> e ! 0 = eid"
  using elements_shape by (fastforce simp: get_ie_def find_Some_iff in_set_conv_nth)

text \<open>The payloads always fit, so the buffer is never overrun and the process never aborts.\<close>

lemma put_payloads_fits:
  "wpabuf_inv b \<Longrightarrow> length (concat es) \<le> wpabuf_tailroom b \<Longrightarrow>
    \<exists>b'. put_payloads es b = Some b' \<and> wpabuf_inv b' \<and> wpabuf_data b' = wpabuf_data b @ concat (map (drop 6) es)"
proof (induction es arbitrary: b)
  case Nil
  then show ?case by simp
next
  case (Cons e es)
  have "length (drop 6 e) \<le> wpabuf_tailroom b" using Cons.prems(2) by simp
  from put_data_fits [OF Cons.prems(1) this] obtain b1 where b1: "wpabuf_put_data b (drop 6 e) = Some b1" "wpabuf_inv b1"
    "wpabuf_data b1 = wpabuf_data b @ drop 6 e" "wpabuf_tailroom b1 = wpabuf_tailroom b - length (drop 6 e)" by auto
  have "length (concat es) \<le> wpabuf_tailroom b1" using Cons.prems(2) b1(4) by simp
  from Cons.IH [OF b1(2) this] b1 show ?case by auto
qed

lemma concat_filter: "length (concat (List.filter P xs)) \<le> length (concat xs)"
  by (induction xs) auto

lemma vendor_ie_multi_some: "\<exists>ob. vendor_ie_multi mem ies vt = Some ob"
proof (cases "wpabuf_alloc mem (length ies)")
  case None
  then show ?thesis by (simp add: vendor_ie_multi_def)
next
  case (Some b)
  then have b: "wpabuf_inv b" "wpabuf_tailroom b = length ies"
    by (auto simp: wpabuf_alloc_def wpabuf_inv_def wpabuf_tailroom_def split: if_splits)
  have "length (concat (List.filter (vendor_match vt) (elements ies))) \<le> wpabuf_tailroom b"
    using le_trans [OF concat_filter elements_fit, of "vendor_match vt" ies] b by simp
  from put_payloads_fits [OF b(1) this] Some show ?thesis by (auto simp: vendor_ie_multi_def)
qed

section \<open>The order of results\<close>

lemma compar_antisym: "wpa_scan_result_compar wb wa = - wpa_scan_result_compar wa wb"
proof -
  obtain sa fa where a: "signal_pair wa wb = (sa, fa)" by fastforce
  obtain sb fb where b: "signal_pair wb wa = (sb, fb)" by fastforce
  have abs: "\<bar>sa - sb\<bar> = \<bar>sb - sa\<bar>" "\<bar>r_qual wa - r_qual wb\<bar> = \<bar>r_qual wb - r_qual wa\<bar>" by simp_all
  define close_rate where "close_rate \<longleftrightarrow> sa \<noteq> 0 \<and> sb \<noteq> 0 \<and> \<bar>sb - sa\<bar> < 7 \<and> r_est_throughput wa \<noteq> r_est_throughput wb"
  define close_band where "close_band \<longleftrightarrow> (sa \<noteq> 0 \<and> sb \<noteq> 0 \<and> \<bar>sb - sa\<bar> < 5 \<or> r_qual wa \<noteq> 0 \<and> r_qual wb \<noteq> 0 \<and>
      \<bar>r_qual wb - r_qual wa\<bar> < 10) \<and> IS_5GHZ (r_freq wa) \<noteq> IS_5GHZ (r_freq wb)"
  have swap: "sb \<noteq> 0 \<and> sa \<noteq> 0 \<and> \<bar>sa - sb\<bar> < 7 \<and> r_est_throughput wb \<noteq> r_est_throughput wa \<longleftrightarrow> close_rate"
    "(sb \<noteq> 0 \<and> sa \<noteq> 0 \<and> \<bar>sa - sb\<bar> < 5 \<or> r_qual wb \<noteq> 0 \<and> r_qual wa \<noteq> 0 \<and> \<bar>r_qual wa - r_qual wb\<bar> < 10) \<and>
      IS_5GHZ (r_freq wb) \<noteq> IS_5GHZ (r_freq wa) \<longleftrightarrow> close_band"
    unfolding close_rate_def close_band_def abs by metis+
  have five: "IS_5GHZ (r_freq wb) \<longleftrightarrow> \<not> IS_5GHZ (r_freq wa)" if close_band using that unfolding close_band_def by metis
  show ?thesis
    unfolding wpa_scan_result_compar_def a b Let_def prod.case swap close_rate_def [symmetric] close_band_def [symmetric]
    using five by (cases close_rate; cases close_band; cases "fa = fb"; auto)
qed

text \<open>With a signal between two others, the order runs in a circle: the estimate decides between neighbours, the signal between the ends.\<close>

definition plain_res :: "int \<Rightarrow> u32 \<Rightarrow> wpa_scan_res" where
  "plain_res snr est = \<lparr>r_flags = WPA_SCAN_LEVEL_DBM, r_bssid = [], r_freq = 2412, r_beacon_int = 0, r_caps = 0, r_qual = 0, r_noise = 0,
     r_level = 0, r_tsf = 0, r_age = 0, r_est_throughput = est, r_snr = snr, r_ies = [], r_beacon_ies = []\<rparr>"

lemma compar_cycle:
  "wpa_scan_result_compar (plain_res 15 200) (plain_res 20 100) < 0 \<and> wpa_scan_result_compar (plain_res 10 300) (plain_res 15 200) < 0 \<and>
   wpa_scan_result_compar (plain_res 20 100) (plain_res 10 300) < 0"
  by code_simp

end
