(* ===== verification/BssTable.thy ===== *)
theory BssTable
  imports Scan
begin

text \<open>
  The BSS table (\<^verbatim>\<open>wpa_supplicant/bss.c\<close>) and the part of \<^verbatim>\<open>struct wpa_supplicant\<close> it works on. An entry has an address, the
  number \<open>b_addr\<close>, and everything that points to entries holds addresses: the list by identifier, the results of the last scan, the current
  BSS and the BSS of the pending connect work. Freeing an entry takes it out of the table; following a pointer to an entry that is
  not there is \<open>None\<close>. Without \<^verbatim>\<open>CONFIG_INTERWORKING\<close>, \<^verbatim>\<open>CONFIG_HS20\<close>, \<^verbatim>\<open>CONFIG_P2P\<close> and \<^verbatim>\<open>CONFIG_WPS\<close> an entry has no ANQP data
  and no HESSID, and none is a WPS candidate.
\<close>

section \<open>State\<close>

record wpa_bss =
  b_addr :: nat
  b_id :: u32
  b_scan_miss_count :: u32
  b_last_update_idx :: u32
  b_flags :: u32
  b_bssid :: bytes
  b_ssid :: bytes
  b_freq :: int
  b_beacon_int :: u16
  b_caps :: u16
  b_qual :: int
  b_noise :: int
  b_level :: int
  b_tsf :: u64
  b_last_update :: os_reltime
  b_est_throughput :: u32
  b_snr :: int
  b_ies :: bytes
  b_beacon_ies :: bytes

definition WPA_BSS_ASSOCIATED :: u32 where "WPA_BSS_ASSOCIATED = 32"

definition WPA_BSS_FREQ_CHANGED_FLAG :: u32 where "WPA_BSS_FREQ_CHANGED_FLAG = 1"
definition WPA_BSS_SIGNAL_CHANGED_FLAG :: u32 where "WPA_BSS_SIGNAL_CHANGED_FLAG = 2"
definition WPA_BSS_PRIVACY_CHANGED_FLAG :: u32 where "WPA_BSS_PRIVACY_CHANGED_FLAG = 4"
definition WPA_BSS_MODE_CHANGED_FLAG :: u32 where "WPA_BSS_MODE_CHANGED_FLAG = 8"
definition WPA_BSS_WPAIE_CHANGED_FLAG :: u32 where "WPA_BSS_WPAIE_CHANGED_FLAG = 16"
definition WPA_BSS_RSNIE_CHANGED_FLAG :: u32 where "WPA_BSS_RSNIE_CHANGED_FLAG = 32"
definition WPA_BSS_WPS_CHANGED_FLAG :: u32 where "WPA_BSS_WPS_CHANGED_FLAG = 64"
definition WPA_BSS_RATES_CHANGED_FLAG :: u32 where "WPA_BSS_RATES_CHANGED_FLAG = 128"
definition WPA_BSS_IES_CHANGED_FLAG :: u32 where "WPA_BSS_IES_CHANGED_FLAG = 256"

text \<open>What is reported to the control interface and the bus.\<close>

datatype bss_note = Bss_added bytes u32 | Bss_removed bytes u32 | Bss_changed u32 u32 | Bss_seen u32

text \<open>
  \<open>w_last_scan_res\<close> is the used part of an array of \<open>w_last_scan_res_size\<close> pointers, which is not allocated when the size is 0.
  \<open>w_pending_work\<close> is the connect work that \<^verbatim>\<open>radio_work_pending\<close> finds: its \<^verbatim>\<open>bss\<close> and \<^verbatim>\<open>bss_removed\<close>. \<open>w_next_addr\<close> is above all
  addresses in use.
\<close>

record bss_state =
  w_bss :: "wpa_bss list"
  w_bss_id :: "nat list"
  w_num_bss :: nat
  w_bss_next_id :: u32
  w_bss_update_idx :: u32
  w_last_scan_res :: "nat list"
  w_last_scan_res_size :: nat
  w_current_bss :: "nat option"
  w_bssid :: bytes
  w_pending_bssid :: bytes
  w_pending_work :: "(nat option \<times> bool) option"
  w_scan_trigger_time :: os_reltime
  w_last_scan :: os_reltime
  w_clear_driver_scan_cache :: bool
  w_bssid_filter :: "bytes list option"
  conf_ssids :: "bytes option list"
  conf_bss_max_count :: nat
  conf_bss_expiration_scan_count :: u32
  conf_ignore_old_scan_res :: bool
  w_next_addr :: nat
  w_notes :: "bss_note list"

text \<open>
  How the allocations of one call end: \<^verbatim>\<open>os_zalloc\<close>, \<^verbatim>\<open>os_realloc\<close> of an entry (with the entry moved or not), \<^verbatim>\<open>os_realloc_array\<close>, and the
  buffers for vendor elements.
\<close>

record bss_env =
  be_zalloc :: bool
  be_realloc :: "bool option"
  be_array :: bool
  be_buffer :: "nat \<Rightarrow> bool"

definition bss_note :: "bss_note list \<Rightarrow> bss_state \<Rightarrow> bss_state" where
  "bss_note n s = s\<lparr>w_notes := w_notes s @ n\<rparr>"

definition bss_at :: "nat \<Rightarrow> bss_state \<Rightarrow> wpa_bss option" where
  "bss_at a s = find (\<lambda>b. b_addr b = a) (w_bss s)"

definition put_bss :: "wpa_bss \<Rightarrow> bss_state \<Rightarrow> bss_state" where
  "put_bss b s = s\<lparr>w_bss := map (\<lambda>x. if b_addr x = b_addr b then b else x) (w_bss s)\<rparr>"

section \<open>Removal\<close>

definition wpa_bss_update_pending_connect :: "nat \<Rightarrow> nat option \<Rightarrow> bss_state \<Rightarrow> bss_state" where
  "wpa_bss_update_pending_connect old_bss new_bss s =
     (case w_pending_work s of
        None \<Rightarrow> s
      | Some (bss, removed) \<Rightarrow>
          if bss \<noteq> Some old_bss then s else s\<lparr>w_pending_work := Some (new_bss, removed \<or> new_bss = None)\<rparr>)"

definition wpa_bss_remove :: "wpa_bss \<Rightarrow> bss_state \<Rightarrow> bss_state" where
  "wpa_bss_remove b s =
     (let s = s\<lparr>w_last_scan_res := remove1 (b_addr b) (w_last_scan_res s)\<rparr>;
          s = wpa_bss_update_pending_connect (b_addr b) None s
      in bss_note [Bss_removed (b_bssid b) (b_id b)]
           (s\<lparr>w_bss := List.filter (\<lambda>x. b_addr x \<noteq> b_addr b) (w_bss s), w_bss_id := remove1 (b_addr b) (w_bss_id s),
              w_num_bss := w_num_bss s - 1\<rparr>))"

section \<open>Lookup\<close>

definition wpa_bss_get :: "bss_state \<Rightarrow> bytes \<Rightarrow> bytes \<Rightarrow> wpa_bss option" where
  "wpa_bss_get s bssid ssid =
     (if \<not> wpa_supplicant_filter_bssid_match (w_bssid_filter s) bssid then None
      else find (\<lambda>b. b_bssid b = bssid \<and> b_ssid b = ssid) (w_bss s))"

definition wpa_bss_get_bssid :: "bss_state \<Rightarrow> bytes \<Rightarrow> wpa_bss option" where
  "wpa_bss_get_bssid s bssid =
     (if \<not> wpa_supplicant_filter_bssid_match (w_bssid_filter s) bssid then None
      else find (\<lambda>b. b_bssid b = bssid) (rev (w_bss s)))"

definition wpa_bss_get_bssid_latest :: "bss_state \<Rightarrow> bytes \<Rightarrow> wpa_bss option" where
  "wpa_bss_get_bssid_latest s bssid =
     (if \<not> wpa_supplicant_filter_bssid_match (w_bssid_filter s) bssid then None
      else fold (\<lambda>b found.
             if b_bssid b \<noteq> bssid then found
             else case found of
                    None \<Rightarrow> Some b
                  | Some f \<Rightarrow> if os_reltime_before (b_last_update f) (b_last_update b) then Some b else found) (rev (w_bss s)) None)"

definition wpa_bss_get_id :: "bss_state \<Rightarrow> u32 \<Rightarrow> wpa_bss option" where
  "wpa_bss_get_id s i = find (\<lambda>b. b_id b = i) (w_bss s)"

definition wpa_bss_get_id_range :: "bss_state \<Rightarrow> u32 \<Rightarrow> u32 \<Rightarrow> wpa_bss option" where
  "wpa_bss_get_id_range s idf idl =
     find (\<lambda>b. idf \<le> b_id b \<and> b_id b \<le> idl) (List.map_filter (\<lambda>a. bss_at a s) (w_bss_id s))"

definition wpa_bss_get_ie :: "wpa_bss \<Rightarrow> u8 \<Rightarrow> bytes option" where
  "wpa_bss_get_ie b eid = get_ie (b_ies b) eid"

definition wpa_bss_get_vendor_ie :: "wpa_bss \<Rightarrow> u32 \<Rightarrow> bytes option" where
  "wpa_bss_get_vendor_ie b vendor_type = get_vendor_ie (b_ies b) vendor_type"

definition wpa_bss_get_vendor_ie_beacon :: "wpa_bss \<Rightarrow> u32 \<Rightarrow> bytes option" where
  "wpa_bss_get_vendor_ie_beacon b vendor_type =
     (if b_beacon_ies b = [] then None else get_vendor_ie (b_beacon_ies b) vendor_type)"

definition wpa_bss_get_vendor_ie_multi :: "(nat \<Rightarrow> bool) \<Rightarrow> wpa_bss \<Rightarrow> u32 \<Rightarrow> wpabuf option option" where
  "wpa_bss_get_vendor_ie_multi mem b vendor_type = vendor_ie_multi mem (b_ies b) vendor_type"

definition wpa_bss_get_vendor_ie_multi_beacon :: "(nat \<Rightarrow> bool) \<Rightarrow> wpa_bss \<Rightarrow> u32 \<Rightarrow> wpabuf option option" where
  "wpa_bss_get_vendor_ie_multi_beacon mem b vendor_type = vendor_ie_multi mem (b_beacon_ies b) vendor_type"

definition bss_rates :: "wpa_bss \<Rightarrow> u8 list" where
  "bss_rates b = element_rates (wpa_bss_get_ie b WLAN_EID_SUPP_RATES) @ element_rates (wpa_bss_get_ie b WLAN_EID_EXT_SUPP_RATES)"

definition wpa_bss_get_max_rate :: "wpa_bss \<Rightarrow> nat" where
  "wpa_bss_get_max_rate b = max_rate (bss_rates b)"

definition wpa_bss_get_bit_rates :: "(nat \<Rightarrow> bool) \<Rightarrow> wpa_bss \<Rightarrow> u8 list option" where
  "wpa_bss_get_bit_rates mem b = (if mem (length (bss_rates b)) then Some (bss_rates b) else None)"

definition wpa_bss_ext_capab :: "wpa_bss \<Rightarrow> nat \<Rightarrow> bool" where
  "wpa_bss_ext_capab b capab = ieee802_11_ext_capab (wpa_bss_get_ie b WLAN_EID_EXT_CAPAB) capab"

definition wpa_bss_update_level :: "wpa_bss \<Rightarrow> int \<Rightarrow> wpa_bss" where
  "wpa_bss_update_level b new_level = (if new_level < 0 then b\<lparr>b_level := new_level\<rparr> else b)"

section \<open>Adding\<close>

definition calculate_update_time :: "os_reltime \<Rightarrow> u32 \<Rightarrow> os_reltime" where
  "calculate_update_time fetch_time age_ms =
     (let s = sec fetch_time - int (unat age_ms div 1000); u = int (unat age_ms mod 1000 * 1000)
      in if usec fetch_time < u then \<lparr>sec = s - 1, usec = usec fetch_time + 1000000 - u\<rparr> else \<lparr>sec = s, usec = usec fetch_time - u\<rparr>)"

definition wpa_bss_copy_res :: "wpa_scan_res \<Rightarrow> os_reltime \<Rightarrow> wpa_bss \<Rightarrow> wpa_bss" where
  "wpa_bss_copy_res src fetch_time dst =
     dst\<lparr>b_flags := r_flags src, b_bssid := r_bssid src, b_freq := r_freq src, b_beacon_int := r_beacon_int src, b_caps := r_caps src,
         b_qual := r_qual src, b_noise := r_noise src, b_level := r_level src, b_tsf := r_tsf src,
         b_est_throughput := r_est_throughput src, b_snr := r_snr src, b_last_update := calculate_update_time fetch_time (r_age src)\<rparr>"

definition copy_ies :: "wpa_scan_res \<Rightarrow> wpa_bss \<Rightarrow> wpa_bss" where
  "copy_ies src dst = dst\<lparr>b_ies := r_ies src, b_beacon_ies := r_beacon_ies src\<rparr>"

definition wpa_bss_known :: "bss_state \<Rightarrow> wpa_bss \<Rightarrow> bool" where
  "wpa_bss_known s b \<longleftrightarrow> list_ex (\<lambda>ssid. case ssid of None \<Rightarrow> False | Some x \<Rightarrow> x \<noteq> [] \<and> x = b_ssid b) (conf_ssids s)"

definition is_zero_ether_addr :: "bytes \<Rightarrow> bool" where
  "is_zero_ether_addr a \<longleftrightarrow> list_all (\<lambda>b. b = 0) (take 6 a)"

definition bssid_in_use :: "bss_state \<Rightarrow> wpa_bss \<Rightarrow> bool" where
  "bssid_in_use s b \<longleftrightarrow> \<not> is_zero_ether_addr (b_bssid b) \<and> (b_bssid b = w_bssid s \<or> b_bssid b = w_pending_bssid s)"

definition wpa_bss_in_use :: "bss_state \<Rightarrow> wpa_bss \<Rightarrow> bool option" where
  "wpa_bss_in_use s b =
     (case w_current_bss s of
        None \<Rightarrow> Some (bssid_in_use s b)
      | Some c \<Rightarrow>
          if b_addr b = c then Some True
          else case bss_at c s of
                 None \<Rightarrow> None
               | Some cur \<Rightarrow> Some (b_ssid b = b_ssid cur \<and> bssid_in_use s b))"

definition wpa_bss_remove_oldest_unknown :: "bss_state \<Rightarrow> bool \<times> bss_state" where
  "wpa_bss_remove_oldest_unknown s =
     (case find (\<lambda>b. \<not> wpa_bss_known s b) (w_bss s) of None \<Rightarrow> (False, s) | Some b \<Rightarrow> (True, wpa_bss_remove b s))"

fun first_unused :: "bss_state \<Rightarrow> wpa_bss list \<Rightarrow> wpa_bss option option" where
  "first_unused s [] = Some None"
| "first_unused s (b # bs) = do { used \<leftarrow> wpa_bss_in_use s b; if used then first_unused s bs else Some (Some b) }"

definition wpa_bss_remove_oldest :: "bss_state \<Rightarrow> (bool \<times> bss_state) option" where
  "wpa_bss_remove_oldest s =
     (case wpa_bss_remove_oldest_unknown s of
        (True, s) \<Rightarrow> Some (True, s)
      | (False, s) \<Rightarrow>
          do { ob \<leftarrow> first_unused s (w_bss s);
               Some (case ob of None \<Rightarrow> (False, s) | Some b \<Rightarrow> (True, wpa_bss_remove b s)) })"

text \<open>The new entry, before it is filled.\<close>

definition blank_bss :: "bss_state \<Rightarrow> bytes \<Rightarrow> wpa_bss" where
  "blank_bss s ssid =
     \<lparr>b_addr = w_next_addr s, b_id = w_bss_next_id s, b_scan_miss_count = 0, b_last_update_idx = w_bss_update_idx s, b_flags = 0,
      b_bssid = [], b_ssid = ssid, b_freq = 0, b_beacon_int = 0, b_caps = 0, b_qual = 0, b_noise = 0, b_level = 0, b_tsf = 0,
      b_last_update = \<lparr>sec = 0, usec = 0\<rparr>, b_est_throughput = 0, b_snr = 0, b_ies = [], b_beacon_ies = []\<rparr>"

definition make_bss_room :: "bss_state \<Rightarrow> bss_state option" where
  "make_bss_room s =
     (if conf_bss_max_count s < w_num_bss s + 1 then
        do { (removed, s) \<leftarrow> wpa_bss_remove_oldest s;
             Some (if removed then s else s\<lparr>conf_bss_max_count := w_num_bss s + 1\<rparr>) }
      else Some s)"

definition wpa_bss_add :: "bss_env \<Rightarrow> bytes \<Rightarrow> wpa_scan_res \<Rightarrow> os_reltime \<Rightarrow> bss_state \<Rightarrow> (nat option \<times> bss_state) option" where
  "wpa_bss_add env ssid res fetch_time s =
     (if \<not> be_zalloc env then Some (None, s)
      else
        let b = copy_ies res (wpa_bss_copy_res res fetch_time (blank_bss s ssid)) in
        do { s \<leftarrow> make_bss_room (s\<lparr>w_bss_next_id := w_bss_next_id s + 1, w_next_addr := w_next_addr s + 1\<rparr>);
             Some (Some (b_addr b), bss_note [Bss_added (b_bssid b) (b_id b)]
               (s\<lparr>w_bss := w_bss s @ [b], w_bss_id := w_bss_id s @ [b_addr b], w_num_bss := w_num_bss s + 1\<rparr>)) })"

section \<open>Updating\<close>

definition are_ies_equal :: "(nat \<Rightarrow> bool) \<Rightarrow> wpa_bss \<Rightarrow> wpa_scan_res \<Rightarrow> u32 \<Rightarrow> bool option" where
  "are_ies_equal mem old new_res ie =
     (if ie = WPA_IE_VENDOR_TYPE then Some (wpa_bss_get_vendor_ie old ie = wpa_scan_get_vendor_ie new_res ie)
      else if ie = WPS_IE_VENDOR_TYPE then
        do { old_ie \<leftarrow> wpa_bss_get_vendor_ie_multi mem old ie;
             new_ie \<leftarrow> wpa_scan_get_vendor_ie_multi mem new_res ie;
             Some (map_option wpabuf_data old_ie = map_option wpabuf_data new_ie) }
      else if ie = ucast WLAN_EID_RSN \<or> ie = ucast WLAN_EID_SUPP_RATES \<or> ie = ucast WLAN_EID_EXT_SUPP_RATES
      then Some (wpa_bss_get_ie old (ucast ie) = wpa_scan_get_ie new_res (ucast ie))
      else Some False)"

definition flag_if :: "bool \<Rightarrow> u32 \<Rightarrow> u32" where
  "flag_if c w = (if c then w else 0)"

definition wpa_bss_compare_res :: "(nat \<Rightarrow> bool) \<Rightarrow> wpa_bss \<Rightarrow> wpa_scan_res \<Rightarrow> u32 option" where
  "wpa_bss_compare_res mem old new_res =
     (let caps_diff = b_caps old XOR r_caps new_res;
          changes = flag_if (b_freq old \<noteq> r_freq new_res) WPA_BSS_FREQ_CHANGED_FLAG
            OR flag_if (b_level old \<noteq> r_level new_res) WPA_BSS_SIGNAL_CHANGED_FLAG
            OR flag_if (caps_diff AND IEEE80211_CAP_PRIVACY \<noteq> 0) WPA_BSS_PRIVACY_CHANGED_FLAG
            OR flag_if (caps_diff AND IEEE80211_CAP_IBSS \<noteq> 0) WPA_BSS_MODE_CHANGED_FLAG
      in if b_ies old = r_ies new_res then Some changes
         else do {
           wpa \<leftarrow> are_ies_equal mem old new_res WPA_IE_VENDOR_TYPE;
           rsn \<leftarrow> are_ies_equal mem old new_res (ucast WLAN_EID_RSN);
           wps \<leftarrow> are_ies_equal mem old new_res WPS_IE_VENDOR_TYPE;
           rates \<leftarrow> are_ies_equal mem old new_res (ucast WLAN_EID_SUPP_RATES);
           ext \<leftarrow> are_ies_equal mem old new_res (ucast WLAN_EID_EXT_SUPP_RATES);
           Some (changes OR WPA_BSS_IES_CHANGED_FLAG OR flag_if (\<not> wpa) WPA_BSS_WPAIE_CHANGED_FLAG
             OR flag_if (\<not> rsn) WPA_BSS_RSNIE_CHANGED_FLAG OR flag_if (\<not> wps) WPA_BSS_WPS_CHANGED_FLAG
             OR flag_if (\<not> rates \<or> \<not> ext) WPA_BSS_RATES_CHANGED_FLAG) })"

definition notify_bss_changes :: "u32 \<Rightarrow> u32 \<Rightarrow> bss_state \<Rightarrow> bss_state" where
  "notify_bss_changes changes bss_id s =
     bss_note (map (Bss_changed bss_id) (List.filter (\<lambda>f. changes AND f \<noteq> 0)
       [WPA_BSS_FREQ_CHANGED_FLAG, WPA_BSS_SIGNAL_CHANGED_FLAG, WPA_BSS_PRIVACY_CHANGED_FLAG, WPA_BSS_MODE_CHANGED_FLAG,
        WPA_BSS_WPAIE_CHANGED_FLAG, WPA_BSS_RSNIE_CHANGED_FLAG, WPA_BSS_WPS_CHANGED_FLAG, WPA_BSS_IES_CHANGED_FLAG,
        WPA_BSS_RATES_CHANGED_FLAG]) @ [Bss_seen bss_id]) s"

fun replace_first :: "nat \<Rightarrow> nat \<Rightarrow> nat list \<Rightarrow> nat list" where
  "replace_first a n [] = []"
| "replace_first a n (x # xs) = (if x = a then n # xs else x # replace_first a n xs)"

text \<open>The entry gets a larger allocation at address \<open>n\<close>; everything that pointed to it follows.\<close>

definition move_bss :: "nat \<Rightarrow> nat \<Rightarrow> bss_state \<Rightarrow> bss_state" where
  "move_bss a n s =
     wpa_bss_update_pending_connect a (Some n)
       (s\<lparr>w_bss_id := replace_first a n (w_bss_id s), w_last_scan_res := replace_first a n (w_last_scan_res s),
          w_current_bss := if w_current_bss s = Some a then Some n else w_current_bss s, w_next_addr := Suc (w_next_addr s)\<rparr>)"

text \<open>The entry, already taken out of the list, gets the elements of the result.\<close>

definition store_ies :: "bss_env \<Rightarrow> wpa_scan_res \<Rightarrow> wpa_bss \<Rightarrow> bss_state \<Rightarrow> wpa_bss \<times> bss_state" where
  "store_ies env res b s =
     (if length (r_ies res) + length (r_beacon_ies res) \<le> length (b_ies b) + length (b_beacon_ies b) then (copy_ies res b, s)
      else case be_realloc env of
             None \<Rightarrow> (b, s)
           | Some moved \<Rightarrow>
               if moved then (copy_ies res (b\<lparr>b_addr := w_next_addr s\<rparr>), move_bss (b_addr b) (w_next_addr s) s)
               else (copy_ies res b, s))"

text \<open>An entry that this round has already updated is kept when it is the one in use or the newer one.\<close>

definition keep_current :: "wpa_scan_res \<Rightarrow> os_reltime \<Rightarrow> wpa_bss \<Rightarrow> bss_state \<Rightarrow> bool" where
  "keep_current res fetch_time b s \<longleftrightarrow>
     b_last_update_idx b = w_bss_update_idx s \<and>
     (b_flags b AND WPA_BSS_ASSOCIATED \<noteq> 0 \<or>
      r_flags res AND WPA_SCAN_ASSOCIATED = 0 \<and> \<not> os_reltime_before (b_last_update b) (calculate_update_time fetch_time (r_age res)))"

definition wpa_bss_update :: "bss_env \<Rightarrow> wpa_bss \<Rightarrow> wpa_scan_res \<Rightarrow> os_reltime \<Rightarrow> bss_state \<Rightarrow> (nat \<times> bss_state) option" where
  "wpa_bss_update env b res fetch_time s =
     (if keep_current res fetch_time b s then Some (b_addr b, s)
      else do {
        changes \<leftarrow> wpa_bss_compare_res (be_buffer env) b res;
        let b1 = wpa_bss_copy_res res fetch_time (b\<lparr>b_scan_miss_count := 0, b_last_update_idx := w_bss_update_idx s\<rparr>);
            (b2, s) = store_ies env res b1 (s\<lparr>w_bss := List.filter (\<lambda>x. b_addr x \<noteq> b_addr b) (w_bss s)\<rparr>)
        in Some (b_addr b2, notify_bss_changes changes (b_id b2) (s\<lparr>w_bss := w_bss s @ [b2]\<rparr>)) })"

section \<open>A round of results\<close>

definition wpa_bss_update_start :: "bss_state \<Rightarrow> bss_state" where
  "wpa_bss_update_start s = s\<lparr>w_bss_update_idx := w_bss_update_idx s + 1, w_last_scan_res := []\<rparr>"

definition record_result :: "bss_env \<Rightarrow> nat \<Rightarrow> bss_state \<Rightarrow> bss_state" where
  "record_result env a s =
     (if w_last_scan_res_size s \<le> length (w_last_scan_res s) then
        if be_array env
        then s\<lparr>w_last_scan_res_size := if w_last_scan_res_size s = 0 then 32 else w_last_scan_res_size s * 2,
               w_last_scan_res := w_last_scan_res s @ [a]\<rparr>
        else s
      else s\<lparr>w_last_scan_res := w_last_scan_res s @ [a]\<rparr>)"

text \<open>The name under which a result is stored: its SSID, or its mesh identifier; \<open>None\<close> when it is not stored.\<close>

definition P2P_WILDCARD_SSID :: bytes where "P2P_WILDCARD_SSID = [0x44, 0x49, 0x52, 0x45, 0x43, 0x54, 0x2d]"

definition result_name :: "wpa_scan_res \<Rightarrow> bytes option" where
  "result_name res =
     (case wpa_scan_get_ie res WLAN_EID_SSID of
        None \<Rightarrow> None
      | Some ssid \<Rightarrow>
          if 32 < unat (ssid ! 1) then None
          else if wpa_scan_get_vendor_ie res P2P_IE_VENDOR_TYPE \<noteq> None \<and> drop 2 ssid = P2P_WILDCARD_SSID then None
          else case wpa_scan_get_ie res WLAN_EID_MESH_ID of
                 None \<Rightarrow> Some (drop 2 ssid)
               | Some mesh \<Rightarrow> Some (drop 2 (if unat (mesh ! 1) \<le> 32 then mesh else ssid)))"

definition too_old :: "wpa_scan_res \<Rightarrow> os_reltime \<Rightarrow> bss_state \<Rightarrow> bool" where
  "too_old res fetch_time s \<longleftrightarrow>
     conf_ignore_old_scan_res s \<and> os_reltime_before (calculate_update_time fetch_time (r_age res)) (w_scan_trigger_time s)"

definition wpa_bss_update_scan_res :: "bss_env \<Rightarrow> wpa_scan_res \<Rightarrow> os_reltime \<Rightarrow> bss_state \<Rightarrow> bss_state option" where
  "wpa_bss_update_scan_res env res fetch_time s =
     (if too_old res fetch_time s then Some s
      else case result_name res of
             None \<Rightarrow> Some s
           | Some ssid \<Rightarrow>
               case wpa_bss_get s (r_bssid res) ssid of
                 None \<Rightarrow> do { (ob, s) \<leftarrow> wpa_bss_add env ssid res fetch_time s;
                              Some (case ob of None \<Rightarrow> s | Some a \<Rightarrow> record_result env a s) }
               | Some b \<Rightarrow> do { (a, s) \<leftarrow> wpa_bss_update env b res fetch_time s;
                                Some (if a \<in> set (w_last_scan_res s) then s else record_result env a s) })"

record scan_info =
  si_aborted :: bool
  si_freqs :: "int list"
  si_ssids :: "bytes option list"

definition wpa_bss_included_in_scan :: "wpa_bss \<Rightarrow> scan_info option \<Rightarrow> bool" where
  "wpa_bss_included_in_scan b info =
     (case info of
        None \<Rightarrow> True
      | Some i \<Rightarrow>
          (si_freqs i = [] \<or> list_ex (\<lambda>f. b_freq b = f) (si_freqs i)) \<and>
          (si_ssids i = [] \<or> list_ex (\<lambda>ssid. case ssid of None \<Rightarrow> True | Some x \<Rightarrow> x = [] \<or> x = b_ssid b) (si_ssids i)))"

fun expire_missed :: "scan_info option \<Rightarrow> wpa_bss list \<Rightarrow> bss_state \<Rightarrow> bss_state option" where
  "expire_missed info [] s = Some s"
| "expire_missed info (b # bs) s =
     do { used \<leftarrow> wpa_bss_in_use s b;
          if used \<or> \<not> wpa_bss_included_in_scan b info then expire_missed info bs s
          else
            let b = (if b_last_update_idx b < w_bss_update_idx s then b\<lparr>b_scan_miss_count := b_scan_miss_count b + 1\<rparr> else b);
                s = put_bss b s
            in expire_missed info bs (if conf_bss_expiration_scan_count s \<le> b_scan_miss_count b then wpa_bss_remove b s else s) }"

definition wpa_bss_update_end :: "scan_info option \<Rightarrow> bool \<Rightarrow> os_reltime \<Rightarrow> bss_state \<Rightarrow> bss_state option" where
  "wpa_bss_update_end info new_scan now s =
     (let s = s\<lparr>w_last_scan := now\<rparr> in
      if (case info of None \<Rightarrow> False | Some i \<Rightarrow> si_aborted i) \<or> \<not> new_scan then Some s
      else expire_missed info (w_bss s) s)"

fun update_results :: "(nat \<Rightarrow> bss_env) \<Rightarrow> nat \<Rightarrow> wpa_scan_res list \<Rightarrow> os_reltime \<Rightarrow> bss_state \<Rightarrow> bss_state option" where
  "update_results envs i [] fetch_time s = Some s"
| "update_results envs i (r # rs) fetch_time s =
     do { s \<leftarrow> wpa_bss_update_scan_res (envs i) r fetch_time s; update_results envs (Suc i) rs fetch_time s }"

text \<open>
  What \<^verbatim>\<open>wpa_supplicant_get_scan_results\<close> does with the results of the driver. \<open>sorted_results\<close> is \<^verbatim>\<open>qsort\<close> with \<open>wpa_scan_result_compar\<close>.
\<close>

definition wpa_supplicant_get_scan_results ::
  "(wpa_scan_res list \<Rightarrow> wpa_scan_res list) \<Rightarrow> local_hw_capab \<Rightarrow> (nat \<Rightarrow> bss_env) \<Rightarrow> wpa_scan_res list \<Rightarrow> os_reltime \<Rightarrow> scan_info option \<Rightarrow> bool \<Rightarrow>
   os_reltime \<Rightarrow> bss_state \<Rightarrow> bss_state option" where
  "wpa_supplicant_get_scan_results sorted_results capab envs results fetch_time info new_scan now s =
     (let res = sorted_results (map (\<lambda>r. scan_est_throughput capab (scan_snr r)) (filter_scan_res (w_bssid_filter s) results)) in
      do { s \<leftarrow> update_results envs 0 res fetch_time (wpa_bss_update_start s); wpa_bss_update_end info new_scan now s })"

section \<open>Flushing\<close>

fun flush_old :: "os_reltime \<Rightarrow> wpa_bss list \<Rightarrow> bss_state \<Rightarrow> bss_state option" where
  "flush_old t [] s = Some s"
| "flush_old t (b # bs) s =
     do { used \<leftarrow> wpa_bss_in_use s b;
          if used then flush_old t bs s
          else if os_reltime_before (b_last_update b) t then flush_old t bs (wpa_bss_remove b s)
          else Some s }"

definition wpa_bss_flush_by_age :: "int \<Rightarrow> os_reltime \<Rightarrow> bss_state \<Rightarrow> bss_state option" where
  "wpa_bss_flush_by_age age now s =
     (if w_bss s = [] then Some s else flush_old (now\<lparr>sec := sec now - age\<rparr>) (w_bss s) s)"

fun flush_unused :: "wpa_bss list \<Rightarrow> bss_state \<Rightarrow> bss_state option" where
  "flush_unused [] s = Some s"
| "flush_unused (b # bs) s = do { used \<leftarrow> wpa_bss_in_use s b; flush_unused bs (if used then s else wpa_bss_remove b s) }"

definition wpa_bss_flush :: "bss_state \<Rightarrow> bss_state option" where
  "wpa_bss_flush s = flush_unused (w_bss s) (s\<lparr>w_clear_driver_scan_cache := True\<rparr>)"

definition wpa_bss_deinit :: "bss_state \<Rightarrow> bss_state option" where
  "wpa_bss_deinit s = wpa_bss_flush s"

text \<open>The table after \<^verbatim>\<open>wpa_bss_init\<close>, with the default configuration.\<close>

definition wpa_bss_init :: bss_state where
  "wpa_bss_init =
     \<lparr>w_bss = [], w_bss_id = [], w_num_bss = 0, w_bss_next_id = 0, w_bss_update_idx = 0, w_last_scan_res = [], w_last_scan_res_size = 0,
      w_current_bss = None, w_bssid = replicate 6 0, w_pending_bssid = replicate 6 0, w_pending_work = None,
      w_scan_trigger_time = \<lparr>sec = 0, usec = 0\<rparr>, w_last_scan = \<lparr>sec = 0, usec = 0\<rparr>, w_clear_driver_scan_cache = False,
      w_bssid_filter = None, conf_ssids = [], conf_bss_max_count = 200, conf_bss_expiration_scan_count = 2,
      conf_ignore_old_scan_res = False, w_next_addr = 0, w_notes = []\<rparr>"

end
