(* ===== verification/BssProofs.thy ===== *)
theory BssProofs
  imports BssTable
begin

text \<open>
  The invariant of the BSS table: the two lists and the counter agree, no two entries have the same BSSID and SSID, and
  everything that points to an entry points to one that is there.
\<close>

definition addrs :: "bss_state \<Rightarrow> nat set" where
  "addrs s = b_addr ` set (w_bss s)"

definition bss_key :: "wpa_bss \<Rightarrow> bytes \<times> bytes" where
  "bss_key b = (b_bssid b, b_ssid b)"

definition bss_wf :: "bss_state \<Rightarrow> bool" where
  "bss_wf s \<longleftrightarrow>
     distinct (map b_addr (w_bss s)) \<and> (\<forall>a\<in>addrs s. a < w_next_addr s) \<and> distinct (w_bss_id s) \<and> set (w_bss_id s) = addrs s \<and>
     w_num_bss s = length (w_bss s) \<and> distinct (map bss_key (w_bss s)) \<and> list_all (\<lambda>b. length (b_ssid b) \<le> 32) (w_bss s) \<and>
     distinct (w_last_scan_res s) \<and> set (w_last_scan_res s) \<subseteq> addrs s \<and> length (w_last_scan_res s) \<le> w_last_scan_res_size s \<and>
     (\<forall>a r. w_pending_work s = Some (Some a, r) \<longrightarrow> a \<in> addrs s)"

text \<open>The current BSS is an entry of a configured network.\<close>

definition current_known :: "bss_state \<Rightarrow> bool" where
  "current_known s \<longleftrightarrow> (\<forall>a. w_current_bss s = Some a \<longrightarrow> (\<exists>b. bss_at a s = Some b \<and> wpa_bss_known s b))"

section \<open>Lookup\<close>

lemma find_addr: "distinct (map b_addr bs) \<Longrightarrow> find (\<lambda>b. b_addr b = a) bs = Some b \<longleftrightarrow> b \<in> set bs \<and> b_addr b = a"
  by (induction bs) auto

lemma find_addr_None: "find (\<lambda>b. b_addr b = a) bs = None \<longleftrightarrow> a \<notin> b_addr ` set bs"
  by (auto simp: find_None_iff)

lemma bss_at_iff: "bss_wf s \<Longrightarrow> bss_at a s = Some b \<longleftrightarrow> b \<in> set (w_bss s) \<and> b_addr b = a"
  by (simp add: bss_at_def bss_wf_def find_addr)

lemma same_addr: "bss_wf s \<Longrightarrow> b \<in> set (w_bss s) \<Longrightarrow> c \<in> set (w_bss s) \<Longrightarrow> b_addr b = b_addr c \<Longrightarrow> b = c"
  by (auto simp: bss_wf_def distinct_map inj_on_def)

lemma in_use_some: "current_known s \<Longrightarrow> \<exists>u. wpa_bss_in_use s b = Some u"
  by (auto simp: current_known_def wpa_bss_in_use_def split: option.splits)

lemma in_use_current: "wpa_bss_in_use s b = Some False \<Longrightarrow> w_current_bss s \<noteq> Some (b_addr b)"
  by (auto simp: wpa_bss_in_use_def)

lemma known_ssid: "b_ssid b = b_ssid c \<Longrightarrow> conf_ssids s = conf_ssids t \<Longrightarrow> wpa_bss_known s b = wpa_bss_known t c"
  unfolding wpa_bss_known_def by (simp only:)

section \<open>Removal\<close>

lemma remove_fields [simp]:
  "w_bss (wpa_bss_remove b s) = List.filter (\<lambda>x. b_addr x \<noteq> b_addr b) (w_bss s)"
  "w_bss_id (wpa_bss_remove b s) = remove1 (b_addr b) (w_bss_id s)"
  "w_num_bss (wpa_bss_remove b s) = w_num_bss s - 1"
  "w_last_scan_res (wpa_bss_remove b s) = remove1 (b_addr b) (w_last_scan_res s)"
  "w_last_scan_res_size (wpa_bss_remove b s) = w_last_scan_res_size s"
  "w_next_addr (wpa_bss_remove b s) = w_next_addr s" "w_current_bss (wpa_bss_remove b s) = w_current_bss s"
  "conf_ssids (wpa_bss_remove b s) = conf_ssids s" "w_bssid_filter (wpa_bss_remove b s) = w_bssid_filter s"
  "conf_bss_max_count (wpa_bss_remove b s) = conf_bss_max_count s" "w_bssid (wpa_bss_remove b s) = w_bssid s"
  "w_pending_bssid (wpa_bss_remove b s) = w_pending_bssid s" "w_bss_update_idx (wpa_bss_remove b s) = w_bss_update_idx s"
  "conf_bss_expiration_scan_count (wpa_bss_remove b s) = conf_bss_expiration_scan_count s"
  "w_pending_work (wpa_bss_remove b s) = (case w_pending_work s of None \<Rightarrow> None | Some (a, r) \<Rightarrow>
     if a = Some (b_addr b) then Some (None, True) else Some (a, r))"
  by (auto simp: wpa_bss_remove_def bss_note_def wpa_bss_update_pending_connect_def Let_def split: option.split)

lemma length_filter_addr:
  "distinct (map b_addr bs) \<Longrightarrow> b \<in> set bs \<Longrightarrow> length (List.filter (\<lambda>x. b_addr x \<noteq> b_addr b) bs) = length bs - 1"
proof (induction bs)
  case (Cons x bs)
  show ?case
  proof (cases "x = b")
    case True
    then have "b_addr b \<notin> b_addr ` set bs" using Cons.prems(1) by simp
    then have "\<forall>x\<in>set bs. b_addr x \<noteq> b_addr b" by (metis imageI)
    then have "List.filter (\<lambda>x. b_addr x \<noteq> b_addr b) bs = bs" by (simp add: filter_id_conv)
    then show ?thesis using True by simp
  next
    case False
    then have "b \<in> set bs" using Cons.prems by simp
    then have "0 < length bs" "b_addr x \<noteq> b_addr b" using Cons.prems by (auto simp: length_greater_0_conv)
    then show ?thesis using Cons \<open>b \<in> set bs\<close> by simp
  qed
qed simp

lemma distinct_map_filter: "distinct (map f xs) \<Longrightarrow> distinct (map f (List.filter P xs))"
  by (induction xs) auto

lemma addrs_remove: "addrs (wpa_bss_remove b s) = addrs s - {b_addr b}"
  by (auto simp: addrs_def)

lemma remove_wf:
  assumes "bss_wf s" "b \<in> set (w_bss s)"
  shows "bss_wf (wpa_bss_remove b s)"
  using assms length_filter_addr [of "w_bss s" b]
  by (auto simp: bss_wf_def addrs_remove distinct_map_filter list_all_iff set_remove1_eq length_remove1 split: option.splits if_splits)

lemma remove_current:
  assumes "bss_wf s" "current_known s" "b \<in> set (w_bss s)" "w_current_bss s \<noteq> Some (b_addr b)"
  shows "current_known (wpa_bss_remove b s)"
proof -
  have "bss_at a (wpa_bss_remove b s) = Some c" if "bss_at a s = Some c" "a \<noteq> b_addr b" for a c
    using that by (simp add: bss_at_iff [OF assms(1)] bss_at_iff [OF remove_wf [OF assms(1,3)]])
  then show ?thesis using assms(2,4) by (fastforce simp: current_known_def wpa_bss_known_def)
qed

definition table_ok :: "bss_state \<Rightarrow> bool" where
  "table_ok s \<longleftrightarrow> bss_wf s \<and> current_known s"

lemma remove_ok: "table_ok s \<Longrightarrow> b \<in> set (w_bss s) \<Longrightarrow> wpa_bss_in_use s b = Some False \<Longrightarrow> table_ok (wpa_bss_remove b s)"
  using remove_wf remove_current in_use_current by (simp add: table_ok_def)

lemma remove_unknown_ok:
  assumes "table_ok s" "b \<in> set (w_bss s)" "\<not> wpa_bss_known s b"
  shows "table_ok (wpa_bss_remove b s)"
proof -
  have wf: "bss_wf s" "current_known s" using assms(1) by (simp_all add: table_ok_def)
  have "w_current_bss s \<noteq> Some (b_addr b)"
    using wf(2) assms(2,3) same_addr [OF wf(1)] by (fastforce simp: current_known_def bss_at_iff [OF wf(1)])
  then show ?thesis using remove_wf [OF wf(1) assms(2)] remove_current [OF wf assms(2)] by (simp add: table_ok_def)
qed

text \<open>Changes to the parts of the state the invariant does not look at.\<close>

lemma table_ok_cong:
  assumes "table_ok s" "w_bss t = w_bss s" "w_bss_id t = w_bss_id s" "w_num_bss t = w_num_bss s" "w_last_scan_res t = w_last_scan_res s"
    "w_last_scan_res_size t = w_last_scan_res_size s" "w_next_addr s \<le> w_next_addr t" "w_current_bss t = w_current_bss s"
    "conf_ssids t = conf_ssids s" "w_pending_work t = w_pending_work s"
  shows "table_ok t"
proof -
  have "bss_at a t = bss_at a s" for a using assms(2) by (simp add: bss_at_def)
  then show ?thesis
    using assms by (auto simp: table_ok_def bss_wf_def current_known_def wpa_bss_known_def addrs_def intro: less_le_trans)
qed

section \<open>Making room\<close>

lemma first_unused_some:
  "current_known s \<Longrightarrow> \<exists>ob. first_unused s bs = Some ob \<and> (\<forall>b. ob = Some b \<longrightarrow> b \<in> set bs \<and> wpa_bss_in_use s b = Some False)"
proof (induction bs)
  case (Cons b bs)
  obtain u where u: "wpa_bss_in_use s b = Some u" using in_use_some [OF Cons.prems] by blast
  show ?case using Cons.IH [OF Cons.prems] u by (cases u) auto
qed simp

text \<open>What making room keeps: the table apart from one removed entry, the filter, the counters.\<close>

definition shrunk :: "bss_state \<Rightarrow> bss_state \<Rightarrow> bool" where
  "shrunk s t \<longleftrightarrow> set (w_bss t) \<subseteq> set (w_bss s) \<and> w_next_addr t = w_next_addr s \<and> w_bssid_filter t = w_bssid_filter s \<and>
     conf_ssids t = conf_ssids s \<and> w_current_bss t = w_current_bss s \<and> w_bss_update_idx t = w_bss_update_idx s"

lemma shrunk_remove: "shrunk s (wpa_bss_remove b s)"
  by (auto simp: shrunk_def)

lemma remove_oldest_ok:
  assumes "table_ok s"
  shows "\<exists>r t. wpa_bss_remove_oldest s = Some (r, t) \<and> table_ok t \<and> shrunk s t"
proof (cases "find (\<lambda>b. \<not> wpa_bss_known s b) (w_bss s)")
  case (Some b)
  then have b: "b \<in> set (w_bss s)" "\<not> wpa_bss_known s b" by (auto simp: find_Some_iff)
  then show ?thesis using remove_unknown_ok [OF assms b] shrunk_remove
    by (auto simp: wpa_bss_remove_oldest_def wpa_bss_remove_oldest_unknown_def Some)
next
  case None
  have cur: "current_known s" using assms by (simp add: table_ok_def)
  obtain ob where ob: "first_unused s (w_bss s) = Some ob" "\<forall>b. ob = Some b \<longrightarrow> b \<in> set (w_bss s) \<and> wpa_bss_in_use s b = Some False"
    using first_unused_some [OF cur] by blast
  have "shrunk s s" by (simp add: shrunk_def)
  then show ?thesis using ob assms remove_ok [OF assms] shrunk_remove
    by (cases ob) (auto simp: wpa_bss_remove_oldest_def wpa_bss_remove_oldest_unknown_def None)
qed

lemma bss_make_room_ok:
  assumes "table_ok s"
  shows "\<exists>t. make_bss_room s = Some t \<and> table_ok t \<and> shrunk s t"
proof -
  obtain r t where t: "wpa_bss_remove_oldest s = Some (r, t)" "table_ok t" "shrunk s t" using remove_oldest_ok [OF assms] by blast
  have "table_ok (t\<lparr>conf_bss_max_count := n\<rparr>)" for n by (rule table_ok_cong [OF t(2)]) simp_all
  then show ?thesis using t assms by (auto simp: make_bss_room_def shrunk_def)
qed

section \<open>Adding\<close>

lemma bss_at_append: "bss_at a s = Some c \<Longrightarrow> w_bss t = w_bss s @ bs \<Longrightarrow> bss_at a t = Some c"
  by (auto simp: bss_at_def find_Some_iff nth_append less_Suc_eq_le intro: trans_less_add1)

lemma bss_add_ok:
  assumes "table_ok s" "length ssid \<le> 32" "(r_bssid res, ssid) \<notin> bss_key ` set (w_bss s)"
  shows "\<exists>ob t. wpa_bss_add env ssid res fetch_time s = Some (ob, t) \<and> table_ok t \<and> w_bssid_filter t = w_bssid_filter s \<and>
    (\<forall>a. ob = Some a \<longrightarrow> a \<in> addrs t \<and> a \<notin> set (w_last_scan_res t))"
proof (cases "be_zalloc env")
  case False
  then show ?thesis using assms(1) by (simp add: wpa_bss_add_def)
next
  case True
  let ?b = "copy_ies res (wpa_bss_copy_res res fetch_time (blank_bss s ssid))"
  let ?s = "s\<lparr>w_bss_next_id := w_bss_next_id s + 1, w_next_addr := w_next_addr s + 1\<rparr>"
  have b: "b_addr ?b = w_next_addr s" "bss_key ?b = (r_bssid res, ssid)" "b_ssid ?b = ssid"
    by (simp_all add: copy_ies_def wpa_bss_copy_res_def blank_bss_def bss_key_def)
  have "table_ok ?s" by (rule table_ok_cong [OF assms(1)]) simp_all
  then obtain t where t: "make_bss_room ?s = Some t" "table_ok t" "shrunk ?s t" using bss_make_room_ok by blast
  let ?t = "bss_note [Bss_added (b_bssid ?b) (b_id ?b)]
    (t\<lparr>w_bss := w_bss t @ [?b], w_bss_id := w_bss_id t @ [b_addr ?b], w_num_bss := w_num_bss t + 1\<rparr>)"
  have run: "wpa_bss_add env ssid res fetch_time s = Some (Some (b_addr ?b), ?t)"
    using True t(1) by (simp add: wpa_bss_add_def Let_def)
  have sub: "set (w_bss t) \<subseteq> set (w_bss s)" "w_next_addr t = Suc (w_next_addr s)" "w_bssid_filter t = w_bssid_filter s"
    using t(3) by (simp_all add: shrunk_def)
  have wf: "bss_wf t" "bss_wf s" using t(2) assms(1) by (simp_all add: table_ok_def)
  have below: "addrs t \<subseteq> addrs s" using sub(1) by (auto simp: addrs_def)
  have fresh: "w_next_addr s \<notin> addrs t" using below wf(2) by (auto simp: bss_wf_def)
  have new: "bss_key ?b \<notin> bss_key ` set (w_bss t)" using assms(3) sub(1) b(2) by auto
  have addrs: "addrs ?t = insert (w_next_addr s) (addrs t)" using b(1) by (simp add: addrs_def bss_note_def)
  have less: "\<forall>a\<in>addrs t. a < Suc (w_next_addr s)" using below wf(2) by (auto simp: bss_wf_def intro: less_SucI)
  have "bss_wf ?t"
    using wf(1) fresh new less assms(2) unfolding bss_wf_def addrs
    by (auto simp: bss_note_def b sub(2) addrs_def)
  moreover have "current_known ?t"
  proof -
    have "bss_at a ?t = Some c" if "bss_at a t = Some c" for a c by (rule bss_at_append [OF that]) (simp add: bss_note_def)
    then show ?thesis using t(2) by (fastforce simp: table_ok_def current_known_def wpa_bss_known_def bss_note_def)
  qed
  moreover have "w_next_addr s \<notin> set (w_last_scan_res ?t)" using fresh wf(1) by (auto simp: bss_wf_def bss_note_def)
  ultimately show ?thesis using run b(1) addrs sub(3) by (auto simp: table_ok_def bss_note_def)
qed

section \<open>Updating\<close>

lemma replace_first_absent: "a \<notin> set xs \<Longrightarrow> replace_first a n xs = xs"
  by (induction xs) auto

lemma replace_first_set: "distinct xs \<Longrightarrow> a \<in> set xs \<Longrightarrow> set (replace_first a n xs) = insert n (set xs - {a})"
  by (induction xs) auto

lemma replace_first_distinct: "distinct xs \<Longrightarrow> n \<notin> set xs \<Longrightarrow> distinct (replace_first a n xs)"
proof (induction xs)
  case (Cons x xs)
  have "set (replace_first a n xs) \<subseteq> insert n (set xs)" for xs by (induction xs) auto
  then show ?case using Cons by auto
qed simp

lemma length_replace_first [simp]: "length (replace_first a n xs) = length xs"
  by (induction xs) auto

lemma compare_some: "\<exists>c. wpa_bss_compare_res mem b res = Some c"
proof -
  have "\<exists>c. are_ies_equal mem b res ie = Some c" for ie
    using vendor_ie_multi_some [of mem "b_ies b" ie] vendor_ie_multi_some [of mem "r_ies res" ie]
    by (auto simp: are_ies_equal_def wpa_bss_get_vendor_ie_multi_def wpa_scan_get_vendor_ie_multi_def)
  then have "\<exists>f. are_ies_equal mem b res = (\<lambda>ie. Some (f ie))" by metis
  then show ?thesis by (auto simp: wpa_bss_compare_res_def Let_def)
qed

text \<open>The entry goes to the end of the list, at its old address or at a new one.\<close>

lemma relink_keys:
  assumes "distinct (map b_addr bs)" "distinct (map bss_key bs)" "b \<in> set bs" "bss_key c = bss_key b"
  shows "distinct (map bss_key (List.filter (\<lambda>x. b_addr x \<noteq> b_addr b) bs @ [c]))"
proof -
  have "bss_key x \<noteq> bss_key b" if "x \<in> set bs" "b_addr x \<noteq> b_addr b" for x
    using assms(2,3) that by (auto simp: distinct_map inj_on_def)
  then have "\<forall>x\<in>set (List.filter (\<lambda>x. b_addr x \<noteq> b_addr b) bs). bss_key x \<noteq> bss_key b" by simp
  then have "bss_key b \<notin> bss_key ` set (List.filter (\<lambda>x. b_addr x \<noteq> b_addr b) bs)" by (metis imageE)
  then show ?thesis using distinct_map_filter [OF assms(2)] assms(4) by simp
qed

lemma find_append: "find P (xs @ ys) = (case find P xs of None \<Rightarrow> find P ys | Some x \<Rightarrow> Some x)"
  by (induction xs) auto

lemma find_filter_addr:
  "find (\<lambda>x. b_addr x = a) (List.filter (\<lambda>x. b_addr x \<noteq> k) bs) = (if a = k then None else find (\<lambda>x. b_addr x = a) bs)"
  by (induction bs) auto

lemma relink_same:
  assumes "table_ok s" "b \<in> set (w_bss s)" "b_addr c = b_addr b" "bss_key c = bss_key b"
  shows "table_ok (s\<lparr>w_bss := List.filter (\<lambda>x. b_addr x \<noteq> b_addr b) (w_bss s) @ [c]\<rparr>)" (is "table_ok ?t")
proof -
  have wf: "bss_wf s" using assms(1) by (simp add: table_ok_def)
  have addrs: "addrs ?t = addrs s" using assms(2,3) by (auto simp: addrs_def)
  have ssid: "b_ssid c = b_ssid b" using assms(4) by (simp add: bss_key_def)
  have len: "length (w_bss ?t) = length (w_bss s)" using length_filter_addr [of "w_bss s" b] wf assms(2)
    by (cases "w_bss s") (auto simp: bss_wf_def)
  have "distinct (map b_addr (w_bss ?t))" using wf assms(3) by (auto simp: bss_wf_def distinct_map_filter)
  moreover have "distinct (map bss_key (w_bss ?t))" using relink_keys [OF _ _ assms(2,4)] wf by (simp add: bss_wf_def)
  moreover have "list_all (\<lambda>b. length (b_ssid b) \<le> 32) (w_bss ?t)" using wf ssid assms(2) by (auto simp: bss_wf_def list_all_iff)
  ultimately have t: "bss_wf ?t" using wf len unfolding bss_wf_def addrs by simp
  have at: "bss_at a ?t = (if a = b_addr b then Some c else bss_at a s)" for a
    by (cases "find (\<lambda>x. b_addr x = a) (w_bss s)") (auto simp: bss_at_def find_append find_filter_addr assms(3))
  have "bss_at (b_addr b) s = Some b" using bss_at_iff [OF wf] assms(2) by simp
  then have "current_known ?t"
    using assms(1) known_ssid [OF ssid, of ?t s] by (auto simp: table_ok_def current_known_def at wpa_bss_known_def)
  then show ?thesis using t by (simp add: table_ok_def)
qed

text \<open>At a new address: the pointers to the entry are moved with it.\<close>

lemma move_fields [simp]:
  "w_bss (move_bss a n s) = w_bss s" "w_bss_id (move_bss a n s) = replace_first a n (w_bss_id s)"
  "w_last_scan_res (move_bss a n s) = replace_first a n (w_last_scan_res s)"
  "w_last_scan_res_size (move_bss a n s) = w_last_scan_res_size s" "w_num_bss (move_bss a n s) = w_num_bss s"
  "w_current_bss (move_bss a n s) = (if w_current_bss s = Some a then Some n else w_current_bss s)"
  "w_next_addr (move_bss a n s) = Suc (w_next_addr s)" "conf_ssids (move_bss a n s) = conf_ssids s"
  "w_bssid_filter (move_bss a n s) = w_bssid_filter s"
  "w_pending_work (move_bss a n s) = (case w_pending_work s of None \<Rightarrow> None | Some (x, r) \<Rightarrow>
     Some (if x = Some a then Some n else x, r))"
  by (auto simp: move_bss_def wpa_bss_update_pending_connect_def split: option.splits)

lemma relink_moved:
  assumes "table_ok s" "b \<in> set (w_bss s)" "b_addr c = w_next_addr s" "bss_key c = bss_key b"
    "t = (move_bss (b_addr b) (w_next_addr s) s)\<lparr>w_bss := List.filter (\<lambda>x. b_addr x \<noteq> b_addr b) (w_bss s) @ [c]\<rparr>"
  shows "table_ok t"
proof -
  let ?n = "w_next_addr s" and ?a = "b_addr b"
  have wf: "bss_wf s" using assms(1) by (simp add: table_ok_def)
  have a: "?a \<in> addrs s" using assms(2) by (simp add: addrs_def)
  have fresh: "?n \<notin> addrs s" using wf by (auto simp: bss_wf_def)
  have below: "\<forall>x\<in>addrs s. x < Suc ?n" using wf by (auto simp: bss_wf_def intro: less_SucI)
  have bss: "w_bss t = List.filter (\<lambda>x. b_addr x \<noteq> ?a) (w_bss s) @ [c]" by (simp add: assms(5))
  have addrs: "addrs t = insert ?n (addrs s - {?a})" using assms(3) by (auto simp: addrs_def bss)
  have ssid: "b_ssid c = b_ssid b" using assms(4) by (simp add: bss_key_def)
  have len: "length (w_bss t) = length (w_bss s)" using length_filter_addr [of "w_bss s" b] wf assms(2)
    by (cases "w_bss s") (auto simp: bss_wf_def bss)
  have "distinct (map b_addr (w_bss t))" using wf fresh assms(3) by (auto simp: bss_wf_def distinct_map_filter bss addrs_def)
  moreover have "distinct (map bss_key (w_bss t))" unfolding bss using relink_keys [OF _ _ assms(2,4)] wf by (simp add: bss_wf_def)
  moreover have "list_all (\<lambda>b. length (b_ssid b) \<le> 32) (w_bss t)" using wf ssid assms(2) by (auto simp: bss_wf_def list_all_iff bss)
  moreover have "distinct (w_bss_id t)" "set (w_bss_id t) = addrs t"
    using wf fresh a by (simp_all add: bss_wf_def assms(5) replace_first_distinct replace_first_set addrs [unfolded assms(5)])
  moreover have "distinct (w_last_scan_res t)" "set (w_last_scan_res t) \<subseteq> addrs t"
  proof -
    have l: "distinct (w_last_scan_res s)" "set (w_last_scan_res s) \<subseteq> addrs s" using wf by (simp_all add: bss_wf_def)
    then show "distinct (w_last_scan_res t)" using fresh by (auto simp: assms(5) intro: replace_first_distinct)
    show "set (w_last_scan_res t) \<subseteq> addrs t"
      unfolding addrs using l replace_first_absent [of ?a "w_last_scan_res s"] replace_first_set [OF l(1), of ?a]
      by (cases "?a \<in> set (w_last_scan_res s)") (auto simp: assms(5))
  qed
  moreover have "\<forall>x r. w_pending_work t = Some (Some x, r) \<longrightarrow> x \<in> addrs t"
    unfolding addrs using wf by (auto simp: bss_wf_def assms(5) split: option.splits if_splits)
  moreover have "\<forall>x\<in>addrs t. x < w_next_addr t" unfolding addrs using below by (simp add: assms(5))
  moreover have "w_num_bss t = length (w_bss t)" "length (w_last_scan_res t) \<le> w_last_scan_res_size t"
    using wf len by (simp_all add: bss_wf_def assms(5))
  ultimately have t: "bss_wf t" by (simp add: bss_wf_def)
  have at: "bss_at x t = Some c" if "x = ?n" for x using bss_at_iff [OF t] that assms(3) bss by simp
  have others: "bss_at x t = bss_at x s" if "x \<noteq> ?a" "x \<noteq> ?n" for x
    using that by (cases "find (\<lambda>y. b_addr y = x) (w_bss s)") (auto simp: bss_at_def bss find_append find_filter_addr assms(3))
  have old: "bss_at ?a s = Some b" "bss_at ?n s = None"
    using bss_at_iff [OF wf] assms(2) fresh by (auto simp: bss_at_def find_addr_None addrs_def)
  have conf: "conf_ssids t = conf_ssids s" by (simp add: assms(5))
  have "current_known t"
  proof (cases "w_current_bss s")
    case None
    then show ?thesis by (simp add: current_known_def assms(5))
  next
    case (Some x)
    then obtain d where d: "bss_at x s = Some d" "wpa_bss_known s d" using assms(1) by (auto simp: table_ok_def current_known_def)
    then have "x \<noteq> ?n" using old(2) by auto
    moreover have "wpa_bss_known t d" using d(2) known_ssid [OF refl conf, of d] by simp
    moreover have "wpa_bss_known t c" if "x = ?a" using d that old(1) known_ssid [OF ssid conf] by simp
    ultimately show ?thesis using d(1) at others [of x] Some by (auto simp: current_known_def assms(5))
  qed
  then show ?thesis using t by (simp add: table_ok_def)
qed

end
