(* ===== verification/BssRun.thy ===== *)
theory BssRun
  imports BssProofs "HOL-Library.Multiset"
begin

text \<open>
  Rounds of scan results, expiry and flushing on the BSS table, and runs of all of them.
\<close>

section \<open>One result\<close>


lemma copy_ies_key [simp]: "bss_key (copy_ies res b) = bss_key b" "b_addr (copy_ies res b) = b_addr b"
  by (simp_all add: bss_key_def copy_ies_def)

lemma copy_res_addr [simp]: "b_addr (wpa_bss_copy_res res ft b) = b_addr b"
  by (simp add: wpa_bss_copy_res_def)

lemma addr_key [simp]: "bss_key (b\<lparr>b_addr := n\<rparr>) = bss_key b"
  by (simp add: bss_key_def)


lemma note_fields [simp]:
  "w_bss (notify_bss_changes c i s) = w_bss s" "w_bssid_filter (notify_bss_changes c i s) = w_bssid_filter s"
  "w_last_scan_res (notify_bss_changes c i s) = w_last_scan_res s" "w_last_scan_res_size (notify_bss_changes c i s) = w_last_scan_res_size s"
  by (simp_all add: notify_bss_changes_def bss_note_def)








section \<open>Expiry\<close>















lemma prepared_bssid [simp]: "r_bssid (scan_est_throughput capab (scan_snr r)) = r_bssid r"
  by (simp add: scan_est_throughput_def scan_snr_def Let_def)


section \<open>Flushing\<close>






section \<open>Runs\<close>











lemma at_other [simp]:
  "bss_at a (s\<lparr>w_current_bss := c, w_bssid := bssid\<rparr>) = bss_at a s" "bss_at a (s\<lparr>conf_ssids := ssids\<rparr>) = bss_at a s"
  by (simp_all add: bss_at_def)












section \<open>Results are stored\<close>








end
