(* ===== verification/Blacklist.thy ===== *)
theory Blacklist
  imports Prelude
begin

text \<open>
  The list of BSSIDs that rejected an association (\<^verbatim>\<open>wpa_supplicant/blacklist.c\<close>): a linked list of addresses with counts, and the
  count that outlives a clearing. A missing address is \<open>None\<close>. The abstract view is a tally: how often each address has failed.
\<close>

section \<open>Operations\<close>

record blacklist =
  bl_entries :: "(bytes \<times> int) list"
  extra_blacklist_count :: int

definition wpa_blacklist_get :: "blacklist \<Rightarrow> bytes option \<Rightarrow> (bytes \<times> int) option" where
  "wpa_blacklist_get bl bssid = (case bssid of None \<Rightarrow> None | Some a \<Rightarrow> find (\<lambda>e. fst e = a) (bl_entries bl))"

text \<open>The first entry of an address counts one more.\<close>

fun bump :: "bytes \<Rightarrow> (bytes \<times> int) list \<Rightarrow> (bytes \<times> int) list" where
  "bump a [] = []"
| "bump a (e # es) = (if fst e = a then (a, snd e + 1) # es else e # bump a es)"

definition wpa_blacklist_add :: "bool \<Rightarrow> bytes option \<Rightarrow> blacklist \<Rightarrow> int \<times> blacklist" where
  "wpa_blacklist_add mem bssid bl =
     (case bssid of
        None \<Rightarrow> (- 1, bl)
      | Some a \<Rightarrow>
          case wpa_blacklist_get bl bssid of
            Some e \<Rightarrow> (snd e + 1, bl\<lparr>bl_entries := bump a (bl_entries bl)\<rparr>)
          | None \<Rightarrow> if \<not> mem then (- 1, bl) else (1, bl\<lparr>bl_entries := (a, 1) # bl_entries bl\<rparr>))"

fun unlink :: "bytes \<Rightarrow> (bytes \<times> int) list \<Rightarrow> (bytes \<times> int) list option" where
  "unlink a [] = None"
| "unlink a (e # es) = (if fst e = a then Some es else map_option ((#) e) (unlink a es))"

definition wpa_blacklist_del :: "bytes option \<Rightarrow> blacklist \<Rightarrow> int \<times> blacklist" where
  "wpa_blacklist_del bssid bl =
     (case bssid of
        None \<Rightarrow> (- 1, bl)
      | Some a \<Rightarrow> case unlink a (bl_entries bl) of None \<Rightarrow> (- 1, bl) | Some es \<Rightarrow> (0, bl\<lparr>bl_entries := es\<rparr>))"

definition wpa_blacklist_clear :: "blacklist \<Rightarrow> blacklist" where
  "wpa_blacklist_clear bl =
     bl\<lparr>bl_entries := [],
        extra_blacklist_count := extra_blacklist_count bl +
          fold (\<lambda>e max_count. if max_count < snd e then snd e else max_count) (bl_entries bl) 0\<rparr>"

section \<open>The tally\<close>

definition tally :: "blacklist \<Rightarrow> bytes \<Rightarrow> int" where
  "tally bl a = (case map_of (bl_entries bl) a of None \<Rightarrow> 0 | Some n \<Rightarrow> n)"

definition blacklist_ok :: "blacklist \<Rightarrow> bool" where
  "blacklist_ok bl \<longleftrightarrow> distinct (map fst (bl_entries bl)) \<and> (\<forall>e\<in>set (bl_entries bl). 0 < snd e)"

lemma find_map_of: "find (\<lambda>e. fst e = a) es = map_option (Pair a) (map_of es a)"
  by (induction es) auto

lemma bump_keys [simp]: "map fst (bump a es) = map fst es"
  by (induction es) auto

lemma bump_pos: "\<forall>e\<in>set es. 0 < snd e \<Longrightarrow> e \<in> set (bump a es) \<Longrightarrow> 0 < snd e"
  by (induction es) (auto split: if_splits)

lemma map_of_bump: "map_of (bump a es) b = (if b = a then map_option (\<lambda>n. n + 1) (map_of es a) else map_of es b)"
  by (induction es) auto

lemma unlink_None: "unlink a es = None \<longleftrightarrow> map_of es a = None"
  by (induction es) auto

lemma unlink_Some:
  "unlink a es = Some fs \<Longrightarrow> distinct (map fst es) \<Longrightarrow>
    distinct (map fst fs) \<and> set fs \<subseteq> set es \<and> (\<forall>b. map_of fs b = (if b = a then None else map_of es b))"
proof (induction es arbitrary: fs)
  case (Cons e es)
  show ?case
  proof (cases "fst e = a")
    case True
    then have "map_of es a = None" using Cons.prems(2) by (auto simp: map_of_eq_None_iff)
    then show ?thesis using Cons.prems True by (auto simp: fun_eq_iff)
  next
    case False
    then obtain gs where gs: "unlink a es = Some gs" "fs = e # gs" using Cons.prems(1) by auto
    have "distinct (map fst gs) \<and> set gs \<subseteq> set es \<and> (\<forall>b. map_of gs b = (if b = a then None else map_of es b))"
      using Cons.IH [OF gs(1)] Cons.prems(2) by simp
    then show ?thesis using Cons.prems(2) False by (auto simp: gs(2))
  qed
qed simp

lemma max_fold: "fold (\<lambda>e m. if m < snd e then snd e else m) es k = (if es = [] then k else max k (Max (snd ` set es)))" for k :: int
proof (induction es arbitrary: k)
  case (Cons e es)
  have "(if k < snd e then snd e else k) = max k (snd e)" by simp
  then show ?case by (simp add: Cons.IH max.assoc)
qed simp

lemma clear_bounds:
  assumes "blacklist_ok bl"
  shows "(\<forall>b. extra_blacklist_count bl + tally bl b \<le> extra_blacklist_count (wpa_blacklist_clear bl)) \<and>
    (extra_blacklist_count (wpa_blacklist_clear bl) = extra_blacklist_count bl \<or>
     (\<exists>b. extra_blacklist_count (wpa_blacklist_clear bl) = extra_blacklist_count bl + tally bl b))"
proof (intro conjI allI)
  fix b
  show "extra_blacklist_count bl + tally bl b \<le> extra_blacklist_count (wpa_blacklist_clear bl)"
  proof (cases "map_of (bl_entries bl) b")
    case None
    then show ?thesis by (simp add: tally_def wpa_blacklist_clear_def max_fold)
  next
    case (Some n)
    then have "n \<in> snd ` set (bl_entries bl)" using map_of_SomeD by force
    then have "n \<le> Max (snd ` set (bl_entries bl))" "bl_entries bl \<noteq> []" by auto
    then show ?thesis using Some by (simp add: tally_def wpa_blacklist_clear_def max_fold)
  qed
next
  show "extra_blacklist_count (wpa_blacklist_clear bl) = extra_blacklist_count bl \<or>
     (\<exists>b. extra_blacklist_count (wpa_blacklist_clear bl) = extra_blacklist_count bl + tally bl b)"
  proof (cases "bl_entries bl = []")
    case True
    then show ?thesis by (simp add: wpa_blacklist_clear_def)
  next
    case False
    then have "Max (snd ` set (bl_entries bl)) \<in> snd ` set (bl_entries bl)" by (intro Max_in) auto
    then obtain b n where n: "(b, n) \<in> set (bl_entries bl)" "Max (snd ` set (bl_entries bl)) = n" by auto
    then have "tally bl b = n" "0 < n" using assms map_of_is_SomeI [OF _ n(1)] by (auto simp: tally_def blacklist_ok_def)
    then show ?thesis using n(2) False by (intro disjI2 exI [of _ b]) (simp add: wpa_blacklist_clear_def max_fold)
  qed
qed

text \<open>
  C38: the linked list implements a tally of failures. Adding a BSSID counts one more for it alone and returns the new count, or changes nothing
  when there is no address or no memory; deleting sets its count to zero and fails exactly when it has none; clearing forgets
  all counts and adds the greatest to the count that remains. There is always one entry per address, with a positive count.
\<close>

theorem blacklist_tally:
  assumes "blacklist_ok bl"
  shows "wpa_blacklist_add mem (Some a) bl =
      (if tally bl a = 0 \<and> \<not> mem then (- 1, bl) else (tally bl a + 1, snd (wpa_blacklist_add mem (Some a) bl))) \<and>
    (tally bl a \<noteq> 0 \<or> mem \<longrightarrow> tally (snd (wpa_blacklist_add mem (Some a) bl)) = (tally bl)(a := tally bl a + 1)) \<and>
    wpa_blacklist_add mem None bl = (- 1, bl) \<and> blacklist_ok (snd (wpa_blacklist_add mem (Some a) bl)) \<and>
    fst (wpa_blacklist_del (Some a) bl) = (if tally bl a = 0 then - 1 else 0) \<and>
    tally (snd (wpa_blacklist_del (Some a) bl)) = (tally bl)(a := 0) \<and> blacklist_ok (snd (wpa_blacklist_del (Some a) bl)) \<and>
    wpa_blacklist_del None bl = (- 1, bl) \<and>
    tally (wpa_blacklist_clear bl) = (\<lambda>_. 0) \<and> blacklist_ok (wpa_blacklist_clear bl) \<and>
    (\<forall>b. extra_blacklist_count bl + tally bl b \<le> extra_blacklist_count (wpa_blacklist_clear bl)) \<and>
    (extra_blacklist_count (wpa_blacklist_clear bl) = extra_blacklist_count bl \<or>
     (\<exists>b. extra_blacklist_count (wpa_blacklist_clear bl) = extra_blacklist_count bl + tally bl b))"
proof -
  have ok: "distinct (map fst (bl_entries bl))" "\<forall>e\<in>set (bl_entries bl). 0 < snd e" using assms by (simp_all add: blacklist_ok_def)
  have pos: "0 < n" if "map_of (bl_entries bl) b = Some n" for b n using map_of_SomeD [OF that] ok(2) by auto
  have add: "wpa_blacklist_add mem (Some a) bl =
      (if tally bl a = 0 \<and> \<not> mem then (- 1, bl) else (tally bl a + 1, snd (wpa_blacklist_add mem (Some a) bl)))"
    using pos [of a] by (auto simp: wpa_blacklist_add_def wpa_blacklist_get_def find_map_of tally_def split: option.split)
  have "tally (snd (wpa_blacklist_add mem (Some a) bl)) = (tally bl)(a := tally bl a + 1)" if "tally bl a \<noteq> 0 \<or> mem"
    using that pos [of a]
    by (auto simp: wpa_blacklist_add_def wpa_blacklist_get_def find_map_of tally_def map_of_bump fun_eq_iff split: option.split)
  moreover have "blacklist_ok (snd (wpa_blacklist_add mem (Some a) bl))"
    using ok bump_pos [OF ok(2)]
    by (auto simp: wpa_blacklist_add_def wpa_blacklist_get_def find_map_of blacklist_ok_def map_of_eq_None_iff split: option.split)
  moreover have "fst (wpa_blacklist_del (Some a) bl) = (if tally bl a = 0 then - 1 else 0)"
    using pos [of a] unlink_None [of a "bl_entries bl"]
    by (auto simp: wpa_blacklist_del_def tally_def split: option.splits)
  moreover have "tally (snd (wpa_blacklist_del (Some a) bl)) = (tally bl)(a := 0) \<and> blacklist_ok (snd (wpa_blacklist_del (Some a) bl))"
  proof (cases "unlink a (bl_entries bl)")
    case None
    then show ?thesis using assms unlink_None [of a "bl_entries bl"] by (auto simp: wpa_blacklist_del_def tally_def fun_eq_iff)
  next
    case (Some es)
    from unlink_Some [OF Some ok(1)] Some ok(2) show ?thesis
      by (auto simp: wpa_blacklist_del_def tally_def blacklist_ok_def fun_eq_iff)
  qed
  moreover have "wpa_blacklist_add mem None bl = (- 1, bl)" "wpa_blacklist_del None bl = (- 1, bl)" "tally (wpa_blacklist_clear bl) = (\<lambda>_. 0)"
    "blacklist_ok (wpa_blacklist_clear bl)"
    by (simp_all add: wpa_blacklist_add_def wpa_blacklist_del_def wpa_blacklist_clear_def tally_def blacklist_ok_def fun_eq_iff)
  ultimately show ?thesis using add clear_bounds [OF assms] by blast
qed

theorem blacklist_tally_witness:
  "wpa_blacklist_del (Some [1]) \<lparr>bl_entries = [([1], 3), ([2], 1)], extra_blacklist_count = 0\<rparr> =
     (0, \<lparr>bl_entries = [([2], 1)], extra_blacklist_count = 0\<rparr>) \<and>
   tally (snd (wpa_blacklist_add True (Some [1]) \<lparr>bl_entries = [([1], 3), ([2], 1)], extra_blacklist_count = 0\<rparr>)) [1] = 4"
proof -
  let ?bl = "\<lparr>bl_entries = [([1], 3), ([2], 1)], extra_blacklist_count = 0\<rparr>"
  have "blacklist_ok ?bl" by (simp add: blacklist_ok_def)
  from blacklist_tally [OF this, of True "[1]"] have "tally (snd (wpa_blacklist_add True (Some [1]) ?bl)) = (tally ?bl)([1] := tally ?bl [1] + 1)" by blast
  then show ?thesis by (simp add: wpa_blacklist_del_def tally_def)
qed

end
