(* ===== verification/Spec2Isabelle.thy ===== *)
theory Spec2Isabelle
  imports TouchCal HexText StringCodec Wpabuf ByteOps Bitfield Base64 EapolProps AesSpec AesAead WpaCtrl EloopPass WpaSmRun LegacyWpa CipherText BssRun Blacklist
begin

text \<open>
  A verification library for the C code of the printer's touch UI repository.

  \<^bold>\<open>The program.\<close> The UI binary is C++ over LVGL (\<^verbatim>\<open>src/src\<close>). Two bodies of C belong to it: the
  touch calibration library \<^verbatim>\<open>src/lv_touch_calibration\<close>, which sits between the touch driver and
  LVGL, and \<^verbatim>\<open>src/wpa_supplicant\<close>, whose supplicant the WiFi panel drives. This library models the
  calibration library completely and, of the supplicant, the layers everything else stands on:
  text and byte utilities, message buffers, the internal hash functions, HMAC and key derivation,
  RC4, AES with its modes, the event loop, the client of the control interface, the complete EAPOL
  state machines, and the RSN supplicant: security elements, key derivation, the PMKSA cache, the
  4-way and the group key handshake. A frame of type EAPOL-Key enters \<open>wpa_sm_rx_eapol\<close>; the PMK comes
  from the configuration, from the cache or from the EAPOL machines; the keys leave through the driver
  callbacks, and timers of both machines and of the cache are timers of the event loop. Before that, scan
  results fill the BSS table, from which a network is selected, and failures are counted in a blacklist.

  \<^bold>\<open>Theories.\<close>
  \<^item> \<^verbatim>\<open>Prelude\<close>: types, byte buffers written in place (\<open>patch\<close>), C strings, collections of rules.
  \<^item> \<^verbatim>\<open>TouchCal\<close> (\<^verbatim>\<open>lv_tc.c\<close>, \<^verbatim>\<open>lv_tc_screen.c\<close>): coefficients, transform, the calibration screen, its
    timers and the driver callback; reachable states as an inductive relation. Exactness of the
    calibration, the whole session, debouncing, an invariant of every reachable state, rotation.
  \<^item> \<^verbatim>\<open>HexText\<close>, \<^verbatim>\<open>StringCodec\<close>, \<^verbatim>\<open>ByteOps\<close> (\<^verbatim>\<open>utils/common.c\<close>): round trips of every printer with its
    parser, buffer bounds, counters and shifts as arithmetic on big-endian numbers.
  \<^item> \<^verbatim>\<open>Wpabuf\<close> (\<^verbatim>\<open>utils/wpabuf.c\<close>): refinement of an append-only buffer, given as a locale.
  \<^item> \<^verbatim>\<open>Bitfield\<close> (\<^verbatim>\<open>utils/bitfield.c\<close>, \<^verbatim>\<open>utils/crc32.c\<close>) and \<^verbatim>\<open>Base64\<close> (\<^verbatim>\<open>utils/base64.c\<close>).
  \<^item> \<^verbatim>\<open>HashStream\<close>: what a block-wise hash with a partial buffer promises, as the locales
    \<open>stream_hash\<close> and \<open>keyed_hash\<close>; \<^verbatim>\<open>Sha1\<close>, \<^verbatim>\<open>Sha256\<close>, \<^verbatim>\<open>Md5\<close> interpret it and are proved equal to
    the standards' definitions; \<^verbatim>\<open>Hmac\<close> (\<^verbatim>\<open>crypto/sha1.c\<close>, \<^verbatim>\<open>sha256.c\<close>, \<^verbatim>\<open>md5.c\<close>, \<^verbatim>\<open>sha1-pbkdf2.c\<close>,
    \<^verbatim>\<open>sha1-prf.c\<close>, \<^verbatim>\<open>sha256-prf.c\<close>) builds on the interpretations. \<^verbatim>\<open>Rc4\<close> is \<^verbatim>\<open>crypto/rc4.c\<close>.
  \<^item> \<^verbatim>\<open>AesTables\<close>, \<^verbatim>\<open>Aes\<close> (\<^verbatim>\<open>crypto/aes-internal.c\<close>, \<^verbatim>\<open>aes-internal-enc.c\<close>, \<^verbatim>\<open>aes-internal-dec.c\<close>): the block
    cipher by tables; \<^verbatim>\<open>AesProofs\<close> shows that decryption undoes encryption, \<^verbatim>\<open>AesSpec\<close> that it is the
    cipher of FIPS 197. \<^verbatim>\<open>AesModes\<close> (\<^verbatim>\<open>aes-wrap.c\<close>, \<^verbatim>\<open>aes-unwrap.c\<close>, \<^verbatim>\<open>aes-cbc.c\<close>, \<^verbatim>\<open>aes-ctr.c\<close>,
    \<^verbatim>\<open>aes-encblock.c\<close>, \<^verbatim>\<open>aes-omac1.c\<close>) are its modes; \<^verbatim>\<open>AesModeProofs\<close> proves them over the interface
    \<open>block_cipher\<close>, interpreted on AES. \<^verbatim>\<open>AesAead\<close> (\<^verbatim>\<open>aes-ccm.c\<close>, \<^verbatim>\<open>aes-gcm.c\<close>, \<^verbatim>\<open>aes-eax.c\<close>,
    \<^verbatim>\<open>aes-siv.c\<close>) is authenticated encryption over the interface \<open>stream_cipher\<close>: each decryption
    accepts exactly what its encryption produces. That forgeries are hard to find is a claim about
    AES and is not stated.
  \<^item> \<^verbatim>\<open>Eapol\<close> (\<^verbatim>\<open>eapol_supp/eapol_supp_sm.c\<close>): the PAE, key-receive and backend machines, frame
    reception and all notifications. \<^verbatim>\<open>EapolProofs\<close> has the invariant interface
    \<open>eapol_invariant\<close> with its interpretations for the port and for stored frames, \<^verbatim>\<open>EapolTimers\<close>
    the one for the tick, \<^verbatim>\<open>EapolProps\<close> the guarantees.
  \<^item> \<^verbatim>\<open>OsUtil\<close> (\<^verbatim>\<open>utils/os.h\<close>, \<^verbatim>\<open>utils/os_unix.c\<close>): relative time, bounded copies, paths.
  \<^item> \<^verbatim>\<open>WpaCtrl\<close> (\<^verbatim>\<open>common/wpa_ctrl.c\<close>): what an open and a close leave in the system, that a request ends
    and which datagram it returns.
  \<^item> \<^verbatim>\<open>Eloop\<close> (\<^verbatim>\<open>utils/eloop.c\<close>): socket tables, timers, signals and the calls handlers make; the timer
    queue is the interface \<open>timer_queue\<close>, and exact deadlines are proved on 32-bit times. \<^verbatim>\<open>EloopRun\<close> is
    \<^verbatim>\<open>eloop_run\<close>, with the interface \<open>run_invariant\<close> for properties that hold throughout a run;
    \<^verbatim>\<open>EloopPass\<close> shows what a single pass guarantees for readers, due timers and signals.
  \<^item> \<^verbatim>\<open>RsnIe\<close> (\<^verbatim>\<open>common/wpa_common.c\<close>, \<^verbatim>\<open>rsn_supp/wpa_ie.c\<close>): parsers and generators of the WPA and RSN
    elements; what a parser returns is well typed, and what a generator writes is parsed back.
    \<^verbatim>\<open>WpaKeys\<close>: PTK, MIC and PMKID; both ends derive the same PTK. \<^verbatim>\<open>RsnKde\<close>: the elements in key
    data, with pointers as offsets; all of them lie inside the buffer.
  \<^item> \<^verbatim>\<open>Pmksa\<close> (\<^verbatim>\<open>rsn_supp/pmksa_cache.c\<close>): the state \<open>wpa_sm\<close> and the cache in it; \<^verbatim>\<open>PmksaProofs\<close> has
    its invariant. \<^verbatim>\<open>WpaSm\<close> (\<^verbatim>\<open>rsn_supp/wpa.c\<close>): every operation of the supplicant. What it tells the
    driver and the EAPOL machine is a trace of \<open>sm_effect\<close>; the answers come from a \<open>wpa_env\<close>, which is
    arbitrary. \<^verbatim>\<open>WpaSmProofs\<close> splits the state into the parts the proofs speak about.
  \<^item> \<^verbatim>\<open>WpaSmRun\<close>: runs of the supplicant as sequences of operations, and the interface
    \<open>machine_invariant\<close> with its interpretations for installed keys and for the cache. \<^verbatim>\<open>WpaSmAuth\<close>: with RSN
    nothing is granted without a MIC. \<^verbatim>\<open>Handshake\<close>: an authenticator, and the whole handshake with it.
    \<^verbatim>\<open>LegacyWpa\<close>: what version 1 of WPA accepts without a MIC.
  \<^item> \<^verbatim>\<open>CipherText\<close>: cipher lists as text, names, status and MIB output, the listing of the cache.
  \<^item> \<^verbatim>\<open>Scan\<close> (\<^verbatim>\<open>wpa_supplicant/scan.c\<close>, \<^verbatim>\<open>common/ieee802_11_common.c\<close>): elements and scan results, their order.
    \<^verbatim>\<open>BssTable\<close> (\<^verbatim>\<open>wpa_supplicant/bss.c\<close>): the table with explicit addresses, so that a pointer to a freed or
    moved entry is visible; \<^verbatim>\<open>BssProofs\<close> has its invariant, \<^verbatim>\<open>BssRun\<close> rounds of results, expiry and
    runs. \<^verbatim>\<open>Blacklist\<close> (\<^verbatim>\<open>wpa_supplicant/blacklist.c\<close>): a list that implements a tally.

  \<^bold>\<open>Conventions.\<close> Bytes and words have their width. A C string is the list of its bytes without the
  terminator. An operation that allocates takes \<open>mem\<close>, which says what sizes can be served. A
  result \<open>None\<close> is the failure return of the C function, or, where the text of the definition says
  so, undefined behaviour. Memory the code reads before writing it is a parameter (\<open>stale\<close>,
  \<open>stack_garbage\<close>). Floating point of the calibration is exact rational arithmetic with division by
  zero as a non-finite value. Loops are recursive functions with a termination proof; the only
  fuel is the limit of 100 rounds that \<^verbatim>\<open>eapol_sm_step\<close> itself has. The EAP peer of the EAPOL model is
  a parameter: any function that answers with any sequence of callbacks. So are the handlers of the
  event loop. Results of system calls are inputs; a list of them that is used up means that the
  code is still waiting.

  \<^bold>\<open>Not modelled.\<close> EAP methods, pre-authentication (\<^verbatim>\<open>rsn_supp/preauth.c\<close>), FT and TDLS; the protocols that
  the build leaves out (SAE, FILS, OWE, DPP, WNM, OCV, Suite B); requesting scans, drivers, D-Bus, access point and P2P
  roles, TLS and external crypto back ends; the C++ screens, which are calls into LVGL, libhv and spdlog,
  none of them in the tree; generated images and fonts; deallocation and debug output.
\<close>

end
